(* ===== verification/Prelude.thy ===== *)
theory Prelude
  imports Main "HOL-Library.Word" "HOL-Library.List_Lexorder"
begin

text \<open>
  What the components share: the names of the XDR and C++ scalar types, the loops that count a
  threshold down and return early, ordered containers as the code uses them
  (\<^verbatim>\<open>std::map\<close> as an association list sorted by key, \<^verbatim>\<open>std::set\<close> as a strictly sorted
  list), and the collections of facts the component proofs use.
\<close>

section \<open>Scalar types\<close>

type_synonym uint32 = "32 word"
type_synonym uint64 = "64 word"
type_synonym uint128 = "128 word"

text \<open>
  A \<^verbatim>\<open>NodeID\<close> is a 32-byte Ed25519 key and a \<^verbatim>\<open>Hash\<close> is 32 opaque bytes; both are compared
  byte by byte, which is the order of the big-endian numbers they spell. A \<^verbatim>\<open>Value\<close> is
  a variable-length opaque, ordered lexicographically (\<^verbatim>\<open>std::vector::operator<\<close>).
\<close>

type_synonym NodeID = nat
type_synonym Hash = nat
type_synonym Value = "8 word list"

named_theorems scp_simps \<open>equations that unfold the consensus helpers\<close>
named_theorems mono_intros \<open>monotonicity of set-indexed predicates\<close>

section \<open>Results that may be errors\<close>

text \<open>
  A computation that may raise is a value of \<open>'e + 'a\<close>, \<open>Inl\<close> being the exception; sequencing
  stops at the first one.
\<close>

definition bindE :: "'e + 'a \<Rightarrow> ('a \<Rightarrow> 'e + 'b) \<Rightarrow> 'e + 'b" where
  "bindE m f = (case m of Inl e \<Rightarrow> Inl e | Inr x \<Rightarrow> f x)"

lemma bindE_simps [simp]: "bindE (Inl e) f = Inl e" "bindE (Inr x) f = f x"
  by (simp_all add: bindE_def)

lemma bindE_Inr_iff: "bindE m f = Inr y \<longleftrightarrow> (\<exists>x. m = Inr x \<and> f x = Inr y)"
  by (cases m) auto

lemma bindE_Inl_iff: "bindE m f = Inl e \<longleftrightarrow> m = Inl e \<or> (\<exists>x. m = Inr x \<and> f x = Inl e)"
  by (cases m) auto

section \<open>Loops that count down and return early\<close>

text \<open>
  The loop \<^verbatim>\<open>for (x : xs) if (p(x)) { left--; if (left <= 0) return true; }\<close> over an unsigned
  counter. \<open>None\<close> is the early return, \<open>Some left\<close> falls out of the loop. The decrement
  wraps around at zero, as \<^verbatim>\<open>uint32\<close> does.
\<close>

fun countdown :: "('a \<Rightarrow> bool) \<Rightarrow> 'a list \<Rightarrow> uint32 \<Rightarrow> uint32 option" where
  "countdown p [] left = Some left"
| "countdown p (x # xs) left =
     (if p x then (let left' = left - 1 in if left' \<le> 0 then None else countdown p xs left')
      else countdown p xs left)"

text \<open>The same loop over a signed counter.\<close>

fun countdown_int :: "('a \<Rightarrow> bool) \<Rightarrow> 'a list \<Rightarrow> int \<Rightarrow> int option" where
  "countdown_int p [] left = Some left"
| "countdown_int p (x # xs) left =
     (if p x then (let left' = left - 1 in if left' \<le> 0 then None else countdown_int p xs left')
      else countdown_int p xs left)"

lemma countdown_cong [fundef_cong]:
  assumes "xs = ys" "left = left'" "\<And>x. x \<in> set ys \<Longrightarrow> p x = q x"
  shows "countdown p xs left = countdown q ys left'"
  using assms by (induction xs arbitrary: ys left left') (auto simp: Let_def)

lemma countdown_int_cong [fundef_cong]:
  assumes "xs = ys" "left = left'" "\<And>x. x \<in> set ys \<Longrightarrow> p x = q x"
  shows "countdown_int p xs left = countdown_int q ys left'"
  using assms by (induction xs arbitrary: ys left left') (auto simp: Let_def)

text \<open>How many hits end the loop: the counter, or a full wrap-around when it starts at zero.\<close>

definition need :: "uint32 \<Rightarrow> nat" where
  "need t = (if t = 0 then 2 ^ 32 else unat t)"

lemma need_pos: "0 < need t"
  by (auto simp: need_def unat_gt_0)

lemma need_pos_threshold: "1 \<le> t \<Longrightarrow> need t = unat t"
  by (auto simp: need_def)

lemma need_step:
  "(t - 1 \<le> 0) = (need t = 1)" "t - 1 \<noteq> 0 \<Longrightarrow> need (t - 1) = need t - 1"
proof -
  have z: "unat (t - 1) = unat t - 1" if "t \<noteq> 0"
    using that by (rule unat_minus_one)
  have m: "unat (- 1 :: uint32) = 2 ^ 32 - 1"
    by (simp add: unsigned_minus_1_eq_mask mask_eq_exp_minus_1)
  show "(t - 1 \<le> 0) = (need t = 1)"
    by (auto simp: need_def) (metis One_nat_def unat_1 word_unat_eq_iff)
  show "need (t - 1) = need t - 1" if "t - 1 \<noteq> 0"
  proof (cases "t = 0")
    case True
    then show ?thesis using m by (simp add: need_def)
  next
    case False
    then show ?thesis using that z by (simp add: need_def)
  qed
qed

lemma countdown_None_iff: "countdown p xs t = None \<longleftrightarrow> need t \<le> length (filter p xs)"
proof (induction xs arbitrary: t)
  case Nil
  then show ?case using need_pos [of t] by simp
next
  case (Cons x xs)
  show ?case
  proof (cases "p x")
    case True
    show ?thesis
    proof (cases "t - 1 \<le> 0")
      case le: True
      with need_step(1) [of t] have "need t = 1" by blast
      with le True show ?thesis by (simp add: Let_def)
    next
      case False
      then have ne: "t - 1 \<noteq> 0" by auto
      from False ne have "countdown p (x # xs) t = countdown p xs (t - 1)"
        using True by (simp add: Let_def)
      then show ?thesis
        using True Cons.IH [of "t - 1"] need_step(2) [OF ne] need_pos [of t]
        by (simp, linarith)
    qed
  next
    case False
    then show ?thesis using Cons.IH by simp
  qed
qed

lemma countdown_Some:
  "countdown p xs t = Some t' \<Longrightarrow> need t' = need t - length (filter p xs)"
proof (induction xs arbitrary: t)
  case (Cons x xs)
  show ?case
  proof (cases "p x")
    case True
    with Cons.prems have n: "\<not> t - 1 \<le> 0" and c: "countdown p xs (t - 1) = Some t'"
      by (auto simp: Let_def split: if_splits)
    from n have ne: "t - 1 \<noteq> 0" by auto
    from Cons.IH [OF c] need_step(2) [OF ne] True show ?thesis by simp
  next
    case False
    then show ?thesis using Cons by simp
  qed
qed simp

lemma countdown_int_None_iff:
  "countdown_int p xs t = None \<longleftrightarrow> max 1 t \<le> int (length (filter p xs))"
  by (induction xs arbitrary: t) (auto simp: Let_def max_def split: if_splits)

lemma countdown_int_Some:
  "countdown_int p xs t = Some t' \<Longrightarrow> t' = t - int (length (filter p xs))"
proof (induction xs arbitrary: t)
  case (Cons x xs)
  from Cons.prems Cons.IH [of t] Cons.IH [of "t - 1"] show ?case
    by (auto simp: Let_def split: if_splits)
qed simp

text \<open>
  Two loops that share one counter, the second entered only when the first did not return: the
  shape of every quorum-slice test.
\<close>

lemma countdown_two:
  "(case countdown p xs t of None \<Rightarrow> True
      | Some t' \<Rightarrow> (case countdown q ys t' of None \<Rightarrow> True | Some _ \<Rightarrow> False))
   \<longleftrightarrow> need t \<le> length (filter p xs) + length (filter q ys)"
proof (cases "countdown p xs t")
  case None
  then show ?thesis using countdown_None_iff [of p xs t] by simp
next
  case (Some t')
  with countdown_Some [of p xs t t'] countdown_None_iff [of p xs t]
  have eq: "need t' = need t - length (filter p xs)" and lt: "length (filter p xs) < need t"
    by auto
  have "(case countdown q ys t' of None \<Rightarrow> True | Some _ \<Rightarrow> False)
        \<longleftrightarrow> need t' \<le> length (filter q ys)"
    using countdown_None_iff [of q ys t'] by (cases "countdown q ys t'") auto
  with Some eq lt show ?thesis by auto
qed

lemma countdown_int_two:
  assumes "1 \<le> t"
  shows "(case countdown_int p xs t of None \<Rightarrow> True
      | Some t' \<Rightarrow> (case countdown_int q ys t' of None \<Rightarrow> True | Some _ \<Rightarrow> False))
   \<longleftrightarrow> t \<le> int (length (filter p xs)) + int (length (filter q ys))"
proof (cases "countdown_int p xs t")
  case None
  then show ?thesis using countdown_int_None_iff [of p xs t] assms by simp
next
  case (Some t')
  with countdown_int_Some [of p xs t t'] countdown_int_None_iff [of p xs t] assms
  have eq: "t' = t - int (length (filter p xs))" and lt: "1 \<le> t'"
    by auto
  have "(case countdown_int q ys t' of None \<Rightarrow> True | Some _ \<Rightarrow> False)
        \<longleftrightarrow> t' \<le> int (length (filter q ys))"
    using countdown_int_None_iff [of q ys t'] lt by (cases "countdown_int q ys t'") auto
  with Some eq show ?thesis by auto
qed

end
