(* ===== verification/Numeric.thy ===== *)
theory Numeric
  imports Prelude
begin

text \<open>
  \<^verbatim>\<open>util/numeric.cpp\<close>: multiplication and division through a 128-bit intermediate. The
  \<^verbatim>\<open>uint128_t\<close> values are \<open>128 word\<close>s, so every sum and product of the code wraps as it does
  there; the lemmas show that no wrap-around happens and that the results are the exact rounded
  quotients. \<^verbatim>\<open>int64_t\<close> values are \<open>int\<close>s and the conversions to and from the unsigned
  types are written out.
\<close>

section \<open>Definitions\<close>

datatype Rounding = ROUND_DOWN | ROUND_UP

datatype numeric_error = OverflowError | AssertionFailure

definition INT64_MAX :: int where
  "INT64_MAX = 2 ^ 63 - 1"

definition UINT64_MAX :: uint64 where
  "UINT64_MAX = - 1"

text \<open>
  \<^verbatim>\<open>bool bigDivide(uint64_t& result, uint64_t A, uint64_t B, uint64_t C, Rounding)\<close>: the pair of the
  returned flag and the assigned result.
\<close>

definition bigDivide_u64 :: "uint64 \<Rightarrow> uint64 \<Rightarrow> uint64 \<Rightarrow> Rounding \<Rightarrow> bool \<times> uint64" where
  "bigDivide_u64 A B C rounding =
     (let a = (ucast A :: uint128); b = (ucast B :: uint128); c = (ucast C :: uint128);
          x = (if rounding = ROUND_DOWN then (a * b) div c else (a * b + c - 1) div c)
      in (x \<le> ucast UINT64_MAX, ucast x))"

text \<open>\<^verbatim>\<open>bool bigDivide(int64_t& result, int64_t A, int64_t B, int64_t C, Rounding)\<close>.\<close>

definition bigDivide_i64 :: "int \<Rightarrow> int \<Rightarrow> int \<Rightarrow> Rounding \<Rightarrow> numeric_error + int option" where
  "bigDivide_i64 A B C rounding =
     (if \<not> (0 \<le> A \<and> 0 \<le> B \<and> 0 < C) then Inl AssertionFailure
      else let (res, r2) = bigDivide_u64 (word_of_int A) (word_of_int B) (word_of_int C) rounding
           in Inr (if res \<and> uint r2 \<le> INT64_MAX then Some (uint r2) else None))"

text \<open>The throwing flavour.\<close>

definition bigDivide_throw :: "int \<Rightarrow> int \<Rightarrow> int \<Rightarrow> Rounding \<Rightarrow> numeric_error + int" where
  "bigDivide_throw A B C rounding =
     (case bigDivide_i64 A B C rounding of
        Inl e \<Rightarrow> Inl e
      | Inr None \<Rightarrow> Inl OverflowError
      | Inr (Some res) \<Rightarrow> Inr res)"

text \<open>
  \<^verbatim>\<open>bool bigDivide(uint64_t& result, uint128_t a, uint64_t B, Rounding)\<close>, with its guard against the
  overflow of \<open>a + b - 1\<close>.
\<close>

definition bigDivide128_u64 :: "uint128 \<Rightarrow> uint64 \<Rightarrow> Rounding \<Rightarrow> numeric_error + uint64 option" where
  "bigDivide128_u64 a B rounding =
     (if B = 0 then Inl AssertionFailure
      else let b = (ucast B :: uint128); UINT128_MAX = - 1
           in if rounding = ROUND_UP \<and> a > UINT128_MAX - (b - 1) then Inr None
              else let x = (if rounding = ROUND_DOWN then a div b else (a + b - 1) div b)
                   in Inr (if x \<le> ucast UINT64_MAX then Some (ucast x) else None))"

definition bigDivide128_i64 :: "uint128 \<Rightarrow> int \<Rightarrow> Rounding \<Rightarrow> numeric_error + int option" where
  "bigDivide128_i64 a B rounding =
     (if \<not> 0 < B then Inl AssertionFailure
      else case bigDivide128_u64 a (word_of_int B) rounding of
             Inl e \<Rightarrow> Inl e
           | Inr None \<Rightarrow> Inr None
           | Inr (Some r2) \<Rightarrow> Inr (if uint r2 \<le> INT64_MAX then Some (uint r2) else None))"

definition bigDivide128_throw :: "uint128 \<Rightarrow> int \<Rightarrow> Rounding \<Rightarrow> numeric_error + int" where
  "bigDivide128_throw a B rounding =
     (case bigDivide128_i64 a B rounding of
        Inl e \<Rightarrow> Inl e
      | Inr None \<Rightarrow> Inl OverflowError
      | Inr (Some res) \<Rightarrow> Inr res)"

definition bigMultiply_u64 :: "uint64 \<Rightarrow> uint64 \<Rightarrow> uint128" where
  "bigMultiply_u64 a b = ucast a * ucast b"

definition bigMultiply_i64 :: "int \<Rightarrow> int \<Rightarrow> numeric_error + uint128" where
  "bigMultiply_i64 a b =
     (if \<not> (0 \<le> a \<and> 0 \<le> b) then Inl AssertionFailure
      else Inr (bigMultiply_u64 (word_of_int a) (word_of_int b)))"

section \<open>The exact quotients\<close>

definition div_rounded :: "int \<Rightarrow> int \<Rightarrow> Rounding \<Rightarrow> int" where
  "div_rounded n d r = (if r = ROUND_DOWN then n div d else (n + d - 1) div d)"

text \<open>Rounding down and up bracket the real quotient.\<close>

lemma div_rounded_down_bounds:
  assumes "0 < d"
  shows "div_rounded n d ROUND_DOWN * d \<le> n"
    and "n < (div_rounded n d ROUND_DOWN + 1) * d"
proof -
  have e: "n = n div d * d + n mod d" by simp
  have m: "0 \<le> n mod d" "n mod d < d" using assms by auto
  have q: "div_rounded n d ROUND_DOWN = n div d" by (simp add: div_rounded_def)
  show "div_rounded n d ROUND_DOWN * d \<le> n" unfolding q using e m(1) by linarith
  show "n < (div_rounded n d ROUND_DOWN + 1) * d"
    unfolding q distrib_right using e m(2) by linarith
qed

lemma div_rounded_up_bounds:
  assumes "0 < d"
  shows "n \<le> div_rounded n d ROUND_UP * d"
    and "(div_rounded n d ROUND_UP - 1) * d < n"
proof -
  have e: "n + d - 1 = (n + d - 1) div d * d + (n + d - 1) mod d" by simp
  have m: "0 \<le> (n + d - 1) mod d" "(n + d - 1) mod d < d" using assms by auto
  have q: "div_rounded n d ROUND_UP = (n + d - 1) div d" by (simp add: div_rounded_def)
  show "n \<le> div_rounded n d ROUND_UP * d" unfolding q using e m(2) by linarith
  show "(div_rounded n d ROUND_UP - 1) * d < n"
    unfolding q left_diff_distrib using e m(1) by linarith
qed

lemma div_rounded_nonneg: "0 \<le> n \<Longrightarrow> 0 < d \<Longrightarrow> 0 \<le> div_rounded n d r"
  by (auto simp: div_rounded_def pos_imp_zdiv_nonneg_iff)

lemma div_rounded_ROUND_UP_least: "0 < d \<Longrightarrow> n \<le> k * d \<Longrightarrow> div_rounded n d ROUND_UP \<le> k"
  using div_rounded_up_bounds(2) [of d n]
  by (metis linorder_not_less mult_less_cancel_right_pos order_less_le_trans zle_diff1_eq)

lemma div_rounded_ROUND_DOWN_greatest: "0 < d \<Longrightarrow> k * d \<le> n \<Longrightarrow> k \<le> div_rounded n d ROUND_DOWN"
  using div_rounded_down_bounds(2) [of d n]
  by (metis mult_less_cancel_right_pos order_le_less_trans zle_add1_eq_le)

lemma div_rounded_mono: "0 < d \<Longrightarrow> m \<le> n \<Longrightarrow> div_rounded m d r \<le> div_rounded n d r"
  by (auto simp: div_rounded_def intro: zdiv_mono1)

section \<open>No wrap-around in the 128-bit arithmetic\<close>

lemma uint_ucast_64_128: "uint (ucast (A :: uint64) :: uint128) = uint A"
proof -
  have "uint A < 2 ^ 128" using uint_lt2p [of A] by simp
  then show ?thesis by (simp add: unsigned_ucast_eq take_bit_eq_mod)
qed

lemma uint64_bound: "0 \<le> uint (A :: uint64)" "uint (A :: uint64) \<le> 2 ^ 64 - 1"
  using uint_lt2p [of A] by auto

lemma uint64_product_bound: "uint (A :: uint64) * uint (B :: uint64) \<le> (2 ^ 64 - 1) * (2 ^ 64 - 1)"
  using uint64_bound [of A] uint64_bound [of B] by (intro mult_mono) auto

lemma uint_mult_64_128:
  "uint (ucast (A :: uint64) * ucast (B :: uint64) :: uint128) = uint A * uint B"
proof -
  have "0 \<le> uint A * uint B" using uint64_bound [of A] uint64_bound [of B] by simp
  moreover have "uint A * uint B < 2 ^ 128"
    using uint64_product_bound [of A B] by simp
  ultimately show ?thesis
    by (simp add: uint_word_ariths uint_ucast_64_128)
qed

lemma uint_UINT64_MAX: "uint (ucast UINT64_MAX :: uint128) = 2 ^ 64 - 1"
  by (simp add: UINT64_MAX_def uint_ucast_64_128 unsigned_minus_1_eq_mask mask_eq_exp_minus_1)

lemma ucast_128_64:
  assumes "uint (x :: uint128) \<le> 2 ^ 64 - 1"
  shows "uint (ucast x :: uint64) = uint x"
proof -
  have "uint x < 2 ^ 64" using assms by simp
  then show ?thesis
    by (simp add: unsigned_ucast_eq take_bit_eq_mod)
qed

text \<open>The quotient the code computes is the exact one, before it is narrowed to 64 bits.\<close>

lemma bigDivide_quotient:
  fixes A B C :: uint64
  assumes "C \<noteq> 0"
  shows "uint (if r = ROUND_DOWN then (ucast A * ucast B) div ucast C
               else (ucast A * ucast B + ucast C - 1) div ucast C :: uint128)
         = div_rounded (uint A * uint B) (uint C) r"
proof -
  have c: "1 \<le> uint C" using assms by (metis add_0 linorder_not_less not_one_le_zero
      uint_ge_0 uint_0_iff zle_iff_zadd zless_imp_add1_zle order_le_less)
  have p: "0 \<le> uint A * uint B" using uint64_bound [of A] uint64_bound [of B] by simp
  have b: "uint A * uint B + uint C - 1 < 2 ^ 128"
    using uint64_product_bound [of A B] uint64_bound [of C] by simp
  have s: "uint (ucast A * ucast B + ucast C - 1 :: uint128) = uint A * uint B + uint C - 1"
  proof -
    have "uint (ucast A * ucast B + ucast C :: uint128) = uint A * uint B + uint C"
      using p c b uint64_product_bound [of A B] uint64_bound [of C]
      by (simp add: uint_add_lem [THEN iffD1] uint_mult_64_128 uint_ucast_64_128)
    moreover have "1 \<le> uint A * uint B + uint C" using p c by linarith
    ultimately show ?thesis
      using uint_sub_lem [of 1 "ucast A * ucast B + ucast C :: uint128"] by simp
  qed
  show ?thesis
    using s by (simp add: div_rounded_def uint_div uint_mult_64_128 uint_ucast_64_128)
qed

lemma bigDivide_u64_exact:
  assumes "C \<noteq> 0"
  shows "bigDivide_u64 A B C r =
    (let q = div_rounded (uint A * uint B) (uint C) r in (q \<le> 2 ^ 64 - 1, word_of_int q))"
proof -
  let ?x = "if r = ROUND_DOWN then (ucast A * ucast B) div ucast C
               else (ucast A * ucast B + ucast C - 1) div ucast C :: uint128"
  have x: "uint ?x = div_rounded (uint A * uint B) (uint C) r"
    by (rule bigDivide_quotient [OF assms])
  have le: "(?x \<le> ucast UINT64_MAX) = (uint ?x \<le> 2 ^ 64 - 1)"
    by (simp only: word_le_def uint_UINT64_MAX)
  have cast: "(ucast ?x :: uint64) = word_of_int (uint ?x)"
    by simp
  show ?thesis
    unfolding bigDivide_u64_def Let_def by (simp only: le cast x)
qed

lemma uint_word_of_int_64: "0 \<le> n \<Longrightarrow> n < 2 ^ 64 \<Longrightarrow> uint (word_of_int n :: uint64) = n"
  by (simp add: uint_word_of_int)

lemma word_of_int_64_nonzero: "0 < n \<Longrightarrow> n < 2 ^ 64 \<Longrightarrow> (word_of_int n :: uint64) \<noteq> 0"
  by (metis less_irrefl order_less_imp_le unsigned_0 uint_word_of_int_64)

lemma bigDivide_i64_exact:
  assumes "0 \<le> A" "A \<le> INT64_MAX" "0 \<le> B" "B \<le> INT64_MAX" "0 < C" "C \<le> INT64_MAX"
  shows "bigDivide_i64 A B C r =
    Inr (let q = div_rounded (A * B) C r in if q \<le> INT64_MAX then Some q else None)"
proof -
  let ?q = "div_rounded (A * B) C r"
  from assms have u: "uint (word_of_int A :: uint64) = A" "uint (word_of_int B :: uint64) = B"
    "uint (word_of_int C :: uint64) = C" and nz: "(word_of_int C :: uint64) \<noteq> 0"
    by (auto simp: INT64_MAX_def uint_word_of_int_64 word_of_int_64_nonzero)
  have q: "0 \<le> ?q" using assms by (simp add: div_rounded_nonneg)
  have "bigDivide_u64 (word_of_int A) (word_of_int B) (word_of_int C) r =
      (?q \<le> 2 ^ 64 - 1, word_of_int ?q)"
    using bigDivide_u64_exact [OF nz] by (simp only: u Let_def)
  moreover have "uint (word_of_int ?q :: uint64) = ?q" if "?q \<le> 2 ^ 64 - 1"
    using q that by (simp add: uint_word_of_int_64)
  moreover have "?q \<le> 2 ^ 64 - 1" if "?q \<le> INT64_MAX"
    using that by (simp add: INT64_MAX_def)
  ultimately show ?thesis
    using assms by (auto simp: bigDivide_i64_def Let_def)
qed

lemma bigMultiply_u64_exact: "uint (bigMultiply_u64 a b) = uint a * uint b"
  by (simp add: bigMultiply_u64_def uint_mult_64_128)

lemma bigDivide128_round_up_sum:
  fixes a b :: uint128
  assumes "1 \<le> uint b"
  shows "(a > - 1 - (b - 1)) = (2 ^ 128 \<le> uint a + uint b - 1)"
    and "uint a + uint b - 1 < 2 ^ 128 \<Longrightarrow> uint (a + b - 1) = uint a + uint b - 1"
proof -
  have m: "uint (- 1 :: uint128) = 2 ^ 128 - 1"
    by (simp add: unsigned_minus_1_eq_mask mask_eq_exp_minus_1)
  have b1: "uint (b - 1) = uint b - 1"
    using assms uint_sub_lem [of 1 b] by simp
  have bb: "uint b - 1 < 2 ^ 128 - 1" using uint_lt2p [of b] by simp
  have "uint (- 1 - (b - 1)) = 2 ^ 128 - 1 - (uint b - 1)"
    using uint_sub_lem [of "b - 1" "- 1"] b1 bb m by simp
  then show "(a > - 1 - (b - 1)) = (2 ^ 128 \<le> uint a + uint b - 1)"
    by (auto simp: word_less_def)
  assume lt: "uint a + uint b - 1 < 2 ^ 128"
  have "uint (a + (b - 1)) = uint a + (uint b - 1)"
    using uint_add_lem [of a "b - 1"] b1 lt by simp
  then show "uint (a + b - 1) = uint a + uint b - 1" by (simp only: add_diff_eq)
qed

text \<open>The overflow guard of the 128-bit flavour only rejects quotients that do not fit anyway.\<close>

lemma bigDivide128_u64_exact:
  assumes "B \<noteq> 0"
  shows "bigDivide128_u64 a B r =
    Inr (let q = div_rounded (uint a) (uint B) r
         in if q \<le> 2 ^ 64 - 1 then Some (word_of_int q) else None)"
proof -
  let ?b = "ucast B :: uint128" and ?q = "div_rounded (uint a) (uint B) r"
  have B: "uint ?b = uint B" by (rule uint_ucast_64_128)
  have "uint B \<noteq> 0" using assms by (simp add: uint_0_iff)
  then have B1: "1 \<le> uint ?b" using uint64_bound(1) [of B] B by linarith
  have le: "(x \<le> ucast UINT64_MAX) = (uint x \<le> 2 ^ 64 - 1)" for x :: uint128
    by (simp only: word_le_def uint_UINT64_MAX)
  show ?thesis
  proof (cases "r = ROUND_UP \<and> a > - 1 - (?b - 1)")
    case True
    then have big: "2 ^ 128 \<le> uint a + uint B - 1"
      using bigDivide128_round_up_sum(1) [OF B1] B by simp
    have "uint a \<le> ?q * uint B" using True B1 B by (simp add: div_rounded_up_bounds)
    have "\<not> ?q \<le> 2 ^ 64 - 1"
    proof
      assume "?q \<le> 2 ^ 64 - 1"
      then have "?q * uint B \<le> (2 ^ 64 - 1) * (2 ^ 64 - 1)"
        using uint64_bound [of B] by (intro mult_mono) auto
      with \<open>uint a \<le> ?q * uint B\<close> big uint64_bound [of B] show False by simp
    qed
    with True assms show ?thesis by (simp add: bigDivide128_u64_def Let_def)
  next
    case False
    let ?x = "if r = ROUND_DOWN then a div ?b else (a + ?b - 1) div ?b"
    have "uint (a + ?b - 1) = uint a + uint B - 1" if "r \<noteq> ROUND_DOWN"
      using False that bigDivide128_round_up_sum [OF B1] B by (cases r) auto
    then have x: "uint ?x = ?q"
      by (auto simp: div_rounded_def uint_div B)
    have cast: "(ucast ?x :: uint64) = word_of_int (uint ?x)" by simp
    have "bigDivide128_u64 a B r =
        Inr (if ?x \<le> ucast UINT64_MAX then Some (ucast ?x) else None)"
      using False assms by (simp add: bigDivide128_u64_def Let_def)
    then show ?thesis by (simp only: le cast x Let_def)
  qed
qed

lemma bigDivide128_i64_exact:
  assumes "0 < B" "B \<le> INT64_MAX"
  shows "bigDivide128_i64 a B r =
    Inr (let q = div_rounded (uint a) B r in if q \<le> INT64_MAX then Some q else None)"
proof -
  let ?q = "div_rounded (uint a) B r"
  have u: "uint (word_of_int B :: uint64) = B" and nz: "(word_of_int B :: uint64) \<noteq> 0"
    using assms by (auto simp: INT64_MAX_def uint_word_of_int_64 word_of_int_64_nonzero)
  have q: "0 \<le> ?q" using assms by (simp add: div_rounded_nonneg)
  have "bigDivide128_u64 a (word_of_int B) r =
      Inr (if ?q \<le> 2 ^ 64 - 1 then Some (word_of_int ?q) else None)"
    using bigDivide128_u64_exact [OF nz] by (simp only: u Let_def)
  moreover have "uint (word_of_int ?q :: uint64) = ?q" if "?q \<le> 2 ^ 64 - 1"
    using q that by (simp add: uint_word_of_int_64)
  moreover have "?q \<le> 2 ^ 64 - 1" if "?q \<le> INT64_MAX"
    using that by (simp add: INT64_MAX_def)
  ultimately show ?thesis
    using assms by (auto simp: bigDivide128_i64_def Let_def)
qed

end
