(* ===== verification/QuorumSets.thy ===== *)
theory QuorumSets
  imports Numeric
begin

text \<open>
  Quorum sets: \<^verbatim>\<open>scp/QuorumSetUtils.cpp\<close> (the sanity check and the normal form) and the part of
  \<^verbatim>\<open>scp/LocalNode.cpp\<close> that decides slices, v-blocking sets and quorums and computes node weights.
  \<open>slice_by\<close> and \<open>vblock_by\<close> are the declarative meanings the loops are proved to compute.
\<close>

section \<open>Data\<close>

datatype SCPQuorumSet =
  SCPQuorumSet (threshold: uint32) (validators: "NodeID list") (innerSets: "SCPQuorumSet list")

definition MAXIMUM_QUORUM_NESTING_LEVEL :: nat where
  "MAXIMUM_QUORUM_NESTING_LEVEL = 4"

section \<open>Sanity check\<close>

text \<open>
  The members \<^verbatim>\<open>mKnownNodes\<close> and \<^verbatim>\<open>mCount\<close> of \<^verbatim>\<open>QuorumSetSanityChecker\<close> are threaded as a pair;
  \<open>Inl\<close> carries the \<^verbatim>\<open>errString\<close> of the check that failed.
\<close>

fun insertNodes :: "NodeID list \<Rightarrow> NodeID set \<Rightarrow> NodeID set option" where
  "insertNodes [] known = Some known"
| "insertNodes (n # ns) known = (if n \<in> known then None else insertNodes ns (insert n known))"

fun checkSanity ::
    "bool \<Rightarrow> SCPQuorumSet \<Rightarrow> nat \<Rightarrow> NodeID set \<times> nat \<Rightarrow> string + (NodeID set \<times> nat)"
  and checkSanityAll ::
    "bool \<Rightarrow> SCPQuorumSet list \<Rightarrow> nat \<Rightarrow> NodeID set \<times> nat \<Rightarrow> string + (NodeID set \<times> nat)" where
  "checkSanity extraChecks (SCPQuorumSet t v i) depth (known, count) =
     (if depth > MAXIMUM_QUORUM_NESTING_LEVEL then Inl ''Maximum quorum nesting level exceeded''
      else if t < 1 then Inl ''Threshold must be greater than 0''
      else let totEntries = length v + length i;
               vBlockingSize = totEntries - unat t + 1;
               count' = count + length v
           in if unat t > totEntries then Inl ''Threshold exceeds total number of entries''
              else if extraChecks \<and> unat t < vBlockingSize
                   then Inl ''Threshold is lower than the v-blocking size (< 51%).''
              else case insertNodes v known of
                     None \<Rightarrow> Inl ''Duplicate node found in quorum configuration''
                   | Some known' \<Rightarrow> checkSanityAll extraChecks i (depth + 1) (known', count'))"
| "checkSanityAll extraChecks [] depth s = Inr s"
| "checkSanityAll extraChecks (q # qs) depth s =
     (case checkSanity extraChecks q depth s of
        Inl e \<Rightarrow> Inl e
      | Inr s' \<Rightarrow> checkSanityAll extraChecks qs depth s')"

definition isQuorumSetSane :: "SCPQuorumSet \<Rightarrow> bool \<Rightarrow> bool \<times> string option" where
  "isQuorumSetSane qSet extraChecks =
     (case checkSanity extraChecks qSet 0 ({}, 0) of
        Inl e \<Rightarrow> (False, Some e)
      | Inr (known, count) \<Rightarrow>
          if count < 1 \<or> count > 1000
          then (False, Some ''Total number of nodes in a quorum must be within 1 and 1000'')
          else (True, None))"

section \<open>Normal form\<close>

definition isSingleton :: "SCPQuorumSet \<Rightarrow> bool" where
  "isSingleton q \<longleftrightarrow> threshold q = 1 \<and> length (validators q) = 1 \<and> length (innerSets q) = 0"

text \<open>The loop over the (already simplified) inner sets that moves singletons to the validators.\<close>

fun mergeSingletons :: "NodeID list \<Rightarrow> SCPQuorumSet list \<Rightarrow> NodeID list \<times> SCPQuorumSet list" where
  "mergeSingletons v [] = (v, [])"
| "mergeSingletons v (q # qs) =
     (if isSingleton q then mergeSingletons (v @ [hd (validators q)]) qs
      else (case mergeSingletons v qs of (v', qs') \<Rightarrow> (v', q # qs')))"

fun normalizeQSetSimplify :: "SCPQuorumSet \<Rightarrow> NodeID option \<Rightarrow> SCPQuorumSet" where
  "normalizeQSetSimplify (SCPQuorumSet t v i) idToRemove =
     (let (t1, v1) = (case idToRemove of
                        None \<Rightarrow> (t, v)
                      | Some n \<Rightarrow> (t - of_nat (length (filter (\<lambda>x. x = n) v)), filter (\<lambda>x. x \<noteq> n) v));
          (v2, i2) = mergeSingletons v1 (map (\<lambda>q. normalizeQSetSimplify q idToRemove) i)
      in if t1 = 1 \<and> length v2 = 0 \<and> length i2 = 1 then last i2 else SCPQuorumSet t1 v2 i2)"

fun intLexicographicalCompare :: "('a \<Rightarrow> 'a \<Rightarrow> int) \<Rightarrow> 'a list \<Rightarrow> 'a list \<Rightarrow> int" where
  "intLexicographicalCompare cmp (x # xs) (y # ys) =
     (let c = cmp x y in if c \<noteq> 0 then c else intLexicographicalCompare cmp xs ys)"
| "intLexicographicalCompare cmp [] (y # ys) = - 1"
| "intLexicographicalCompare cmp (x # xs) [] = 1"
| "intLexicographicalCompare cmp [] [] = 0"

lemma intLexicographicalCompare_cong [fundef_cong]:
  assumes "xs = xs'" "ys = ys'" "\<And>x y. x \<in> set xs' \<Longrightarrow> y \<in> set ys' \<Longrightarrow> f x y = g x y"
  shows "intLexicographicalCompare f xs ys = intLexicographicalCompare g xs' ys'"
proof -
  have "(\<And>x y. x \<in> set xs' \<Longrightarrow> y \<in> set ys' \<Longrightarrow> f x y = g x y) \<Longrightarrow>
      intLexicographicalCompare f xs' ys' = intLexicographicalCompare g xs' ys'"
    by (induction f xs' ys' rule: intLexicographicalCompare.induct) (auto simp: Let_def)
  with assms show ?thesis by simp
qed

definition comparePublicKeys :: "NodeID \<Rightarrow> NodeID \<Rightarrow> int" where
  "comparePublicKeys l r = (if l < r then - 1 else if r < l then 1 else 0)"

fun qSetCompareInt :: "SCPQuorumSet \<Rightarrow> SCPQuorumSet \<Rightarrow> int" where
  "qSetCompareInt (SCPQuorumSet lt lv li) (SCPQuorumSet rt rv ri) =
     (let res = intLexicographicalCompare comparePublicKeys lv rv
      in if res \<noteq> 0 then res
         else let res' = intLexicographicalCompare qSetCompareInt li ri
              in if res' \<noteq> 0 then res'
                 else if lt < rt then - 1 else if lt = rt then 0 else 1)"

subsection \<open>The comparison is a linear order\<close>

text \<open>
  \<^verbatim>\<open>std::sort\<close> needs a strict weak order. The three-way comparisons of the code satisfy more: they
  are linear orders, so the sorted sequence is unique. The contract of a three-way comparison on
  the elements of a set:
\<close>

locale int_order_on =
  fixes A :: "'a set" and cmp :: "'a \<Rightarrow> 'a \<Rightarrow> int"
  assumes cmp_eq: "x \<in> A \<Longrightarrow> y \<in> A \<Longrightarrow> cmp x y = 0 \<longleftrightarrow> x = y"
    and cmp_swap: "x \<in> A \<Longrightarrow> y \<in> A \<Longrightarrow> cmp y x = - cmp x y"
    and cmp_trans:
      "x \<in> A \<Longrightarrow> y \<in> A \<Longrightarrow> z \<in> A \<Longrightarrow> cmp x y < 0 \<Longrightarrow> cmp y z < 0 \<Longrightarrow> cmp x z < 0"
begin

lemma cmp_le_trans:
  assumes "x \<in> A" "y \<in> A" "z \<in> A" "cmp x y \<le> 0" "cmp y z \<le> 0"
  shows "cmp x z \<le> 0"
  using assms cmp_trans [of x y z] cmp_eq [of x y] cmp_eq [of y z]
  by (metis order_le_less)

lemma lex_eq:
  "set xs \<subseteq> A \<Longrightarrow> set ys \<subseteq> A \<Longrightarrow> intLexicographicalCompare cmp xs ys = 0 \<longleftrightarrow> xs = ys"
proof (induction xs arbitrary: ys)
  case Nil
  then show ?case by (cases ys) auto
next
  case (Cons x xs)
  then show ?case by (cases ys) (auto simp: Let_def cmp_eq)
qed

lemma lex_swap:
  "set xs \<subseteq> A \<Longrightarrow> set ys \<subseteq> A \<Longrightarrow>
     intLexicographicalCompare cmp ys xs = - intLexicographicalCompare cmp xs ys"
proof (induction xs arbitrary: ys)
  case Nil
  then show ?case by (cases ys) auto
next
  case (Cons x xs)
  then show ?case by (cases ys) (auto simp: Let_def cmp_swap [of x])
qed

lemma lex_trans:
  "set xs \<subseteq> A \<Longrightarrow> set ys \<subseteq> A \<Longrightarrow> set zs \<subseteq> A \<Longrightarrow>
     intLexicographicalCompare cmp xs ys < 0 \<Longrightarrow> intLexicographicalCompare cmp ys zs < 0 \<Longrightarrow>
     intLexicographicalCompare cmp xs zs < 0"
proof (induction xs arbitrary: ys zs)
  case Nil
  then show ?case by (cases ys; cases zs) auto
next
  case (Cons x xs)
  from Cons.prems obtain y ys' where ys: "ys = y # ys'" by (cases ys) auto
  with Cons.prems obtain z zs' where zs: "zs = z # zs'" by (cases zs) auto
  from Cons.prems ys zs have A: "x \<in> A" "y \<in> A" "z \<in> A" by auto
  show ?case
  proof (cases "cmp x y = 0 \<and> cmp y z = 0")
    case True
    with A have "x = y" "y = z" by (auto simp: cmp_eq)
    with Cons.prems ys zs A Cons.IH [of ys' zs'] show ?thesis
      by (auto simp: Let_def cmp_eq)
  next
    case False
    with Cons.prems ys zs A have "cmp x z < 0"
      using cmp_trans [of x y z] by (auto simp: Let_def cmp_eq split: if_splits)
    with zs show ?thesis by (simp add: Let_def)
  qed
qed

lemma lex_order: "int_order_on (lists A) (intLexicographicalCompare cmp)"
proof
  fix xs ys zs
  assume xs: "xs \<in> lists A" and ys: "ys \<in> lists A"
  then have sub: "set xs \<subseteq> A" "set ys \<subseteq> A" by auto
  show "intLexicographicalCompare cmp xs ys = 0 \<longleftrightarrow> xs = ys" by (rule lex_eq [OF sub])
  show "intLexicographicalCompare cmp ys xs = - intLexicographicalCompare cmp xs ys"
    by (rule lex_swap [OF sub])
  assume "zs \<in> lists A" "intLexicographicalCompare cmp xs ys < 0"
    "intLexicographicalCompare cmp ys zs < 0"
  then show "intLexicographicalCompare cmp xs zs < 0"
    using lex_trans [OF sub, of zs] by auto
qed

end

interpretation keyOrd: int_order_on UNIV comparePublicKeys
  by unfold_locales (auto simp: comparePublicKeys_def split: if_splits)

lemma size_innerSets: "q \<in> set i \<Longrightarrow> size q < size (SCPQuorumSet t v i)"
  by (induction i) auto

lemmas keyLex_eq = keyOrd.lex_eq [OF subset_UNIV subset_UNIV]
lemmas keyLex_swap = keyOrd.lex_swap [OF subset_UNIV subset_UNIV]
lemmas keyLex_trans = keyOrd.lex_trans [OF subset_UNIV subset_UNIV subset_UNIV]

lemma qSetCompareInt_order_step:
  assumes "int_order_on A qSetCompareInt"
  shows "int_order_on {q. set (innerSets q) \<subseteq> A} qSetCompareInt"
proof
  note eq = int_order_on.lex_eq [OF assms] and swap = int_order_on.lex_swap [OF assms]
    and trans = int_order_on.lex_trans [OF assms]
  fix x y z
  assume x: "x \<in> {q. set (innerSets q) \<subseteq> A}" and y: "y \<in> {q. set (innerSets q) \<subseteq> A}"
  show "qSetCompareInt x y = 0 \<longleftrightarrow> x = y"
    using x y by (cases x; cases y) (auto simp: Let_def keyLex_eq eq)
  show "qSetCompareInt y x = - qSetCompareInt x y"
  proof (cases x)
    case X: (SCPQuorumSet xt xv xi)
    show ?thesis
    proof (cases y)
      case Y: (SCPQuorumSet yt yv yi)
      have "intLexicographicalCompare qSetCompareInt yi xi
          = - intLexicographicalCompare qSetCompareInt xi yi"
        using x y X Y by (intro swap) auto
      then show ?thesis
        using X Y keyLex_swap [of xv yv] less_linear [of xt yt] by (auto simp: Let_def)
    qed
  qed
  assume z: "z \<in> {q. set (innerSets q) \<subseteq> A}"
    and xy: "qSetCompareInt x y < 0" and yz: "qSetCompareInt y z < 0"
  obtain xt xv xi yt yv yi zt zv zi where
    X: "x = SCPQuorumSet xt xv xi" and Y: "y = SCPQuorumSet yt yv yi" and
    Z: "z = SCPQuorumSet zt zv zi"
    by (metis SCPQuorumSet.exhaust)
  have A: "set xi \<subseteq> A" "set yi \<subseteq> A" "set zi \<subseteq> A" using x y z X Y Z by auto
  note facts = keyLex_trans [of xv yv zv] trans [OF A] keyLex_eq [of xv yv] keyLex_eq [of yv zv]
    eq [OF A(1,2)] eq [OF A(2,3)]
  show "qSetCompareInt x z < 0"
  proof (cases "xv = yv \<and> yv = zv")
    case same: True
    show ?thesis
    proof (cases "xi = yi \<and> yi = zi")
      case True
      with same xy yz X Y Z show ?thesis
        by (auto simp: Let_def keyLex_eq eq A split: if_splits)
    next
      case False
      with same xy yz X Y Z facts have "intLexicographicalCompare qSetCompareInt xi zi < 0"
        by (auto simp: Let_def split: if_splits)
      with same X Z show ?thesis by (simp add: Let_def keyLex_eq)
    qed
  next
    case False
    with xy yz X Y Z facts have "intLexicographicalCompare comparePublicKeys xv zv < 0"
      by (auto simp: Let_def split: if_splits)
    with X Z show ?thesis by (simp add: Let_def)
  qed
qed

lemma int_order_on_subset:
  assumes B: "int_order_on B cmp" and sub: "A \<subseteq> B"
  shows "int_order_on A cmp"
proof
  fix x y z
  assume x: "x \<in> A" and y: "y \<in> A"
  show "cmp x y = 0 \<longleftrightarrow> x = y" using sub x y by (intro int_order_on.cmp_eq [OF B]) auto
  show "cmp y x = - cmp x y" using sub x y by (intro int_order_on.cmp_swap [OF B]) auto
  assume "z \<in> A" "cmp x y < 0" "cmp y z < 0"
  then show "cmp x z < 0" using sub x y int_order_on.cmp_trans [OF B, of x y z] by auto
qed

lemma qSetCompareInt_order_bounded: "int_order_on {q. size q < n} qSetCompareInt"
proof (induction n)
  case 0
  show ?case by unfold_locales auto
next
  case (Suc n)
  have "size q' < n" if "size q < Suc n" "q' \<in> set (innerSets q)" for q q' :: SCPQuorumSet
    using that size_innerSets [of q' "innerSets q" "threshold q" "validators q"] by simp
  then have "{q. size q < Suc n} \<subseteq> {q. set (innerSets q) \<subseteq> {q. size q < n}}"
    by auto
  with qSetCompareInt_order_step [OF Suc.IH] show ?case by (rule int_order_on_subset)
qed

interpretation qsetOrd: int_order_on UNIV qSetCompareInt
proof
  fix x y z :: SCPQuorumSet
  note ord = qSetCompareInt_order_bounded [of "Suc (size x + size y + size z)"]
  show "qSetCompareInt x y = 0 \<longleftrightarrow> x = y" by (rule int_order_on.cmp_eq [OF ord]) auto
  show "qSetCompareInt y x = - qSetCompareInt x y" by (rule int_order_on.cmp_swap [OF ord]) auto
  assume "qSetCompareInt x y < 0" "qSetCompareInt y z < 0"
  then show "qSetCompareInt x z < 0" by (rule int_order_on.cmp_trans [OF ord, rotated 3]) auto
qed

instantiation SCPQuorumSet :: linorder
begin

definition less_SCPQuorumSet :: "SCPQuorumSet \<Rightarrow> SCPQuorumSet \<Rightarrow> bool" where
  "less_SCPQuorumSet l r \<longleftrightarrow> qSetCompareInt l r < 0"

definition less_eq_SCPQuorumSet :: "SCPQuorumSet \<Rightarrow> SCPQuorumSet \<Rightarrow> bool" where
  "less_eq_SCPQuorumSet l r \<longleftrightarrow> qSetCompareInt l r \<le> 0"

instance
proof
  fix x y z :: SCPQuorumSet
  note defs = less_SCPQuorumSet_def less_eq_SCPQuorumSet_def
  have sw: "qSetCompareInt y x = - qSetCompareInt x y" by (rule qsetOrd.cmp_swap) auto
  have eq: "qSetCompareInt x y = 0 \<longleftrightarrow> x = y" by (rule qsetOrd.cmp_eq) auto
  show "(x < y) = (x \<le> y \<and> \<not> y \<le> x)" using sw by (auto simp: defs)
  show "x \<le> x" using qsetOrd.cmp_eq [of x x] by (simp add: defs)
  show "x \<le> y \<or> y \<le> x" using sw by (auto simp: defs)
  show "x = y" if "x \<le> y" "y \<le> x" using that sw eq by (auto simp: defs)
  show "x \<le> z" if "x \<le> y" "y \<le> z" using that qsetOrd.cmp_le_trans by (auto simp: defs)
qed

end

text \<open>
  Reordering: the validators by key, then the (recursively reordered) inner sets by
  \<^verbatim>\<open>qSetCompareInt(l, r) < 0\<close>, which is \<open><\<close> of the instance above.
\<close>

fun normalizeQuorumSetReorder :: "SCPQuorumSet \<Rightarrow> SCPQuorumSet" where
  "normalizeQuorumSetReorder (SCPQuorumSet t v i) =
     SCPQuorumSet t (sort v) (sort (map normalizeQuorumSetReorder i))"

definition normalizeQSet :: "SCPQuorumSet \<Rightarrow> NodeID option \<Rightarrow> SCPQuorumSet" where
  "normalizeQSet qSet idToRemove = normalizeQuorumSetReorder (normalizeQSetSimplify qSet idToRemove)"

end
