(* ===== verification/LocalNode.thy ===== *)
theory LocalNode
  imports QuorumSets
begin

text \<open>
  \<^verbatim>\<open>scp/LocalNode.cpp\<close>: slices, v-blocking sets, quorums, the closest v-blocking set and the node
  weights. A vector of node identifiers is a list; the map of latest envelopes is an association
  list with distinct keys, polymorphic in what it stores.
\<close>

section \<open>Definitions\<close>

definition buildSingletonQSet :: "NodeID \<Rightarrow> SCPQuorumSet" where
  "buildSingletonQSet nodeID = SCPQuorumSet 1 [nodeID] []"

definition getSingletonQSet :: "NodeID \<Rightarrow> SCPQuorumSet" where
  "getSingletonQSet nodeID = buildSingletonQSet nodeID"

text \<open>
  The visitor may change the state \<open>'s\<close> of its caller and stops the traversal by returning
  \<^verbatim>\<open>false\<close>.
\<close>

fun visitNodes :: "('s \<Rightarrow> NodeID \<Rightarrow> bool \<times> 's) \<Rightarrow> NodeID list \<Rightarrow> 's \<Rightarrow> bool \<times> 's" where
  "visitNodes proc [] s = (True, s)"
| "visitNodes proc (n # ns) s =
     (case proc s n of (False, s') \<Rightarrow> (False, s') | (True, s') \<Rightarrow> visitNodes proc ns s')"

fun forAllNodes :: "('s \<Rightarrow> NodeID \<Rightarrow> bool \<times> 's) \<Rightarrow> SCPQuorumSet \<Rightarrow> 's \<Rightarrow> bool \<times> 's"
  and forAllNodesIn :: "('s \<Rightarrow> NodeID \<Rightarrow> bool \<times> 's) \<Rightarrow> SCPQuorumSet list \<Rightarrow> 's \<Rightarrow> bool \<times> 's" where
  "forAllNodes proc (SCPQuorumSet t v i) s =
     (case visitNodes proc v s of (False, s') \<Rightarrow> (False, s') | (True, s') \<Rightarrow> forAllNodesIn proc i s')"
| "forAllNodesIn proc [] s = (True, s)"
| "forAllNodesIn proc (q # qs) s =
     (case forAllNodes proc q s of (False, s') \<Rightarrow> (False, s') | (True, s') \<Rightarrow> forAllNodesIn proc qs s')"

text \<open>
  \<^verbatim>\<open>computeWeight\<close> asserts \<^verbatim>\<open>threshold <= total\<close> and ignores the overflow flag of
  \<^verbatim>\<open>bigDivide\<close>; \<open>None\<close> is the failed assertion.
\<close>

definition computeWeight :: "uint64 \<Rightarrow> uint64 \<Rightarrow> uint64 \<Rightarrow> uint64 option" where
  "computeWeight m tot thr =
     (if thr \<le> tot then Some (snd (bigDivide_u64 m thr tot ROUND_UP)) else None)"

fun getNodeWeight :: "NodeID \<Rightarrow> SCPQuorumSet \<Rightarrow> uint64 option"
  and getNodeWeightIn :: "NodeID \<Rightarrow> uint64 \<Rightarrow> uint64 \<Rightarrow> SCPQuorumSet list \<Rightarrow> uint64 option" where
  "getNodeWeight nodeID (SCPQuorumSet t v i) =
     (let n = ucast t :: uint64; d = of_nat (length i + length v) :: uint64
      in if nodeID \<in> set v then computeWeight UINT64_MAX d n
         else getNodeWeightIn nodeID d n i)"
| "getNodeWeightIn nodeID d n [] = Some 0"
| "getNodeWeightIn nodeID d n (q # qs) =
     (case getNodeWeight nodeID q of
        None \<Rightarrow> None
      | Some leafW \<Rightarrow> if leafW \<noteq> 0 then computeWeight leafW d n else getNodeWeightIn nodeID d n qs)"

fun isQuorumSliceInternal :: "SCPQuorumSet \<Rightarrow> NodeID list \<Rightarrow> bool" where
  "isQuorumSliceInternal (SCPQuorumSet t v i) nodeSet =
     (case countdown (\<lambda>n. n \<in> set nodeSet) v t of
        None \<Rightarrow> True
      | Some left \<Rightarrow>
          (case countdown (\<lambda>q. isQuorumSliceInternal q nodeSet) i left of
             None \<Rightarrow> True
           | Some _ \<Rightarrow> False))"

definition isQuorumSlice :: "SCPQuorumSet \<Rightarrow> NodeID list \<Rightarrow> bool" where
  "isQuorumSlice qSet nodeSet = isQuorumSliceInternal qSet nodeSet"

text \<open>
  \<^verbatim>\<open>int leftTillBlock = (int)((1 + validators.size() + innerSets.size()) - threshold)\<close>: the
  difference is taken modulo a power of two and read back as a signed 32-bit number.
\<close>

definition leftTillBlock_int :: "SCPQuorumSet \<Rightarrow> int" where
  "leftTillBlock_int q =
     sint (word_of_int (1 + int (length (validators q)) + int (length (innerSets q))
                        - uint (threshold q)) :: 32 word)"

fun isVBlockingInternal :: "SCPQuorumSet \<Rightarrow> NodeID list \<Rightarrow> bool" where
  "isVBlockingInternal (SCPQuorumSet t v i) nodeSet =
     (if t = 0 then False
      else case countdown_int (\<lambda>n. n \<in> set nodeSet) v (leftTillBlock_int (SCPQuorumSet t v i)) of
             None \<Rightarrow> True
           | Some left \<Rightarrow>
               (case countdown_int (\<lambda>q. isVBlockingInternal q nodeSet) i left of
                  None \<Rightarrow> True
                | Some _ \<Rightarrow> False))"

definition isVBlocking :: "SCPQuorumSet \<Rightarrow> NodeID list \<Rightarrow> bool" where
  "isVBlocking qSet nodeSet = isVBlockingInternal qSet nodeSet"

text \<open>The nodes of the map whose statement passes the filter.\<close>

definition filterNodes :: "(NodeID \<times> 'st) list \<Rightarrow> ('st \<Rightarrow> bool) \<Rightarrow> NodeID list" where
  "filterNodes m flt = map fst (filter (\<lambda>(_, st). flt st) m)"

definition isVBlockingFilter :: "SCPQuorumSet \<Rightarrow> (NodeID \<times> 'st) list \<Rightarrow> ('st \<Rightarrow> bool) \<Rightarrow> bool" where
  "isVBlockingFilter qSet m flt = isVBlocking qSet (filterNodes m flt)"

definition quorumFilter ::
    "('st \<Rightarrow> SCPQuorumSet option) \<Rightarrow> (NodeID \<times> 'st) list \<Rightarrow> NodeID list \<Rightarrow> NodeID \<Rightarrow> bool" where
  "quorumFilter qfun m pNodes nodeID =
     (case map_of m nodeID of
        None \<Rightarrow> False
      | Some st \<Rightarrow> (case qfun st of None \<Rightarrow> False | Some qSet \<Rightarrow> isQuorumSlice qSet pNodes))"

text \<open>The \<^verbatim>\<open>do ... while (count != pNodes.size())\<close> loop, for any filter.\<close>

function shrinkLoop :: "('a list \<Rightarrow> 'a \<Rightarrow> bool) \<Rightarrow> 'a list \<Rightarrow> 'a list" where
  "shrinkLoop keep pNodes =
     (let fNodes = filter (keep pNodes) pNodes
      in if length pNodes \<noteq> length fNodes then shrinkLoop keep fNodes else fNodes)"
  by pat_completeness auto
termination
  by (relation "measure (\<lambda>(keep, pNodes). length pNodes)")
    (auto simp: le_neq_implies_less length_filter_le)

declare shrinkLoop.simps [simp del]

definition isQuorum ::
    "SCPQuorumSet \<Rightarrow> (NodeID \<times> 'st) list \<Rightarrow> ('st \<Rightarrow> SCPQuorumSet option) \<Rightarrow> ('st \<Rightarrow> bool) \<Rightarrow> bool" where
  "isQuorum qSet m qfun flt = isQuorumSlice qSet (shrinkLoop (quorumFilter qfun m) (filterNodes m flt))"

text \<open>
  \<^verbatim>\<open>findClosestVBlocking\<close>. The scan of the validators returns \<open>None\<close> when the set is
  already blocked (the early \<^verbatim>\<open>return std::vector<NodeID>()\<close>), otherwise the remaining
  \<^verbatim>\<open>size_t\<close> counter and the validators saved for later. The scan of the inner sets does the same
  with the recursive results, which the \<^verbatim>\<open>multiset\<close> orders by size, equal sizes in order of insertion.
\<close>

fun scanValidators ::
    "NodeID set \<Rightarrow> NodeID option \<Rightarrow> NodeID list \<Rightarrow> uint64 \<Rightarrow> NodeID list \<Rightarrow> (uint64 \<times> NodeID list) option"
where
  "scanValidators nodes excluded [] left res = Some (left, res)"
| "scanValidators nodes excluded (x # xs) left res =
     (if excluded = Some x then scanValidators nodes excluded xs left res
      else if x \<notin> nodes
           then (if left - 1 = 0 then None else scanValidators nodes excluded xs (left - 1) res)
           else scanValidators nodes excluded xs left (res @ [x]))"

fun scanInner :: "NodeID list list \<Rightarrow> uint64 \<Rightarrow> NodeID list list \<Rightarrow> (uint64 \<times> NodeID list list) option"
where
  "scanInner [] left acc = Some (left, acc)"
| "scanInner (r # rs) left acc =
     (if length r = 0
      then (if left - 1 = 0 then None else scanInner rs (left - 1) acc)
      else scanInner rs left (acc @ [r]))"

fun takeSmallest :: "NodeID list list \<Rightarrow> uint64 \<Rightarrow> NodeID list \<Rightarrow> NodeID list" where
  "takeSmallest [] left res = res"
| "takeSmallest (r # rs) left res = (if left = 0 then res else takeSmallest rs (left - 1) (res @ r))"

fun findClosestVBlocking :: "NodeID set \<Rightarrow> NodeID option \<Rightarrow> SCPQuorumSet \<Rightarrow> NodeID list" where
  "findClosestVBlocking nodes excluded (SCPQuorumSet t v i) =
     (case scanValidators nodes excluded v (of_nat (1 + length v + length i) - ucast t) [] of
        None \<Rightarrow> []
      | Some (left, res) \<Rightarrow>
          (case scanInner (map (findClosestVBlocking nodes excluded) i) left [] of
             None \<Rightarrow> []
           | Some (left', internals) \<Rightarrow>
               let res' = (if length res > unat left' then take (unat left') res else res)
               in takeSmallest (sort_key length internals) (left' - of_nat (length res')) res'))"

definition findClosestVBlockingFilter ::
    "SCPQuorumSet \<Rightarrow> (NodeID \<times> 'st) list \<Rightarrow> ('st \<Rightarrow> bool) \<Rightarrow> NodeID option \<Rightarrow> NodeID list" where
  "findClosestVBlockingFilter qset m flt excluded =
     findClosestVBlocking (set (filterNodes m flt)) excluded qset"

section \<open>What the slice tests compute\<close>

text \<open>All nodes of a quorum set in the order \<^verbatim>\<open>forAllNodes\<close> visits them.\<close>

fun qnodes :: "SCPQuorumSet \<Rightarrow> NodeID list" where
  "qnodes (SCPQuorumSet t v i) = v @ concat (map qnodes i)"

text \<open>The number of entries that are satisfied reaches the threshold.\<close>

fun slice_by :: "(NodeID \<Rightarrow> bool) \<Rightarrow> SCPQuorumSet \<Rightarrow> bool" where
  "slice_by P (SCPQuorumSet t v i) \<longleftrightarrow>
     need t \<le> length (filter P v) + length (filter (slice_by P) i)"

text \<open>
  Thresholds within range at every level, and fewer than \<open>2 ^ 31 - 1\<close> entries, so that the
  signed counter of the v-blocking test holds them.
\<close>

fun wf_qset :: "SCPQuorumSet \<Rightarrow> bool" where
  "wf_qset (SCPQuorumSet t v i) \<longleftrightarrow>
     1 \<le> t \<and> unat t \<le> length v + length i \<and> length v + length i < 2 ^ 31 - 1 \<and> list_all wf_qset i"

lemma qset_induct [case_names QSet]:
  assumes "\<And>t v i. (\<And>q. q \<in> set i \<Longrightarrow> P q) \<Longrightarrow> P (SCPQuorumSet t v i)"
  shows "P q"
  using assms by (rule SCPQuorumSet.induct) auto

lemma filter_length_cong:
  "(\<And>x. x \<in> set xs \<Longrightarrow> P x = Q x) \<Longrightarrow> length (filter P xs) = length (filter Q xs)"
  by (metis filter_cong)

lemma isQuorumSliceInternal_iff:
  "isQuorumSliceInternal q ns \<longleftrightarrow> slice_by (\<lambda>n. n \<in> set ns) q"
proof (induction q rule: qset_induct)
  case (QSet t v i)
  then have "length (filter (\<lambda>q. isQuorumSliceInternal q ns) i)
      = length (filter (slice_by (\<lambda>n. n \<in> set ns)) i)"
    by (rule filter_length_cong)
  then show ?case by (simp add: countdown_two)
qed

lemmas isQuorumSlice_iff = isQuorumSliceInternal_iff [folded isQuorumSlice_def]

lemma filter_length_mono:
  "(\<And>x. x \<in> set xs \<Longrightarrow> P x \<Longrightarrow> Q x) \<Longrightarrow> length (filter P xs) \<le> length (filter Q xs)"
  by (induction xs) (auto intro: le_SucI)

lemma slice_by_mono [mono_intros]:
  "slice_by P q \<Longrightarrow> (\<And>n. n \<in> set (qnodes q) \<Longrightarrow> P n \<Longrightarrow> Q n) \<Longrightarrow> slice_by Q q"
proof (induction q rule: qset_induct)
  case (QSet t v i)
  have "length (filter P v) \<le> length (filter Q v)"
    using QSet.prems(2) by (intro filter_length_mono) auto
  moreover have "length (filter (slice_by P) i) \<le> length (filter (slice_by Q) i)"
    using QSet.prems(2) by (intro filter_length_mono QSet.IH) auto
  ultimately show ?case using QSet.prems(1) by simp
qed

lemma length_filter_compl': "length (filter P xs) = length xs - length (filter (\<lambda>x. \<not> P x) xs)"
  using sum_length_filter_compl [of P xs] by simp

lemma leftTillBlock_int_wf:
  assumes "wf_qset (SCPQuorumSet t v i)"
  shows "leftTillBlock_int (SCPQuorumSet t v i) = 1 + int (length v + length i) - int (unat t)"
proof -
  define n where "n = 1 + int (length v) + int (length i) - uint t"
  have u: "uint t = int (unat t)" by simp
  have "unat t \<le> length v + length i" "length v + length i < 2147483647"
    using assms by simp_all
  then have "1 \<le> n" "n < 2147483648" unfolding n_def u by linarith+
  then have "sint (word_of_int n :: 32 word) = n"
    by (simp add: int_word_sint)
  then show ?thesis
    unfolding leftTillBlock_int_def by (simp add: n_def)
qed

text \<open>V-blocking is the dual of being a slice.\<close>

lemma isVBlockingInternal_iff:
  "wf_qset q \<Longrightarrow> isVBlockingInternal q ns \<longleftrightarrow> \<not> slice_by (\<lambda>n. n \<notin> set ns) q"
proof (induction q rule: qset_induct)
  case (QSet t v i)
  let ?P = "\<lambda>n. n \<in> set ns" and ?N = "\<lambda>n. n \<notin> set ns"
  have wf: "1 \<le> t" "unat t \<le> length v + length i" "t \<noteq> 0" using QSet.prems by auto
  have "length (filter (\<lambda>q. isVBlockingInternal q ns) i) = length (filter (\<lambda>q. \<not> slice_by ?N q) i)"
    using QSet.prems by (intro filter_length_cong QSet.IH) (auto simp: list_all_iff)
  also have "\<dots> = length i - length (filter (slice_by ?N) i)"
    using length_filter_compl' [of "\<lambda>q. \<not> slice_by ?N q" i] by simp
  finally have inner: "length (filter (\<lambda>q. isVBlockingInternal q ns) i)
      = length i - length (filter (slice_by ?N) i)" .
  have outer: "length (filter ?P v) = length v - length (filter ?N v)"
    by (rule length_filter_compl')
  have ge1: "1 \<le> leftTillBlock_int (SCPQuorumSet t v i)"
    unfolding leftTillBlock_int_wf [OF QSet.prems] using wf(2) by linarith
  have "isVBlockingInternal (SCPQuorumSet t v i) ns \<longleftrightarrow>
      leftTillBlock_int (SCPQuorumSet t v i)
      \<le> int (length (filter ?P v)) + int (length (filter (\<lambda>q. isVBlockingInternal q ns) i))"
    by (simp only: isVBlockingInternal.simps wf(3) if_False countdown_int_two [OF ge1])
  also have "\<dots> \<longleftrightarrow> length (filter ?N v) + length (filter (slice_by ?N) i) < unat t"
    unfolding leftTillBlock_int_wf [OF QSet.prems] inner outer
    using wf(2) length_filter_le [of ?N v] length_filter_le [of "slice_by ?N" i] by linarith
  finally show ?case using wf by (simp add: need_pos_threshold not_le)
qed

lemmas isVBlocking_iff = isVBlockingInternal_iff [folded isVBlocking_def]

section \<open>The contract of slices and v-blocking sets\<close>

text \<open>
  What the federated vote relies on: slices are monotone and only depend on the nodes of the quorum
  set, and a set is v-blocking exactly when its complement is not a slice.
\<close>

locale slice_system =
  fixes wf :: "'q \<Rightarrow> bool" and nodes :: "'q \<Rightarrow> 'n list"
    and slice :: "'q \<Rightarrow> 'n list \<Rightarrow> bool" and vblock :: "'q \<Rightarrow> 'n list \<Rightarrow> bool"
  assumes slice_mono: "slice q ms \<Longrightarrow> set ms \<inter> set (nodes q) \<subseteq> set ms' \<Longrightarrow> slice q ms'"
    and vblock_dual: "wf q \<Longrightarrow> vblock q ns \<longleftrightarrow> \<not> slice q (filter (\<lambda>n. n \<notin> set ns) (nodes q))"
begin

lemma vblock_iff_meets_slices:
  assumes "wf q"
  shows "vblock q ns \<longleftrightarrow> (\<forall>ms. slice q ms \<longrightarrow> set ms \<inter> set ns \<noteq> {})"
proof
  assume vb: "vblock q ns"
  show "\<forall>ms. slice q ms \<longrightarrow> set ms \<inter> set ns \<noteq> {}"
  proof (intro allI impI notI)
    fix ms
    assume "slice q ms" "set ms \<inter> set ns = {}"
    then have "slice q (filter (\<lambda>n. n \<notin> set ns) (nodes q))"
      by (elim slice_mono) auto
    with vb assms vblock_dual show False by blast
  qed
next
  assume meets: "\<forall>ms. slice q ms \<longrightarrow> set ms \<inter> set ns \<noteq> {}"
  have "set (filter (\<lambda>n. n \<notin> set ns) (nodes q)) \<inter> set ns = {}" by auto
  with meets have "\<not> slice q (filter (\<lambda>n. n \<notin> set ns) (nodes q))" by meson
  with assms vblock_dual show "vblock q ns" by blast
qed

lemma vblock_mono:
  assumes "wf q" "vblock q ns" "set ns \<subseteq> set ns'"
  shows "vblock q ns'"
  unfolding vblock_iff_meets_slices [OF assms(1)]
proof (intro allI impI)
  fix ms
  assume "slice q ms"
  with assms(1,2) have "set ms \<inter> set ns \<noteq> {}" by (simp add: vblock_iff_meets_slices)
  with assms(3) show "set ms \<inter> set ns' \<noteq> {}" by blast
qed

text \<open>If nothing accepts, everything can be outvoted: a set or its complement decides.\<close>

lemma slice_or_vblock:
  assumes "wf q" "set (nodes q) \<subseteq> set ms \<union> set ns"
  shows "slice q ms \<or> vblock q ns"
proof (rule disjCI)
  assume "\<not> vblock q ns"
  then have "slice q (filter (\<lambda>n. n \<notin> set ns) (nodes q))" using assms vblock_dual by blast
  then show "slice q ms" by (rule slice_mono) (use assms(2) in auto)
qed

end

interpretation qsl: slice_system wf_qset qnodes isQuorumSlice isVBlocking
proof
  fix q ms ms'
  assume "isQuorumSlice q ms" "set ms \<inter> set (qnodes q) \<subseteq> set ms'"
  then show "isQuorumSlice q ms'"
    unfolding isQuorumSlice_iff by (elim slice_by_mono) auto
next
  fix q ns
  assume wf: "wf_qset q"
  have "slice_by (\<lambda>n. n \<notin> set ns) q
      \<longleftrightarrow> slice_by (\<lambda>n. n \<in> set (filter (\<lambda>n. n \<notin> set ns) (qnodes q))) q"
    by (intro iffI; erule slice_by_mono) auto
  with wf show "isVBlocking q ns \<longleftrightarrow> \<not> isQuorumSlice q (filter (\<lambda>n. n \<notin> set ns) (qnodes q))"
    by (simp only: isVBlocking_iff isQuorumSlice_iff)
qed

section \<open>Quorums are greatest fixed points\<close>

text \<open>What the shrinking loop needs of its filter, and what it then computes.\<close>

lemma shrinkLoop_subset: "set (shrinkLoop keep xs) \<subseteq> set xs"
proof (induction keep xs rule: shrinkLoop.induct)
  case (1 keep xs)
  then show ?case by (subst shrinkLoop.simps) (auto simp: Let_def)
qed

lemma filter_same_length: "length xs = length (filter P xs) \<Longrightarrow> filter P xs = xs"
  by (metis filter_id_conv length_filter_less less_irrefl)

lemma shrinkLoop_stable: "x \<in> set (shrinkLoop keep xs) \<Longrightarrow> keep (shrinkLoop keep xs) x"
proof (induction keep xs rule: shrinkLoop.induct)
  case (1 keep xs)
  let ?f = "filter (keep xs) xs"
  show ?case
  proof (cases "length xs = length ?f")
    case True
    then have "shrinkLoop keep xs = xs" and "?f = xs"
      by (auto simp: shrinkLoop.simps [of keep xs] dest: filter_same_length)
    with "1.prems" show ?thesis by (metis filter_id_conv)
  next
    case False
    then have "shrinkLoop keep xs = shrinkLoop keep ?f"
      by (simp add: shrinkLoop.simps [of keep xs] Let_def)
    with False "1" show ?thesis by simp
  qed
qed

locale monotone_filter =
  fixes keep :: "'a list \<Rightarrow> 'a \<Rightarrow> bool"
  assumes keep_mono: "keep xs x \<Longrightarrow> set xs \<subseteq> set ys \<Longrightarrow> keep ys x"
begin

lemma shrinkLoop_greatest:
  "set us \<subseteq> set xs \<Longrightarrow> (\<And>x. x \<in> set us \<Longrightarrow> keep us x) \<Longrightarrow> set us \<subseteq> set (shrinkLoop keep xs)"
proof (induction "length xs" arbitrary: xs rule: less_induct)
  case less
  let ?f = "filter (keep xs) xs"
  have sub: "set us \<subseteq> set ?f"
    using less.prems keep_mono [of us _ xs] by auto
  show ?case
  proof (cases "length xs = length ?f")
    case True
    then show ?thesis using sub by (simp add: shrinkLoop.simps [of keep xs] Let_def)
  next
    case False
    then have "length ?f < length xs" by (simp add: le_neq_implies_less length_filter_le)
    from less.hyps [OF this sub less.prems(2)] False show ?thesis
      by (simp add: shrinkLoop.simps [of keep xs] Let_def)
  qed
qed

text \<open>A monotone test holds of the result exactly when it holds of some closed subset.\<close>

lemma shrinkLoop_iff:
  assumes mono: "\<And>us vs. T us \<Longrightarrow> set us \<subseteq> set vs \<Longrightarrow> T vs"
  shows "T (shrinkLoop keep xs) \<longleftrightarrow>
    (\<exists>us. set us \<subseteq> set xs \<and> (\<forall>x \<in> set us. keep us x) \<and> T us)"
proof
  assume "T (shrinkLoop keep xs)"
  then show "\<exists>us. set us \<subseteq> set xs \<and> (\<forall>x \<in> set us. keep us x) \<and> T us"
    using shrinkLoop_subset shrinkLoop_stable by metis
next
  assume "\<exists>us. set us \<subseteq> set xs \<and> (\<forall>x \<in> set us. keep us x) \<and> T us"
  then show "T (shrinkLoop keep xs)" using shrinkLoop_greatest mono by blast
qed

end

lemma isQuorumSlice_mono: "isQuorumSlice q ms \<Longrightarrow> set ms \<subseteq> set ms' \<Longrightarrow> isQuorumSlice q ms'"
  by (erule qsl.slice_mono) auto

interpretation quorumKeep: monotone_filter "quorumFilter qfun m" for qfun m
  by unfold_locales (auto simp: quorumFilter_def split: option.splits intro: isQuorumSlice_mono)

lemma set_filterNodes:
  "distinct (map fst m) \<Longrightarrow> set (filterNodes m flt) = {n. \<exists>st. map_of m n = Some st \<and> flt st}"
  by (auto simp: filterNodes_def image_iff dest: map_of_SomeD intro: map_of_is_SomeI)

lemma isQuorum_iff:
  assumes "distinct (map fst m)"
  shows "isQuorum q m qfun flt \<longleftrightarrow>
    (\<exists>U. (\<forall>n \<in> set U. \<exists>st qs. map_of m n = Some st \<and> flt st \<and> qfun st = Some qs \<and> isQuorumSlice qs U)
       \<and> isQuorumSlice q U)"
proof -
  have "isQuorum q m qfun flt \<longleftrightarrow>
    (\<exists>U. set U \<subseteq> set (filterNodes m flt) \<and> (\<forall>n \<in> set U. quorumFilter qfun m U n) \<and> isQuorumSlice q U)"
    unfolding isQuorum_def using isQuorumSlice_mono by (rule quorumKeep.shrinkLoop_iff)
  then show ?thesis
    unfolding set_filterNodes [OF assms] quorumFilter_def
    by (fastforce split: option.splits intro: exI)
qed

section \<open>The normal form keeps the slices\<close>

lemma mergeSingletons_count:
  assumes "\<And>q. isSingleton q \<Longrightarrow> F q = P (hd (validators q))"
  shows "mergeSingletons v qs = (v', qs') \<Longrightarrow>
    length (filter P v') + length (filter F qs') = length (filter P v) + length (filter F qs)"
proof (induction v qs arbitrary: v' qs' rule: mergeSingletons.induct)
  case (2 v q qs)
  show ?case
  proof (cases "isSingleton q")
    case True
    with "2.IH"(1) [OF True, of v' qs'] "2.prems" assms [OF True] show ?thesis by auto
  next
    case False
    with "2.prems" obtain qs'' where m: "mergeSingletons v qs = (v', qs'')" and "qs' = q # qs''"
      by (auto split: prod.splits)
    with "2.IH"(2) [OF False m] show ?thesis by simp
  qed
qed auto

lemma length_filter_map_cong:
  "(\<And>x. x \<in> set xs \<Longrightarrow> P (f x) = Q x) \<Longrightarrow> length (filter P (map f xs)) = length (filter Q xs)"
  by (induction xs) auto

lemma need_one: "need 1 = 1"
  by (simp add: need_def)

lemma slice_by_singleton: "isSingleton q \<Longrightarrow> slice_by P q = P (hd (validators q))"
  by (cases q) (auto simp: isSingleton_def length_Suc_conv need_one split: if_splits)

lemma slice_by_collapse:
  "length i = 1 \<Longrightarrow> slice_by P (SCPQuorumSet 1 [] i) = slice_by P (last i)"
  by (auto simp: length_Suc_conv need_one split: if_splits)

lemma slice_by_simplify_None: "slice_by P (normalizeQSetSimplify q None) = slice_by P q"
proof (induction q rule: qset_induct)
  case (QSet t v i)
  let ?i = "map (\<lambda>q. normalizeQSetSimplify q None) i"
  obtain v2 i2 where m: "mergeSingletons v ?i = (v2, i2)" by fastforce
  have "length (filter (slice_by P) ?i) = length (filter (slice_by P) i)"
    using QSet.IH by (rule length_filter_map_cong)
  with mergeSingletons_count [where P = P and F = "slice_by P", OF slice_by_singleton m]
  have "slice_by P (SCPQuorumSet t v2 i2) = slice_by P (SCPQuorumSet t v i)" by simp
  moreover have "slice_by P (normalizeQSetSimplify (SCPQuorumSet t v i) None)
      = slice_by P (SCPQuorumSet t v2 i2)"
    using m slice_by_collapse [of i2 P] by (auto simp: Let_def)
  ultimately show ?case by simp
qed

lemma length_filter_sort: "length (filter P (sort xs)) = length (filter P xs)"
  by (simp add: filter_sort)

lemma slice_by_reorder: "slice_by P (normalizeQuorumSetReorder q) = slice_by P q"
proof (induction q rule: qset_induct)
  case (QSet t v i)
  then have "length (filter (slice_by P) (map normalizeQuorumSetReorder i))
      = length (filter (slice_by P) i)"
    by (rule length_filter_map_cong)
  then show ?case by (simp add: length_filter_sort)
qed

text \<open>
  Removing a node: every subset the node is in must keep a positive threshold, since the threshold
  is lowered once per removed validator.
\<close>

fun removable :: "NodeID \<Rightarrow> SCPQuorumSet \<Rightarrow> bool" where
  "removable n (SCPQuorumSet t v i) \<longleftrightarrow>
     length (filter (\<lambda>x. x = n) v) < unat t \<and> list_all (removable n) i"

lemma need_remove:
  assumes "k < unat t"
  shows "need (t - of_nat k) = need t - k"
proof -
  have k: "unat (of_nat k :: uint32) = k"
    using assms unsigned_less [where 'a = nat and w = t] by (simp add: unat_of_nat)
  then have u: "unat (t - of_nat k) = unat t - k"
    using assms by (simp add: unat_sub word_le_nat_alt)
  with assms have "t - of_nat k \<noteq> 0" "t \<noteq> 0" by auto
  with u show ?thesis by (simp add: need_def)
qed

lemma filter_remove_split:
  "length (filter P (filter (\<lambda>x. x \<noteq> n) v)) + length (filter (\<lambda>x. x = n) v)
   = length (filter (\<lambda>x. x = n \<or> P x) v)"
  by (induction v) auto

lemma slice_by_simplify_Some:
  "removable n q \<Longrightarrow> slice_by P (normalizeQSetSimplify q (Some n)) = slice_by (\<lambda>x. x = n \<or> P x) q"
proof (induction q rule: qset_induct)
  case (QSet t v i)
  let ?Q = "\<lambda>x. x = n \<or> P x" and ?i = "map (\<lambda>q. normalizeQSetSimplify q (Some n)) i"
  let ?k = "length (filter (\<lambda>x. x = n) v)" and ?v = "filter (\<lambda>x. x \<noteq> n) v"
  let ?t = "t - of_nat ?k"
  obtain v2 i2 where m: "mergeSingletons ?v ?i = (v2, i2)" by fastforce
  have k: "?k < unat t" using QSet.prems by simp
  have "length (filter (slice_by P) ?i) = length (filter (slice_by ?Q) i)"
    using QSet by (intro length_filter_map_cong) (simp add: list_all_iff)
  with mergeSingletons_count [where P = P and F = "slice_by P", OF slice_by_singleton m] need_remove [OF k]
    filter_remove_split [of P n v]
  have "slice_by P (SCPQuorumSet ?t v2 i2) = slice_by ?Q (SCPQuorumSet t v i)" by auto
  moreover have "slice_by P (normalizeQSetSimplify (SCPQuorumSet t v i) (Some n))
      = slice_by P (SCPQuorumSet ?t v2 i2)"
    using m slice_by_collapse [of i2 P] by (auto simp: Let_def)
  ultimately show ?case by simp
qed

end
