(* ===== verification/QuorumSanity.thy ===== *)
theory QuorumSanity
  imports LocalNode
begin

text \<open>
  What \<^verbatim>\<open>isQuorumSetSane\<close> accepts, that a sane quorum set is well-formed for the slice tests, and
  the node weights of \<^verbatim>\<open>LocalNode::getNodeWeight\<close>.
\<close>

section \<open>What the sanity check accepts\<close>

fun nested_within :: "nat \<Rightarrow> SCPQuorumSet \<Rightarrow> bool" where
  "nested_within n (SCPQuorumSet t v i) \<longleftrightarrow> list_all (\<lambda>q. 0 < n \<and> nested_within (n - 1) q) i"

fun thresholds_ok :: "bool \<Rightarrow> SCPQuorumSet \<Rightarrow> bool" where
  "thresholds_ok extra (SCPQuorumSet t v i) \<longleftrightarrow>
     1 \<le> unat t \<and> unat t \<le> length v + length i \<and>
     (extra \<longrightarrow> length v + length i < 2 * unat t) \<and> list_all (thresholds_ok extra) i"

lemma insertNodes_iff:
  "insertNodes ns known = Some known' \<longleftrightarrow>
     distinct ns \<and> set ns \<inter> known = {} \<and> known' = known \<union> set ns"
  by (induction ns arbitrary: known) auto

lemma threshold_less_one: "(t :: uint32) < 1 \<longleftrightarrow> unat t < 1"
  by (simp add: word_less_nat_alt)

lemma checkSanity_iff:
  "checkSanity extra q depth (known, count) = Inr (known', count') \<longleftrightarrow>
     depth \<le> 4 \<and> nested_within (4 - depth) q \<and> thresholds_ok extra q \<and> distinct (qnodes q) \<and>
     set (qnodes q) \<inter> known = {} \<and> known' = known \<union> set (qnodes q) \<and>
     count' = count + length (qnodes q)"
  and checkSanityAll_iff:
  "checkSanityAll extra qs depth (known, count) = Inr (known', count') \<longleftrightarrow>
     list_all (\<lambda>q. depth \<le> 4 \<and> nested_within (4 - depth) q \<and> thresholds_ok extra q) qs \<and>
     distinct (concat (map qnodes qs)) \<and> set (concat (map qnodes qs)) \<inter> known = {} \<and>
     known' = known \<union> set (concat (map qnodes qs)) \<and>
     count' = count + length (concat (map qnodes qs))"
proof (induction extra q depth "(known, count)" and extra qs depth "(known, count)"
    arbitrary: known count known' count' and known count known' count'
    rule: checkSanity_checkSanityAll.induct)
  case (1 extra t v i depth known count)
  show ?case
  proof (cases "depth > 4 \<or> t < 1 \<or> unat t > length v + length i \<or>
      (extra \<and> unat t < length v + length i - unat t + 1) \<or> \<not> distinct v \<or> set v \<inter> known \<noteq> {}")
    case True
    then show ?thesis
      using insertNodes_iff [of v known]
      by (auto simp: MAXIMUM_QUORUM_NESTING_LEVEL_def Let_def threshold_less_one
          split: option.splits)
  next
    case False
    then have ins: "insertNodes v known = Some (known \<union> set v)"
      by (simp add: insertNodes_iff)
    from False have "\<not> MAXIMUM_QUORUM_NESTING_LEVEL < depth"
      by (simp add: MAXIMUM_QUORUM_NESTING_LEVEL_def)
    moreover from False have "Suc 0 \<le> unat t" unfolding threshold_less_one by linarith
    ultimately show ?thesis
      using "1" [OF _ _ refl refl refl _ _ ins] False ins
      by (auto simp: MAXIMUM_QUORUM_NESTING_LEVEL_def Let_def threshold_less_one list_all_iff)
  qed
next
  case (2 extra depth)
  then show ?case by auto
next
  case (3 extra q qs depth known count)
  show ?case
  proof (cases "checkSanity extra q depth (known, count)")
    case (Inl e)
    with "3"(1) show ?thesis by auto
  next
    case (Inr s)
    obtain k c where s: "s = (k, c)" by fastforce
    from "3"(1) [of k c] Inr s have
      "depth \<le> 4" "nested_within (4 - depth) q" "thresholds_ok extra q" "distinct (qnodes q)"
      "set (qnodes q) \<inter> known = {}" and k: "k = known \<union> set (qnodes q)"
      and c: "c = count + length (qnodes q)"
      by auto
    with "3"(2) [OF Inr [unfolded s]] Inr s show ?thesis by auto
  qed
qed

lemma one_le_uint32: "(1 :: uint32) \<le> t \<longleftrightarrow> 1 \<le> unat t"
  by (simp only: word_le_nat_alt unat_1)

lemma thresholds_ok_nonempty: "thresholds_ok e q \<Longrightarrow> 1 \<le> length (qnodes q)"
proof (induction q rule: qset_induct)
  case (QSet t v i)
  show ?case
  proof (cases i)
    case Nil
    with QSet.prems show ?thesis by auto
  next
    case (Cons q qs)
    with QSet.IH [of q] QSet.prems have "1 \<le> length (qnodes q)" by auto
    with Cons show ?thesis by simp
  qed
qed

lemma length_le_sum_list: "(\<And>x. x \<in> set xs \<Longrightarrow> 1 \<le> f x) \<Longrightarrow> length xs \<le> sum_list (map f xs)"
  for f :: "'a \<Rightarrow> nat"
proof (induction xs)
  case (Cons x xs)
  then have "1 \<le> f x" "length xs \<le> sum_list (map f xs)" by auto
  then show ?case by simp
qed simp

lemma thresholds_ok_wf: "thresholds_ok e q \<Longrightarrow> length (qnodes q) \<le> 1000 \<Longrightarrow> wf_qset q"
proof (induction q rule: qset_induct)
  case (QSet t v i)
  have len: "length (qnodes (SCPQuorumSet t v i)) = length v + sum_list (map (length \<circ> qnodes) i)"
    by (simp add: length_concat)
  have "length i \<le> sum_list (map (length \<circ> qnodes) i)"
    using QSet.prems thresholds_ok_nonempty by (intro length_le_sum_list) (auto simp: list_all_iff)
  with len QSet.prems(2) have tot: "length v + length i \<le> 1000" by linarith
  have "wf_qset q" if "q \<in> set i" for q
  proof -
    have "length (qnodes q) \<le> sum_list (map (length \<circ> qnodes) i)"
      using that by (intro member_le_sum_list) auto
    with len QSet.prems(2) have "length (qnodes q) \<le> 1000" by linarith
    with QSet that show ?thesis by (auto simp: list_all_iff)
  qed
  then have "list_all wf_qset i" by (simp add: list_all_iff)
  moreover have "1 \<le> t" unfolding one_le_uint32 using QSet.prems(1) by simp
  ultimately show ?case using QSet.prems(1) tot by simp
qed

lemma isQuorumSetSane_iff:
  "fst (isQuorumSetSane q extra) \<longleftrightarrow>
     nested_within 4 q \<and> thresholds_ok extra q \<and> distinct (qnodes q) \<and>
     1 \<le> length (qnodes q) \<and> length (qnodes q) \<le> 1000"
proof (cases "checkSanity extra q 0 ({}, 0)")
  case (Inl e)
  then have "\<not> (nested_within 4 q \<and> thresholds_ok extra q \<and> distinct (qnodes q))"
    using checkSanity_iff [of extra q 0 "{}" 0] by auto
  with Inl show ?thesis by (auto simp: isQuorumSetSane_def)
next
  case (Inr s)
  obtain k c where s: "s = (k, c)" by fastforce
  with Inr checkSanity_iff [of extra q 0 "{}" 0 k c] show ?thesis
    by (auto simp: isQuorumSetSane_def Suc_le_eq)
qed

lemma isQuorumSetSane_wf: "isQuorumSetSane q extra = (True, None) \<Longrightarrow> wf_qset q"
  using isQuorumSetSane_iff [of q extra] by (intro thresholds_ok_wf [of extra]) auto

section \<open>Weights\<close>

lemma computeWeight_exact:
  assumes "thr \<le> tot" "tot \<noteq> 0"
  obtains w where "computeWeight m tot thr = Some w"
    and "uint w = div_rounded (uint m * uint thr) (uint tot) ROUND_UP"
proof -
  let ?q = "div_rounded (uint m * uint thr) (uint tot) ROUND_UP"
  have tot: "0 < uint tot" using assms(2) by (metis uint_0_iff uint_ge_0 order_le_less)
  have "uint m * uint thr \<le> uint m * uint tot"
    using assms(1) by (simp add: word_le_def mult_left_mono)
  then have "?q \<le> uint m" using tot by (rule div_rounded_ROUND_UP_least [rotated])
  moreover have "0 \<le> ?q" using tot by (simp add: div_rounded_nonneg)
  ultimately have "uint (word_of_int ?q :: uint64) = ?q"
    using uint64_bound(2) [of m] by (intro uint_word_of_int_64) auto
  moreover have "computeWeight m tot thr = Some (word_of_int ?q)"
    using assms bigDivide_u64_exact [OF assms(2)] by (simp add: computeWeight_def Let_def)
  ultimately show thesis using that by blast
qed

lemma computeWeight_zero_iff:
  assumes "thr \<le> tot" "thr \<noteq> 0"
  shows "\<exists>w. computeWeight m tot thr = Some w \<and> (w = 0 \<longleftrightarrow> m = 0)"
proof -
  have "tot \<noteq> 0" using assms by auto
  then obtain w where w: "computeWeight m tot thr = Some w"
    and e: "uint w = div_rounded (uint m * uint thr) (uint tot) ROUND_UP"
    using computeWeight_exact [OF assms(1)] by blast
  have pos: "0 < uint tot" "0 < uint thr"
    using \<open>tot \<noteq> 0\<close> assms(2) by (metis uint_0_iff uint_ge_0 order_le_less)+
  have "uint w = 0 \<longleftrightarrow> uint m = 0"
  proof
    assume "uint w = 0"
    with e div_rounded_up_bounds(1) [OF pos(1), of "uint m * uint thr"]
    have "uint m * uint thr \<le> 0" by simp
    with pos show "uint m = 0" by (metis linorder_not_less mult_pos_pos uint_ge_0 order_le_less)
  next
    assume "uint m = 0"
    with e pos show "uint w = 0" by (simp add: div_rounded_def)
  qed
  with w show ?thesis by (auto simp: uint_0_iff)
qed

lemma getNodeWeightIn_zero_iff:
  assumes "\<And>q. q \<in> set qs \<Longrightarrow> \<exists>w. getNodeWeight n q = Some w \<and> (w = 0 \<longleftrightarrow> n \<notin> set (qnodes q))"
    and "thr \<le> tot" "thr \<noteq> 0"
  shows "\<exists>w. getNodeWeightIn n tot thr qs = Some w \<and> (w = 0 \<longleftrightarrow> (\<forall>q \<in> set qs. n \<notin> set (qnodes q)))"
  using assms(1)
proof (induction qs)
  case (Cons q qs)
  from Cons.prems obtain w where w: "getNodeWeight n q = Some w" "w = 0 \<longleftrightarrow> n \<notin> set (qnodes q)"
    by auto
  show ?case
  proof (cases "w = 0")
    case True
    with w Cons show ?thesis by auto
  next
    case False
    with w computeWeight_zero_iff [OF assms(2,3), of w] show ?thesis by auto
  qed
qed simp

lemma getNodeWeight_zero_iff:
  "wf_qset q \<Longrightarrow> \<exists>w. getNodeWeight n q = Some w \<and> (w = 0 \<longleftrightarrow> n \<notin> set (qnodes q))"
proof (induction q rule: qset_induct)
  case (QSet t v i)
  let ?d = "of_nat (length i + length v) :: uint64" and ?n = "ucast t :: uint64"
  have "1 \<le> t" using QSet.prems by simp
  then have t: "unat t \<noteq> 0" "unat t \<le> length i + length v" "length i + length v < 2147483647"
    unfolding one_le_uint32 using QSet.prems by simp_all
  have d: "unat ?d = length i + length v" using t(3) by (simp only: unat_of_nat) simp
  have n: "unat ?n = unat t"
    using unsigned_less [where 'a = nat and w = t] by (simp add: unsigned_ucast_eq take_bit_nat_eq_self)
  have le: "?n \<le> ?d" unfolding word_le_nat_alt d n by (rule t(2))
  have nz: "?n \<noteq> 0" using n t(1) by auto
  have "UINT64_MAX \<noteq> 0" by (simp add: UINT64_MAX_def)
  with computeWeight_zero_iff [OF le nz, of UINT64_MAX]
  have top: "\<exists>w. computeWeight UINT64_MAX ?d ?n = Some w \<and> w \<noteq> 0" by auto
  have "\<exists>w. getNodeWeightIn n ?d ?n i = Some w \<and> (w = 0 \<longleftrightarrow> (\<forall>q \<in> set i. n \<notin> set (qnodes q)))"
    using QSet by (intro getNodeWeightIn_zero_iff [OF _ le nz]) (auto simp: list_all_iff)
  with top show ?case by (cases "n \<in> set v") (auto simp: Let_def)
qed

section \<open>Properties\<close>

text \<open>
  C22. \<^verbatim>\<open>LocalNode::isQuorum\<close> returns true exactly when some set of nodes, all with a statement
  that passes the filter, contains a slice of each of its members and a slice of the local quorum
  set: the shrinking loop computes the greatest such set.
\<close>

theorem isQuorum_correct:
  assumes "distinct (map fst m)"
  shows "isQuorum q m qfun flt \<longleftrightarrow>
    (\<exists>U. (\<forall>n \<in> set U. \<exists>st qs. map_of m n = Some st \<and> flt st \<and> qfun st = Some qs \<and> isQuorumSlice qs U)
       \<and> isQuorumSlice q U)"
  using assms by (rule isQuorum_iff)

theorem isQuorum_correct_witness:
  "isQuorum (SCPQuorumSet 2 [1, 2] []) [(1, True), (2, True)] (\<lambda>_. Some (SCPQuorumSet 2 [1, 2] [])) id
   \<longleftrightarrow> (\<exists>U. (\<forall>n \<in> set U. \<exists>st qs. map_of [(1, True), (2, True)] n = Some st \<and> id st
         \<and> Some (SCPQuorumSet 2 [1, 2] []) = Some qs \<and> isQuorumSlice qs U)
       \<and> isQuorumSlice (SCPQuorumSet 2 [1, 2] []) U)"
  by (rule isQuorum_correct) simp

text \<open>
  C23. For a sane quorum set, \<^verbatim>\<open>LocalNode::isVBlocking\<close> returns true exactly for the node sets that
  meet every quorum slice.
\<close>

theorem isVBlocking_correct:
  assumes "isQuorumSetSane q extra = (True, None)"
  shows "isVBlocking q ns \<longleftrightarrow> (\<forall>ms. isQuorumSlice q ms \<longrightarrow> set ms \<inter> set ns \<noteq> {})"
  using assms qsl.vblock_iff_meets_slices [OF isQuorumSetSane_wf] by blast

theorem isVBlocking_correct_witness:
  "isQuorumSetSane (SCPQuorumSet 2 [1, 2, 3] []) False = (True, None) \<and>
   (isVBlocking (SCPQuorumSet 2 [1, 2, 3] []) [1, 3] \<longleftrightarrow>
    (\<forall>ms. isQuorumSlice (SCPQuorumSet 2 [1, 2, 3] []) ms \<longrightarrow> set ms \<inter> set [1, 3] \<noteq> {}))"
proof -
  have "isQuorumSetSane (SCPQuorumSet 2 [1, 2, 3] []) False = (True, None)"
    by (simp add: isQuorumSetSane_def MAXIMUM_QUORUM_NESTING_LEVEL_def)
  with isVBlocking_correct [OF this, of "[1, 3]"] show ?thesis by blast
qed

text \<open>
  C24. \<^verbatim>\<open>isQuorumSetSane\<close> accepts exactly the quorum sets that are nested at most four levels below
  the root, have every threshold between one and the number of entries (and above one half with the
  extra checks), name no node twice and name between 1 and 1000 nodes.
\<close>

theorem isQuorumSetSane_correct:
  "fst (isQuorumSetSane q extra) \<longleftrightarrow>
     nested_within 4 q \<and> thresholds_ok extra q \<and> distinct (qnodes q) \<and>
     1 \<le> length (qnodes q) \<and> length (qnodes q) \<le> 1000"
  by (rule isQuorumSetSane_iff)

text \<open>
  C25. Normalising a quorum set does not change its slices; normalising it with a node removed, when
  the node leaves every threshold positive, gives the slices of the original set that assume the
  removed node present.
\<close>

theorem normalizeQSet_slices:
  "isQuorumSlice (normalizeQSet q None) ns = isQuorumSlice q ns \<and>
   (removable n q \<longrightarrow> isQuorumSlice (normalizeQSet q (Some n)) ns = isQuorumSlice q (n # ns))"
  by (simp_all add: isQuorumSlice_iff normalizeQSet_def slice_by_reorder slice_by_simplify_None
      slice_by_simplify_Some)

theorem normalizeQSet_slices_witness:
  "removable 1 (SCPQuorumSet 2 [1, 2, 3] []) \<and>
   isQuorumSlice (normalizeQSet (SCPQuorumSet 2 [1, 2, 3] []) (Some 1)) [3]
     = isQuorumSlice (SCPQuorumSet 2 [1, 2, 3] []) [1, 3]"
proof -
  have "removable 1 (SCPQuorumSet 2 [1, 2, 3] [])" by simp
  with normalizeQSet_slices [of "SCPQuorumSet 2 [1, 2, 3] []" "[3]" 1] show ?thesis by blast
qed

text \<open>
  C26. In a sane quorum set the assertion of \<^verbatim>\<open>computeWeight\<close> never fails, and a node has weight zero
  exactly when the quorum set does not name it.
\<close>

theorem getNodeWeight_correct:
  assumes "isQuorumSetSane q extra = (True, None)"
  shows "\<exists>w. getNodeWeight n q = Some w \<and> (w = 0 \<longleftrightarrow> n \<notin> set (qnodes q))"
  using getNodeWeight_zero_iff [OF isQuorumSetSane_wf [OF assms]] .

theorem getNodeWeight_correct_witness:
  "\<exists>w. getNodeWeight 2 (SCPQuorumSet 2 [1, 2, 3] []) = Some w \<and>
     (w = 0 \<longleftrightarrow> 2 \<notin> set (qnodes (SCPQuorumSet 2 [1, 2, 3] [])))"
  by (rule getNodeWeight_correct [of _ False])
    (simp add: isQuorumSetSane_def MAXIMUM_QUORUM_NESTING_LEVEL_def)

end
