(* ===== verification/SCPTypes.thy ===== *)
theory SCPTypes
  imports QuorumSanity
begin

text \<open>
  The messages of the consensus protocol (\<^verbatim>\<open>xdr/DigitalBits-SCP.x\<close>), the ballot comparisons and
  statement predicates of \<^verbatim>\<open>scp/BallotProtocol.cpp\<close> that do not touch the state, and the maps of
  latest envelopes.
\<close>

section \<open>Ballots\<close>

datatype SCPBallot = SCPBallot (counter: uint32) (bvalue: Value)

definition UINT32_MAX :: uint32 where
  "UINT32_MAX = - 1"

definition compareBallots :: "SCPBallot \<Rightarrow> SCPBallot \<Rightarrow> int" where
  "compareBallots b1 b2 =
     (if counter b1 < counter b2 then - 1
      else if counter b2 < counter b1 then 1
      else if bvalue b1 < bvalue b2 then - 1
      else if bvalue b2 < bvalue b1 then 1
      else 0)"

text \<open>The overload on nullable ballots: a missing ballot is below every ballot.\<close>

definition compareBallotsOpt :: "SCPBallot option \<Rightarrow> SCPBallot option \<Rightarrow> int" where
  "compareBallotsOpt b1 b2 =
     (case (b1, b2) of
        (Some x, Some y) \<Rightarrow> compareBallots x y
      | (Some _, None) \<Rightarrow> 1
      | (None, Some _) \<Rightarrow> - 1
      | (None, None) \<Rightarrow> 0)"

definition areBallotsCompatible :: "SCPBallot \<Rightarrow> SCPBallot \<Rightarrow> bool" where
  "areBallotsCompatible b1 b2 \<longleftrightarrow> bvalue b1 = bvalue b2"

definition areBallotsLessAndIncompatible :: "SCPBallot \<Rightarrow> SCPBallot \<Rightarrow> bool" where
  "areBallotsLessAndIncompatible b1 b2 \<longleftrightarrow> compareBallots b1 b2 \<le> 0 \<and> \<not> areBallotsCompatible b1 b2"

definition areBallotsLessAndCompatible :: "SCPBallot \<Rightarrow> SCPBallot \<Rightarrow> bool" where
  "areBallotsLessAndCompatible b1 b2 \<longleftrightarrow> compareBallots b1 b2 \<le> 0 \<and> areBallotsCompatible b1 b2"

text \<open>
  \<^verbatim>\<open>std::set<SCPBallot>\<close> is ordered by the generated \<^verbatim>\<open>operator<\<close>, which compares the fields in
  order; the instance makes \<^verbatim>\<open>compareBallots\<close> that order.
\<close>

instantiation SCPBallot :: linorder
begin

definition less_SCPBallot :: "SCPBallot \<Rightarrow> SCPBallot \<Rightarrow> bool" where
  "less_SCPBallot b1 b2 \<longleftrightarrow>
     counter b1 < counter b2 \<or> counter b1 = counter b2 \<and> bvalue b1 < bvalue b2"

definition less_eq_SCPBallot :: "SCPBallot \<Rightarrow> SCPBallot \<Rightarrow> bool" where
  "less_eq_SCPBallot b1 b2 \<longleftrightarrow>
     counter b1 < counter b2 \<or> counter b1 = counter b2 \<and> bvalue b1 \<le> bvalue b2"

instance
  by standard (auto simp: less_SCPBallot_def less_eq_SCPBallot_def SCPBallot.expand)

end

lemma compareBallots_iff [simp]:
  "compareBallots b1 b2 < 0 \<longleftrightarrow> b1 < b2"
  "compareBallots b1 b2 \<le> 0 \<longleftrightarrow> b1 \<le> b2"
  "0 < compareBallots b1 b2 \<longleftrightarrow> b2 < b1"
  "0 \<le> compareBallots b1 b2 \<longleftrightarrow> b2 \<le> b1"
  "compareBallots b1 b2 = 0 \<longleftrightarrow> b1 = b2"
  by (auto simp: compareBallots_def less_SCPBallot_def less_eq_SCPBallot_def SCPBallot.expand)

lemma counter_mono: "b1 \<le> b2 \<Longrightarrow> counter b1 \<le> counter b2"
  by (auto simp: less_eq_SCPBallot_def)

text \<open>The two relations the protocol rules use, over the order.\<close>

lemma areBallotsLessAndCompatible_iff:
  "areBallotsLessAndCompatible b1 b2 \<longleftrightarrow> counter b1 \<le> counter b2 \<and> bvalue b1 = bvalue b2"
  by (auto simp: areBallotsLessAndCompatible_def areBallotsCompatible_def less_eq_SCPBallot_def)

lemma areBallotsLessAndIncompatible_iff:
  "areBallotsLessAndIncompatible b1 b2 \<longleftrightarrow> b1 < b2 \<and> bvalue b1 \<noteq> bvalue b2"
  by (auto simp: areBallotsLessAndIncompatible_def areBallotsCompatible_def order_le_less)

section \<open>Statements and envelopes\<close>

text \<open>
  The union of \<^verbatim>\<open>SCPStatement::pledges\<close>; each constructor has the fields of the corresponding
  struct in order.
\<close>

datatype SCPPledges =
    PREPARE Hash SCPBallot "SCPBallot option" "SCPBallot option" uint32 uint32
      \<comment> \<open>quorumSetHash, ballot, prepared, preparedPrime, nC, nH\<close>
  | CONFIRM SCPBallot uint32 uint32 uint32 Hash
      \<comment> \<open>ballot, nPrepared, nCommit, nH, quorumSetHash\<close>
  | EXTERNALIZE SCPBallot uint32 Hash
      \<comment> \<open>commit, nH, commitQuorumSetHash\<close>
  | NOMINATE Hash "Value list" "Value list"
      \<comment> \<open>quorumSetHash, votes, accepted\<close>

text \<open>The position of the statement type in \<^verbatim>\<open>enum SCPStatementType\<close>.\<close>

fun pledgeType :: "SCPPledges \<Rightarrow> nat" where
  "pledgeType (PREPARE _ _ _ _ _ _) = 0"
| "pledgeType (CONFIRM _ _ _ _ _) = 1"
| "pledgeType (EXTERNALIZE _ _ _) = 2"
| "pledgeType (NOMINATE _ _ _) = 3"

text \<open>The fields of \<^verbatim>\<open>SCPNomination\<close>; the protocols only read them from nominations.\<close>

fun nomVotes :: "SCPPledges \<Rightarrow> Value list" where
  "nomVotes (NOMINATE _ votes _) = votes"
| "nomVotes _ = []"

fun nomAccepted :: "SCPPledges \<Rightarrow> Value list" where
  "nomAccepted (NOMINATE _ _ accepted) = accepted"
| "nomAccepted _ = []"

record SCPStatement =
  nodeID :: NodeID
  slotIndex :: uint64
  pledges :: SCPPledges

type_synonym Signature = "8 word list"

record SCPEnvelope =
  statement :: SCPStatement
  signature :: Signature

section \<open>Maps of latest envelopes\<close>

text \<open>
  A \<^verbatim>\<open>std::map\<close> as an association list sorted by key: find, and insert or replace. The maps of
  latest envelopes are \<^verbatim>\<open>std::map<NodeID, SCPEnvelopeWrapperPtr>\<close>.
\<close>

type_synonym ('k, 'v) stdMap = "('k \<times> 'v) list"

type_synonym 'v nodeMap = "(NodeID, 'v) stdMap"

fun mapPut :: "'k::linorder \<Rightarrow> 'v \<Rightarrow> ('k, 'v) stdMap \<Rightarrow> ('k, 'v) stdMap" where
  "mapPut k v [] = [(k, v)]"
| "mapPut k v ((k', v') # m) =
     (if k < k' then (k, v) # (k', v') # m
      else if k = k' then (k, v) # m
      else (k', v') # mapPut k v m)"

definition mapSorted :: "('k::linorder, 'v) stdMap \<Rightarrow> bool" where
  "mapSorted m \<longleftrightarrow> sorted_wrt (<) (map fst m)"

lemma mapPut_lookup: "map_of (mapPut k v m) = (map_of m)(k \<mapsto> v)"
proof (induction m)
  case (Cons p m)
  then show ?case by (cases p) (auto simp: fun_eq_iff)
qed auto

lemma mapPut_keys: "set (map fst (mapPut k v m)) = insert k (set (map fst m))"
proof (induction m)
  case (Cons p m)
  then show ?case by (cases p) auto
qed auto

lemma mapPut_sorted: "mapSorted m \<Longrightarrow> mapSorted (mapPut k v m)"
proof (induction m)
  case (Cons p m)
  obtain k' v' where p: "p = (k', v')" by fastforce
  show ?case
  proof (cases "k < k' \<or> k = k'")
    case True
    with Cons.prems p show ?thesis by (auto simp: mapSorted_def)
  next
    case False
    then have "k' < k" by auto
    moreover have "\<forall>x \<in> fst ` set m. k' < x" "mapSorted m"
      using Cons.prems p by (auto simp: mapSorted_def)
    ultimately have "\<forall>x \<in> set (map fst (mapPut k v m)). k' < x" "mapSorted (mapPut k v m)"
      unfolding mapPut_keys using Cons.IH by auto
    with False p show ?thesis by (auto simp: mapSorted_def)
  qed
qed (auto simp: mapSorted_def)

lemma mapSorted_distinct: "mapSorted m \<Longrightarrow> distinct (map fst m)"
  unfolding mapSorted_def by (induction m) auto

lemma mapPut_mapSorted_set:
  "mapSorted m \<Longrightarrow> set (mapPut k v m) = insert (k, v) {p \<in> set m. fst p \<noteq> k}"
proof -
  assume "mapSorted m"
  then have d: "distinct (map fst m)" "distinct (map fst (mapPut k v m))"
    by (auto intro: mapSorted_distinct mapPut_sorted)
  have "(a, b) \<in> set (mapPut k v m) \<longleftrightarrow> (a, b) \<in> insert (k, v) {p \<in> set m. fst p \<noteq> k}" for a b
    using map_of_eq_Some_iff [OF d(1), of a b] map_of_eq_Some_iff [OF d(2), of a b]
    by (auto simp: mapPut_lookup split: if_splits)
  then show ?thesis by auto
qed

section \<open>The environment of a slot\<close>

text \<open>
  What the code asks of \<^verbatim>\<open>SCPDriver\<close> and \<^verbatim>\<open>LocalNode\<close>: the identity and quorum set of the local
  node, the quorum set for a hash (\<open>None\<close> for a null pointer), the validity of a value, the
  signature of a statement, the valid part of a value, the value combined from candidates and the
  hashes of nodes and values. The driver is application code; its answers are parameters.
\<close>

datatype ValidationLevel = kInvalidValue | kMaybeValidValue | kFullyValidatedValue

record scp_env =
  localNodeID :: NodeID
  localQSet :: SCPQuorumSet
  localQSetHash :: Hash
  localIsValidator :: bool
  envSlotIndex :: uint64
  driverGetQSet :: "Hash \<Rightarrow> SCPQuorumSet option"
  driverValidateValue :: "Value \<Rightarrow> bool \<Rightarrow> ValidationLevel"
  driverSign :: "SCPStatement \<Rightarrow> Signature"
  driverExtractValidValue :: "Value \<Rightarrow> Value option"
  driverCombineCandidates :: "Value list \<Rightarrow> Value option"
  driverComputeHashNode :: "uint64 \<Rightarrow> Value \<Rightarrow> bool \<Rightarrow> int \<Rightarrow> NodeID \<Rightarrow> uint64"
  driverComputeValueHash :: "uint64 \<Rightarrow> Value \<Rightarrow> int \<Rightarrow> Value \<Rightarrow> uint64"

end
