(* ===== verification/SlotState.thy ===== *)
theory SlotState
  imports SCPTypes
begin

text \<open>
  The state of a slot (\<^verbatim>\<open>scp/Slot.h\<close>, with the members of \<^verbatim>\<open>BallotProtocol\<close> and
  \<^verbatim>\<open>NominationProtocol\<close> it owns), the failures of the code as an error type, and the operations of
  \<^verbatim>\<open>scp/Slot.cpp\<close> that both protocols call: federated voting, the quorum set of a statement,
  envelopes, the statement history and the v-blocking flag.
\<close>

section \<open>Failures\<close>

text \<open>
  \<open>Abort\<close> is a failed \<^verbatim>\<open>dbgAssert\<close> or a call of \<^verbatim>\<open>abort()\<close>, \<open>NullPointer\<close> the
  dereference of an empty pointer, \<open>RuntimeError\<close> a thrown \<^verbatim>\<open>std::runtime_error\<close>.
  \<open>OutOfFuel\<close> is not a failure of the code: it marks a run that the recursion bound of the model cut off.
\<close>

datatype scp_error = Abort | NullPointer | RuntimeError string | OutOfFuel

type_synonym 'a res = "scp_error + 'a"

definition dbgAssert :: "bool \<Rightarrow> unit res" where
  "dbgAssert c = (if c then Inr () else Inl Abort)"

definition deref :: "'a option \<Rightarrow> 'a res" where
  "deref p = (case p of None \<Rightarrow> Inl NullPointer | Some x \<Rightarrow> Inr x)"

lemma dbgAssert_simps [simp]: "dbgAssert True = Inr ()" "dbgAssert False = Inl Abort"
  by (simp_all add: dbgAssert_def)

lemma dbgAssert_Inr_iff: "dbgAssert c = Inr u \<longleftrightarrow> c"
  by (simp add: dbgAssert_def)

lemma deref_simps [simp]: "deref None = Inl NullPointer" "deref (Some x) = Inr x"
  by (simp_all add: deref_def)

lemma deref_Inr_iff: "deref p = Inr x \<longleftrightarrow> p = Some x"
  by (cases p) auto

lemmas res_iffs = bindE_Inr_iff dbgAssert_Inr_iff deref_Inr_iff

section \<open>State\<close>

datatype EnvelopeState = INVALID | VALID

datatype SCPPhase = SCP_PHASE_PREPARE | SCP_PHASE_CONFIRM | SCP_PHASE_EXTERNALIZE

text \<open>
  The calls into the driver that are visible outside the slot, in order: emitted envelopes, timers
  (\<open>None\<close> cancels; the timeout is in seconds) and notifications.
\<close>

datatype driver_call =
    EmitEnvelope SCPEnvelope
  | SetupBallotTimer "nat option"
  | SetupNominationTimer nat
  | StartedBallotProtocol SCPBallot
  | AcceptedBallotPrepared SCPBallot
  | ConfirmedBallotPrepared SCPBallot
  | AcceptedCommit SCPBallot
  | BallotDidHearFromQuorum SCPBallot
  | ValueExternalized Value
  | NominatingValue Value
  | UpdatedCandidateValue Value

record nomination_state =
  mRoundNumber :: int
  mVotes :: "Value list"
  mAccepted :: "Value list"
  mCandidates :: "Value list"
  mLatestNominations :: "SCPEnvelope nodeMap"
  mLastNomination :: "SCPEnvelope option"
  mRoundLeaders :: "NodeID list"
  mNominationStarted :: bool
  mLatestCompositeCandidate :: "Value option"
  mPreviousValue :: Value

record ballot_state =
  mHeardFromQuorum :: bool
  mCurrentBallot :: "SCPBallot option"
  mPrepared :: "SCPBallot option"
  mPreparedPrime :: "SCPBallot option"
  mHighBallot :: "SCPBallot option"
  mCommit :: "SCPBallot option"
  mLatestEnvelopes :: "SCPEnvelope nodeMap"
  mPhase :: SCPPhase
  mValueOverride :: "Value option"
  mCurrentMessageLevel :: nat
  mLastEnvelope :: "SCPEnvelope option"
  mLastEnvelopeEmit :: "SCPEnvelope option"

record slot_state = ballot_state +
  mNomination :: nomination_state
  mFullyValidated :: bool
  mGotVBlocking :: bool
  mStatementsHistory :: "(SCPStatement \<times> bool) list"
  driverCalls :: "driver_call list"

definition NominationProtocol :: nomination_state where
  "NominationProtocol =
     \<lparr>mRoundNumber = 0, mVotes = [], mAccepted = [], mCandidates = [], mLatestNominations = [],
      mLastNomination = None, mRoundLeaders = [], mNominationStarted = False,
      mLatestCompositeCandidate = None, mPreviousValue = []\<rparr>"

text \<open>A slot as its constructor (and those of the two protocols) leaves it.\<close>

definition Slot :: "scp_env \<Rightarrow> slot_state" where
  "Slot env =
     \<lparr>mHeardFromQuorum = False, mCurrentBallot = None, mPrepared = None, mPreparedPrime = None,
      mHighBallot = None, mCommit = None, mLatestEnvelopes = [], mPhase = SCP_PHASE_PREPARE,
      mValueOverride = None, mCurrentMessageLevel = 0, mLastEnvelope = None,
      mLastEnvelopeEmit = None, mNomination = NominationProtocol,
      mFullyValidated = localIsValidator env, mGotVBlocking = False, mStatementsHistory = [],
      driverCalls = []\<rparr>"

definition callDriver :: "driver_call \<Rightarrow> slot_state \<Rightarrow> slot_state" where
  "callDriver c s = s\<lparr>driverCalls := driverCalls s @ [c]\<rparr>"

section \<open>Operations of the slot\<close>

text \<open>The history keeps what the code keeps but for the wall-clock time of arrival.\<close>

definition recordStatement :: "SCPStatement \<Rightarrow> slot_state \<Rightarrow> slot_state" where
  "recordStatement st s =
     s\<lparr>mStatementsHistory := mStatementsHistory s @ [(st, mFullyValidated s)]\<rparr>"

definition setFullyValidated :: "bool \<Rightarrow> slot_state \<Rightarrow> slot_state" where
  "setFullyValidated fullyValidated s = s\<lparr>mFullyValidated := fullyValidated\<rparr>"

definition createEnvelope :: "scp_env \<Rightarrow> SCPPledges \<Rightarrow> SCPEnvelope" where
  "createEnvelope env pl =
     (let mySt = \<lparr>nodeID = localNodeID env, slotIndex = envSlotIndex env, pledges = pl\<rparr>
      in \<lparr>statement = mySt, signature = driverSign env mySt\<rparr>)"

fun companionHash :: "SCPPledges \<Rightarrow> Hash" where
  "companionHash (PREPARE h _ _ _ _ _) = h"
| "companionHash (CONFIRM _ _ _ _ h) = h"
| "companionHash (EXTERNALIZE _ _ h) = h"
| "companionHash (NOMINATE h _ _) = h"

definition getCompanionQuorumSetHashFromStatement :: "SCPStatement \<Rightarrow> Hash" where
  "getCompanionQuorumSetHashFromStatement st = companionHash (pledges st)"

definition getQuorumSetFromStatement :: "scp_env \<Rightarrow> SCPStatement \<Rightarrow> SCPQuorumSet option" where
  "getQuorumSetFromStatement env st =
     (case pledges st of
        EXTERNALIZE _ _ _ \<Rightarrow> Some (getSingletonQSet (nodeID st))
      | PREPARE h _ _ _ _ _ \<Rightarrow> driverGetQSet env h
      | CONFIRM _ _ _ _ h \<Rightarrow> driverGetQSet env h
      | NOMINATE h _ _ \<Rightarrow> driverGetQSet env h)"

definition federatedAccept ::
    "scp_env \<Rightarrow> (SCPStatement \<Rightarrow> bool) \<Rightarrow> (SCPStatement \<Rightarrow> bool) \<Rightarrow> SCPEnvelope nodeMap \<Rightarrow> bool" where
  "federatedAccept env voted accepted envs =
     (if isVBlockingFilter (localQSet env) envs (\<lambda>e. accepted (statement e)) then True
      else if isQuorum (localQSet env) envs (\<lambda>e. getQuorumSetFromStatement env (statement e))
                (\<lambda>e. accepted (statement e) \<or> voted (statement e)) then True
      else False)"

definition federatedRatify ::
    "scp_env \<Rightarrow> (SCPStatement \<Rightarrow> bool) \<Rightarrow> SCPEnvelope nodeMap \<Rightarrow> bool" where
  "federatedRatify env voted envs =
     isQuorum (localQSet env) envs (\<lambda>e. getQuorumSetFromStatement env (statement e))
       (\<lambda>e. voted (statement e))"

text \<open>The latest message of a node: of the ballot protocol if there is one, else of the nomination.\<close>

definition getLatestMessage :: "NodeID \<Rightarrow> slot_state \<Rightarrow> SCPEnvelope option" where
  "getLatestMessage n s =
     (case map_of (mLatestEnvelopes s) n of
        None \<Rightarrow> map_of (mLatestNominations (mNomination s)) n
      | Some e \<Rightarrow> Some e)"

definition maybeSetGotVBlocking :: "scp_env \<Rightarrow> slot_state \<Rightarrow> slot_state" where
  "maybeSetGotVBlocking env s =
     (if mGotVBlocking s then s
      else let nodes = snd (forAllNodes
                 (\<lambda>acc n. (True, if getLatestMessage n s \<noteq> None then acc @ [n] else acc))
                 (localQSet env) [])
           in s\<lparr>mGotVBlocking := isVBlocking (localQSet env) nodes\<rparr>)"

definition slotStopNomination :: "slot_state \<Rightarrow> slot_state" where
  "slotStopNomination s = s\<lparr>mNomination := (mNomination s)\<lparr>mNominationStarted := False\<rparr>\<rparr>"

text \<open>\<^verbatim>\<open>SCPDriver::computeTimeout\<close>, in seconds.\<close>

definition computeTimeout :: "uint32 \<Rightarrow> nat" where
  "computeTimeout roundNumber = (if unat roundNumber > 30 * 60 then 30 * 60 else unat roundNumber)"

section \<open>Federated voting\<close>

text \<open>
  What the two tests of the federated vote compute, as a contract: ratification is a quorum of
  voters, acceptance a v-blocking set of acceptors or a quorum of voters and acceptors.
\<close>

lemma visitNodes_fold: "visitNodes (\<lambda>acc n. (True, f acc n)) ns s = (True, fold (\<lambda>n acc. f acc n) ns s)"
  by (induction ns arbitrary: s) auto

lemma forAllNodes_fold:
  "forAllNodes (\<lambda>acc n. (True, f acc n)) q s = (True, fold (\<lambda>n acc. f acc n) (qnodes q) s)"
  and forAllNodesIn_fold:
  "forAllNodesIn (\<lambda>acc n. (True, f acc n)) qs s =
     (True, fold (\<lambda>n acc. f acc n) (concat (map qnodes qs)) s)"
  by (induction "\<lambda>acc n. (True, f acc n)" q s and "\<lambda>acc n. (True, f acc n)" qs s
      rule: forAllNodes_forAllNodesIn.induct) (auto simp: visitNodes_fold)

lemma federatedRatify_imp_Accept:
  assumes "federatedRatify env accepted envs" and "\<And>st. accepted st \<Longrightarrow> accepted' st \<or> voted st"
    and "distinct (map fst envs)"
  shows "federatedAccept env voted accepted' envs"
proof -
  have "isQuorum (localQSet env) envs (\<lambda>e. getQuorumSetFromStatement env (statement e))
      (\<lambda>e. accepted' (statement e) \<or> voted (statement e))"
    using assms(1,2) unfolding federatedRatify_def isQuorum_iff [OF assms(3)] by metis
  then show ?thesis by (simp add: federatedAccept_def)
qed

end
