(* ===== verification/BallotProtocol.thy ===== *)
theory BallotProtocol
  imports SlotState
begin

text \<open>
  \<^verbatim>\<open>scp/BallotProtocol.cpp\<close>: the ballot state machine of a slot. Operations take the slot state and
  return it changed, together with the boolean the code returns; failures are \<open>Inl\<close>. A statement
  the node generates is fed back through \<^verbatim>\<open>Slot::processEnvelope\<close>; that call is the parameter
  \<open>pe\<close> of the operations below and the knot is tied at the end of the theory.
\<close>

section \<open>Statements\<close>

text \<open>
  \<^verbatim>\<open>isNewerStatement(oldst, st)\<close>. The ballot protocol only holds statements that passed \<open>isStatementSane\<close>,
  which aborts on a nomination. On a nomination this function answers false where the code would throw, and
  the functions on pledges below return 0 or an empty list where it would abort.
\<close>

fun isNewerPledges :: "SCPPledges \<Rightarrow> SCPPledges \<Rightarrow> bool" where
  "isNewerPledges (CONFIRM oldBallot oldP _ oldH _) (CONFIRM ballot nP _ nH _) =
     (let compBallot = compareBallots oldBallot ballot
      in if compBallot < 0 then True
         else if compBallot = 0 then (if oldP = nP then oldH < nH else oldP < nP)
         else False)"
| "isNewerPledges (PREPARE _ oldBallot oldP oldP' _ oldH) (PREPARE _ ballot p p' _ nH) =
     (let compBallot = compareBallots oldBallot ballot
      in if compBallot < 0 then True
         else if compBallot = 0
         then (let compP = compareBallotsOpt oldP p
               in if compP < 0 then True
                  else if compP = 0
                  then (let compP' = compareBallotsOpt oldP' p'
                        in if compP' < 0 then True
                           else if compP' = 0 then oldH < nH
                           else False)
                  else False)
         else False)"
| "isNewerPledges (EXTERNALIZE _ _ _) (EXTERNALIZE _ _ _) = False"
| "isNewerPledges (NOMINATE _ _ _) (NOMINATE _ _ _) = False"
| "isNewerPledges old new = (pledgeType old < pledgeType new)"

definition isNewerStatement :: "SCPStatement \<Rightarrow> SCPStatement \<Rightarrow> bool" where
  "isNewerStatement oldst st = isNewerPledges (pledges oldst) (pledges st)"

definition isNewerStatementFor :: "NodeID \<Rightarrow> SCPStatement \<Rightarrow> slot_state \<Rightarrow> bool" where
  "isNewerStatementFor n st s =
     (case map_of (mLatestEnvelopes s) n of
        None \<Rightarrow> True
      | Some old \<Rightarrow> isNewerStatement (statement old) st)"

definition isStatementSane :: "scp_env \<Rightarrow> SCPStatement \<Rightarrow> bool \<Rightarrow> bool res" where
  "isStatementSane env st self =
     (case getQuorumSetFromStatement env st of
        None \<Rightarrow> Inr False
      | Some qSet \<Rightarrow>
          if \<not> fst (isQuorumSetSane qSet False) then Inr False
          else case pledges st of
                 PREPARE _ ballot prepared preparedPrime nC nH \<Rightarrow>
                   Inr ((self \<or> counter ballot > 0) \<and>
                        (case (preparedPrime, prepared) of
                           (Some p', Some p) \<Rightarrow> areBallotsLessAndIncompatible p' p
                         | _ \<Rightarrow> True) \<and>
                        (nH = 0 \<or> (case prepared of None \<Rightarrow> False | Some p \<Rightarrow> nH \<le> counter p)) \<and>
                        (nC = 0 \<or> (nH \<noteq> 0 \<and> counter ballot \<ge> nH \<and> nH \<ge> nC)))
               | CONFIRM ballot nPrepared nCommit nH _ \<Rightarrow>
                   Inr (counter ballot > 0 \<and> nH \<le> counter ballot \<and> nCommit \<le> nH)
               | EXTERNALIZE commit nH _ \<Rightarrow> Inr (counter commit > 0 \<and> nH \<ge> counter commit)
               | NOMINATE _ _ _ \<Rightarrow> Inl Abort)"

text \<open>
  The predicates on statements. A nomination is never among the ballot statements; the default
  branch of the code answers false for it after \<^verbatim>\<open>dbgAbort\<close>.
\<close>

fun votesToPrepare :: "SCPBallot \<Rightarrow> SCPPledges \<Rightarrow> bool" where
  "votesToPrepare ballot (PREPARE _ b _ _ _ _) = areBallotsLessAndCompatible ballot b"
| "votesToPrepare ballot (CONFIRM b _ _ _ _) = areBallotsCompatible ballot b"
| "votesToPrepare ballot (EXTERNALIZE c _ _) = areBallotsCompatible ballot c"
| "votesToPrepare ballot (NOMINATE _ _ _) = False"

fun hasPreparedPledges :: "SCPBallot \<Rightarrow> SCPPledges \<Rightarrow> bool" where
  "hasPreparedPledges ballot (PREPARE _ _ p p' _ _) =
     ((case p of None \<Rightarrow> False | Some x \<Rightarrow> areBallotsLessAndCompatible ballot x) \<or>
      (case p' of None \<Rightarrow> False | Some x \<Rightarrow> areBallotsLessAndCompatible ballot x))"
| "hasPreparedPledges ballot (CONFIRM b nPrepared _ _ _) =
     areBallotsLessAndCompatible ballot (SCPBallot nPrepared (bvalue b))"
| "hasPreparedPledges ballot (EXTERNALIZE c _ _) = areBallotsCompatible ballot c"
| "hasPreparedPledges ballot (NOMINATE _ _ _) = False"

definition hasPreparedBallot :: "SCPBallot \<Rightarrow> SCPStatement \<Rightarrow> bool" where
  "hasPreparedBallot ballot st = hasPreparedPledges ballot (pledges st)"

type_synonym Interval = "uint32 \<times> uint32"

fun commitPledges :: "SCPBallot \<Rightarrow> Interval \<Rightarrow> SCPPledges \<Rightarrow> bool" where
  "commitPledges ballot check (PREPARE _ _ _ _ _ _) = False"
| "commitPledges ballot check (CONFIRM b _ nCommit nH _) =
     (areBallotsCompatible ballot b \<and> nCommit \<le> fst check \<and> snd check \<le> nH)"
| "commitPledges ballot check (EXTERNALIZE c _ _) =
     (areBallotsCompatible ballot c \<and> counter c \<le> fst check)"
| "commitPledges ballot check (NOMINATE _ _ _) = False"

definition commitPredicate :: "SCPBallot \<Rightarrow> Interval \<Rightarrow> SCPStatement \<Rightarrow> bool" where
  "commitPredicate ballot check st = commitPledges ballot check (pledges st)"

text \<open>The votes \<^verbatim>\<open>attemptAcceptCommit\<close> counts for an interval.\<close>

fun votesToCommit :: "SCPBallot \<Rightarrow> Interval \<Rightarrow> SCPPledges \<Rightarrow> bool" where
  "votesToCommit ballot cur (PREPARE _ b _ _ nC nH) =
     (areBallotsCompatible ballot b \<and> nC \<noteq> 0 \<and> nC \<le> fst cur \<and> snd cur \<le> nH)"
| "votesToCommit ballot cur (CONFIRM b _ nCommit _ _) =
     (areBallotsCompatible ballot b \<and> nCommit \<le> fst cur)"
| "votesToCommit ballot cur (EXTERNALIZE c _ _) =
     (areBallotsCompatible ballot c \<and> counter c \<le> fst cur)"
| "votesToCommit ballot cur (NOMINATE _ _ _) = False"

fun workingBallot :: "SCPPledges \<Rightarrow> SCPBallot" where
  "workingBallot (PREPARE _ b _ _ _ _) = b"
| "workingBallot (CONFIRM b _ nCommit _ _) = SCPBallot nCommit (bvalue b)"
| "workingBallot (EXTERNALIZE c _ _) = c"
| "workingBallot (NOMINATE _ _ _) = SCPBallot 0 []"

definition getWorkingBallot :: "SCPStatement \<Rightarrow> SCPBallot" where
  "getWorkingBallot st = workingBallot (pledges st)"

text \<open>\<^verbatim>\<open>std::set\<close> from the elements inserted.\<close>

definition stdSet :: "'a::linorder list \<Rightarrow> 'a list" where
  "stdSet xs = sort (remdups xs)"

fun statementValues :: "SCPPledges \<Rightarrow> Value list" where
  "statementValues (PREPARE _ b p p' _ _) =
     stdSet ((if counter b \<noteq> 0 then [bvalue b] else []) @
             (case p of None \<Rightarrow> [] | Some x \<Rightarrow> [bvalue x]) @
             (case p' of None \<Rightarrow> [] | Some x \<Rightarrow> [bvalue x]))"
| "statementValues (CONFIRM b _ _ _ _) = [bvalue b]"
| "statementValues (EXTERNALIZE c _ _) = [bvalue c]"
| "statementValues (NOMINATE _ _ _) = []"

definition getStatementValues :: "SCPStatement \<Rightarrow> Value list" where
  "getStatementValues st = statementValues (pledges st)"

fun minLevel :: "ValidationLevel \<Rightarrow> ValidationLevel \<Rightarrow> ValidationLevel" where
  "minLevel kInvalidValue _ = kInvalidValue"
| "minLevel _ kInvalidValue = kInvalidValue"
| "minLevel kMaybeValidValue _ = kMaybeValidValue"
| "minLevel _ kMaybeValidValue = kMaybeValidValue"
| "minLevel kFullyValidatedValue kFullyValidatedValue = kFullyValidatedValue"

definition validateValues :: "scp_env \<Rightarrow> SCPStatement \<Rightarrow> ValidationLevel" where
  "validateValues env st =
     (let values = getStatementValues st
      in if values = [] then kInvalidValue
         else fold (\<lambda>v lv. if lv \<noteq> kInvalidValue then minLevel (driverValidateValue env v False) lv
                           else lv)
                values kFullyValidatedValue)"

section \<open>Invariants, ballots and emission\<close>

definition checkInvariants :: "slot_state \<Rightarrow> unit res" where
  "checkInvariants s =
     bindE (case mCurrentBallot s of None \<Rightarrow> Inr () | Some b \<Rightarrow> dbgAssert (counter b \<noteq> 0)) (\<lambda>_.
     bindE (case (mPrepared s, mPreparedPrime s) of
              (Some p, Some p') \<Rightarrow> dbgAssert (areBallotsLessAndIncompatible p' p)
            | _ \<Rightarrow> Inr ()) (\<lambda>_.
     bindE (case mHighBallot s of
              None \<Rightarrow> Inr ()
            | Some h \<Rightarrow>
                (case mCurrentBallot s of
                   None \<Rightarrow> Inl Abort
                 | Some b \<Rightarrow> dbgAssert (areBallotsLessAndCompatible h b))) (\<lambda>_.
     bindE (case mCommit s of
              None \<Rightarrow> Inr ()
            | Some c \<Rightarrow>
                (case mCurrentBallot s of
                   None \<Rightarrow> Inl Abort
                 | Some b \<Rightarrow>
                     bindE (deref (mHighBallot s)) (\<lambda>h.
                     bindE (dbgAssert (areBallotsLessAndCompatible c h)) (\<lambda>_.
                     dbgAssert (areBallotsLessAndCompatible h b))))) (\<lambda>_.
     case mPhase s of
       SCP_PHASE_PREPARE \<Rightarrow> Inr ()
     | SCP_PHASE_CONFIRM \<Rightarrow> dbgAssert (mCommit s \<noteq> None)
     | SCP_PHASE_EXTERNALIZE \<Rightarrow>
         bindE (dbgAssert (mCommit s \<noteq> None)) (\<lambda>_. dbgAssert (mHighBallot s \<noteq> None))))))"

definition bumpToBallot :: "SCPBallot \<Rightarrow> bool \<Rightarrow> slot_state \<Rightarrow> slot_state res" where
  "bumpToBallot ballot check s =
     bindE (dbgAssert (mPhase s \<noteq> SCP_PHASE_EXTERNALIZE)) (\<lambda>_.
     bindE (dbgAssert (check \<longrightarrow> (case mCurrentBallot s of
                                    None \<Rightarrow> True
                                  | Some cur \<Rightarrow> compareBallots ballot cur \<ge> 0))) (\<lambda>_.
     let gotBumped = (case mCurrentBallot s of None \<Rightarrow> True | Some cur \<Rightarrow> counter cur \<noteq> counter ballot);
         s1 = (if mCurrentBallot s = None then callDriver (StartedBallotProtocol ballot) s else s);
         s2 = s1\<lparr>mCurrentBallot := Some ballot\<rparr>;
         s3 = (case mHighBallot s2 of
                 None \<Rightarrow> s2
               | Some h \<Rightarrow> if areBallotsCompatible ballot h then s2
                           else s2\<lparr>mHighBallot := None, mCommit := None\<rparr>)
     in Inr (if gotBumped then s3\<lparr>mHeardFromQuorum := False\<rparr> else s3)))"

definition updateCurrentIfNeeded :: "SCPBallot \<Rightarrow> slot_state \<Rightarrow> (bool \<times> slot_state) res" where
  "updateCurrentIfNeeded h s =
     (if (case mCurrentBallot s of None \<Rightarrow> True | Some cur \<Rightarrow> compareBallots cur h < 0)
      then bindE (bumpToBallot h True s) (\<lambda>s'. Inr (True, s'))
      else Inr (False, s))"

definition updateCurrentValue :: "SCPBallot \<Rightarrow> slot_state \<Rightarrow> (bool \<times> slot_state) res" where
  "updateCurrentValue ballot s =
     (if mPhase s \<noteq> SCP_PHASE_PREPARE \<and> mPhase s \<noteq> SCP_PHASE_CONFIRM then Inr (False, s)
      else case mCurrentBallot s of
             None \<Rightarrow>
               bindE (bumpToBallot ballot True s) (\<lambda>s'.
               bindE (checkInvariants s') (\<lambda>_. Inr (True, s')))
           | Some cur \<Rightarrow>
               bindE (dbgAssert (compareBallots cur ballot \<le> 0)) (\<lambda>_.
               if (case mCommit s of None \<Rightarrow> False | Some c \<Rightarrow> \<not> areBallotsCompatible c ballot)
               then Inr (False, s)
               else if compareBallots cur ballot < 0
               then bindE (bumpToBallot ballot True s) (\<lambda>s'.
                    bindE (checkInvariants s') (\<lambda>_. Inr (True, s')))
               else if compareBallots cur ballot > 0 then Inr (False, s)
               else bindE (checkInvariants s) (\<lambda>_. Inr (False, s))))"

definition createStatement :: "scp_env \<Rightarrow> slot_state \<Rightarrow> SCPPledges res" where
  "createStatement env s =
     bindE (checkInvariants s) (\<lambda>_.
     case mPhase s of
       SCP_PHASE_PREPARE \<Rightarrow>
         Inr (PREPARE (localQSetHash env)
                (case mCurrentBallot s of None \<Rightarrow> SCPBallot 0 [] | Some b \<Rightarrow> b)
                (mPrepared s) (mPreparedPrime s)
                (case mCommit s of None \<Rightarrow> 0 | Some c \<Rightarrow> counter c)
                (case mHighBallot s of None \<Rightarrow> 0 | Some h \<Rightarrow> counter h))
     | SCP_PHASE_CONFIRM \<Rightarrow>
         bindE (deref (mCurrentBallot s)) (\<lambda>b.
         bindE (deref (mPrepared s)) (\<lambda>p.
         bindE (deref (mCommit s)) (\<lambda>c.
         bindE (deref (mHighBallot s)) (\<lambda>h.
         Inr (CONFIRM b (counter p) (counter c) (counter h) (localQSetHash env))))))
     | SCP_PHASE_EXTERNALIZE \<Rightarrow>
         bindE (deref (mCommit s)) (\<lambda>c.
         bindE (deref (mHighBallot s)) (\<lambda>h.
         Inr (EXTERNALIZE c (counter h) (localQSetHash env)))))"

text \<open>
  \<^verbatim>\<open>mLastEnvelope != mLastEnvelopeEmit\<close> compares pointers; the last envelope is only ever replaced by
  a strictly newer one, so comparing the envelopes is the same.
\<close>

definition sendLatestEnvelope :: "slot_state \<Rightarrow> slot_state" where
  "sendLatestEnvelope s =
     (case mLastEnvelope s of
        None \<Rightarrow> s
      | Some e \<Rightarrow>
          if mCurrentMessageLevel s = 0 \<and> mFullyValidated s \<and> mLastEnvelopeEmit s \<noteq> Some e
          then callDriver (EmitEnvelope e) (s\<lparr>mLastEnvelopeEmit := Some e\<rparr>)
          else s)"

type_synonym process_self = "SCPEnvelope \<Rightarrow> slot_state \<Rightarrow> (EnvelopeState \<times> slot_state) res"

definition emitCurrentStateStatement :: "scp_env \<Rightarrow> process_self \<Rightarrow> slot_state \<Rightarrow> slot_state res" where
  "emitCurrentStateStatement env pe s =
     bindE (createStatement env s) (\<lambda>pl.
     let envelope = createEnvelope env pl;
         canEmit = (mCurrentBallot s \<noteq> None)
     in if map_of (mLatestEnvelopes s) (localNodeID env) = Some envelope then Inr s
        else bindE (pe envelope s) (\<lambda>(r, s').
             if r = VALID
             then if canEmit \<and> (case mLastEnvelope s' of
                                  None \<Rightarrow> True
                                | Some lastE \<Rightarrow> isNewerStatement (statement lastE) (statement envelope))
                  then Inr (sendLatestEnvelope (s'\<lparr>mLastEnvelope := Some envelope\<rparr>))
                  else Inr s'
             else Inl (RuntimeError ''moved to a bad state (ballot protocol)'')))"

section \<open>Preparing ballots\<close>

fun hintBallots :: "SCPPledges \<Rightarrow> SCPBallot list" where
  "hintBallots (PREPARE _ b p p' _ _) =
     [b] @ (case p of None \<Rightarrow> [] | Some x \<Rightarrow> [x]) @ (case p' of None \<Rightarrow> [] | Some x \<Rightarrow> [x])"
| "hintBallots (CONFIRM b nPrepared _ _ _) =
     [SCPBallot nPrepared (bvalue b), SCPBallot UINT32_MAX (bvalue b)]"
| "hintBallots (EXTERNALIZE c _ _) = [SCPBallot UINT32_MAX (bvalue c)]"
| "hintBallots (NOMINATE _ _ _) = []"

fun candidatesFrom :: "SCPBallot \<Rightarrow> SCPPledges \<Rightarrow> SCPBallot list" where
  "candidatesFrom topVote (PREPARE _ b p p' _ _) =
     (if areBallotsLessAndCompatible b topVote then [b] else []) @
     (case p of None \<Rightarrow> [] | Some x \<Rightarrow> if areBallotsLessAndCompatible x topVote then [x] else []) @
     (case p' of None \<Rightarrow> [] | Some x \<Rightarrow> if areBallotsLessAndCompatible x topVote then [x] else [])"
| "candidatesFrom topVote (CONFIRM b nPrepared _ _ _) =
     (if areBallotsCompatible topVote b
      then topVote # (if nPrepared < counter topVote then [SCPBallot nPrepared (bvalue topVote)] else [])
      else [])"
| "candidatesFrom topVote (EXTERNALIZE c _ _) =
     (if areBallotsCompatible topVote c then [topVote] else [])"
| "candidatesFrom topVote (NOMINATE _ _ _) = []"

text \<open>
  The candidates as the ascending sequence of a \<^verbatim>\<open>std::set\<close>. The hint ballots are consumed from the
  highest down, which does not matter for the set that results.
\<close>

definition getPrepareCandidates :: "SCPPledges \<Rightarrow> slot_state \<Rightarrow> SCPBallot list" where
  "getPrepareCandidates hint s =
     stdSet (concat (map (\<lambda>topVote. concat (map (\<lambda>(_, e). candidatesFrom topVote (pledges (statement e)))
                                          (mLatestEnvelopes s)))
                       (rev (stdSet (hintBallots hint)))))"

definition setPrepared :: "SCPBallot \<Rightarrow> slot_state \<Rightarrow> bool \<times> slot_state" where
  "setPrepared ballot s =
     (case mPrepared s of
        None \<Rightarrow> (True, s\<lparr>mPrepared := Some ballot\<rparr>)
      | Some p \<Rightarrow>
          let cmp = compareBallots p ballot
          in if cmp < 0
             then (True, (if areBallotsCompatible p ballot then s else s\<lparr>mPreparedPrime := Some p\<rparr>)
                          \<lparr>mPrepared := Some ballot\<rparr>)
             else if cmp > 0
             then (if (case mPreparedPrime s of
                         None \<Rightarrow> True
                       | Some p' \<Rightarrow> compareBallots p' ballot < 0 \<and> \<not> areBallotsCompatible p ballot)
                   then (True, s\<lparr>mPreparedPrime := Some ballot\<rparr>)
                   else (False, s))
             else (False, s))"

definition setAcceptPrepared ::
    "scp_env \<Rightarrow> process_self \<Rightarrow> SCPBallot \<Rightarrow> slot_state \<Rightarrow> (bool \<times> slot_state) res" where
  "setAcceptPrepared env pe ballot s =
     (let (didWork, s1) = setPrepared ballot s;
          clearC = (case (mCommit s1, mHighBallot s1) of
                      (Some _, Some h) \<Rightarrow>
                        (case mPrepared s1 of None \<Rightarrow> False | Some p \<Rightarrow> areBallotsLessAndIncompatible h p) \<or>
                        (case mPreparedPrime s1 of None \<Rightarrow> False | Some p' \<Rightarrow> areBallotsLessAndIncompatible h p')
                    | _ \<Rightarrow> False)
      in bindE (dbgAssert (clearC \<longrightarrow> mPhase s1 = SCP_PHASE_PREPARE)) (\<lambda>_.
         let s2 = (if clearC then s1\<lparr>mCommit := None\<rparr> else s1)
         in if didWork \<or> clearC
            then bindE (emitCurrentStateStatement env pe (callDriver (AcceptedBallotPrepared ballot) s2))
                   (\<lambda>s3. Inr (True, s3))
            else Inr (False, s2)))"

text \<open>
  The loop of \<^verbatim>\<open>attemptAcceptPrepared\<close>: \<open>skipPrepared\<close> is the chain of \<^verbatim>\<open>continue\<close> tests, and the scan
  returns the first candidate that is not skipped and is accepted.
\<close>

definition skipPrepared :: "SCPBallot \<Rightarrow> slot_state \<Rightarrow> bool res" where
  "skipPrepared ballot s =
     bindE (if mPhase s = SCP_PHASE_CONFIRM
            then bindE (deref (mPrepared s)) (\<lambda>p.
                 if \<not> areBallotsLessAndCompatible p ballot then Inr True
                 else bindE (deref (mCommit s)) (\<lambda>c.
                      bindE (dbgAssert (areBallotsCompatible c ballot)) (\<lambda>_. Inr False)))
            else Inr False) (\<lambda>skip.
     if skip then Inr True
     else if (case mPreparedPrime s of None \<Rightarrow> False | Some p' \<Rightarrow> compareBallots ballot p' \<le> 0)
     then Inr True
     else if (case mPrepared s of None \<Rightarrow> False | Some p \<Rightarrow> areBallotsLessAndCompatible ballot p)
     then Inr True
     else Inr False)"

definition acceptsPrepared :: "scp_env \<Rightarrow> SCPBallot \<Rightarrow> slot_state \<Rightarrow> bool" where
  "acceptsPrepared env ballot s =
     federatedAccept env (\<lambda>st. votesToPrepare ballot (pledges st)) (hasPreparedBallot ballot)
       (mLatestEnvelopes s)"

fun scanAcceptPrepared :: "scp_env \<Rightarrow> SCPBallot list \<Rightarrow> slot_state \<Rightarrow> SCPBallot option res" where
  "scanAcceptPrepared env [] s = Inr None"
| "scanAcceptPrepared env (ballot # cands) s =
     bindE (skipPrepared ballot s) (\<lambda>skip.
     if skip then scanAcceptPrepared env cands s
     else if acceptsPrepared env ballot s then Inr (Some ballot)
     else scanAcceptPrepared env cands s)"

definition attemptAcceptPrepared ::
    "scp_env \<Rightarrow> process_self \<Rightarrow> SCPPledges \<Rightarrow> slot_state \<Rightarrow> (bool \<times> slot_state) res" where
  "attemptAcceptPrepared env pe hint s =
     (if mPhase s \<noteq> SCP_PHASE_PREPARE \<and> mPhase s \<noteq> SCP_PHASE_CONFIRM then Inr (False, s)
      else bindE (scanAcceptPrepared env (rev (getPrepareCandidates hint s)) s) (\<lambda>found.
           case found of None \<Rightarrow> Inr (False, s) | Some ballot \<Rightarrow> setAcceptPrepared env pe ballot s))"

definition ratifiesPrepared :: "scp_env \<Rightarrow> SCPBallot \<Rightarrow> slot_state \<Rightarrow> bool" where
  "ratifiesPrepared env ballot s = federatedRatify env (hasPreparedBallot ballot) (mLatestEnvelopes s)"

text \<open>
  The first loop of \<^verbatim>\<open>attemptConfirmPrepared\<close> finds \<^verbatim>\<open>newH\<close> and leaves the iterator on it; the second
  goes on from there and lowers \<^verbatim>\<open>newC\<close> as long as the ballots are ratified.
\<close>

fun scanConfirmPrepared :: "scp_env \<Rightarrow> SCPBallot list \<Rightarrow> slot_state \<Rightarrow> (SCPBallot \<times> SCPBallot list) option"
where
  "scanConfirmPrepared env [] s = None"
| "scanConfirmPrepared env (ballot # cands) s =
     (if (case mHighBallot s of None \<Rightarrow> False | Some h \<Rightarrow> compareBallots h ballot \<ge> 0) then None
      else if ratifiesPrepared env ballot s then Some (ballot, ballot # cands)
      else scanConfirmPrepared env cands s)"

fun scanCommit ::
    "scp_env \<Rightarrow> SCPBallot \<Rightarrow> SCPBallot \<Rightarrow> SCPBallot list \<Rightarrow> slot_state \<Rightarrow> SCPBallot \<Rightarrow> SCPBallot" where
  "scanCommit env b newH [] s newC = newC"
| "scanCommit env b newH (ballot # cands) s newC =
     (if compareBallots ballot b < 0 then newC
      else if \<not> areBallotsLessAndCompatible ballot newH then scanCommit env b newH cands s newC
      else if ratifiesPrepared env ballot s then scanCommit env b newH cands s ballot
      else newC)"

text \<open>
  \<^verbatim>\<open>setConfirmPrepared\<close>; its first part, which sets \<^verbatim>\<open>h\<close> and \<^verbatim>\<open>c\<close> on a compatible ballot, is
  \<open>setHighAndCommit\<close>.
\<close>

definition setHighAndCommit :: "SCPBallot \<Rightarrow> SCPBallot \<Rightarrow> slot_state \<Rightarrow> (bool \<times> slot_state) res" where
  "setHighAndCommit newC newH s =
     (let raiseH = (case mHighBallot s of None \<Rightarrow> True | Some h \<Rightarrow> compareBallots newH h > 0);
          s1 = (if raiseH then s\<lparr>mHighBallot := Some newH\<rparr> else s);
          setC = (counter newC \<noteq> 0)
      in bindE (dbgAssert (setC \<longrightarrow> mCommit s1 = None)) (\<lambda>_.
         let s2 = (if setC then s1\<lparr>mCommit := Some newC\<rparr> else s1);
             didWork = (raiseH \<or> setC)
         in Inr (didWork, if didWork then callDriver (ConfirmedBallotPrepared newH) s2 else s2)))"

definition setConfirmPrepared ::
    "scp_env \<Rightarrow> process_self \<Rightarrow> SCPBallot \<Rightarrow> SCPBallot \<Rightarrow> slot_state \<Rightarrow> (bool \<times> slot_state) res" where
  "setConfirmPrepared env pe newC newH s0 =
     (let s = s0\<lparr>mValueOverride := Some (bvalue newH)\<rparr>
      in bindE (if (case mCurrentBallot s of None \<Rightarrow> True | Some b \<Rightarrow> areBallotsCompatible b newH)
                then setHighAndCommit newC newH s
                else Inr (False, s)) (\<lambda>(didWork, s3).
         bindE (updateCurrentIfNeeded newH s3) (\<lambda>(updated, s4).
         if updated \<or> didWork
         then bindE (emitCurrentStateStatement env pe s4) (\<lambda>s5. Inr (True, s5))
         else Inr (False, s4))))"

definition attemptConfirmPrepared ::
    "scp_env \<Rightarrow> process_self \<Rightarrow> SCPPledges \<Rightarrow> slot_state \<Rightarrow> (bool \<times> slot_state) res" where
  "attemptConfirmPrepared env pe hint s =
     (if mPhase s \<noteq> SCP_PHASE_PREPARE \<or> mPrepared s = None then Inr (False, s)
      else case scanConfirmPrepared env (rev (getPrepareCandidates hint s)) s of
             None \<Rightarrow> Inr (False, s)
           | Some (newH, cands) \<Rightarrow>
               let b = (case mCurrentBallot s of None \<Rightarrow> SCPBallot 0 [] | Some b \<Rightarrow> b);
                   newC = (if mCommit s = None \<and>
                              (case mPrepared s of None \<Rightarrow> True
                               | Some p \<Rightarrow> \<not> areBallotsLessAndIncompatible newH p) \<and>
                              (case mPreparedPrime s of None \<Rightarrow> True
                               | Some p' \<Rightarrow> \<not> areBallotsLessAndIncompatible newH p')
                           then scanCommit env b newH cands s (SCPBallot 0 [])
                           else SCPBallot 0 [])
               in setConfirmPrepared env pe newC newH s)"

section \<open>Committing ballots\<close>

text \<open>The loop over the boundaries, given from the highest down; the candidate (0,0) means none yet.\<close>

fun findExtendedInterval :: "Interval \<Rightarrow> uint32 list \<Rightarrow> (Interval \<Rightarrow> bool) \<Rightarrow> Interval" where
  "findExtendedInterval candidate [] pred = candidate"
| "findExtendedInterval candidate (b # bs) pred =
     (if fst candidate = 0
      then findExtendedInterval (if pred (b, b) then (b, b) else candidate) bs pred
      else if b > snd candidate then findExtendedInterval candidate bs pred
      else if pred (b, snd candidate) then findExtendedInterval (b, snd candidate) bs pred
      else candidate)"

fun commitBoundaries :: "SCPBallot \<Rightarrow> SCPPledges \<Rightarrow> uint32 list" where
  "commitBoundaries ballot (PREPARE _ b _ _ nC nH) =
     (if areBallotsCompatible ballot b \<and> nC \<noteq> 0 then [nC, nH] else [])"
| "commitBoundaries ballot (CONFIRM b _ nCommit nH _) =
     (if areBallotsCompatible ballot b then [nCommit, nH] else [])"
| "commitBoundaries ballot (EXTERNALIZE c nH _) =
     (if areBallotsCompatible ballot c then [counter c, nH, UINT32_MAX] else [])"
| "commitBoundaries ballot (NOMINATE _ _ _) = []"

definition getCommitBoundariesFromStatements :: "SCPBallot \<Rightarrow> slot_state \<Rightarrow> uint32 list" where
  "getCommitBoundariesFromStatements ballot s =
     stdSet (concat (map (\<lambda>(_, e). commitBoundaries ballot (pledges (statement e))) (mLatestEnvelopes s)))"

text \<open>\<open>moveToConfirm\<close> is the branch of \<^verbatim>\<open>setAcceptCommit\<close> that leaves the first phase.\<close>

definition moveToConfirm :: "SCPBallot \<Rightarrow> slot_state \<Rightarrow> slot_state res" where
  "moveToConfirm h s =
     (let s1 = s\<lparr>mPhase := SCP_PHASE_CONFIRM\<rparr>
      in bindE (if (case mCurrentBallot s1 of
                      None \<Rightarrow> False
                    | Some b \<Rightarrow> \<not> areBallotsLessAndCompatible h b)
                then bumpToBallot h False s1 else Inr s1) (\<lambda>s2.
         Inr (s2\<lparr>mPreparedPrime := None\<rparr>)))"

definition setAcceptCommit ::
    "scp_env \<Rightarrow> process_self \<Rightarrow> SCPBallot \<Rightarrow> SCPBallot \<Rightarrow> slot_state \<Rightarrow> (bool \<times> slot_state) res" where
  "setAcceptCommit env pe c h s0 =
     (let s = s0\<lparr>mValueOverride := Some (bvalue h)\<rparr>;
          setCH = (case (mHighBallot s, mCommit s) of
                     (Some h0, Some c0) \<Rightarrow> compareBallots h0 h \<noteq> 0 \<or> compareBallots c0 c \<noteq> 0
                   | _ \<Rightarrow> True);
          s1 = (if setCH then s\<lparr>mCommit := Some c, mHighBallot := Some h\<rparr> else s);
          toConfirm = (mPhase s1 = SCP_PHASE_PREPARE)
      in bindE (if toConfirm then moveToConfirm h s1 else Inr s1) (\<lambda>s2.
         if setCH \<or> toConfirm
         then bindE (deref (mHighBallot s2)) (\<lambda>hb.
              bindE (updateCurrentIfNeeded hb s2) (\<lambda>(_, s3).
              bindE (emitCurrentStateStatement env pe (callDriver (AcceptedCommit h) s3)) (\<lambda>s4.
              Inr (True, s4))))
         else Inr (False, s2)))"

definition acceptsCommit :: "scp_env \<Rightarrow> SCPBallot \<Rightarrow> slot_state \<Rightarrow> Interval \<Rightarrow> bool" where
  "acceptsCommit env ballot s cur =
     federatedAccept env (\<lambda>st. votesToCommit ballot cur (pledges st)) (commitPredicate ballot cur)
       (mLatestEnvelopes s)"

definition ratifiesCommit :: "scp_env \<Rightarrow> SCPBallot \<Rightarrow> slot_state \<Rightarrow> Interval \<Rightarrow> bool" where
  "ratifiesCommit env ballot s cur = federatedRatify env (commitPredicate ballot cur) (mLatestEnvelopes s)"

text \<open>The ballot taken from the hint: \<open>None\<close> where the code returns false at once.\<close>

fun acceptCommitHint :: "SCPPledges \<Rightarrow> SCPBallot option res" where
  "acceptCommitHint (PREPARE _ b _ _ nC nH) = Inr (if nC \<noteq> 0 then Some (SCPBallot nH (bvalue b)) else None)"
| "acceptCommitHint (CONFIRM b _ _ nH _) = Inr (Some (SCPBallot nH (bvalue b)))"
| "acceptCommitHint (EXTERNALIZE c nH _) = Inr (Some (SCPBallot nH (bvalue c)))"
| "acceptCommitHint (NOMINATE _ _ _) = Inl Abort"

text \<open>The interval \<^verbatim>\<open>candidate\<close> that the search leaves for a ballot.\<close>

definition acceptCommitCandidate :: "scp_env \<Rightarrow> SCPBallot \<Rightarrow> slot_state \<Rightarrow> Interval" where
  "acceptCommitCandidate env ballot s =
     findExtendedInterval (0, 0) (rev (getCommitBoundariesFromStatements ballot s)) (acceptsCommit env ballot s)"

definition confirmCommitCandidate :: "scp_env \<Rightarrow> SCPBallot \<Rightarrow> slot_state \<Rightarrow> Interval" where
  "confirmCommitCandidate env ballot s =
     findExtendedInterval (0, 0) (rev (getCommitBoundariesFromStatements ballot s)) (ratifiesCommit env ballot s)"

definition attemptAcceptCommit ::
    "scp_env \<Rightarrow> process_self \<Rightarrow> SCPPledges \<Rightarrow> slot_state \<Rightarrow> (bool \<times> slot_state) res" where
  "attemptAcceptCommit env pe hint s =
     (if mPhase s \<noteq> SCP_PHASE_PREPARE \<and> mPhase s \<noteq> SCP_PHASE_CONFIRM then Inr (False, s)
      else bindE (acceptCommitHint hint) (\<lambda>hb.
           case hb of
             None \<Rightarrow> Inr (False, s)
           | Some ballot \<Rightarrow>
               bindE (if mPhase s = SCP_PHASE_CONFIRM
                      then bindE (deref (mHighBallot s)) (\<lambda>h. Inr (areBallotsCompatible ballot h))
                      else Inr True) (\<lambda>compatible.
               let candidate = acceptCommitCandidate env ballot s
               in if \<not> compatible \<or> getCommitBoundariesFromStatements ballot s = [] \<or> fst candidate = 0
                  then Inr (False, s)
                  else bindE (if mPhase s \<noteq> SCP_PHASE_CONFIRM then Inr True
                              else bindE (deref (mHighBallot s)) (\<lambda>h. Inr (snd candidate > counter h)))
                       (\<lambda>go.
                       if go
                       then setAcceptCommit env pe (SCPBallot (fst candidate) (bvalue ballot))
                              (SCPBallot (snd candidate) (bvalue ballot)) s
                       else Inr (False, s)))))"

definition setConfirmCommit ::
    "scp_env \<Rightarrow> process_self \<Rightarrow> SCPBallot \<Rightarrow> SCPBallot \<Rightarrow> slot_state \<Rightarrow> (bool \<times> slot_state) res" where
  "setConfirmCommit env pe c h s =
     bindE (updateCurrentIfNeeded h (s\<lparr>mCommit := Some c, mHighBallot := Some h\<rparr>)) (\<lambda>(_, s1).
     bindE (emitCurrentStateStatement env pe (s1\<lparr>mPhase := SCP_PHASE_EXTERNALIZE\<rparr>)) (\<lambda>s2.
     let s3 = slotStopNomination s2
     in bindE (deref (mCommit s3)) (\<lambda>c'. Inr (True, callDriver (ValueExternalized (bvalue c')) s3))))"

fun confirmCommitHint :: "SCPPledges \<Rightarrow> SCPBallot option res" where
  "confirmCommitHint (PREPARE _ _ _ _ _ _) = Inr None"
| "confirmCommitHint (CONFIRM b _ _ nH _) = Inr (Some (SCPBallot nH (bvalue b)))"
| "confirmCommitHint (EXTERNALIZE c nH _) = Inr (Some (SCPBallot nH (bvalue c)))"
| "confirmCommitHint (NOMINATE _ _ _) = Inl Abort"

definition attemptConfirmCommit ::
    "scp_env \<Rightarrow> process_self \<Rightarrow> SCPPledges \<Rightarrow> slot_state \<Rightarrow> (bool \<times> slot_state) res" where
  "attemptConfirmCommit env pe hint s =
     (if mPhase s \<noteq> SCP_PHASE_CONFIRM then Inr (False, s)
      else case (mHighBallot s, mCommit s) of
             (Some _, Some com) \<Rightarrow>
               bindE (confirmCommitHint hint) (\<lambda>hb.
               case hb of
                 None \<Rightarrow> Inr (False, s)
               | Some ballot \<Rightarrow>
                   let candidate = confirmCommitCandidate env ballot s
                   in if \<not> areBallotsCompatible ballot com \<or> fst candidate = 0 then Inr (False, s)
                      else setConfirmCommit env pe (SCPBallot (fst candidate) (bvalue ballot))
                             (SCPBallot (snd candidate) (bvalue ballot)) s)
           | _ \<Rightarrow> Inr (False, s))"

section \<open>Counters and timers\<close>

fun statementBallotCounter :: "SCPPledges \<Rightarrow> uint32" where
  "statementBallotCounter (PREPARE _ b _ _ _ _) = counter b"
| "statementBallotCounter (CONFIRM b _ _ _ _) = counter b"
| "statementBallotCounter (EXTERNALIZE _ _ _) = UINT32_MAX"
| "statementBallotCounter (NOMINATE _ _ _) = 0"

definition hasVBlockingSubsetStrictlyAheadOf ::
    "scp_env \<Rightarrow> SCPEnvelope nodeMap \<Rightarrow> uint32 \<Rightarrow> bool" where
  "hasVBlockingSubsetStrictlyAheadOf env m n =
     isVBlockingFilter (localQSet env) m (\<lambda>e. statementBallotCounter (pledges (statement e)) > n)"

text \<open>The test of \<^verbatim>\<open>checkHeardFromQuorum\<close>: a statement counts unless it prepares at a lower counter.\<close>

fun atLeastCounter :: "uint32 \<Rightarrow> SCPPledges \<Rightarrow> bool" where
  "atLeastCounter n (PREPARE _ b _ _ _ _) = (n \<le> counter b)"
| "atLeastCounter n _ = True"

definition startBallotProtocolTimer :: "SCPBallot \<Rightarrow> slot_state \<Rightarrow> slot_state" where
  "startBallotProtocolTimer b s = callDriver (SetupBallotTimer (Some (computeTimeout (counter b)))) s"

definition stopBallotProtocolTimer :: "slot_state \<Rightarrow> slot_state" where
  "stopBallotProtocolTimer s = callDriver (SetupBallotTimer None) s"

definition checkHeardFromQuorum :: "scp_env \<Rightarrow> slot_state \<Rightarrow> slot_state" where
  "checkHeardFromQuorum env s =
     (case mCurrentBallot s of
        None \<Rightarrow> s
      | Some b \<Rightarrow>
          if isQuorum (localQSet env) (mLatestEnvelopes s)
               (\<lambda>e. getQuorumSetFromStatement env (statement e))
               (\<lambda>e. atLeastCounter (counter b) (pledges (statement e)))
          then let oldHQ = mHeardFromQuorum s;
                   s1 = s\<lparr>mHeardFromQuorum := True\<rparr>;
                   s2 = (if \<not> oldHQ
                         then let s' = callDriver (BallotDidHearFromQuorum b) s1
                              in if mPhase s' \<noteq> SCP_PHASE_EXTERNALIZE
                                 then startBallotProtocolTimer b s' else s'
                         else s1)
               in if mPhase s2 = SCP_PHASE_EXTERNALIZE then stopBallotProtocolTimer s2 else s2
          else stopBallotProtocolTimer (s\<lparr>mHeardFromQuorum := False\<rparr>))"

definition bumpStateTo ::
    "scp_env \<Rightarrow> process_self \<Rightarrow> Value \<Rightarrow> uint32 \<Rightarrow> slot_state \<Rightarrow> (bool \<times> slot_state) res" where
  "bumpStateTo env pe v n s =
     (if mPhase s \<noteq> SCP_PHASE_PREPARE \<and> mPhase s \<noteq> SCP_PHASE_CONFIRM then Inr (False, s)
      else let newb = SCPBallot n (case mValueOverride s of None \<Rightarrow> v | Some ov \<Rightarrow> ov)
           in bindE (updateCurrentValue newb s) (\<lambda>(updated, s1).
              if updated
              then bindE (emitCurrentStateStatement env pe s1) (\<lambda>s2.
                   Inr (True, checkHeardFromQuorum env s2))
              else Inr (False, s1)))"

text \<open>The counter is a 32 bit word: the increment wraps.\<close>

definition bumpState ::
    "scp_env \<Rightarrow> process_self \<Rightarrow> Value \<Rightarrow> bool \<Rightarrow> slot_state \<Rightarrow> (bool \<times> slot_state) res" where
  "bumpState env pe v force s =
     (if \<not> force \<and> mCurrentBallot s \<noteq> None then Inr (False, s)
      else bumpStateTo env pe v
             (case mCurrentBallot s of None \<Rightarrow> 1 | Some b \<Rightarrow> counter b + 1) s)"

definition abandonBallot ::
    "scp_env \<Rightarrow> process_self \<Rightarrow> uint32 \<Rightarrow> slot_state \<Rightarrow> (bool \<times> slot_state) res" where
  "abandonBallot env pe n s =
     (let v0 = mLatestCompositeCandidate (mNomination s);
          v = (if v0 = None \<or> v0 = Some []
               then (case mCurrentBallot s of None \<Rightarrow> v0 | Some b \<Rightarrow> Some (bvalue b))
               else v0)
      in case v of
           None \<Rightarrow> Inr (False, s)
         | Some val \<Rightarrow>
             if val = [] then Inr (False, s)
             else if n = 0 then bumpState env pe val True s
             else bumpStateTo env pe val n s)"

text \<open>The counters ahead of the local one, in ascending order, and the first that ends the search.\<close>

definition countersAhead :: "SCPEnvelope nodeMap \<Rightarrow> uint32 \<Rightarrow> uint32 list" where
  "countersAhead m localCounter =
     stdSet (filter (\<lambda>c. c > localCounter)
               (map (\<lambda>(_, e). statementBallotCounter (pledges (statement e))) m))"

definition attemptBump :: "scp_env \<Rightarrow> process_self \<Rightarrow> slot_state \<Rightarrow> (bool \<times> slot_state) res" where
  "attemptBump env pe s =
     (if mPhase s = SCP_PHASE_PREPARE \<or> mPhase s = SCP_PHASE_CONFIRM
      then let localCounter = (case mCurrentBallot s of None \<Rightarrow> 0 | Some b \<Rightarrow> counter b);
               m = mLatestEnvelopes s
           in if \<not> hasVBlockingSubsetStrictlyAheadOf env m localCounter then Inr (False, s)
              else case find (\<lambda>n. \<not> hasVBlockingSubsetStrictlyAheadOf env m n) (countersAhead m localCounter) of
                     None \<Rightarrow> Inr (False, s)
                   | Some n \<Rightarrow> abandonBallot env pe n s
      else Inr (False, s))"

section \<open>Processing\<close>

definition MAX_ADVANCE_SLOT_RECURSION :: nat where
  "MAX_ADVANCE_SLOT_RECURSION = 50"

text \<open>
  The \<^verbatim>\<open>do ... while (didBump)\<close> loop of \<^verbatim>\<open>advanceSlot\<close>, with fuel; the result is the disjunction of
  the \<open>didBump\<close>s.
\<close>

primrec bumpLoop :: "nat \<Rightarrow> scp_env \<Rightarrow> process_self \<Rightarrow> slot_state \<Rightarrow> (bool \<times> slot_state) res" where
  "bumpLoop 0 env pe s = Inl OutOfFuel"
| "bumpLoop (Suc n) env pe s =
     bindE (attemptBump env pe s) (\<lambda>(didBump, s1).
     if didBump then bindE (bumpLoop n env pe s1) (\<lambda>(_, s2). Inr (True, s2))
     else Inr (False, s1))"

text \<open>\<^verbatim>\<open>advanceSlot\<close>: the four rules in order, then the bumps and the timer at the outermost level.\<close>

definition attemptRules ::
    "scp_env \<Rightarrow> process_self \<Rightarrow> SCPPledges \<Rightarrow> slot_state \<Rightarrow> (bool \<times> slot_state) res" where
  "attemptRules env pe hint s =
     bindE (attemptAcceptPrepared env pe hint s) (\<lambda>(w1, s1).
     bindE (attemptConfirmPrepared env pe hint s1) (\<lambda>(w2, s2).
     bindE (attemptAcceptCommit env pe hint s2) (\<lambda>(w3, s3).
     bindE (attemptConfirmCommit env pe hint s3) (\<lambda>(w4, s4).
     Inr (w1 \<or> w2 \<or> w3 \<or> w4, s4)))))"

definition attemptBumps ::
    "nat \<Rightarrow> scp_env \<Rightarrow> process_self \<Rightarrow> slot_state \<Rightarrow> (bool \<times> slot_state) res" where
  "attemptBumps fuel env pe s =
     (if mCurrentMessageLevel s = 1
      then bindE (bumpLoop fuel env pe s) (\<lambda>(w, s'). Inr (w, checkHeardFromQuorum env s'))
      else Inr (False, s))"

definition advanceSlot ::
    "nat \<Rightarrow> scp_env \<Rightarrow> process_self \<Rightarrow> SCPPledges \<Rightarrow> slot_state \<Rightarrow> slot_state res" where
  "advanceSlot fuel env pe hint s =
     (let s0 = s\<lparr>mCurrentMessageLevel := mCurrentMessageLevel s + 1\<rparr>
      in if mCurrentMessageLevel s0 \<ge> MAX_ADVANCE_SLOT_RECURSION
         then Inl (RuntimeError ''maximum number of transitions reached in advanceSlot'')
         else bindE (attemptRules env pe hint s0) (\<lambda>(w1, s1).
              bindE (attemptBumps fuel env pe s1) (\<lambda>(w2, s2).
              let s3 = s2\<lparr>mCurrentMessageLevel := mCurrentMessageLevel s2 - 1\<rparr>
              in Inr (if w1 \<or> w2 then sendLatestEnvelope s3 else s3))))"

definition recordEnvelope :: "SCPEnvelope \<Rightarrow> slot_state \<Rightarrow> slot_state" where
  "recordEnvelope e s =
     recordStatement (statement e)
       (s\<lparr>mLatestEnvelopes := mapPut (nodeID (statement e)) e (mLatestEnvelopes s)\<rparr>)"

definition processEnvelope ::
    "nat \<Rightarrow> scp_env \<Rightarrow> process_self \<Rightarrow> SCPEnvelope \<Rightarrow> bool \<Rightarrow> slot_state \<Rightarrow> (EnvelopeState \<times> slot_state) res"
where
  "processEnvelope fuel env pe envelope self s =
     bindE (dbgAssert (slotIndex (statement envelope) = envSlotIndex env)) (\<lambda>_.
     let st = statement envelope
     in bindE (isStatementSane env st self) (\<lambda>sane.
        if \<not> sane then Inr (INVALID, s)
        else if \<not> isNewerStatementFor (nodeID st) st s then Inr (INVALID, s)
        else let validationRes = validateValues env st
             in if validationRes = kInvalidValue then Inr (INVALID, s)
                else if mPhase s \<noteq> SCP_PHASE_EXTERNALIZE
                then let s1 = (if validationRes = kMaybeValidValue then setFullyValidated False s else s)
                     in bindE (advanceSlot fuel env pe (pledges st) (recordEnvelope envelope s1)) (\<lambda>s2.
                        Inr (VALID, s2))
                else bindE (deref (mCommit s)) (\<lambda>c.
                     if bvalue c = bvalue (getWorkingBallot st)
                     then Inr (VALID, recordEnvelope envelope s)
                     else Inr (INVALID, s))))"

text \<open>
  \<^verbatim>\<open>Slot::processEnvelope\<close> for the statements of the ballot protocol. A statement of the node itself is
  processed through the same function, one level deeper; \<open>slotProcessSelf n\<close> allows \<open>n\<close> levels.
\<close>

definition slotProcessBallot ::
    "nat \<Rightarrow> scp_env \<Rightarrow> process_self \<Rightarrow> SCPEnvelope \<Rightarrow> bool \<Rightarrow> slot_state \<Rightarrow> (EnvelopeState \<times> slot_state) res"
where
  "slotProcessBallot fuel env pe envelope self s =
     bindE (dbgAssert (slotIndex (statement envelope) = envSlotIndex env)) (\<lambda>_.
     let prev = (getLatestMessage (nodeID (statement envelope)) s \<noteq> None)
     in bindE (processEnvelope fuel env pe envelope self s) (\<lambda>(r, s').
        Inr (r, if \<not> prev \<and> r = VALID then maybeSetGotVBlocking env s' else s')))"

primrec slotProcessSelf :: "nat \<Rightarrow> scp_env \<Rightarrow> process_self" where
  "slotProcessSelf 0 env = (\<lambda>e s. Inl OutOfFuel)"
| "slotProcessSelf (Suc n) env = (\<lambda>e s. slotProcessBallot n env (slotProcessSelf n env) e True s)"

definition ballotProtocolTimerExpired :: "nat \<Rightarrow> scp_env \<Rightarrow> slot_state \<Rightarrow> slot_state res" where
  "ballotProtocolTimerExpired fuel env s =
     bindE (abandonBallot env (slotProcessSelf fuel env) 0 s) (\<lambda>(_, s'). Inr s')"

section \<open>Restoring and reporting state\<close>

definition setStateFromEnvelope :: "SCPEnvelope \<Rightarrow> slot_state \<Rightarrow> slot_state res" where
  "setStateFromEnvelope e s =
     (if mCurrentBallot s \<noteq> None
      then Inl (RuntimeError ''Cannot set state after starting ballot protocol'')
      else let s1 = (recordEnvelope e s)\<lparr>mLastEnvelope := Some e, mLastEnvelopeEmit := Some e\<rparr>
           in case pledges (statement e) of
                PREPARE _ b p p' nC nH \<Rightarrow>
                  bindE (bumpToBallot b True s1) (\<lambda>s2.
                  let s3 = (case p of None \<Rightarrow> s2 | Some x \<Rightarrow> s2\<lparr>mPrepared := Some x\<rparr>);
                      s4 = (case p' of None \<Rightarrow> s3 | Some x \<Rightarrow> s3\<lparr>mPreparedPrime := Some x\<rparr>);
                      s5 = (if nH \<noteq> 0 then s4\<lparr>mHighBallot := Some (SCPBallot nH (bvalue b))\<rparr> else s4);
                      s6 = (if nC \<noteq> 0 then s5\<lparr>mCommit := Some (SCPBallot nC (bvalue b))\<rparr> else s5)
                  in Inr (s6\<lparr>mPhase := SCP_PHASE_PREPARE\<rparr>))
              | CONFIRM b nPrepared nCommit nH _ \<Rightarrow>
                  bindE (bumpToBallot b True s1) (\<lambda>s2.
                  Inr (s2\<lparr>mPrepared := Some (SCPBallot nPrepared (bvalue b)),
                           mHighBallot := Some (SCPBallot nH (bvalue b)),
                           mCommit := Some (SCPBallot nCommit (bvalue b)),
                           mPhase := SCP_PHASE_CONFIRM\<rparr>))
              | EXTERNALIZE c nH _ \<Rightarrow>
                  bindE (bumpToBallot (SCPBallot UINT32_MAX (bvalue c)) True s1) (\<lambda>s2.
                  Inr (s2\<lparr>mPrepared := Some (SCPBallot UINT32_MAX (bvalue c)),
                           mHighBallot := Some (SCPBallot nH (bvalue c)),
                           mCommit := Some c,
                           mPhase := SCP_PHASE_EXTERNALIZE\<rparr>))
              | NOMINATE _ _ _ \<Rightarrow> Inl Abort)"

text \<open>The envelopes \<^verbatim>\<open>processCurrentState\<close> passes to \<open>f\<close> until it answers false, and its result.\<close>

fun visitEnvelopes :: "('s \<Rightarrow> SCPEnvelope \<Rightarrow> bool \<times> 's) \<Rightarrow> SCPEnvelope list \<Rightarrow> 's \<Rightarrow> bool \<times> 's" where
  "visitEnvelopes f [] acc = (True, acc)"
| "visitEnvelopes f (e # es) acc =
     (case f acc e of (True, acc') \<Rightarrow> visitEnvelopes f es acc' | (False, acc') \<Rightarrow> (False, acc'))"

definition processCurrentState ::
    "scp_env \<Rightarrow> ('s \<Rightarrow> SCPEnvelope \<Rightarrow> bool \<times> 's) \<Rightarrow> bool \<Rightarrow> slot_state \<Rightarrow> 's \<Rightarrow> bool \<times> 's" where
  "processCurrentState env f forceSelf s =
     visitEnvelopes f (map snd (filter (\<lambda>(n, _). forceSelf \<or> n \<noteq> localNodeID env \<or> mFullyValidated s)
                                  (mLatestEnvelopes s)))"

definition getExternalizingState :: "scp_env \<Rightarrow> slot_state \<Rightarrow> SCPEnvelope list res" where
  "getExternalizingState env s =
     (if mPhase s \<noteq> SCP_PHASE_EXTERNALIZE then Inr []
      else if \<forall>(n, _) \<in> set (mLatestEnvelopes s). n = localNodeID env
      then Inr (if mFullyValidated s then map snd (mLatestEnvelopes s) else [])
      else bindE (deref (mCommit s)) (\<lambda>c.
           Inr (map snd (filter (\<lambda>(n, e). if n \<noteq> localNodeID env
                                           then areBallotsCompatible (getWorkingBallot (statement e)) c
                                           else mFullyValidated s)
                           (mLatestEnvelopes s)))))"

end
