(* ===== verification/BallotOrder.thy ===== *)
theory BallotOrder
  imports BallotProtocol QuorumSanity "HOL-Library.Option_ord"
begin

text \<open>
  The pure parts of the ballot protocol: the order on statements, the two highest prepared
  ballots, the interval search of the commit rules and the counter that \<^verbatim>\<open>attemptBump\<close> selects.
\<close>

section \<open>The order of statements\<close>

text \<open>Each statement type is ordered lexicographically by the fields its branch compares.\<close>

lemma compareBallotsOpt_iff [simp]:
  "compareBallotsOpt x y < 0 \<longleftrightarrow> x < y"
  "compareBallotsOpt x y = 0 \<longleftrightarrow> x = y"
  by (cases x; cases y; simp add: compareBallotsOpt_def)+

lemma isNewerPledges_same [simp]:
  "isNewerPledges (PREPARE h b p p' nC nH) (PREPARE hh bb pp pp' nnC nnH) \<longleftrightarrow>
     b < bb \<or> b = bb \<and> (p < pp \<or> p = pp \<and> (p' < pp' \<or> p' = pp' \<and> nH < nnH))"
  "isNewerPledges (CONFIRM b nP nC nH h) (CONFIRM bb nnP nnC nnH hh) \<longleftrightarrow>
     b < bb \<or> b = bb \<and> (nP < nnP \<or> nP = nnP \<and> nH < nnH)"
  by (auto simp: Let_def)

declare isNewerPledges.simps(1,2) [simp del]

lemma isNewerPledges_type: "isNewerPledges x y \<Longrightarrow> pledgeType x \<le> pledgeType y"
  by (cases x; cases y) auto

lemma isNewerPledges_irrefl: "\<not> isNewerPledges x x"
  by (cases x) auto

lemma isNewerPledges_trans: "isNewerPledges x y \<Longrightarrow> isNewerPledges y z \<Longrightarrow> isNewerPledges x z"
  by (cases x; cases y; cases z) (auto dest: less_trans)

definition newerOrSame :: "SCPEnvelope \<Rightarrow> SCPEnvelope \<Rightarrow> bool" where
  "newerOrSame e e' \<longleftrightarrow> e' = e \<or> isNewerStatement (statement e) (statement e')"

lemma newerOrSame_refl [simp]: "newerOrSame e e"
  by (simp add: newerOrSame_def)

lemma newerOrSame_trans: "newerOrSame x y \<Longrightarrow> newerOrSame y z \<Longrightarrow> newerOrSame x z"
  unfolding newerOrSame_def isNewerStatement_def using isNewerPledges_trans by blast

section \<open>The two highest prepared ballots\<close>

text \<open>The invariant on \<^verbatim>\<open>p\<close> and \<^verbatim>\<open>p'\<close>, the ballots known as prepared, and the reference definition.\<close>

definition preparedOk :: "slot_state \<Rightarrow> bool" where
  "preparedOk s \<longleftrightarrow>
     (case mPreparedPrime s of
        None \<Rightarrow> True
      | Some p' \<Rightarrow> (case mPrepared s of None \<Rightarrow> False | Some p \<Rightarrow> areBallotsLessAndIncompatible p' p))"

definition preparedBallots :: "slot_state \<Rightarrow> SCPBallot set" where
  "preparedBallots s = set_option (mPrepared s) \<union> set_option (mPreparedPrime s)"

definition maxOpt :: "'a::linorder set \<Rightarrow> 'a option" where
  "maxOpt A = (if A = {} then None else Some (Max A))"

definition highestIncompatible :: "SCPBallot set \<Rightarrow> SCPBallot option" where
  "highestIncompatible A = maxOpt {x \<in> A. \<not> areBallotsCompatible x (Max A)}"

lemma maxOpt_eqI: "finite A \<Longrightarrow> x \<in> A \<Longrightarrow> (\<And>y. y \<in> A \<Longrightarrow> y \<le> x) \<Longrightarrow> maxOpt A = Some x"
  by (auto simp: maxOpt_def intro: Max_eqI)

lemma highest_two_eqI:
  assumes "finite A" "p \<in> A" "\<And>y. y \<in> A \<Longrightarrow> y \<le> p"
    and "q \<in> A" "bvalue q \<noteq> bvalue p" "\<And>y. y \<in> A \<Longrightarrow> bvalue y \<noteq> bvalue p \<Longrightarrow> y \<le> q"
  shows "maxOpt A = Some p \<and> highestIncompatible A = Some q"
proof -
  have p: "maxOpt A = Some p" using assms(1-3) by (rule maxOpt_eqI)
  then have "Max A = p" using assms(2) by (auto simp: maxOpt_def split: if_splits)
  then have "highestIncompatible A = Some q"
    unfolding highestIncompatible_def using assms
    by (intro maxOpt_eqI) (auto simp: areBallotsCompatible_def)
  with p show ?thesis ..
qed

lemma highest_one_eqI:
  assumes "finite A" "p \<in> A" "\<And>y. y \<in> A \<Longrightarrow> y \<le> p" "\<And>y. y \<in> A \<Longrightarrow> bvalue y = bvalue p"
  shows "maxOpt A = Some p \<and> highestIncompatible A = None"
proof -
  have p: "maxOpt A = Some p" using assms(1-3) by (rule maxOpt_eqI)
  then have "Max A = p" using assms(2) by (auto simp: maxOpt_def split: if_splits)
  then have "highestIncompatible A = None"
    unfolding highestIncompatible_def maxOpt_def using assms(4) by (auto simp: areBallotsCompatible_def)
  with p show ?thesis ..
qed

lemma setPrepared_highest:
  assumes "preparedOk s"
    and "\<And>p. mPrepared s = Some p \<Longrightarrow> \<not> areBallotsLessAndCompatible ballot p"
    and "setPrepared ballot s = (didWork, s')"
  shows "mPrepared s' = maxOpt (insert ballot (preparedBallots s)) \<and>
         mPreparedPrime s' = highestIncompatible (insert ballot (preparedBallots s))"
proof (cases "mPrepared s")
  case None
  with assms(1) have "mPreparedPrime s = None"
    by (auto simp: preparedOk_def split: option.splits)
  with None assms(3) highest_one_eqI [of "{ballot}" ballot] show ?thesis
    by (auto simp: setPrepared_def preparedBallots_def)
next
  case (Some p)
  let ?A = "insert ballot (preparedBallots s)"
  have new: "bvalue ballot = bvalue p \<Longrightarrow> p < ballot"
    using assms(2) [OF Some] by (auto simp: areBallotsLessAndCompatible_iff less_SCPBallot_def not_le)
  show ?thesis
  proof (cases "mPreparedPrime s")
    case None
    with Some have A: "?A = {ballot, p}" by (simp add: preparedBallots_def)
    consider "p < ballot" "bvalue p = bvalue ballot" | "p < ballot" "bvalue p \<noteq> bvalue ballot"
      | "ballot < p" "bvalue p \<noteq> bvalue ballot"
      using new by (metis linorder_neqE order_less_imp_not_less)
    then show ?thesis
    proof cases
      case 1
      then have "maxOpt ?A = Some ballot \<and> highestIncompatible ?A = None"
        by (intro highest_one_eqI) (auto simp: A)
      with 1 show ?thesis using assms(3) Some None
        by (auto simp: setPrepared_def Let_def areBallotsCompatible_def split: if_splits)
    next
      case 2
      then have "maxOpt ?A = Some ballot \<and> highestIncompatible ?A = Some p"
        by (intro highest_two_eqI) (auto simp: A)
      with 2 show ?thesis using assms(3) Some None
        by (auto simp: setPrepared_def Let_def areBallotsCompatible_def split: if_splits)
    next
      case 3
      then have "maxOpt ?A = Some p \<and> highestIncompatible ?A = Some ballot"
        by (intro highest_two_eqI) (auto simp: A)
      with 3 show ?thesis using assms(3) Some None
        by (auto simp: setPrepared_def Let_def areBallotsCompatible_def split: if_splits)
    qed
  next
    case (Some q)
    with \<open>mPrepared s = Some p\<close> assms(1) have q: "q < p" "bvalue q \<noteq> bvalue p"
      by (auto simp: preparedOk_def areBallotsLessAndIncompatible_iff)
    have A: "?A = {ballot, p, q}" using Some \<open>mPrepared s = Some p\<close> by (auto simp: preparedBallots_def)
    note facts = assms(3) Some \<open>mPrepared s = Some p\<close>
    consider "p < ballot" "bvalue p = bvalue ballot" | "p < ballot" "bvalue p \<noteq> bvalue ballot"
      | "ballot < p" "bvalue p \<noteq> bvalue ballot" "q < ballot"
      | "ballot < p" "bvalue p \<noteq> bvalue ballot" "ballot \<le> q"
      using new by (metis linorder_neqE linorder_not_less order_less_imp_not_less)
    then show ?thesis
    proof cases
      case 1
      then have "maxOpt ?A = Some ballot \<and> highestIncompatible ?A = Some q"
        using q by (intro highest_two_eqI) (auto simp: A)
      with 1 show ?thesis using facts q
        by (auto simp: setPrepared_def Let_def areBallotsCompatible_def split: if_splits)
    next
      case 2
      then have "maxOpt ?A = Some ballot \<and> highestIncompatible ?A = Some p"
        using q by (intro highest_two_eqI) (auto simp: A)
      with 2 show ?thesis using facts q
        by (auto simp: setPrepared_def Let_def areBallotsCompatible_def split: if_splits)
    next
      case 3
      then have "maxOpt ?A = Some p \<and> highestIncompatible ?A = Some ballot"
        using q by (intro highest_two_eqI) (auto simp: A)
      with 3 show ?thesis using facts q
        by (auto simp: setPrepared_def Let_def areBallotsCompatible_def split: if_splits)
    next
      case 4
      then have "maxOpt ?A = Some p \<and> highestIncompatible ?A = Some q"
        using q by (intro highest_two_eqI) (auto simp: A)
      with 4 show ?thesis using facts q
        by (auto simp: setPrepared_def Let_def areBallotsCompatible_def split: if_splits)
    qed
  qed
qed

section \<open>The interval search\<close>

text \<open>
  The interval the search promises: its upper end is the highest boundary that holds on its own; it
  is extended downwards over consecutive boundaries for as long as the predicate holds.
\<close>

text \<open>A ballot that the first one covers changes nothing, unless there is no second one.\<close>

lemma setPrepared_covered:
  assumes "preparedOk s" "mPrepared s = Some p" "areBallotsLessAndCompatible ballot p"
  shows "mPrepared (snd (setPrepared ballot s)) = maxOpt (insert ballot (preparedBallots s)) \<and>
    mPreparedPrime (snd (setPrepared ballot s))
      = (if mPreparedPrime s = None \<and> ballot \<noteq> p then Some ballot else mPreparedPrime s)"
proof -
  have le: "ballot \<le> p" "bvalue ballot = bvalue p"
    using assms(3) by (auto simp: areBallotsLessAndCompatible_def areBallotsCompatible_def)
  have "q \<le> p" if "mPreparedPrime s = Some q" for q
    using assms(1,2) that by (auto simp: preparedOk_def areBallotsLessAndIncompatible_iff)
  then have "maxOpt (insert ballot (preparedBallots s)) = Some p"
    using assms(2) le by (intro maxOpt_eqI) (auto simp: preparedBallots_def)
  then show ?thesis using assms(2) le
    by (auto simp: setPrepared_def Let_def areBallotsCompatible_def split: option.splits)
qed

definition extendedInterval :: "uint32 set \<Rightarrow> (Interval \<Rightarrow> bool) \<Rightarrow> uint32 \<Rightarrow> uint32 \<Rightarrow> bool" where
  "extendedInterval B pred lo hi \<longleftrightarrow>
     hi \<in> B \<and> pred (hi, hi) \<and> (\<forall>b \<in> B. hi < b \<longrightarrow> \<not> pred (b, b)) \<and>
     lo \<in> B \<and> lo \<le> hi \<and> (\<forall>b \<in> B. lo \<le> b \<and> b \<le> hi \<longrightarrow> pred (b, hi)) \<and>
     (\<forall>b \<in> B. b < lo \<longrightarrow> (\<exists>x \<in> B. b \<le> x \<and> x < lo \<and> \<not> pred (x, hi)))"

lemma findExtendedInterval_extend:
  assumes "sorted_wrt (>) (lo # bs)" "lo \<noteq> 0" "lo \<le> hi"
  shows "\<exists>lo'. findExtendedInterval (lo, hi) bs pred = (lo', hi) \<and> lo' \<in> set (lo # bs) \<and> lo' \<le> lo \<and>
           (\<forall>b \<in> set bs. lo' \<le> b \<longrightarrow> pred (b, hi)) \<and>
           (\<forall>b \<in> set bs. b < lo' \<longrightarrow> (\<exists>x \<in> set bs. b \<le> x \<and> x < lo' \<and> \<not> pred (x, hi)))"
  using assms
proof (induction bs arbitrary: lo)
  case (Cons b bs)
  have b: "b < lo" "b \<le> hi" "lo \<noteq> 0" using Cons.prems by auto
  show ?case
  proof (cases "pred (b, hi)")
    case True
    have "bs = []" if "b = 0" using Cons.prems(1) that by (cases bs) auto
    with Cons.IH [of b] Cons.prems b obtain lo' where
      lo': "findExtendedInterval (b, hi) bs pred = (lo', hi)" "lo' \<in> set (b # bs)" "lo' \<le> b"
        "\<forall>c \<in> set bs. lo' \<le> c \<longrightarrow> pred (c, hi)"
        "\<forall>c \<in> set bs. c < lo' \<longrightarrow> (\<exists>x \<in> set bs. c \<le> x \<and> x < lo' \<and> \<not> pred (x, hi))"
      by (cases "b = 0") auto
    with True b show ?thesis by (intro exI [of _ lo']) auto
  next
    case False
    with b Cons.prems show ?thesis by (intro exI [of _ lo]) auto
  qed
qed simp

lemma findExtendedInterval_none:
  "\<forall>b \<in> set bs. b \<noteq> 0 \<longrightarrow> \<not> pred (b, b) \<Longrightarrow> findExtendedInterval (0, 0) bs pred = (0, 0)"
  by (induction bs) (auto split: if_splits)

lemma findExtendedInterval_some:
  assumes "sorted_wrt (>) bs" "\<exists>b \<in> set bs. b \<noteq> 0 \<and> pred (b, b)"
  shows "\<exists>lo hi. findExtendedInterval (0, 0) bs pred = (lo, hi) \<and> extendedInterval (set bs) pred lo hi"
  using assms
proof (induction bs)
  case (Cons b bs)
  have pos: "b \<noteq> 0" using Cons.prems by auto
  show ?case
  proof (cases "pred (b, b)")
    case True
    with findExtendedInterval_extend [of b bs b pred] Cons.prems pos obtain lo where
      lo: "findExtendedInterval (b, b) bs pred = (lo, b)" "lo \<in> set (b # bs)" "lo \<le> b"
        "\<forall>c \<in> set bs. lo \<le> c \<longrightarrow> pred (c, b)"
        "\<forall>c \<in> set bs. c < lo \<longrightarrow> (\<exists>x \<in> set bs. c \<le> x \<and> x < lo \<and> \<not> pred (x, b))"
      by auto
    have below: "x < b" if "x \<in> set bs" for x using Cons.prems(1) that by simp
    have "\<not> b < x" if "x \<in> set (b # bs)" for x using below [of x] that by auto
    moreover have "pred (x, b)" if "x \<in> set (b # bs)" "lo \<le> x" for x using lo(4) True that by auto
    moreover have "\<exists>y \<in> set (b # bs). x \<le> y \<and> y < lo \<and> \<not> pred (y, b)"
      if "x \<in> set (b # bs)" "x < lo" for x
      using lo(3,5) that by (cases "x = b") auto
    ultimately have "extendedInterval (set (b # bs)) pred lo b"
      unfolding extendedInterval_def using lo(2,3) True by simp
    with lo(1) True show ?thesis by auto
  next
    case False
    with Cons obtain lo hi where
      r: "findExtendedInterval (0, 0) bs pred = (lo, hi)" "extendedInterval (set bs) pred lo hi"
      by auto
    have below: "x < b" if "x \<in> set bs" for x using Cons.prems(1) that by simp
    have "hi \<in> set bs" "lo \<le> hi" using r(2) by (simp_all add: extendedInterval_def)
    with below have "lo < b" "hi < b" by (auto intro: le_less_trans)
    then have "\<not> b < lo" "\<not> b \<le> hi" by simp_all
    with r(2) False have "extendedInterval (set (b # bs)) pred lo hi"
      unfolding extendedInterval_def by simp
    with r(1) False show ?thesis by auto
  qed
qed simp

lemma stdSet_set [simp]: "set (stdSet xs) = set xs"
  by (simp add: stdSet_def)

lemma stdSet_sorted: "sorted_wrt (<) (stdSet xs)"
  by (simp add: stdSet_def strict_sorted_iff)

lemma rev_stdSet_sorted: "sorted_wrt (>) (rev (stdSet xs))"
  by (simp add: sorted_wrt_rev stdSet_sorted)

section \<open>The counter of the bump\<close>


lemma slice_by_all: "wf_qset q \<Longrightarrow> slice_by (\<lambda>_. True) q"
proof (induction q rule: qset_induct)
  case (QSet t v i)
  then have "filter (slice_by (\<lambda>_. True)) i = i"
    by (auto simp: list_all_iff filter_id_conv)
  with QSet.prems show ?case by (simp add: need_pos_threshold)
qed

lemma isVBlocking_empty: "wf_qset q \<Longrightarrow> \<not> isVBlocking q []"
  by (simp add: isVBlocking_iff slice_by_all)

text \<open>Being ahead is antitone in the counter, and nothing is ahead of the greatest counter.\<close>

lemma ahead_antimono:
  assumes "wf_qset (localQSet env)" "hasVBlockingSubsetStrictlyAheadOf env m n" "k \<le> n"
  shows "hasVBlockingSubsetStrictlyAheadOf env m k"
  using assms(2) unfolding hasVBlockingSubsetStrictlyAheadOf_def isVBlockingFilter_def
  by (rule qsl.vblock_mono [OF assms(1)]) (use assms(3) in \<open>auto simp: filterNodes_def\<close>)

lemma ahead_counter:
  assumes "wf_qset (localQSet env)" "hasVBlockingSubsetStrictlyAheadOf env m n"
  shows "\<exists>p \<in> set m. n < statementBallotCounter (pledges (statement (snd p)))"
proof (rule ccontr)
  assume "\<not> ?thesis"
  then have "filterNodes m (\<lambda>e. n < statementBallotCounter (pledges (statement e))) = []"
    by (auto simp: filterNodes_def filter_empty_conv)
  with assms show False
    by (simp add: hasVBlockingSubsetStrictlyAheadOf_def isVBlockingFilter_def isVBlocking_empty)
qed

lemma set_countersAhead:
  "set (countersAhead m l) = {c \<in> (\<lambda>p. statementBallotCounter (pledges (statement (snd p)))) ` set m. l < c}"
  by (auto simp: countersAhead_def case_prod_beta)

lemma ahead_cong:
  assumes "\<And>p. p \<in> set m \<Longrightarrow>
      (a < statementBallotCounter (pledges (statement (snd p)))) =
      (b < statementBallotCounter (pledges (statement (snd p))))"
  shows "hasVBlockingSubsetStrictlyAheadOf env m a = hasVBlockingSubsetStrictlyAheadOf env m b"
proof -
  have "filterNodes m (\<lambda>e. a < statementBallotCounter (pledges (statement e))) =
        filterNodes m (\<lambda>e. b < statementBallotCounter (pledges (statement e)))"
    unfolding filterNodes_def using assms by (intro arg_cong [of _ _ "map fst"] filter_cong) auto
  then show ?thesis
    by (simp add: hasVBlockingSubsetStrictlyAheadOf_def isVBlockingFilter_def)
qed

lemma find_stdSet:
  assumes "find P (stdSet xs) = Some n"
  shows "P n" "n \<in> set xs" "\<And>x. x \<in> set xs \<Longrightarrow> x < n \<Longrightarrow> \<not> P x"
proof -
  from assms obtain i where i: "i < length (stdSet xs)" "P (stdSet xs ! i)" "n = stdSet xs ! i"
      "\<forall>j<i. \<not> P (stdSet xs ! j)"
    unfolding find_Some_iff by auto
  then show "P n" "n \<in> set xs" using nth_mem [OF i(1)] by auto
  fix x
  assume "x \<in> set xs" "x < n"
  then obtain j where j: "j < length (stdSet xs)" "x = stdSet xs ! j"
    by (metis in_set_conv_nth stdSet_set)
  with \<open>x < n\<close> i have "j < i"
    using sorted_wrt_nth_less [OF stdSet_sorted, of i j xs]
    by (metis linorder_neqE_nat order_less_imp_not_less order_less_irrefl)
  with i(4) j(2) show "\<not> P x" by blast
qed

text \<open>The scan finds a counter, and it separates the counters some blocking set is ahead of from the rest.\<close>

lemma bump_counter:
  assumes wf: "wf_qset (localQSet env)" and ahead: "hasVBlockingSubsetStrictlyAheadOf env m l"
  shows "\<exists>n. find (\<lambda>n. \<not> hasVBlockingSubsetStrictlyAheadOf env m n) (countersAhead m l) = Some n \<and>
             (\<forall>k. hasVBlockingSubsetStrictlyAheadOf env m k \<longleftrightarrow> k < n)"
proof -
  let ?A = "hasVBlockingSubsetStrictlyAheadOf env m" and ?C = "countersAhead m l"
  let ?ctr = "\<lambda>p. statementBallotCounter (pledges (statement (snd p)))"
  have fin: "finite (?ctr ` set m)" by simp
  from ahead_counter [OF wf ahead] obtain p where p: "p \<in> set m" "l < ?ctr p" by blast
  let ?M = "Max (?ctr ` set m)"
  have "?M \<in> ?ctr ` set m" using p(1) fin by (intro Max_in) auto
  moreover have "l < ?M" using p Max_ge [OF fin, of "?ctr p"] by (auto intro: less_le_trans)
  ultimately have "?M \<in> set ?C" unfolding set_countersAhead by blast
  moreover have "\<not> ?A ?M"
    using ahead_counter [OF wf, of m ?M] Max_ge [OF fin] by (metis imageI leD)
  ultimately have "find (\<lambda>n. \<not> ?A n) ?C \<noteq> None" by (auto simp: find_None_iff)
  then obtain n where n: "find (\<lambda>n. \<not> ?A n) ?C = Some n" by auto
  note found = find_stdSet [OF n [unfolded countersAhead_def]]
  have nA: "\<not> ?A n" by (rule found(1))
  have below: "?A x" if "x \<in> ?ctr ` set m" "l < x" "x < n" for x
    using found(3) [of x] that by (auto simp: case_prod_beta)
  have "?A k \<longleftrightarrow> k < n" for k
  proof
    assume "?A k"
    with nA ahead_antimono [OF wf, of m k n] show "k < n" by (meson linorder_not_less)
  next
    assume "k < n"
    define c where "c = Max (insert l {x \<in> ?ctr ` set m. x \<le> k})"
    show "?A k"
    proof (cases "l \<le> k")
      case True
      have c: "c \<in> insert l {x \<in> ?ctr ` set m. x \<le> k}"
        unfolding c_def by (rule Max_in) auto
      have c_ge: "x \<le> c" if "x \<in> insert l {x \<in> ?ctr ` set m. x \<le> k}" for x
        unfolding c_def by (rule Max_ge) (use that in auto)
      have "c \<le> k" using c True by auto
      have "?A c"
      proof (cases "c = l")
        case False
        with c c_ge [of l] have "c \<in> ?ctr ` set m" "l < c" by auto
        with \<open>c \<le> k\<close> \<open>k < n\<close> show ?thesis by (intro below le_less_trans [of c k n])
      qed (simp add: ahead)
      moreover have "(c < ?ctr q) = (k < ?ctr q)" if "q \<in> set m" for q
        using c_ge [of "?ctr q"] \<open>c \<le> k\<close> that by (metis (mono_tags, lifting) image_eqI insertCI
            le_less_trans linorder_not_less mem_Collect_eq)
      ultimately show ?thesis using ahead_cong [of m c k env] by blast
    next
      case False
      with ahead ahead_antimono [OF wf, of m l k] show ?thesis by simp
    qed
  qed
  with n show ?thesis by blast
qed

end
