(* ===== verification/BallotSteps.thy ===== *)
theory BallotSteps
  imports BallotOrder "HOL-Library.Sublist"
begin

text \<open>
  What every operation of the ballot protocol does to a slot, as one relation between the state
  before and the state after, and the contract that ties the recursion: if processing one's own
  statements respects the relation, so does every operation that emits a statement.
\<close>

section \<open>Steps of a slot\<close>

primrec phaseRank :: "SCPPhase \<Rightarrow> nat" where
  "phaseRank SCP_PHASE_PREPARE = 0"
| "phaseRank SCP_PHASE_CONFIRM = 1"
| "phaseRank SCP_PHASE_EXTERNALIZE = 2"

lemma phaseRank_inj [simp]: "phaseRank p = phaseRank q \<longleftrightarrow> p = q"
  by (cases p; cases q) auto

lemma phaseRank_bounds: "phaseRank p \<le> 2" "phaseRank p < 3"
  by (cases p; simp)+

primrec isValueExternalized :: "driver_call \<Rightarrow> bool" where
  "isValueExternalized (EmitEnvelope _) = False"
| "isValueExternalized (SetupBallotTimer _) = False"
| "isValueExternalized (SetupNominationTimer _) = False"
| "isValueExternalized (StartedBallotProtocol _) = False"
| "isValueExternalized (AcceptedBallotPrepared _) = False"
| "isValueExternalized (ConfirmedBallotPrepared _) = False"
| "isValueExternalized (AcceptedCommit _) = False"
| "isValueExternalized (BallotDidHearFromQuorum _) = False"
| "isValueExternalized (ValueExternalized _) = True"
| "isValueExternalized (NominatingValue _) = False"
| "isValueExternalized (UpdatedCandidateValue _) = False"

definition externalizedCalls :: "slot_state \<Rightarrow> nat" where
  "externalizedCalls s = length (filter isValueExternalized (driverCalls s))"

definition isExternalized :: "slot_state \<Rightarrow> nat" where
  "isExternalized s = (if mPhase s = SCP_PHASE_EXTERNALIZE then 1 else 0)"

text \<open>The driver is only told of the value the slot committed to.\<close>

definition externalizedOk :: "slot_state \<Rightarrow> bool" where
  "externalizedOk s \<longleftrightarrow>
     (\<forall>v. ValueExternalized v \<in> set (driverCalls s) \<longrightarrow>
        mPhase s = SCP_PHASE_EXTERNALIZE \<and> map_option bvalue (mCommit s) = Some v)"

definition latestLe :: "SCPEnvelope nodeMap \<Rightarrow> SCPEnvelope nodeMap \<Rightarrow> bool" where
  "latestLe m m' \<longleftrightarrow>
     (\<forall>n e. map_of m n = Some e \<longrightarrow> (\<exists>e'. map_of m' n = Some e' \<and> newerOrSame e e'))"

definition sameBallots :: "slot_state \<Rightarrow> slot_state \<Rightarrow> bool" where
  "sameBallots s s' \<longleftrightarrow>
     mCurrentBallot s' = mCurrentBallot s \<and> mPrepared s' = mPrepared s \<and>
     mPreparedPrime s' = mPreparedPrime s \<and> mHighBallot s' = mHighBallot s \<and> mCommit s' = mCommit s"

text \<open>
  The nomination state grows: no vote, accepted value, candidate or leader is withdrawn, and the
  recorded nominations of the other nodes only grow. Its lists are the ascending sequences of
  \<^verbatim>\<open>std::set\<close>s; what is accepted is voted for, and what is a candidate is accepted.
\<close>

definition nominationsLe :: "SCPEnvelope nodeMap \<Rightarrow> SCPEnvelope nodeMap \<Rightarrow> bool" where
  "nominationsLe m m' \<longleftrightarrow>
     (\<forall>n e. map_of m n = Some e \<longrightarrow>
        (\<exists>e'. map_of m' n = Some e' \<and>
              set (nomVotes (pledges (statement e))) \<subseteq> set (nomVotes (pledges (statement e'))) \<and>
              set (nomAccepted (pledges (statement e))) \<subseteq> set (nomAccepted (pledges (statement e')))))"

definition nominationOk :: "nomination_state \<Rightarrow> bool" where
  "nominationOk n \<longleftrightarrow>
     sorted_wrt (<) (mVotes n) \<and> sorted_wrt (<) (mAccepted n) \<and> sorted_wrt (<) (mCandidates n) \<and>
     sorted_wrt (<) (mRoundLeaders n) \<and> mapSorted (mLatestNominations n) \<and>
     set (mAccepted n) \<subseteq> set (mVotes n) \<and> set (mCandidates n) \<subseteq> set (mAccepted n)"

definition nominationStep :: "nomination_state \<Rightarrow> nomination_state \<Rightarrow> bool" where
  "nominationStep n n' \<longleftrightarrow>
     set (mVotes n) \<subseteq> set (mVotes n') \<and> set (mAccepted n) \<subseteq> set (mAccepted n') \<and>
     set (mCandidates n) \<subseteq> set (mCandidates n') \<and> set (mRoundLeaders n) \<subseteq> set (mRoundLeaders n') \<and>
     mRoundNumber n \<le> mRoundNumber n' \<and>
     nominationsLe (mLatestNominations n) (mLatestNominations n') \<and>
     (nominationOk n \<longrightarrow> nominationOk n')"

text \<open>
  The phase only advances; within a phase the current ballot does not go down; nothing about the
  ballots changes once the slot is externalized; the latest statements are only replaced by newer
  ones; history and driver calls are appended to; and the driver is told of an externalized value
  exactly when the slot enters the last phase.
\<close>

definition slotStep :: "slot_state \<Rightarrow> slot_state \<Rightarrow> bool" where
  "slotStep s s' \<longleftrightarrow>
     phaseRank (mPhase s) \<le> phaseRank (mPhase s') \<and>
     (mPhase s = mPhase s' \<longrightarrow> mCurrentBallot s \<le> mCurrentBallot s') \<and>
     (mCurrentBallot s \<noteq> None \<longrightarrow> mCurrentBallot s' \<noteq> None) \<and>
     (mPhase s = SCP_PHASE_EXTERNALIZE \<longrightarrow> sameBallots s s') \<and>
     mCurrentMessageLevel s' = mCurrentMessageLevel s \<and>
     latestLe (mLatestEnvelopes s) (mLatestEnvelopes s') \<and>
     (mapSorted (mLatestEnvelopes s) \<longrightarrow> mapSorted (mLatestEnvelopes s')) \<and>
     prefix (mStatementsHistory s) (mStatementsHistory s') \<and>
     prefix (driverCalls s) (driverCalls s') \<and>
     externalizedCalls s' + isExternalized s = externalizedCalls s + isExternalized s' \<and>
     nominationStep (mNomination s) (mNomination s') \<and>
     (mFullyValidated s' \<longrightarrow> mFullyValidated s) \<and>
     (mGotVBlocking s \<longrightarrow> mGotVBlocking s') \<and>
     (externalizedOk s \<longrightarrow> externalizedOk s')"

lemma latestLe_refl [simp]: "latestLe m m"
  by (auto simp: latestLe_def)

lemma latestLe_trans: "latestLe a b \<Longrightarrow> latestLe b c \<Longrightarrow> latestLe a c"
  unfolding latestLe_def by (meson newerOrSame_trans)

lemma sameBallots_refl [simp]: "sameBallots s s"
  by (simp add: sameBallots_def)

lemma sameBallots_trans: "sameBallots a b \<Longrightarrow> sameBallots b c \<Longrightarrow> sameBallots a c"
  by (simp add: sameBallots_def)

lemma nominationsLe_refl [simp]: "nominationsLe m m"
  by (auto simp: nominationsLe_def)

lemma nominationsLe_trans: "nominationsLe a b \<Longrightarrow> nominationsLe b c \<Longrightarrow> nominationsLe a c"
  unfolding nominationsLe_def by (meson subset_trans)

lemma nominationStep_refl [simp]: "nominationStep n n"
  by (simp add: nominationStep_def)

lemma nominationStep_trans: "nominationStep a b \<Longrightarrow> nominationStep b c \<Longrightarrow> nominationStep a c"
  unfolding nominationStep_def by (auto dest: nominationsLe_trans)

lemma nominationStep_stop: "nominationStep a b \<Longrightarrow> nominationStep a (b\<lparr>mNominationStarted := x\<rparr>)"
  unfolding nominationStep_def by (simp add: nominationOk_def)

lemma slotStep_refl [simp, intro]: "slotStep s s"
  by (simp add: slotStep_def)

lemma phaseRank_externalize: "2 \<le> phaseRank p \<longleftrightarrow> p = SCP_PHASE_EXTERNALIZE"
  by (cases p) auto

lemma slotStepD:
  assumes "slotStep s s'"
  shows "phaseRank (mPhase s) \<le> phaseRank (mPhase s')"
    and "mPhase s = mPhase s' \<Longrightarrow> mCurrentBallot s \<le> mCurrentBallot s'"
    and "mCurrentBallot s \<noteq> None \<Longrightarrow> mCurrentBallot s' \<noteq> None"
    and "mPhase s = SCP_PHASE_EXTERNALIZE \<Longrightarrow> sameBallots s s'"
    and "mCurrentMessageLevel s' = mCurrentMessageLevel s"
    and "latestLe (mLatestEnvelopes s) (mLatestEnvelopes s')"
    and "mapSorted (mLatestEnvelopes s) \<Longrightarrow> mapSorted (mLatestEnvelopes s')"
    and "prefix (mStatementsHistory s) (mStatementsHistory s')"
    and "prefix (driverCalls s) (driverCalls s')"
    and "externalizedCalls s' + isExternalized s = externalizedCalls s + isExternalized s'"
    and "nominationStep (mNomination s) (mNomination s')"
    and "mFullyValidated s' \<Longrightarrow> mFullyValidated s"
    and "mGotVBlocking s \<Longrightarrow> mGotVBlocking s'"
    and "externalizedOk s \<Longrightarrow> externalizedOk s'"
  using assms unfolding slotStep_def by blast+

lemma slotStep_externalized:
  "slotStep s s' \<Longrightarrow> mPhase s = SCP_PHASE_EXTERNALIZE \<Longrightarrow> mPhase s' = SCP_PHASE_EXTERNALIZE"
  using slotStepD(1) [of s s'] by (simp add: phaseRank_externalize)

lemma slotStep_trans [trans]:
  assumes "slotStep a b" "slotStep b c"
  shows "slotStep a c"
  unfolding slotStep_def
proof (intro conjI impI)
  note A = slotStepD [OF assms(1)] and B = slotStepD [OF assms(2)]
  show "phaseRank (mPhase a) \<le> phaseRank (mPhase c)" using A(1) B(1) by simp
  show "mCurrentBallot a \<le> mCurrentBallot c" if "mPhase a = mPhase c"
  proof -
    have "mPhase a = mPhase b" "mPhase b = mPhase c"
      using A(1) B(1) that by (metis le_antisym phaseRank_inj)+
    with A(2) B(2) show ?thesis by (simp add: order_trans)
  qed
  show "mCurrentBallot c \<noteq> None" if "mCurrentBallot a \<noteq> None" using A(3) B(3) that by blast
  show "sameBallots a c" if "mPhase a = SCP_PHASE_EXTERNALIZE"
    using A(4) B(4) slotStep_externalized [OF assms(1)] that sameBallots_trans by blast
  show "mCurrentMessageLevel c = mCurrentMessageLevel a" using A(5) B(5) by simp
  show "latestLe (mLatestEnvelopes a) (mLatestEnvelopes c)" using A(6) B(6) by (rule latestLe_trans)
  show "mapSorted (mLatestEnvelopes c)" if "mapSorted (mLatestEnvelopes a)" using A(7) B(7) that by blast
  show "prefix (mStatementsHistory a) (mStatementsHistory c)" using A(8) B(8) by (rule prefix_order.trans)
  show "prefix (driverCalls a) (driverCalls c)" using A(9) B(9) by (rule prefix_order.trans)
  show "externalizedCalls c + isExternalized a = externalizedCalls a + isExternalized c"
    using A(10) B(10) by simp
  show "nominationStep (mNomination a) (mNomination c)" using A(11) B(11) by (rule nominationStep_trans)
  show "mFullyValidated a" if "mFullyValidated c" using A(12) B(12) that by blast
  show "mGotVBlocking c" if "mGotVBlocking a" using A(13) B(13) that by blast
  show "externalizedOk c" if "externalizedOk a" using A(14) B(14) that by blast
qed

text \<open>Updates of the ballots before the slot is externalized, with calls of the driver.\<close>

definition quietCalls :: "slot_state \<Rightarrow> slot_state \<Rightarrow> bool" where
  "quietCalls s s' \<longleftrightarrow>
     (\<exists>cs. driverCalls s' = driverCalls s @ cs \<and> filter isValueExternalized cs = [])"

lemma quietCalls_externalized:
  assumes "quietCalls s s'"
  shows "ValueExternalized v \<in> set (driverCalls s') \<longleftrightarrow> ValueExternalized v \<in> set (driverCalls s)"
proof -
  obtain cs where cs: "driverCalls s' = driverCalls s @ cs" "filter isValueExternalized cs = []"
    using assms unfolding quietCalls_def by blast
  have "ValueExternalized v \<notin> set cs"
    using cs(2) unfolding filter_empty_conv by (metis isValueExternalized.simps(9))
  with cs(1) show ?thesis by simp
qed

definition frameEq :: "slot_state \<Rightarrow> slot_state \<Rightarrow> bool" where
  "frameEq s s' \<longleftrightarrow>
     mCurrentMessageLevel s' = mCurrentMessageLevel s \<and> mLatestEnvelopes s' = mLatestEnvelopes s \<and>
     mStatementsHistory s' = mStatementsHistory s \<and> mNomination s' = mNomination s \<and>
     mFullyValidated s' = mFullyValidated s \<and> mGotVBlocking s' = mGotVBlocking s"

lemma slotStep_local:
  assumes "mPhase s \<noteq> SCP_PHASE_EXTERNALIZE" "mPhase s' \<noteq> SCP_PHASE_EXTERNALIZE"
    and "mPhase s' = mPhase s \<and> mCurrentBallot s \<le> mCurrentBallot s' \<or>
         phaseRank (mPhase s) < phaseRank (mPhase s') \<and> (mCurrentBallot s \<noteq> None \<longrightarrow> mCurrentBallot s' \<noteq> None)"
    and "frameEq s s'" "quietCalls s s'"
  shows "slotStep s s'"
proof -
  have b: "mCurrentBallot s \<noteq> None \<longrightarrow> mCurrentBallot s' \<noteq> None"
    using assms(3) by (cases "mCurrentBallot s'") (auto dest: less_eq_option_None_is_None)
  have e: "externalizedCalls s' = externalizedCalls s" "prefix (driverCalls s) (driverCalls s')"
    using assms(5) by (auto simp: quietCalls_def externalizedCalls_def)
  have r: "phaseRank (mPhase s) \<le> phaseRank (mPhase s')"
    "mPhase s = mPhase s' \<longrightarrow> mCurrentBallot s \<le> mCurrentBallot s'"
    using assms(3) by auto
  have x: "externalizedOk s'" if "externalizedOk s"
  proof -
    have "ValueExternalized v \<notin> set (driverCalls s')" for v
      using assms(1) that by (auto simp: externalizedOk_def quietCalls_externalized [OF assms(5)])
    then show ?thesis by (simp add: externalizedOk_def)
  qed
  show ?thesis
    using assms(1,2,4) b e r x unfolding slotStep_def frameEq_def isExternalized_def by simp
qed

lemma frameEq_refl [simp]: "frameEq s s"
  by (simp add: frameEq_def)

lemma frameEq_trans: "frameEq a b \<Longrightarrow> frameEq b c \<Longrightarrow> frameEq a c"
  by (simp add: frameEq_def)

lemma quietCalls_refl [simp]: "quietCalls s s"
  by (simp add: quietCalls_def)

lemma quietCalls_trans: "quietCalls a b \<Longrightarrow> quietCalls b c \<Longrightarrow> quietCalls a c"
  unfolding quietCalls_def by fastforce

lemma quietCalls_callDriver: "\<not> isValueExternalized c \<Longrightarrow> quietCalls s (callDriver c s)"
  by (auto simp: quietCalls_def callDriver_def)

lemma callDriver_simps [simp]:
  "mPhase (callDriver c s) = mPhase s" "mCurrentBallot (callDriver c s) = mCurrentBallot s"
  "mPrepared (callDriver c s) = mPrepared s" "mPreparedPrime (callDriver c s) = mPreparedPrime s"
  "mHighBallot (callDriver c s) = mHighBallot s" "mCommit (callDriver c s) = mCommit s"
  "mLatestEnvelopes (callDriver c s) = mLatestEnvelopes s"
  "mCurrentMessageLevel (callDriver c s) = mCurrentMessageLevel s"
  "mNomination (callDriver c s) = mNomination s" "mFullyValidated (callDriver c s) = mFullyValidated s"
  "mGotVBlocking (callDriver c s) = mGotVBlocking s" "mStatementsHistory (callDriver c s) = mStatementsHistory s"
  "mHeardFromQuorum (callDriver c s) = mHeardFromQuorum s" "mLastEnvelope (callDriver c s) = mLastEnvelope s"
  "mLastEnvelopeEmit (callDriver c s) = mLastEnvelopeEmit s" "mValueOverride (callDriver c s) = mValueOverride s"
  "driverCalls (callDriver c s) = driverCalls s @ [c]"
  by (simp_all add: callDriver_def)

section \<open>Local operations\<close>

text \<open>Record updates that leave the frame alone.\<close>

lemma frameEq_updates [simp]:
  "frameEq s (callDriver c t) = frameEq s t"
  "frameEq s (t\<lparr>mCurrentBallot := x\<rparr>) = frameEq s t" "frameEq s (t\<lparr>mPrepared := x\<rparr>) = frameEq s t"
  "frameEq s (t\<lparr>mPreparedPrime := x\<rparr>) = frameEq s t" "frameEq s (t\<lparr>mHighBallot := x\<rparr>) = frameEq s t"
  "frameEq s (t\<lparr>mCommit := x\<rparr>) = frameEq s t" "frameEq s (t\<lparr>mHeardFromQuorum := y\<rparr>) = frameEq s t"
  "frameEq s (t\<lparr>mValueOverride := z\<rparr>) = frameEq s t" "frameEq s (t\<lparr>mLastEnvelope := u\<rparr>) = frameEq s t"
  "frameEq s (t\<lparr>mLastEnvelopeEmit := u\<rparr>) = frameEq s t" "frameEq s (t\<lparr>mPhase := ph\<rparr>) = frameEq s t"
  by (simp_all add: frameEq_def)

lemma quietCalls_updates [simp]:
  "quietCalls s (t\<lparr>mCurrentBallot := x\<rparr>) = quietCalls s t" "quietCalls s (t\<lparr>mPrepared := x\<rparr>) = quietCalls s t"
  "quietCalls s (t\<lparr>mPreparedPrime := x\<rparr>) = quietCalls s t" "quietCalls s (t\<lparr>mHighBallot := x\<rparr>) = quietCalls s t"
  "quietCalls s (t\<lparr>mCommit := x\<rparr>) = quietCalls s t" "quietCalls s (t\<lparr>mHeardFromQuorum := y\<rparr>) = quietCalls s t"
  "quietCalls s (t\<lparr>mValueOverride := z\<rparr>) = quietCalls s t" "quietCalls s (t\<lparr>mLastEnvelope := u\<rparr>) = quietCalls s t"
  "quietCalls s (t\<lparr>mLastEnvelopeEmit := u\<rparr>) = quietCalls s t" "quietCalls s (t\<lparr>mPhase := ph\<rparr>) = quietCalls s t"
  by (simp_all add: quietCalls_def)

lemma quietCalls_call [simp]: "\<not> isValueExternalized c \<Longrightarrow> quietCalls s t \<Longrightarrow> quietCalls s (callDriver c t)"
  by (blast intro: quietCalls_trans quietCalls_callDriver)

lemma bumpToBallot_effect:
  assumes "bumpToBallot ballot check s = Inr s'"
  shows "mPhase s \<noteq> SCP_PHASE_EXTERNALIZE" "mPhase s' = mPhase s" "mCurrentBallot s' = Some ballot"
    "check \<Longrightarrow> mCurrentBallot s \<le> Some ballot" "frameEq s s'" "quietCalls s s'"
    "mPrepared s' = mPrepared s" "mPreparedPrime s' = mPreparedPrime s"
    "mHighBallot s' = (case mHighBallot s of None \<Rightarrow> None
       | Some h \<Rightarrow> if areBallotsCompatible ballot h then Some h else None)"
    "mLastEnvelope s' = mLastEnvelope s" "mValueOverride s' = mValueOverride s"
  using assms unfolding bumpToBallot_def
  by (auto simp: res_iffs Let_def split: option.splits if_splits)

lemma setHighAndCommit_effect:
  assumes "setHighAndCommit newC newH s = Inr (w, s')"
  shows "mPhase s' = mPhase s" "mCurrentBallot s' = mCurrentBallot s" "frameEq s s'" "quietCalls s s'"
    "mPrepared s' = mPrepared s" "mPreparedPrime s' = mPreparedPrime s" "\<not> w \<Longrightarrow> s' = s"
  using assms unfolding setHighAndCommit_def
  by (auto simp: res_iffs Let_def split: if_splits)

lemma moveToConfirm_effect:
  assumes "moveToConfirm h s = Inr s'"
  shows "mPhase s' = SCP_PHASE_CONFIRM" "mCurrentBallot s \<noteq> None \<Longrightarrow> mCurrentBallot s' \<noteq> None"
    "frameEq s s'" "quietCalls s s'"
  using assms unfolding moveToConfirm_def
  by (auto simp: res_iffs Let_def frameEq_def quietCalls_def dest: bumpToBallot_effect
      split: if_splits option.splits)

lemma updateCurrentIfNeeded_effect:
  assumes "updateCurrentIfNeeded h s = Inr (w, s')"
  shows "mPhase s' = mPhase s" "mCurrentBallot s \<le> mCurrentBallot s'" "frameEq s s'" "quietCalls s s'"
    "mPhase s = SCP_PHASE_EXTERNALIZE \<Longrightarrow> s' = s" "\<not> w \<Longrightarrow> s' = s" "mPrepared s' = mPrepared s"
  using assms unfolding updateCurrentIfNeeded_def
  by (auto simp: res_iffs dest: bumpToBallot_effect split: option.splits if_splits)

lemma updateCurrentValue_effect:
  assumes "updateCurrentValue ballot s = Inr (w, s')"
  shows "mPhase s' = mPhase s" "mCurrentBallot s \<le> mCurrentBallot s'" "frameEq s s'" "quietCalls s s'"
    "\<not> w \<Longrightarrow> s' = s" "w \<Longrightarrow> mCurrentBallot s' = Some ballot \<and> mPhase s \<noteq> SCP_PHASE_EXTERNALIZE"
  using assms unfolding updateCurrentValue_def
  by (auto simp: res_iffs dest: bumpToBallot_effect split: option.splits if_splits)

lemma slotStep_quiet:
  assumes "mPhase s' = mPhase s" "sameBallots s s'" "frameEq s s'" "quietCalls s s'"
  shows "slotStep s s'"
proof -
  have "externalizedCalls s' = externalizedCalls s" "prefix (driverCalls s) (driverCalls s')"
    using assms(4) by (auto simp: quietCalls_def externalizedCalls_def)
  moreover have "mCurrentBallot s' = mCurrentBallot s"
    using assms(2) by (simp add: sameBallots_def)
  moreover have "externalizedOk s'" if "externalizedOk s"
    using assms(1,2) that
    by (auto simp: externalizedOk_def sameBallots_def quietCalls_externalized [OF assms(4)])
  ultimately show ?thesis
    using assms(1-3) unfolding slotStep_def frameEq_def isExternalized_def by simp
qed

lemma sendLatestEnvelope_step: "slotStep s (sendLatestEnvelope s)"
  by (rule slotStep_quiet) (auto simp: sendLatestEnvelope_def sameBallots_def split: option.splits)

lemma checkHeardFromQuorum_step: "slotStep s (checkHeardFromQuorum env s)"
  by (rule slotStep_quiet)
    (auto simp: checkHeardFromQuorum_def startBallotProtocolTimer_def stopBallotProtocolTimer_def
       sameBallots_def Let_def split: option.splits)

lemma maybeSetGotVBlocking_step: "slotStep s (maybeSetGotVBlocking env s)"
  by (auto simp: maybeSetGotVBlocking_def slotStep_def sameBallots_def isExternalized_def
       externalizedCalls_def externalizedOk_def Let_def)

text \<open>Recording a statement that is newer than the one it replaces.\<close>

lemma latestLe_mapPut:
  assumes "isNewerStatementFor n (statement e) s"
  shows "latestLe (mLatestEnvelopes s) (mapPut n e (mLatestEnvelopes s))"
  using assms unfolding latestLe_def isNewerStatementFor_def newerOrSame_def
  by (auto simp: mapPut_lookup)

lemma recordEnvelope_step:
  assumes "isNewerStatementFor (nodeID (statement e)) (statement e) s"
  shows "slotStep s (recordEnvelope e s)"
  using latestLe_mapPut [OF assms]
  by (auto simp: slotStep_def recordEnvelope_def recordStatement_def sameBallots_def isExternalized_def
      externalizedCalls_def externalizedOk_def mapPut_sorted)

lemma setFullyValidated_step: "slotStep s (setFullyValidated False s)"
  by (auto simp: slotStep_def setFullyValidated_def sameBallots_def isExternalized_def externalizedCalls_def
      externalizedOk_def)

text \<open>The message level goes up for the duration of \<^verbatim>\<open>advanceSlot\<close>.\<close>

lemma slotStep_level:
  assumes "slotStep (s\<lparr>mCurrentMessageLevel := mCurrentMessageLevel s + 1\<rparr>) t"
  shows "slotStep s (t\<lparr>mCurrentMessageLevel := mCurrentMessageLevel t - 1\<rparr>)"
  using slotStepD [OF assms]
  unfolding slotStep_def by (simp add: sameBallots_def isExternalized_def externalizedCalls_def
      externalizedOk_def)

section \<open>Outcomes of the attempts\<close>

text \<open>
  Every rule either fails, leaves the slot alone, or hands over to the operation that updates the
  state; the failures are those of the code, never the bound on the recursion.
\<close>

definition quietError :: "'a res \<Rightarrow> bool" where
  "quietError r \<longleftrightarrow> (\<exists>e. r = Inl e \<and> e \<noteq> OutOfFuel)"

lemma quietError_simps [simp]: "quietError (Inl e) \<longleftrightarrow> e \<noteq> OutOfFuel" "\<not> quietError (Inr x)"
  by (simp_all add: quietError_def)

lemma scanAcceptPrepared_no_fuel: "scanAcceptPrepared env cands s \<noteq> Inl OutOfFuel"
proof (induction cands)
  case (Cons b bs)
  have "skipPrepared b s \<noteq> Inl OutOfFuel"
    by (auto simp: skipPrepared_def bindE_Inl_iff dbgAssert_def deref_def split: option.splits if_splits)
  with Cons show ?case by (auto simp: bindE_Inl_iff split: if_splits)
qed simp

lemma attemptAcceptPrepared_outcome:
  assumes "attemptAcceptPrepared env pe hint s = r"
  shows "quietError r \<or> r = Inr (False, s) \<or>
         mPhase s \<noteq> SCP_PHASE_EXTERNALIZE \<and> (\<exists>ballot. r = setAcceptPrepared env pe ballot s)"
proof (cases "scanAcceptPrepared env (rev (getPrepareCandidates hint s)) s")
  case (Inl e)
  with assms scanAcceptPrepared_no_fuel [of env _ s] show ?thesis
    unfolding attemptAcceptPrepared_def by (auto split: if_splits)
next
  case (Inr o')
  with assms show ?thesis 
    unfolding attemptAcceptPrepared_def by (cases "mPhase s"; cases o') auto
qed

lemma attemptConfirmPrepared_outcome:
  assumes "attemptConfirmPrepared env pe hint s = r"
  shows "r = Inr (False, s) \<or>
         mPhase s \<noteq> SCP_PHASE_EXTERNALIZE \<and> (\<exists>c h. r = setConfirmPrepared env pe c h s)"
  using assms unfolding attemptConfirmPrepared_def Let_def
  by (cases "mPhase s"; cases "scanConfirmPrepared env (rev (getPrepareCandidates hint s)) s") (auto split: if_splits)

lemma attemptAcceptCommit_outcome:
  assumes "attemptAcceptCommit env pe hint s = r"
  shows "quietError r \<or> r = Inr (False, s) \<or> 
   mPhase s \<noteq> SCP_PHASE_EXTERNALIZE \<and> (\<exists>c h. r = setAcceptCommit env pe c h s)"
proof (cases "acceptCommitHint hint")
  case (Inl e)
  then have "e = Abort" by (cases hint) auto
  with Inl assms show ?thesis by (auto simp: attemptAcceptCommit_def)
next
  case (Inr hb)
  with assms show ?thesis unfolding attemptAcceptCommit_def Let_def
    by (cases "mPhase s"; cases hb; cases "mHighBallot s"; fastforce)
qed

lemma attemptConfirmCommit_outcome:
  assumes "attemptConfirmCommit env pe hint s = r"
  shows "quietError r \<or> r = Inr (False, s) \<or>
         mPhase s = SCP_PHASE_CONFIRM \<and> (\<exists>c h. r = setConfirmCommit env pe c h s)"
proof (cases "confirmCommitHint hint")
  case (Inl e)
  then have "e = Abort" by (cases hint) auto
  with Inl assms show ?thesis
    by (cases "mPhase s"; cases "mHighBallot s"; cases "mCommit s") (auto simp: attemptConfirmCommit_def)
next
  case (Inr hb)
  with assms show ?thesis unfolding attemptConfirmCommit_def Let_def
    by (cases "mPhase s"; cases hb; cases "mHighBallot s"; cases "mCommit s"; fastforce)
qed

lemma bumpState_outcome:
  assumes "bumpState env pe v force s = r"
  shows "r = Inr (False, s) \<or> (\<exists>n. r = bumpStateTo env pe v n s)"
  using assms unfolding bumpState_def by fastforce

lemma abandonBallot_outcome:
  assumes "abandonBallot env pe n s = r"
  shows "r = Inr (False, s) \<or> (\<exists>v. r = (if n = 0 then bumpState env pe v True s else bumpStateTo env pe v n s))"
  using assms unfolding abandonBallot_def Let_def by (auto split: option.splits if_splits)

lemma attemptBump_outcome:
  assumes "attemptBump env pe s = r"
  shows "r = Inr (False, s) \<or>
         (\<exists>v n. (case mCurrentBallot s of None \<Rightarrow> 0 | Some b \<Rightarrow> counter b) < n \<and> r = bumpStateTo env pe v n s)"
proof (cases "find (\<lambda>n. \<not> hasVBlockingSubsetStrictlyAheadOf env (mLatestEnvelopes s) n)
    (countersAhead (mLatestEnvelopes s) (case mCurrentBallot s of None \<Rightarrow> 0 | Some b \<Rightarrow> counter b))")
  case None
  with assms show ?thesis by (auto simp: attemptBump_def Let_def split: if_splits)
next
  case (Some n)
  then have n: "(case mCurrentBallot s of None \<Rightarrow> 0 | Some b \<Rightarrow> counter b) < n"
    using find_stdSet(2) [OF Some [unfolded countersAhead_def]] by auto
  then have "n \<noteq> 0" by (auto simp: word_gt_0)
  with n Some assms abandonBallot_outcome [of env pe n s] show ?thesis
    by (auto simp: attemptBump_def Let_def split: if_splits)
qed
section \<open>Operations that emit\<close>

text \<open>The contract of the processor of the node's own statements, and what follows from it.\<close>

locale self_processor =
  fixes env :: scp_env and pe :: process_self
  assumes pe_step: "pe e s = Inr (r, s') \<Longrightarrow> slotStep s s'"
begin

lemma emit_step:
  assumes "emitCurrentStateStatement env pe s = Inr s'"
  shows "slotStep s s'"
proof -
  have "slotStep s s'" if "pe e s = Inr (r, t)" "s' = t \<or> s' = sendLatestEnvelope (t\<lparr>mLastEnvelope := x\<rparr>)"
    for e r t x
  proof -
    have "slotStep t (t\<lparr>mLastEnvelope := x\<rparr>)"
      by (rule slotStep_quiet) (auto simp: sameBallots_def)
    with that sendLatestEnvelope_step slotStep_trans pe_step show ?thesis by metis
  qed
  then show ?thesis
    using assms unfolding emitCurrentStateStatement_def
    by (auto simp: res_iffs Let_def split: if_splits option.splits)
qed

lemma emit_after: "slotStep s t \<Longrightarrow> emitCurrentStateStatement env pe t = Inr s' \<Longrightarrow> slotStep s s'"
  by (rule slotStep_trans [OF _ emit_step])

lemma setAcceptPrepared_step:
  assumes "setAcceptPrepared env pe ballot s = Inr (w, s')" "mPhase s \<noteq> SCP_PHASE_EXTERNALIZE"
  shows "slotStep s s'"
proof -
  obtain d s1 where s1: "setPrepared ballot s = (d, s1)" by fastforce
  then have eff: "mPhase s1 = mPhase s" "mCurrentBallot s1 = mCurrentBallot s" "frameEq s s1" "quietCalls s s1"
    by (auto simp: setPrepared_def Let_def split: option.splits if_splits)
  then have step: "slotStep s (callDriver (AcceptedBallotPrepared ballot) t)" "slotStep s t"
    if "t = s1 \<or> t = s1\<lparr>mCommit := None\<rparr>" for t
    using that assms(2) by (auto intro!: slotStep_local)
  have "\<exists>t. (t = s1 \<or> t = s1\<lparr>mCommit := None\<rparr>) \<and> (s' = t \<or>
      emitCurrentStateStatement env pe (callDriver (AcceptedBallotPrepared ballot) t) = Inr s')"
    using assms(1) s1 unfolding setAcceptPrepared_def
    by (auto simp: res_iffs Let_def split: if_splits)
  with step show ?thesis using emit_after by metis
qed

lemma attemptAcceptPrepared_step:
  "attemptAcceptPrepared env pe hint s = Inr (w, s') \<Longrightarrow> slotStep s s'"
  using attemptAcceptPrepared_outcome [of env pe hint s "Inr (w, s')"] setAcceptPrepared_step by auto metis

lemma setConfirmPrepared_step:
  assumes "setConfirmPrepared env pe newC newH s = Inr (w, s')" "mPhase s \<noteq> SCP_PHASE_EXTERNALIZE"
  shows "slotStep s s'"
proof -
  let ?t = "s\<lparr>mValueOverride := Some (bvalue newH)\<rparr>"
  from assms(1) obtain d s3 w2 s4 where
    s3: "(d, s3) = (False, ?t) \<or> setHighAndCommit newC newH ?t = Inr (d, s3)" and
    s4: "updateCurrentIfNeeded newH s3 = Inr (w2, s4)" and
    s': "s' = s4 \<or> emitCurrentStateStatement env pe s4 = Inr s'"
    unfolding setConfirmPrepared_def
    by (auto simp: res_iffs Let_def split: if_splits)
  have "mPhase s3 = mPhase s" "mCurrentBallot s3 = mCurrentBallot s" "frameEq s s3" "quietCalls s s3"
    using s3 setHighAndCommit_effect [of newC newH ?t d s3] by (auto simp: frameEq_def quietCalls_def)
  with updateCurrentIfNeeded_effect [OF s4] assms(2) frameEq_trans [of s s3 s4] quietCalls_trans [of s s3 s4]
  have "slotStep s s4" by (intro slotStep_local) auto
  with s' show ?thesis using emit_after by metis
qed

lemma attemptConfirmPrepared_step:
  "attemptConfirmPrepared env pe hint s = Inr (w, s') \<Longrightarrow> slotStep s s'"
  using attemptConfirmPrepared_outcome [of env pe hint s "Inr (w, s')"] setConfirmPrepared_step by auto metis

lemma setAcceptCommit_step:
  assumes "setAcceptCommit env pe c h s = Inr (w, s')" "mPhase s \<noteq> SCP_PHASE_EXTERNALIZE"
  shows "slotStep s s'"
proof -
  let ?t = "s\<lparr>mValueOverride := Some (bvalue h)\<rparr>"
  have "slotStep s s'"
    if s1: "s1 = ?t \<or> s1 = ?t\<lparr>mCommit := Some c, mHighBallot := Some h\<rparr>" and
      r: "bindE (if mPhase s1 = SCP_PHASE_PREPARE then moveToConfirm h s1 else Inr s1) (\<lambda>s2.
            if k then bindE (deref (mHighBallot s2)) (\<lambda>hb.
                 bindE (updateCurrentIfNeeded hb s2) (\<lambda>(_, s3).
                 bindE (emitCurrentStateStatement env pe (callDriver (AcceptedCommit h) s3)) (\<lambda>s4.
                 Inr (True, s4))))
            else Inr (False, s2)) = Inr (w, s')" for s1 k
  proof -
    from r obtain s2 where
      s2: "(if mPhase s1 = SCP_PHASE_PREPARE then moveToConfirm h s1 else Inr s1) = Inr s2" and
      s': "s' = s2 \<or> (\<exists>hb u s3. updateCurrentIfNeeded hb s2 = Inr (u, s3) \<and>
             emitCurrentStateStatement env pe (callDriver (AcceptedCommit h) s3) = Inr s')"
      unfolding bindE_Inr_iff by (auto simp: res_iffs split: if_splits)
    have eff: "mPhase s1 = mPhase s" "mCurrentBallot s1 = mCurrentBallot s" "frameEq s s1" "quietCalls s s1"
      using s1 by auto
    have ne: "mPhase s2 \<noteq> SCP_PHASE_EXTERNALIZE"
      using eff(1) s2 assms(2) moveToConfirm_effect(1) [of h s1 s2] by (auto split: if_splits)
    have "slotStep s s2"
    proof (cases "mPhase s1 = SCP_PHASE_PREPARE")
      case True
      with eff s2 moveToConfirm_effect [of h s1 s2] frameEq_trans [of s s1 s2] quietCalls_trans [of s s1 s2]
      show ?thesis by (intro slotStep_local) auto
    next
      case False
      with eff s2 assms(2) show ?thesis by (intro slotStep_local) auto
    qed
    moreover have "slotStep s2 (callDriver (AcceptedCommit h) s3)"
      if "updateCurrentIfNeeded hb s2 = Inr (u, s3)" for hb u s3
      using updateCurrentIfNeeded_effect [OF that] ne by (intro slotStep_local) auto
    ultimately show ?thesis using s' emit_after slotStep_trans by metis
  qed
  from this [OF _ assms(1) [unfolded setAcceptCommit_def Let_def]] show ?thesis by simp
qed

lemma attemptAcceptCommit_step:
  "attemptAcceptCommit env pe hint s = Inr (w, s') \<Longrightarrow> slotStep s s'"
  using attemptAcceptCommit_outcome [of env pe hint s "Inr (w, s')"] setAcceptCommit_step by auto metis

lemma setConfirmCommit_step:
  assumes "setConfirmCommit env pe c h s = Inr (w, s')" "mPhase s = SCP_PHASE_CONFIRM"
  shows "slotStep s s'"
proof -
  let ?t = "s\<lparr>mCommit := Some c, mHighBallot := Some h\<rparr>"
  from assms(1) obtain u s1 s2 v where
    s1: "updateCurrentIfNeeded h ?t = Inr (u, s1)" and
    s2: "emitCurrentStateStatement env pe (s1\<lparr>mPhase := SCP_PHASE_EXTERNALIZE\<rparr>) = Inr s2" and
    s': "s' = callDriver (ValueExternalized v) (slotStopNomination s2)" and
    v: "map_option bvalue (mCommit (slotStopNomination s2)) = Some v"
    unfolding setConfirmCommit_def by (auto simp: res_iffs Let_def)
  let ?s1 = "s1\<lparr>mPhase := SCP_PHASE_EXTERNALIZE\<rparr>"
  note e = updateCurrentIfNeeded_effect [OF s1] and S = slotStepD [OF emit_step [OF s2]]
  have "slotStep s s1" using e assms(2) by (intro slotStep_local) (auto simp: frameEq_def quietCalls_def)
  note S1 = slotStepD [OF this]
  have ext: "mPhase s2 = SCP_PHASE_EXTERNALIZE" using slotStep_externalized [OF emit_step [OF s2]] by simp
  have ph: "mPhase s1 = SCP_PHASE_CONFIRM" using e(1) assms(2) by simp
  have stop: "slotStopNomination s2 = s2\<lparr>mNomination := (mNomination s2)\<lparr>mNominationStarted := False\<rparr>\<rparr>"
    by (simp add: slotStopNomination_def)
  have calls: "externalizedCalls s2 = externalizedCalls s"
    using S(10) S1(10) ext ph assms(2) by (simp add: isExternalized_def externalizedCalls_def)
  have "externalizedOk s'" if "externalizedOk s"
  proof -
    have "ValueExternalized x \<notin> set (driverCalls s)" for x
      using that assms(2) by (auto simp: externalizedOk_def)
    then have "externalizedCalls s = 0"
      unfolding externalizedCalls_def length_0_conv filter_empty_conv
      by (metis driver_call.exhaust isValueExternalized.simps)
    with calls have "ValueExternalized x \<notin> set (driverCalls s2)" for x
      by (auto simp: externalizedCalls_def filter_empty_conv)
    with v ext show ?thesis unfolding s' externalizedOk_def stop by auto
  qed
  moreover note calls
  moreover have "nominationStep (mNomination s) (mNomination s')"
    using nominationStep_trans [OF S1(11)] S(11) unfolding s' stop by (simp add: nominationStep_stop)
  moreover have "mCurrentBallot s' \<noteq> None" if "mCurrentBallot s \<noteq> None"
    using S(3) S1(3) that unfolding s' stop by simp
  moreover have "latestLe (mLatestEnvelopes s) (mLatestEnvelopes s')"
    using latestLe_trans [OF S1(6)] S(6) unfolding s' stop by simp
  moreover have "prefix (mStatementsHistory s) (mStatementsHistory s')" "prefix (driverCalls s) (driverCalls s2)"
    using prefix_order.trans [OF S1(8)] prefix_order.trans [OF S1(9)] S(8,9) unfolding s' stop by simp_all
  ultimately show ?thesis
    unfolding slotStep_def using S(5,7,12,13) S1(5,7,12,13) assms(2) ext
    unfolding s' stop by (auto simp: isExternalized_def externalizedCalls_def)
qed

lemma attemptConfirmCommit_step:
  "attemptConfirmCommit env pe hint s = Inr (w, s') \<Longrightarrow> slotStep s s'"
  using attemptConfirmCommit_outcome [of env pe hint s "Inr (w, s')"] setConfirmCommit_step by auto metis

text \<open>A bump that is performed leaves the ballot it was asked for, before the statement is processed.\<close>

lemma bumpStateTo_step:
  assumes "bumpStateTo env pe v n s = Inr (w, s')"
  shows "slotStep s s'" "w \<Longrightarrow> \<exists>t b. slotStep s t \<and> slotStep t s' \<and> mCurrentBallot t = Some b \<and>
           counter b = n \<and> mPhase t = mPhase s"
proof -
  let ?b = "SCPBallot n (case mValueOverride s of None \<Rightarrow> v | Some ov \<Rightarrow> ov)"
  have r: "(\<not> w \<and> s' = s) \<or> (\<exists>t u. updateCurrentValue ?b s = Inr (True, t) \<and>
      emitCurrentStateStatement env pe t = Inr u \<and> s' = checkHeardFromQuorum env u)"
    using assms unfolding bumpStateTo_def
    by (auto simp: res_iffs Let_def split: if_splits dest: updateCurrentValue_effect(5))
  have t: "slotStep s t \<and> slotStep t s' \<and> mCurrentBallot t = Some ?b \<and> mPhase t = mPhase s"
    if "updateCurrentValue ?b s = Inr (True, t)" "emitCurrentStateStatement env pe t = Inr u"
      "s' = checkHeardFromQuorum env u" for t u
  proof -
    note e = updateCurrentValue_effect [OF that(1)]
    have "slotStep s t" using e by (intro slotStep_local) auto
    moreover have "slotStep t s'"
      using slotStep_trans [OF emit_step [OF that(2)] checkHeardFromQuorum_step] that(3) by simp
    ultimately show ?thesis using e by simp
  qed
  show "slotStep s s'" using r t slotStep_trans by blast
  show "\<exists>t b. slotStep s t \<and> slotStep t s' \<and> mCurrentBallot t = Some b \<and> counter b = n \<and> mPhase t = mPhase s" if w
    using r t that SCPBallot.sel(1) [of n] by metis
qed

lemma bumpState_step: "bumpState env pe v force s = Inr (w, s') \<Longrightarrow> slotStep s s'"
  using bumpState_outcome [of env pe v force s "Inr (w, s')"] bumpStateTo_step(1) by auto metis

lemma abandonBallot_step: "abandonBallot env pe n s = Inr (w, s') \<Longrightarrow> slotStep s s'"
  using abandonBallot_outcome [of env pe n s "Inr (w, s')"] bumpStateTo_step(1) bumpState_step
  by (cases "n = 0") (auto, metis+)

lemma attemptBump_step: "attemptBump env pe s = Inr (w, s') \<Longrightarrow> slotStep s s'"
  using attemptBump_outcome [of env pe s "Inr (w, s')"] bumpStateTo_step(1) by auto metis

lemma bumpLoop_step: "bumpLoop n env pe s = Inr (w, s') \<Longrightarrow> slotStep s s'"
proof (induction n arbitrary: s w)
  case (Suc n)
  then show ?case
    by (auto simp: res_iffs split: if_splits intro: attemptBump_step slotStep_trans [OF attemptBump_step])
qed simp

lemma attemptRules_step:
  assumes "attemptRules env pe hint s = Inr (w, s')"
  shows "slotStep s s'"
proof -
  from assms obtain w1 s1 w2 s2 w3 s3 w4 where
    "attemptAcceptPrepared env pe hint s = Inr (w1, s1)" "attemptConfirmPrepared env pe hint s1 = Inr (w2, s2)"
    "attemptAcceptCommit env pe hint s2 = Inr (w3, s3)" "attemptConfirmCommit env pe hint s3 = Inr (w4, s')"
    unfolding attemptRules_def by (clarsimp simp: bindE_Inr_iff)
  then have "slotStep s s1" "slotStep s1 s2" "slotStep s2 s3" "slotStep s3 s'"
    by (simp_all add: attemptAcceptPrepared_step attemptConfirmPrepared_step attemptAcceptCommit_step
        attemptConfirmCommit_step)
  then show ?thesis by (meson slotStep_trans)
qed

lemma attemptBumps_step: "attemptBumps fuel env pe s = Inr (w, s') \<Longrightarrow> slotStep s s'"
  unfolding attemptBumps_def
  by (auto simp: res_iffs split: if_splits intro: slotStep_trans [OF bumpLoop_step checkHeardFromQuorum_step])

lemma advanceSlot_step:
  assumes "advanceSlot fuel env pe hint s = Inr s'"
  shows "slotStep s s'"
proof -
  let ?s0 = "s\<lparr>mCurrentMessageLevel := mCurrentMessageLevel s + 1\<rparr>"
  from assms obtain w1 s1 w2 s2 where
    r: "attemptRules env pe hint ?s0 = Inr (w1, s1)" "attemptBumps fuel env pe s1 = Inr (w2, s2)" and
    s': "s' = (if w1 \<or> w2 then sendLatestEnvelope (s2\<lparr>mCurrentMessageLevel := mCurrentMessageLevel s2 - 1\<rparr>)
               else s2\<lparr>mCurrentMessageLevel := mCurrentMessageLevel s2 - 1\<rparr>)"
    unfolding advanceSlot_def Let_def by (auto simp: res_iffs split: if_splits)
  have "slotStep ?s0 s2"
    using attemptRules_step [OF r(1)] attemptBumps_step [OF r(2)] by (rule slotStep_trans)
  then have "slotStep s (s2\<lparr>mCurrentMessageLevel := mCurrentMessageLevel s2 - 1\<rparr>)"
    by (rule slotStep_level)
  with s' show ?thesis using slotStep_trans [OF _ sendLatestEnvelope_step] by auto
qed

lemma processEnvelope_step:
  assumes "processEnvelope fuel env pe envelope self s = Inr (r, s')"
  shows "slotStep s s'"
proof -
  have newer: "s' = s \<or> isNewerStatementFor (nodeID (statement envelope)) (statement envelope) s"
    and s': "s' = s \<or> s' = recordEnvelope envelope s \<or>
      (\<exists>t hint. (t = s \<or> t = setFullyValidated False s) \<and> advanceSlot fuel env pe hint (recordEnvelope envelope t) = Inr s')"
    using assms unfolding processEnvelope_def Let_def bindE_Inr_iff
    by (auto simp: res_iffs split: if_splits)
  have "slotStep s (recordEnvelope envelope t)"
    if "isNewerStatementFor (nodeID (statement envelope)) (statement envelope) s"
      "t = s \<or> t = setFullyValidated False s" for t
  proof -
    have "isNewerStatementFor (nodeID (statement envelope)) (statement envelope) t"
      using that by (auto simp: isNewerStatementFor_def setFullyValidated_def)
    then have "slotStep t (recordEnvelope envelope t)" by (rule recordEnvelope_step)
    with that(2) show ?thesis using slotStep_trans [OF setFullyValidated_step] by auto
  qed
  with newer s' show ?thesis using advanceSlot_step slotStep_trans slotStep_refl by metis
qed

lemma slotProcessBallot_step:
  assumes "slotProcessBallot fuel env pe envelope self s = Inr (r, s')"
  shows "slotStep s s'"
proof -
  from assms obtain t where "processEnvelope fuel env pe envelope self s = Inr (r, t)"
    "s' = t \<or> s' = maybeSetGotVBlocking env t"
    unfolding slotProcessBallot_def Let_def bindE_Inr_iff by (auto split: if_splits)
  then show ?thesis
    using processEnvelope_step slotStep_trans [OF _ maybeSetGotVBlocking_step] by blast
qed

end

text \<open>The code's own processor meets the contract, at every depth of the recursion.\<close>

lemma slotProcessSelf_step: "slotProcessSelf n env e s = Inr (r, s') \<Longrightarrow> slotStep s s'"
proof (induction n arbitrary: e s r s')
  case (Suc n)
  then have "self_processor (slotProcessSelf n env)" by unfold_locales
  from self_processor.slotProcessBallot_step [OF this] Suc.prems show ?case by simp
qed simp

interpretation selfp: self_processor env "slotProcessSelf n env" for env n
  by unfold_locales (rule slotProcessSelf_step)

end
