(* ===== verification/BallotSync.thy ===== *)
theory BallotSync
  imports BallotSteps
begin

text \<open>
  A slot is always in step with its own latest message: the statement recorded for the local node is
  the one \<^verbatim>\<open>createStatement\<close> builds from the state, so the invariants that \<^verbatim>\<open>checkInvariants\<close> asserts
  hold between calls, and the state can be restored from that message.
\<close>

section \<open>The invariant\<close>

definition ballotFields :: "slot_state \<Rightarrow> _" where
  "ballotFields s = (mPhase s, mCurrentBallot s, mPrepared s, mPreparedPrime s, mHighBallot s, mCommit s)"

definition inSync :: "scp_env \<Rightarrow> slot_state \<Rightarrow> bool" where
  "inSync env s \<longleftrightarrow>
     (case map_of (mLatestEnvelopes s) (localNodeID env) of
        None \<Rightarrow> ballotFields s = (SCP_PHASE_PREPARE, None, None, None, None, None)
      | Some e \<Rightarrow> map_sum id (createEnvelope env) (createStatement env s) = Inr e)"

lemma ballotFieldsD:
  assumes "ballotFields s = ballotFields t"
  shows "mPhase s = mPhase t" "mCurrentBallot s = mCurrentBallot t" "mPrepared s = mPrepared t"
    "mPreparedPrime s = mPreparedPrime t" "mHighBallot s = mHighBallot t" "mCommit s = mCommit t"
  using assms by (simp_all add: ballotFields_def)

lemma checkInvariants_cong:
  assumes "ballotFields s = ballotFields t"
  shows "checkInvariants s = checkInvariants t"
  unfolding checkInvariants_def ballotFieldsD [OF assms] by (rule refl)

lemma createStatement_cong:
  assumes "ballotFields s = ballotFields t"
  shows "createStatement env s = createStatement env t"
  unfolding createStatement_def ballotFieldsD [OF assms] checkInvariants_cong [OF assms] by (rule refl)

lemma inSync_cong:
  assumes "ballotFields s = ballotFields t"
    and "map_of (mLatestEnvelopes s) (localNodeID env) = map_of (mLatestEnvelopes t) (localNodeID env)"
  shows "inSync env s = inSync env t"
  using assms createStatement_cong [OF assms(1)] unfolding inSync_def by (simp split: option.splits)

lemma inSync_invariants: "inSync env s \<Longrightarrow> checkInvariants s = Inr ()"
proof (cases "map_of (mLatestEnvelopes s) (localNodeID env)")
  case None
  assume "inSync env s"
  with None show ?thesis by (simp add: inSync_def ballotFields_def checkInvariants_def)
next
  case (Some e)
  assume "inSync env s"
  with Some obtain pl where "createStatement env s = Inr pl"
    by (cases "createStatement env s") (auto simp: inSync_def)
  then show ?thesis unfolding createStatement_def by (auto simp: bindE_Inr_iff)
qed

lemma inSync_statement:
  "createStatement env s = Inr pl \<Longrightarrow>
   map_of (mLatestEnvelopes s) (localNodeID env) = Some (createEnvelope env pl) \<Longrightarrow> inSync env s"
  by (simp add: inSync_def)

section \<open>Every operation keeps the slot in step\<close>

locale sync_processor =
  fixes env :: scp_env and pe :: process_self
  assumes pe_sync:
    "createStatement env s = Inr pl \<Longrightarrow> pe (createEnvelope env pl) s = Inr (VALID, s') \<Longrightarrow> inSync env s'"
begin

lemma sendLatest_sync: "inSync env (sendLatestEnvelope s) = inSync env s"
  by (rule inSync_cong) (auto simp: sendLatestEnvelope_def ballotFields_def split: option.splits)

lemma checkHeard_sync: "inSync env (checkHeardFromQuorum env s) = inSync env s"
  by (rule inSync_cong)
    (auto simp: checkHeardFromQuorum_def startBallotProtocolTimer_def stopBallotProtocolTimer_def
      ballotFields_def Let_def split: option.splits)

text \<open>Emitting puts the slot in step whatever it was before.\<close>

lemma emit_sync:
  assumes "emitCurrentStateStatement env pe s = Inr s'"
  shows "inSync env s'"
proof -
  from assms obtain pl where pl: "createStatement env s = Inr pl"
    unfolding emitCurrentStateStatement_def by (auto simp: res_iffs)
  have upd: "inSync env (t\<lparr>mLastEnvelope := x\<rparr>) = inSync env t" for t x
    by (rule inSync_cong) (simp_all add: ballotFields_def)
  show ?thesis
  proof (cases "map_of (mLatestEnvelopes s) (localNodeID env) = Some (createEnvelope env pl)")
    case True
    with assms pl have "s' = s" by (simp add: emitCurrentStateStatement_def Let_def)
    with inSync_statement [OF pl True] show ?thesis by simp
  next
    case False
    with assms pl obtain t where "pe (createEnvelope env pl) s = Inr (VALID, t)"
      and s': "s' = t \<or> (\<exists>x. s' = sendLatestEnvelope (t\<lparr>mLastEnvelope := x\<rparr>))"
      by (auto simp: emitCurrentStateStatement_def Let_def bindE_Inr_iff split: if_splits)
    with pe_sync [OF pl] sendLatest_sync upd show ?thesis by auto
  qed
qed

lemma setAcceptPrepared_sync:
  assumes "setAcceptPrepared env pe ballot s = Inr (w, s')" "inSync env s"
  shows "inSync env s'"
proof -
  obtain d s1 where s1: "setPrepared ballot s = (d, s1)" by fastforce
  then have "\<not> d \<Longrightarrow> s1 = s" by (auto simp: setPrepared_def Let_def split: option.splits if_splits)
  with assms s1 emit_sync show ?thesis
    unfolding setAcceptPrepared_def Let_def by (auto simp: res_iffs split: if_splits)
qed

lemma valueOverride_sync: "inSync env (s\<lparr>mValueOverride := x\<rparr>) = inSync env s"
  by (rule inSync_cong) (simp_all add: ballotFields_def)

lemma setConfirmPrepared_sync:
  assumes "setConfirmPrepared env pe newC newH s = Inr (w, s')" "inSync env s"
  shows "inSync env s'"
proof -
  let ?t = "s\<lparr>mValueOverride := Some (bvalue newH)\<rparr>"
  from assms(1) obtain d s3 w2 s4 where
    s3: "(d, s3) = (False, ?t) \<or> setHighAndCommit newC newH ?t = Inr (d, s3)" and
    s4: "updateCurrentIfNeeded newH s3 = Inr (w2, s4)" and
    s': "\<not> d \<and> \<not> w2 \<and> s' = s4 \<or> emitCurrentStateStatement env pe s4 = Inr s'"
    unfolding setConfirmPrepared_def by (auto simp: res_iffs Let_def split: if_splits)
  from s' show ?thesis
  proof
    assume "\<not> d \<and> \<not> w2 \<and> s' = s4"
    with s3 s4 have "s' = ?t"
      using updateCurrentIfNeeded_effect(6) setHighAndCommit_effect(7) by blast
    with assms(2) show ?thesis by (simp add: valueOverride_sync)
  qed (rule emit_sync)
qed

lemma setAcceptCommit_sync:
  assumes "setAcceptCommit env pe c h s = Inr (w, s')" "inSync env s"
  shows "inSync env s'"
proof -
  have "inSync env (s\<lparr>mValueOverride := Some (bvalue h)\<rparr>)" using assms(2) by (simp add: valueOverride_sync)
  with assms(1) show ?thesis
    unfolding setAcceptCommit_def Let_def bindE_Inr_iff
    by (auto simp: res_iffs split: if_splits dest: emit_sync)
qed

lemma setConfirmCommit_sync:
  assumes "setConfirmCommit env pe c h s = Inr (w, s')"
  shows "inSync env s'"
proof -
  from assms obtain t v where "inSync env t" "s' = callDriver (ValueExternalized v) (slotStopNomination t)"
    unfolding setConfirmCommit_def Let_def by (auto simp: res_iffs dest: emit_sync)
  moreover have "inSync env (callDriver (ValueExternalized v) (slotStopNomination t)) = inSync env t" for t v
    by (rule inSync_cong) (simp_all add: ballotFields_def slotStopNomination_def)
  ultimately show ?thesis by simp
qed

lemma bumpStateTo_sync:
  assumes "bumpStateTo env pe v n s = Inr (w, s')" "inSync env s"
  shows "inSync env s'"
proof -
  from assms(1) have "s' = s \<or> (\<exists>t u. emitCurrentStateStatement env pe t = Inr u \<and> s' = checkHeardFromQuorum env u)"
    unfolding bumpStateTo_def Let_def
    by (auto simp: res_iffs split: if_splits dest: updateCurrentValue_effect(5))
  with assms(2) emit_sync checkHeard_sync show ?thesis by auto
qed

lemma bumpState_sync: "bumpState env pe v force s = Inr (w, s') \<Longrightarrow> inSync env s \<Longrightarrow> inSync env s'"
  using bumpState_outcome [of env pe v force s "Inr (w, s')"] bumpStateTo_sync by auto metis

lemma abandonBallot_sync: "abandonBallot env pe n s = Inr (w, s') \<Longrightarrow> inSync env s \<Longrightarrow> inSync env s'"
  using abandonBallot_outcome [of env pe n s "Inr (w, s')"] bumpStateTo_sync bumpState_sync
  by (cases "n = 0") (auto, metis+)

lemma attemptBump_sync: "attemptBump env pe s = Inr (w, s') \<Longrightarrow> inSync env s \<Longrightarrow> inSync env s'"
  using attemptBump_outcome [of env pe s "Inr (w, s')"] bumpStateTo_sync by auto metis

lemma bumpLoop_sync: "bumpLoop n env pe s = Inr (w, s') \<Longrightarrow> inSync env s \<Longrightarrow> inSync env s'"
proof (induction n arbitrary: s w)
  case (Suc n)
  then show ?case by (auto simp: res_iffs split: if_splits dest: attemptBump_sync)
qed simp

lemma attempt_sync:
  "attemptAcceptPrepared env pe hint s = Inr (w, s') \<Longrightarrow> inSync env s \<Longrightarrow> inSync env s'"
  "attemptConfirmPrepared env pe hint s = Inr (w, s') \<Longrightarrow> inSync env s \<Longrightarrow> inSync env s'"
  "attemptAcceptCommit env pe hint s = Inr (w, s') \<Longrightarrow> inSync env s \<Longrightarrow> inSync env s'"
  "attemptConfirmCommit env pe hint s = Inr (w, s') \<Longrightarrow> inSync env s \<Longrightarrow> inSync env s'"
  using attemptAcceptPrepared_outcome [of env pe hint s "Inr (w, s')"] setAcceptPrepared_sync
    attemptConfirmPrepared_outcome [of env pe hint s "Inr (w, s')"] setConfirmPrepared_sync
    attemptAcceptCommit_outcome [of env pe hint s "Inr (w, s')"] setAcceptCommit_sync
    attemptConfirmCommit_outcome [of env pe hint s "Inr (w, s')"] setConfirmCommit_sync
  by (auto, metis+)

lemma attemptRules_sync: "attemptRules env pe hint s = Inr (w, s') \<Longrightarrow> inSync env s \<Longrightarrow> inSync env s'"
  unfolding attemptRules_def by (clarsimp simp: bindE_Inr_iff) (metis attempt_sync)

lemma advanceSlot_sync:
  assumes "advanceSlot fuel env pe hint s = Inr s'" "inSync env s"
  shows "inSync env s'"
proof -
  have lev: "inSync env (t\<lparr>mCurrentMessageLevel := x\<rparr>) = inSync env t" for t x
    by (rule inSync_cong) (simp_all add: ballotFields_def)
  have "inSync env s2" if "attemptBumps fuel env pe s1 = Inr (w, s2)" "inSync env s1" for s1 w s2
    using that unfolding attemptBumps_def
    by (auto simp: res_iffs checkHeard_sync split: if_splits dest: bumpLoop_sync)
  with assms lev sendLatest_sync attemptRules_sync show ?thesis
    unfolding advanceSlot_def Let_def by (auto simp: res_iffs split: if_splits)
qed

lemma processEnvelope_self_sync:
  assumes "createStatement env s = Inr pl"
    and "processEnvelope fuel env pe (createEnvelope env pl) self s = Inr (VALID, s')"
  shows "inSync env s'"
proof -
  let ?e = "createEnvelope env pl"
  have rec: "inSync env (recordEnvelope ?e t)" if "t = s \<or> t = setFullyValidated False s" for t
  proof (rule inSync_statement)
    have "ballotFields (recordEnvelope ?e t) = ballotFields s"
      using that by (auto simp: ballotFields_def recordEnvelope_def recordStatement_def setFullyValidated_def)
    from createStatement_cong [OF this] assms(1) show "createStatement env (recordEnvelope ?e t) = Inr pl" by simp
    show "map_of (mLatestEnvelopes (recordEnvelope ?e t)) (localNodeID env) = Some ?e"
      by (simp add: recordEnvelope_def recordStatement_def mapPut_lookup createEnvelope_def Let_def)
  qed
  from assms(2) have "s' = recordEnvelope ?e s \<or>
      (\<exists>t hint. (t = s \<or> t = setFullyValidated False s) \<and> advanceSlot fuel env pe hint (recordEnvelope ?e t) = Inr s')"
    unfolding processEnvelope_def Let_def bindE_Inr_iff by (auto simp: res_iffs split: if_splits)
  with rec advanceSlot_sync show ?thesis by blast
qed

lemma processEnvelope_sync:
  assumes "processEnvelope fuel env pe e self s = Inr (r, s')"
    and "nodeID (statement e) \<noteq> localNodeID env" "inSync env s"
  shows "inSync env s'"
proof -
  have rec: "inSync env (recordEnvelope e t)" if "t = s \<or> t = setFullyValidated False s" for t
  proof -
    have "inSync env (recordEnvelope e t) = inSync env s"
      by (rule inSync_cong)
        (use that assms(2) in \<open>auto simp: ballotFields_def recordEnvelope_def recordStatement_def
           setFullyValidated_def mapPut_lookup\<close>)
    with assms(3) show ?thesis by simp
  qed
  from assms(1) have "s' = s \<or> s' = recordEnvelope e s \<or>
      (\<exists>t hint. (t = s \<or> t = setFullyValidated False s) \<and> advanceSlot fuel env pe hint (recordEnvelope e t) = Inr s')"
    unfolding processEnvelope_def Let_def bindE_Inr_iff by (auto simp: res_iffs split: if_splits)
  with rec advanceSlot_sync assms(3) show ?thesis by blast
qed

lemma slotProcessBallot_sync:
  assumes "slotProcessBallot fuel env pe e self s = Inr (r, s')"
  shows "nodeID (statement e) \<noteq> localNodeID env \<Longrightarrow> inSync env s \<Longrightarrow> inSync env s'"
    and "createStatement env s = Inr pl \<Longrightarrow> e = createEnvelope env pl \<Longrightarrow> r = VALID \<Longrightarrow> inSync env s'"
proof -
  from assms obtain t where t: "processEnvelope fuel env pe e self s = Inr (r, t)"
    "s' = t \<or> s' = maybeSetGotVBlocking env t"
    unfolding slotProcessBallot_def Let_def bindE_Inr_iff by (auto split: if_splits)
  have v: "inSync env s' = inSync env t"
    by (rule inSync_cong) (use t(2) in \<open>auto simp: maybeSetGotVBlocking_def ballotFields_def Let_def\<close>)
  show "inSync env s'" if "nodeID (statement e) \<noteq> localNodeID env" "inSync env s"
    using processEnvelope_sync [OF t(1)] that v by simp
  show "inSync env s'" if "createStatement env s = Inr pl" "e = createEnvelope env pl" "r = VALID"
    using processEnvelope_self_sync [OF that(1)] t(1) that(2,3) v by simp
qed

end

lemma slotProcessSelf_sync:
  "createStatement env s = Inr pl \<Longrightarrow> slotProcessSelf n env (createEnvelope env pl) s = Inr (VALID, s') \<Longrightarrow>
   inSync env s'"
proof (induction n arbitrary: s pl s')
  case (Suc n)
  then have "sync_processor env (slotProcessSelf n env)" by unfold_locales
  from sync_processor.slotProcessBallot_sync(2) [OF this] Suc.prems show ?case by simp
qed simp

interpretation selfs: sync_processor env "slotProcessSelf n env" for env n
  by unfold_locales (rule slotProcessSelf_sync)

section \<open>Restoring a slot from its latest message\<close>

lemma createStatement_invariants: "createStatement env s = Inr pl \<Longrightarrow> checkInvariants s = Inr ()"
  unfolding createStatement_def by (auto simp: bindE_Inr_iff)

lemma checkInvariants_facts:
  assumes "checkInvariants s = Inr ()"
  shows "mCurrentBallot s = Some b \<Longrightarrow> counter b \<noteq> 0"
    and "mHighBallot s = Some h \<Longrightarrow> \<exists>b. mCurrentBallot s = Some b \<and> areBallotsLessAndCompatible h b"
    and "mCommit s = Some c \<Longrightarrow> \<exists>h. mHighBallot s = Some h \<and> areBallotsLessAndCompatible c h"
    and "mPrepared s = Some p \<Longrightarrow> mPreparedPrime s = Some p' \<Longrightarrow> areBallotsLessAndIncompatible p' p"
    and "mPhase s \<noteq> SCP_PHASE_PREPARE \<Longrightarrow> mCommit s \<noteq> None"
  using assms unfolding checkInvariants_def
  by (auto simp: res_iffs split: option.splits SCPPhase.splits)

text \<open>The high ballot and the commit ballot carry the value of the current ballot.\<close>

lemma checkInvariants_ballots:
  assumes "checkInvariants s = Inr ()" "mCurrentBallot s = Some b"
  shows "mHighBallot s = Some h \<Longrightarrow> bvalue h = bvalue b \<and> counter h \<le> counter b"
    and "mCommit s = Some c \<Longrightarrow> bvalue c = bvalue b \<and>
           (\<exists>h. mHighBallot s = Some h \<and> counter c \<le> counter h)"
proof -
  have *: "bvalue h = bvalue b \<and> counter h \<le> counter b" if "mHighBallot s = Some h" for h
    using checkInvariants_facts(2) [OF assms(1) that] assms(2)
    by (cases h) (auto simp: areBallotsLessAndCompatible_iff)
  then show "mHighBallot s = Some h \<Longrightarrow> bvalue h = bvalue b \<and> counter h \<le> counter b" .
  assume "mCommit s = Some c"
  from checkInvariants_facts(3) [OF assms(1) this] obtain h where
    "mHighBallot s = Some h" "areBallotsLessAndCompatible c h" by blast
  with * [of h] show "bvalue c = bvalue b \<and> (\<exists>h. mHighBallot s = Some h \<and> counter c \<le> counter h)"
    by (cases c; cases h) (auto simp: areBallotsLessAndCompatible_iff)
qed

lemma checkInvariants_intro:
  assumes "mCurrentBallot s = Some b" "counter b \<noteq> 0"
    and "\<And>p p'. mPrepared s = Some p \<Longrightarrow> mPreparedPrime s = Some p' \<Longrightarrow> areBallotsLessAndIncompatible p' p"
    and "\<And>h. mHighBallot s = Some h \<Longrightarrow> bvalue h = bvalue b \<and> counter h \<le> counter b"
    and "\<And>c. mCommit s = Some c \<Longrightarrow> (\<exists>h. mHighBallot s = Some h \<and> bvalue c = bvalue b \<and> counter c \<le> counter h)"
    and "mPhase s \<noteq> SCP_PHASE_PREPARE \<Longrightarrow> mCommit s \<noteq> None"
  shows "checkInvariants s = Inr ()"
proof -
  have "areBallotsLessAndCompatible h b" if "mHighBallot s = Some h" for h
    using assms(4) [OF that] by (simp add: areBallotsLessAndCompatible_iff)
  moreover have "\<exists>h. mHighBallot s = Some h \<and> areBallotsLessAndCompatible c h" if "mCommit s = Some c" for c
    using assms(5) [OF that] assms(4) by (auto simp: areBallotsLessAndCompatible_iff)
  ultimately show ?thesis
    using assms(1,2,3,6) unfolding checkInvariants_def
    by (cases "mPrepared s"; cases "mPreparedPrime s"; cases "mHighBallot s"; cases "mCommit s"; cases "mPhase s") auto
qed

lemmas restore_defs = setStateFromEnvelope_def bumpToBallot_def createEnvelope_def Slot_def recordEnvelope_def
  recordStatement_def callDriver_def

lemma restore_prepare:
  assumes "createStatement env s = Inr pl" "mPhase s = SCP_PHASE_PREPARE" "mCurrentBallot s = Some b"
  shows "\<exists>s'. setStateFromEnvelope (createEnvelope env pl) (Slot env) = Inr s' \<and>
              createStatement env s' = Inr pl \<and> mPhase s' = mPhase s"
proof -
  note ok = createStatement_invariants [OF assms(1)]
  note inv = checkInvariants_facts [OF ok] and hc = checkInvariants_ballots [OF ok assms(3)]
  let ?nC = "case mCommit s of None \<Rightarrow> 0 | Some c \<Rightarrow> counter c"
  let ?nH = "case mHighBallot s of None \<Rightarrow> 0 | Some h \<Rightarrow> counter h"
  have pl: "pl = PREPARE (localQSetHash env) b (mPrepared s) (mPreparedPrime s) ?nC ?nH"
    using assms(1-3) unfolding createStatement_def by (auto simp: bindE_Inr_iff)
  obtain s' where s': "setStateFromEnvelope (createEnvelope env pl) (Slot env) = Inr s'"
    "ballotFields s' = (SCP_PHASE_PREPARE, Some b, mPrepared s, mPreparedPrime s,
       if ?nH = 0 then None else Some (SCPBallot ?nH (bvalue b)),
       if ?nC = 0 then None else Some (SCPBallot ?nC (bvalue b)))"
    by (cases "mPrepared s"; cases "mPreparedPrime s")
      (auto simp: pl restore_defs ballotFields_def Let_def)
  have bound: "?nH \<le> counter b" using hc(1) by (auto split: option.splits)
  have nC: "?nC \<le> ?nH" using hc(2) by (auto split: option.splits)
  have "checkInvariants s' = Inr ()"
  proof (rule checkInvariants_intro [where b = b])
    show "counter b \<noteq> 0" by (rule inv(1) [OF assms(3)])
    show "\<exists>h. mHighBallot s' = Some h \<and> bvalue c = bvalue b \<and> counter c \<le> counter h" if "mCommit s' = Some c" for c
      using s'(2) that nC by (auto simp: ballotFields_def split: if_splits)
  qed (use s'(2) inv(4) bound in \<open>auto simp: ballotFields_def split: if_splits\<close>)
  then have "createStatement env s' = Inr pl"
    using s'(2) unfolding createStatement_def pl ballotFields_def by simp
  with s' assms(2) show ?thesis by (auto simp: ballotFields_def)
qed

lemma restore_confirm:
  assumes "createStatement env s = Inr pl" "mPhase s = SCP_PHASE_CONFIRM"
  shows "\<exists>s'. setStateFromEnvelope (createEnvelope env pl) (Slot env) = Inr s' \<and>
              createStatement env s' = Inr pl \<and> mPhase s' = mPhase s"
proof -
  note ok = createStatement_invariants [OF assms(1)]
  from assms obtain b p c h where f: "mCurrentBallot s = Some b" "mPrepared s = Some p" "mCommit s = Some c"
    "mHighBallot s = Some h" and pl: "pl = CONFIRM b (counter p) (counter c) (counter h) (localQSetHash env)"
    unfolding createStatement_def by (auto simp: res_iffs)
  note hc = checkInvariants_ballots [OF ok f(1)]
  obtain s' where s': "setStateFromEnvelope (createEnvelope env pl) (Slot env) = Inr s'"
    "ballotFields s' = (SCP_PHASE_CONFIRM, Some b, Some (SCPBallot (counter p) (bvalue b)), None,
       Some (SCPBallot (counter h) (bvalue b)), Some (SCPBallot (counter c) (bvalue b)))"
    by (auto simp: pl restore_defs ballotFields_def Let_def)
  have "checkInvariants s' = Inr ()"
    by (rule checkInvariants_intro [where b = b])
      (use s'(2) f hc checkInvariants_facts(1) [OF ok f(1)] in \<open>auto simp: ballotFields_def\<close>)
  then have "createStatement env s' = Inr pl"
    using s'(2) unfolding createStatement_def pl ballotFields_def by simp
  with s' assms(2) show ?thesis by (auto simp: ballotFields_def)
qed

lemma restore_externalize:
  assumes "createStatement env s = Inr pl" "mPhase s = SCP_PHASE_EXTERNALIZE" "mCurrentBallot s = Some b"
  shows "\<exists>s'. setStateFromEnvelope (createEnvelope env pl) (Slot env) = Inr s' \<and>
              createStatement env s' = Inr pl \<and> mPhase s' = mPhase s"
proof -
  note ok = createStatement_invariants [OF assms(1)]
  from assms obtain c h where f: "mCommit s = Some c" "mHighBallot s = Some h"
    and pl: "pl = EXTERNALIZE c (counter h) (localQSetHash env)"
    unfolding createStatement_def by (auto simp: res_iffs)
  note hc = checkInvariants_ballots [OF ok assms(3)]
  obtain s' where s': "setStateFromEnvelope (createEnvelope env pl) (Slot env) = Inr s'"
    "ballotFields s' = (SCP_PHASE_EXTERNALIZE, Some (SCPBallot UINT32_MAX (bvalue c)),
       Some (SCPBallot UINT32_MAX (bvalue c)), None, Some (SCPBallot (counter h) (bvalue c)), Some c)"
    by (auto simp: pl restore_defs ballotFields_def Let_def)
  have "checkInvariants s' = Inr ()"
    by (rule checkInvariants_intro [where b = "SCPBallot UINT32_MAX (bvalue c)"])
      (use s'(2) f hc in \<open>auto simp: ballotFields_def UINT32_MAX_def\<close>)
  then have "createStatement env s' = Inr pl"
    using s'(2) unfolding createStatement_def pl ballotFields_def by simp
  with s' assms(2) show ?thesis by (auto simp: ballotFields_def)
qed

end
