(* ===== verification/BallotFuel.thy ===== *)
theory BallotFuel
  imports BallotSteps
begin

text \<open>
  The recursion of the ballot protocol ends: the nesting is cut off by the code's own limit of
  \<^verbatim>\<open>MAX_ADVANCE_SLOT_RECURSION\<close> levels, and the bump loop of \<^verbatim>\<open>advanceSlot\<close> climbs a measure of the
  phase and the ballot counter. Enough fuel therefore always gives a result of the code.
\<close>

section \<open>Operations without recursion\<close>

definition noFuel :: "'a res \<Rightarrow> bool" where
  "noFuel r \<longleftrightarrow> r \<noteq> Inl OutOfFuel"

lemma noFuel_simps [simp]: "noFuel (Inr x)" "noFuel (Inl e) \<longleftrightarrow> e \<noteq> OutOfFuel"
  by (simp_all add: noFuel_def)

lemma noFuel_bindE [intro!]: "noFuel m \<Longrightarrow> (\<And>x. m = Inr x \<Longrightarrow> noFuel (f x)) \<Longrightarrow> noFuel (bindE m f)"
  by (cases m) auto

lemma quietError_noFuel: "quietError r \<Longrightarrow> noFuel r"
  by (auto simp: quietError_def)

lemma dbgAssert_noFuel [simp]: "noFuel (dbgAssert c)"
  by (simp add: dbgAssert_def)

lemma deref_noFuel [simp]: "noFuel (deref p)"
  by (simp add: deref_def split: option.splits)

lemma checkInvariants_noFuel [simp]: "noFuel (checkInvariants s)"
  unfolding checkInvariants_def by (auto split: option.splits SCPPhase.splits)

lemma createStatement_noFuel [simp]: "noFuel (createStatement env s)"
  unfolding createStatement_def by (auto split: SCPPhase.splits)

lemma bumpToBallot_noFuel [simp]: "noFuel (bumpToBallot b check s)"
  unfolding bumpToBallot_def by (auto simp: Let_def)

lemma updateCurrentIfNeeded_noFuel [simp]: "noFuel (updateCurrentIfNeeded h s)"
  by (auto simp: updateCurrentIfNeeded_def)

lemma updateCurrentValue_noFuel [simp]: "noFuel (updateCurrentValue b s)"
  by (auto simp: updateCurrentValue_def split: option.splits)

lemma setHighAndCommit_noFuel [simp]: "noFuel (setHighAndCommit c h s)"
  by (auto simp: setHighAndCommit_def Let_def)

lemma moveToConfirm_noFuel [simp]: "noFuel (moveToConfirm h s)"
  by (auto simp: moveToConfirm_def Let_def)

lemma isStatementSane_noFuel [simp]: "noFuel (isStatementSane env st self)"
  by (auto simp: isStatementSane_def split: option.splits SCPPledges.splits)

section \<open>The measure of the bump loop\<close>

definition currentCounter :: "slot_state \<Rightarrow> uint32" where
  "currentCounter s = (case mCurrentBallot s of None \<Rightarrow> 0 | Some b \<Rightarrow> counter b)"

definition slotRank :: "slot_state \<Rightarrow> nat" where
  "slotRank s = phaseRank (mPhase s) * 2 ^ 32 + unat (currentCounter s)"

lemma unat_counter_less: "unat (w :: uint32) < 2 ^ 32"
  using unsigned_less [where 'a = nat and w = w] by simp

lemma slotRank_less: "slotRank s < 3 * 2 ^ 32"
proof -
  have "phaseRank (mPhase s) * 2 ^ 32 \<le> 2 * 2 ^ 32"
    using phaseRank_bounds(1) by (intro mult_right_mono) auto
  with unat_counter_less [of "currentCounter s"] show ?thesis unfolding slotRank_def by linarith
qed

lemma slotRank_mono:
  assumes "slotStep s s'"
  shows "slotRank s \<le> slotRank s'"
proof (cases "mPhase s = mPhase s'")
  case True
  with slotStepD(2) [OF assms] show ?thesis
    by (cases "mCurrentBallot s"; cases "mCurrentBallot s'")
      (auto simp: slotRank_def currentCounter_def word_le_nat_alt dest: counter_mono)
next
  case False
  with slotStepD(1) [OF assms] have "phaseRank (mPhase s) + 1 \<le> phaseRank (mPhase s')"
    by (metis Suc_eq_plus1 Suc_leI le_neq_implies_less phaseRank_inj)
  then have "(phaseRank (mPhase s) + 1) * 2 ^ 32 \<le> phaseRank (mPhase s') * 2 ^ 32"
    by (rule mult_right_mono) simp
  with unat_counter_less [of "currentCounter s"] show ?thesis
    unfolding slotRank_def distrib_right by linarith
qed

section \<open>Enough fuel\<close>

lemma frameEq_level: "frameEq s t \<Longrightarrow> mCurrentMessageLevel t = mCurrentMessageLevel s"
  by (simp add: frameEq_def)

lemmas level_effects = frameEq_level [OF updateCurrentIfNeeded_effect(3)]
  frameEq_level [OF updateCurrentValue_effect(3)] frameEq_level [OF setHighAndCommit_effect(3)]
  frameEq_level [OF moveToConfirm_effect(3)]

text \<open>A processor that does not run out of fuel when it is called at message level \<open>L\<close>.\<close>

locale bounded_processor = self_processor +
  fixes L :: nat
  assumes pe_fuel: "mCurrentMessageLevel s = L \<Longrightarrow> noFuel (pe e s)"
begin

lemma emit_fuel: "mCurrentMessageLevel s = L \<Longrightarrow> noFuel (emitCurrentStateStatement env pe s)"
  unfolding emitCurrentStateStatement_def Let_def by (auto intro!: pe_fuel)

lemma setAcceptPrepared_fuel:
  assumes "mCurrentMessageLevel s = L"
  shows "noFuel (setAcceptPrepared env pe ballot s)"
proof -
  obtain d s1 where s1: "setPrepared ballot s = (d, s1)" by fastforce
  then have "mCurrentMessageLevel s1 = L"
    using assms by (auto simp: setPrepared_def Let_def split: option.splits if_splits)
  then show ?thesis
    unfolding setAcceptPrepared_def s1 Let_def prod.case by (auto intro!: emit_fuel)
qed

lemma setConfirmPrepared_fuel: "mCurrentMessageLevel s = L \<Longrightarrow> noFuel (setConfirmPrepared env pe c h s)"
  unfolding setConfirmPrepared_def Let_def
  by (auto intro!: emit_fuel dest!: level_effects split: if_splits)

lemma setAcceptCommit_fuel: "mCurrentMessageLevel s = L \<Longrightarrow> noFuel (setAcceptCommit env pe c h s)"
  unfolding setAcceptCommit_def Let_def
  by (intro noFuel_bindE) (auto intro!: emit_fuel dest!: level_effects split: if_splits)

lemma setConfirmCommit_fuel: "mCurrentMessageLevel s = L \<Longrightarrow> noFuel (setConfirmCommit env pe c h s)"
  unfolding setConfirmCommit_def Let_def by (auto intro!: emit_fuel dest!: level_effects)

lemma bumpStateTo_fuel: "mCurrentMessageLevel s = L \<Longrightarrow> noFuel (bumpStateTo env pe v n s)"
  unfolding bumpStateTo_def Let_def by (auto intro!: emit_fuel dest!: level_effects)

lemma bumpState_fuel: "mCurrentMessageLevel s = L \<Longrightarrow> noFuel (bumpState env pe v force s)"
  unfolding bumpState_def by (auto intro!: bumpStateTo_fuel)

lemma abandonBallot_fuel: "mCurrentMessageLevel s = L \<Longrightarrow> noFuel (abandonBallot env pe n s)"
  using abandonBallot_outcome [OF refl, of env pe n s] bumpState_fuel bumpStateTo_fuel
  by (auto split: if_splits)

lemma attemptBump_fuel: "mCurrentMessageLevel s = L \<Longrightarrow> noFuel (attemptBump env pe s)"
  using attemptBump_outcome [OF refl, of env pe s] bumpStateTo_fuel by auto

text \<open>Every bump that is performed climbs.\<close>

lemma attemptBump_climbs:
  assumes "attemptBump env pe s = Inr (True, s')"
  shows "slotRank s < slotRank s'"
proof -
  from attemptBump_outcome [OF assms] obtain v n where
    n: "currentCounter s < n" "bumpStateTo env pe v n s = Inr (True, s')"
    unfolding currentCounter_def by auto
  from bumpStateTo_step(2) [OF n(2)] obtain t b where
    t: "slotStep t s'" "mCurrentBallot t = Some b" "counter b = n" "mPhase t = mPhase s" by blast
  have "slotRank s < slotRank t"
    using n(1) t by (simp add: slotRank_def currentCounter_def word_less_nat_alt)
  with slotRank_mono [OF t(1)] show ?thesis by simp
qed

lemma bumpLoop_fuel:
  "mCurrentMessageLevel s = L \<Longrightarrow> 3 * 2 ^ 32 \<le> n + slotRank s \<Longrightarrow> noFuel (bumpLoop n env pe s)"
proof (induction n arbitrary: s)
  case 0
  with slotRank_less [of s] show ?case by simp
next
  case (Suc n)
  have "noFuel (bumpLoop n env pe s1)" if "attemptBump env pe s = Inr (True, s1)" for s1
    using Suc.prems attemptBump_climbs [OF that] slotStepD(5) [OF attemptBump_step [OF that]]
    by (intro Suc.IH) auto
  with attemptBump_fuel [OF Suc.prems(1)] show ?case
    by (auto split: if_splits)
qed

lemma attemptRules_fuel:
  assumes "mCurrentMessageLevel s = L"
  shows "noFuel (attemptRules env pe hint s)"
proof -
  have "noFuel (attemptAcceptPrepared env pe hint t)" "noFuel (attemptConfirmPrepared env pe hint t)"
    "noFuel (attemptAcceptCommit env pe hint t)" "noFuel (attemptConfirmCommit env pe hint t)"
    if "mCurrentMessageLevel t = L" for t
    using that attemptAcceptPrepared_outcome [OF refl, of env pe hint t]
      attemptConfirmPrepared_outcome [OF refl, of env pe hint t]
      attemptAcceptCommit_outcome [OF refl, of env pe hint t]
      attemptConfirmCommit_outcome [OF refl, of env pe hint t]
      setAcceptPrepared_fuel setConfirmPrepared_fuel setAcceptCommit_fuel setConfirmCommit_fuel quietError_noFuel
    by (metis noFuel_simps(1))+
  with assms show ?thesis
    unfolding attemptRules_def
    by (auto dest!: slotStepD(5) [OF attemptAcceptPrepared_step] slotStepD(5) [OF attemptConfirmPrepared_step]
        slotStepD(5) [OF attemptAcceptCommit_step])
qed

lemma advanceSlot_fuel:
  assumes "mCurrentMessageLevel s + 1 = L" "L = 1 \<Longrightarrow> 3 * 2 ^ 32 \<le> fuel"
  shows "noFuel (advanceSlot fuel env pe hint s)"
proof -
  have "noFuel (attemptBumps fuel env pe t)" if "mCurrentMessageLevel t = L" for t
    using assms(2) that bumpLoop_fuel [of t fuel] unfolding attemptBumps_def by auto
  with attemptRules_fuel show ?thesis
    using assms(1) unfolding advanceSlot_def Let_def
    by (auto dest!: slotStepD(5) [OF attemptRules_step])
qed

end

lemma processEnvelope_fuel:
  assumes "\<And>t hint. mCurrentMessageLevel t = mCurrentMessageLevel s \<Longrightarrow> noFuel (advanceSlot fuel env pe hint t)"
  shows "noFuel (processEnvelope fuel env pe envelope self s)"
  unfolding processEnvelope_def Let_def
  by (auto intro!: assms simp: recordEnvelope_def recordStatement_def setFullyValidated_def)

lemma slotProcessBallot_fuel:
  assumes "\<And>t hint. mCurrentMessageLevel t = mCurrentMessageLevel s \<Longrightarrow> noFuel (advanceSlot fuel env pe hint t)"
  shows "noFuel (slotProcessBallot fuel env pe envelope self s)"
  unfolding slotProcessBallot_def Let_def using processEnvelope_fuel [OF assms] by auto

lemma slotProcessSelf_fuel:
  assumes "mCurrentMessageLevel s < 50" "51 \<le> n + mCurrentMessageLevel s"
    and "mCurrentMessageLevel s = 0 \<Longrightarrow> 3 * 2 ^ 32 < n"
  shows "noFuel (slotProcessSelf n env e s)"
  using assms
proof (induction n arbitrary: e s)
  case (Suc n)
  have "noFuel (advanceSlot n env (slotProcessSelf n env) hint t)"
    if level: "mCurrentMessageLevel t = mCurrentMessageLevel s" for t hint
  proof (cases "mCurrentMessageLevel s + 1 < 50")
    case True
    have "bounded_processor (slotProcessSelf n env) (mCurrentMessageLevel s + 1)"
      using Suc.prems True by unfold_locales (auto intro!: Suc.IH)
    then show ?thesis using level Suc.prems(3) by (intro bounded_processor.advanceSlot_fuel) auto
  next
    case False
    with level show ?thesis by (simp add: advanceSlot_def MAX_ADVANCE_SLOT_RECURSION_def)
  qed
  then show ?case using slotProcessBallot_fuel by simp
qed simp

interpretation selfb: bounded_processor env "slotProcessSelf (n + 3 * 2 ^ 32 + 51) env" 0 for env n
  by unfold_locales (rule slotProcessSelf_fuel; simp)

section \<open>More fuel does not change a result\<close>

definition fuelLe :: "'a res \<Rightarrow> 'a res \<Rightarrow> bool" where
  "fuelLe r r' \<longleftrightarrow> r = Inl OutOfFuel \<or> r' = r"

lemma fuelLe_refl [simp, intro!]: "fuelLe r r"
  by (simp add: fuelLe_def)

lemma fuelLe_out [simp]: "fuelLe (Inl OutOfFuel) r"
  by (simp add: fuelLe_def)

lemma fuelLe_bindE [intro!]:
  "fuelLe m m' \<Longrightarrow> (\<And>x. m = Inr x \<Longrightarrow> fuelLe (f x) (f' x)) \<Longrightarrow> fuelLe (bindE m f) (bindE m' f')"
  by (cases m) (auto simp: fuelLe_def)

lemma fuelLe_noFuel: "fuelLe r r' \<Longrightarrow> noFuel r \<Longrightarrow> r' = r"
  by (auto simp: fuelLe_def noFuel_def)

lemmas fuelLe_splits = if_splits option.splits prod.splits

locale processor_le =
  fixes env :: scp_env and pe pe' :: process_self
  assumes pe_le: "fuelLe (pe e s) (pe' e s)"
begin

lemma emit_le: "fuelLe (emitCurrentStateStatement env pe s) (emitCurrentStateStatement env pe' s)"
  unfolding emitCurrentStateStatement_def Let_def by (auto intro!: pe_le)

lemma setAcceptPrepared_le: "fuelLe (setAcceptPrepared env pe b s) (setAcceptPrepared env pe' b s)"
  unfolding setAcceptPrepared_def Let_def by (auto intro!: emit_le split: prod.splits)

lemma attemptAcceptPrepared_le:
  "fuelLe (attemptAcceptPrepared env pe hint s) (attemptAcceptPrepared env pe' hint s)"
  unfolding attemptAcceptPrepared_def by (auto intro!: setAcceptPrepared_le split: option.splits)

lemma setConfirmPrepared_le: "fuelLe (setConfirmPrepared env pe c h s) (setConfirmPrepared env pe' c h s)"
  unfolding setConfirmPrepared_def Let_def by (auto intro!: emit_le split: prod.splits)

lemma attemptConfirmPrepared_le:
  "fuelLe (attemptConfirmPrepared env pe hint s) (attemptConfirmPrepared env pe' hint s)"
  unfolding attemptConfirmPrepared_def Let_def
  by (auto intro!: setConfirmPrepared_le split: option.splits prod.splits)

lemma setAcceptCommit_le: "fuelLe (setAcceptCommit env pe c h s) (setAcceptCommit env pe' c h s)"
  unfolding setAcceptCommit_def Let_def
  by (rule fuelLe_bindE, rule fuelLe_refl) (auto intro!: emit_le)

lemma attemptAcceptCommit_le:
  "fuelLe (attemptAcceptCommit env pe hint s) (attemptAcceptCommit env pe' hint s)"
  unfolding attemptAcceptCommit_def Let_def
  by (cases "mPhase s"; cases "acceptCommitHint hint") (auto intro!: setAcceptCommit_le split: option.splits)

lemma setConfirmCommit_le: "fuelLe (setConfirmCommit env pe c h s) (setConfirmCommit env pe' c h s)"
  unfolding setConfirmCommit_def Let_def by (auto intro!: emit_le)

lemma attemptConfirmCommit_le:
  "fuelLe (attemptConfirmCommit env pe hint s) (attemptConfirmCommit env pe' hint s)"
  unfolding attemptConfirmCommit_def Let_def
  by (cases "mPhase s"; cases "confirmCommitHint hint")
    (auto intro!: setConfirmCommit_le split: option.splits)

lemma bumpStateTo_le: "fuelLe (bumpStateTo env pe v n s) (bumpStateTo env pe' v n s)"
  unfolding bumpStateTo_def Let_def by (auto intro!: emit_le)

lemma bumpState_le: "fuelLe (bumpState env pe v force s) (bumpState env pe' v force s)"
  unfolding bumpState_def by (auto intro!: bumpStateTo_le)

lemma abandonBallot_le: "fuelLe (abandonBallot env pe n s) (abandonBallot env pe' n s)"
  unfolding abandonBallot_def Let_def
  by (auto intro!: bumpStateTo_le bumpState_le split: option.splits)

lemma attemptBump_le: "fuelLe (attemptBump env pe s) (attemptBump env pe' s)"
  unfolding attemptBump_def Let_def by (auto intro!: abandonBallot_le split: option.splits)

lemma bumpLoop_le: "m \<le> n \<Longrightarrow> fuelLe (bumpLoop m env pe s) (bumpLoop n env pe' s)"
proof (induction m arbitrary: n s)
  case (Suc m)
  then obtain k where "n = Suc k" "m \<le> k" by (cases n) auto
  with Suc.IH attemptBump_le show ?case by auto
qed simp

lemma attemptRules_le: "fuelLe (attemptRules env pe hint s) (attemptRules env pe' hint s)"
  unfolding attemptRules_def
  by (auto intro!: attemptAcceptPrepared_le attemptConfirmPrepared_le attemptAcceptCommit_le attemptConfirmCommit_le)

lemma attemptBumps_le: "m \<le> n \<Longrightarrow> fuelLe (attemptBumps m env pe s) (attemptBumps n env pe' s)"
  unfolding attemptBumps_def by (auto intro!: bumpLoop_le)

lemma advanceSlot_le: "m \<le> n \<Longrightarrow> fuelLe (advanceSlot m env pe hint s) (advanceSlot n env pe' hint s)"
  unfolding advanceSlot_def Let_def by (auto intro!: attemptRules_le attemptBumps_le)

lemma processEnvelope_le:
  "m \<le> n \<Longrightarrow> fuelLe (processEnvelope m env pe e self s) (processEnvelope n env pe' e self s)"
  unfolding processEnvelope_def Let_def by (auto intro!: advanceSlot_le)

lemma slotProcessBallot_le:
  "m \<le> n \<Longrightarrow> fuelLe (slotProcessBallot m env pe e self s) (slotProcessBallot n env pe' e self s)"
  unfolding slotProcessBallot_def Let_def by (auto intro!: processEnvelope_le)

end

lemma slotProcessSelf_le: "m \<le> n \<Longrightarrow> fuelLe (slotProcessSelf m env e s) (slotProcessSelf n env e s)"
proof (induction m arbitrary: n e s)
  case (Suc m)
  then obtain k where k: "n = Suc k" "m \<le> k" by (cases n) auto
  with Suc.IH have "processor_le (slotProcessSelf m env) (slotProcessSelf k env)" by unfold_locales
  from processor_le.slotProcessBallot_le [OF this k(2)] k(1) show ?case by simp
qed simp

interpretation selfle: processor_le env "slotProcessSelf m env" "slotProcessSelf (m + k) env" for env m k
  by unfold_locales (rule slotProcessSelf_le, simp)

end
