(* ===== verification/NominationProtocol.thy ===== *)
theory NominationProtocol
  imports BallotSync BallotFuel
begin

text \<open>
  \<^verbatim>\<open>scp/NominationProtocol.cpp\<close>: votes, accepted values and candidates of a slot, the leaders of a
  round, and the processing of nominations. A nomination the node generates is fed back through
  \<^verbatim>\<open>Slot::processEnvelope\<close>, the parameter \<open>pe\<close> below; a new composite candidate bumps the ballot protocol,
  whose own recursion has the fuel \<open>bf\<close>.
\<close>

section \<open>Statements\<close>

text \<open>\<^verbatim>\<open>std::includes(v, p)\<close> on ranges sorted in ascending order.\<close>

fun stdIncludes :: "'a::linorder list \<Rightarrow> 'a list \<Rightarrow> bool" where
  "stdIncludes v [] = True"
| "stdIncludes [] (y # p) = False"
| "stdIncludes (x # v) (y # p) =
     (if y < x then False
      else if \<not> x < y then stdIncludes v p
      else stdIncludes v (y # p))"

text \<open>The result and the flag \<^verbatim>\<open>notEqual\<close>.\<close>

definition isSubsetHelper :: "Value list \<Rightarrow> Value list \<Rightarrow> bool \<times> bool" where
  "isSubsetHelper p v =
     (if length p \<le> length v
      then let res = stdIncludes v p in (res, if res then length p \<noteq> length v else True)
      else (False, True))"

definition isNewerNomination :: "SCPPledges \<Rightarrow> SCPPledges \<Rightarrow> bool" where
  "isNewerNomination oldst st =
     (case isSubsetHelper (nomVotes oldst) (nomVotes st) of
        (False, _) \<Rightarrow> False
      | (True, grows) \<Rightarrow>
          (case isSubsetHelper (nomAccepted oldst) (nomAccepted st) of
             (False, _) \<Rightarrow> False
           | (True, g) \<Rightarrow> grows \<or> g))"

definition isNewerNominationFor :: "NodeID \<Rightarrow> SCPPledges \<Rightarrow> nomination_state \<Rightarrow> bool" where
  "isNewerNominationFor n nom s =
     (case map_of (mLatestNominations s) n of
        None \<Rightarrow> True
      | Some old \<Rightarrow> isNewerNomination (pledges (statement old)) nom)"

text \<open>No adjacent pair with \<^verbatim>\<open>!(l < r)\<close>.\<close>

fun strictlyAscending :: "'a::linorder list \<Rightarrow> bool" where
  "strictlyAscending (x # y # xs) = (if \<not> x < y then False else strictlyAscending (y # xs))"
| "strictlyAscending _ = True"

definition isSaneNomination :: "SCPPledges \<Rightarrow> bool" where
  "isSaneNomination nom =
     (length (nomVotes nom) + length (nomAccepted nom) \<noteq> 0 \<and>
      strictlyAscending (nomVotes nom) \<and> strictlyAscending (nomAccepted nom))"

definition acceptPredicate :: "Value \<Rightarrow> SCPStatement \<Rightarrow> bool" where
  "acceptPredicate v st = (v \<in> set (nomAccepted (pledges st)))"

definition votePredicate :: "Value \<Rightarrow> SCPStatement \<Rightarrow> bool" where
  "votePredicate v st = (v \<in> set (nomVotes (pledges st)))"

text \<open>The values \<^verbatim>\<open>applyAll\<close> visits, in order.\<close>

definition applyAll :: "SCPPledges \<Rightarrow> Value list" where
  "applyAll nom = nomVotes nom @ filter (\<lambda>a. a \<notin> set (nomVotes nom)) (nomAccepted nom)"

definition getNominationValues :: "SCPStatement \<Rightarrow> Value list" where
  "getNominationValues st = applyAll (pledges st)"

text \<open>Insertion into a \<^verbatim>\<open>std::set\<close>, as its ascending sequence.\<close>

definition stdInsert :: "'a::linorder \<Rightarrow> 'a list \<Rightarrow> 'a list" where
  "stdInsert x xs = (if x \<in> set xs then xs else insort x xs)"

section \<open>Leaders\<close>

definition hashNode :: "scp_env \<Rightarrow> nomination_state \<Rightarrow> bool \<Rightarrow> NodeID \<Rightarrow> uint64 res" where
  "hashNode env n isPriority node =
     bindE (dbgAssert (mPreviousValue n \<noteq> [])) (\<lambda>_.
     Inr (driverComputeHashNode env (envSlotIndex env) (mPreviousValue n) isPriority (mRoundNumber n) node))"

definition hashValue :: "scp_env \<Rightarrow> nomination_state \<Rightarrow> Value \<Rightarrow> uint64 res" where
  "hashValue env n v =
     bindE (dbgAssert (mPreviousValue n \<noteq> [])) (\<lambda>_.
     Inr (driverComputeValueHash env (envSlotIndex env) (mPreviousValue n) (mRoundNumber n) v))"

definition getNodePriority :: "scp_env \<Rightarrow> nomination_state \<Rightarrow> NodeID \<Rightarrow> SCPQuorumSet \<Rightarrow> uint64 res" where
  "getNodePriority env n node qset =
     bindE (if node = localNodeID env then Inr UINT64_MAX
            else case getNodeWeight node qset of None \<Rightarrow> Inl Abort | Some w \<Rightarrow> Inr w) (\<lambda>w.
     if w > 0
     then bindE (hashNode env n False node) (\<lambda>h. if h \<le> w then hashNode env n True node else Inr 0)
     else Inr 0)"

definition considerLeader ::
    "scp_env \<Rightarrow> nomination_state \<Rightarrow> SCPQuorumSet \<Rightarrow> NodeID \<Rightarrow> NodeID list \<times> uint64 \<Rightarrow> (NodeID list \<times> uint64) res"
where
  "considerLeader env n qset cur acc =
     bindE (getNodePriority env n cur qset) (\<lambda>w.
     let (leaders, topPriority) = (if w > snd acc then ([], w) else acc)
     in Inr (if w = topPriority \<and> w > 0 then stdInsert cur leaders else leaders, topPriority))"

definition newRoundLeaders :: "scp_env \<Rightarrow> nomination_state \<Rightarrow> SCPQuorumSet \<Rightarrow> NodeID list res" where
  "newRoundLeaders env n qset =
     bindE (getNodePriority env n (localNodeID env) qset) (\<lambda>topPriority.
     bindE (snd (forAllNodes (\<lambda>acc cur. (True, bindE acc (considerLeader env n qset cur))) qset
                   (Inr ([localNodeID env], topPriority)))) (\<lambda>acc.
     Inr (fst acc)))"

text \<open>
  The loop of \<^verbatim>\<open>updateRoundLeaders\<close>, with fuel. \<^verbatim>\<open>int32 mRoundNumber\<close> is an integer here: the
  code never compares it, and its overflow is undefined in the language.
\<close>

primrec leadersLoop :: "nat \<Rightarrow> scp_env \<Rightarrow> SCPQuorumSet \<Rightarrow> nat \<Rightarrow> nomination_state \<Rightarrow> nomination_state res" where
  "leadersLoop 0 env qset maxLeaderCount n = Inl OutOfFuel"
| "leadersLoop (Suc fuel) env qset maxLeaderCount n =
     (if length (mRoundLeaders n) < maxLeaderCount
      then bindE (newRoundLeaders env n qset) (\<lambda>new.
           let leaders = fold stdInsert new (mRoundLeaders n)
           in if length (mRoundLeaders n) \<noteq> length leaders
              then Inr (n\<lparr>mRoundLeaders := leaders\<rparr>)
              else leadersLoop fuel env qset maxLeaderCount
                     (n\<lparr>mRoundLeaders := leaders, mRoundNumber := mRoundNumber n + 1\<rparr>))
      else Inr n)"

definition updateRoundLeaders :: "nat \<Rightarrow> scp_env \<Rightarrow> nomination_state \<Rightarrow> nomination_state res" where
  "updateRoundLeaders fuel env n =
     (let myQSet = normalizeQSet (localQSet env) (Some (localNodeID env));
          maxLeaderCount = snd (forAllNodes (\<lambda>k _. (True, k + 1)) myQSet 1)
      in leadersLoop fuel env myQSet maxLeaderCount n)"

section \<open>Values to vote for\<close>

definition valueToNominate :: "scp_env \<Rightarrow> Value \<Rightarrow> Value option" where
  "valueToNominate env v =
     (if driverValidateValue env v True = kFullyValidatedValue then Some v
      else driverExtractValidValue env v)"

fun newValueLoop ::
    "scp_env \<Rightarrow> nomination_state \<Rightarrow> Value list \<Rightarrow> Value option \<Rightarrow> uint64 \<Rightarrow> Value option res" where
  "newValueLoop env n [] newVote newHash = Inr newVote"
| "newValueLoop env n (v # vs) newVote newHash =
     (case valueToNominate env v of
        None \<Rightarrow> newValueLoop env n vs newVote newHash
      | Some w \<Rightarrow>
          if w \<in> set (mVotes n) then newValueLoop env n vs newVote newHash
          else bindE (hashValue env n w) (\<lambda>curHash.
               if curHash \<ge> newHash then newValueLoop env n vs (Some w) curHash
               else newValueLoop env n vs newVote newHash))"

definition getNewValueFromNomination :: "scp_env \<Rightarrow> nomination_state \<Rightarrow> SCPPledges \<Rightarrow> Value option res" where
  "getNewValueFromNomination env n nom = newValueLoop env n (applyAll nom) None 0"

section \<open>Processing\<close>

definition setNomination :: "nomination_state \<Rightarrow> slot_state \<Rightarrow> slot_state" where
  "setNomination n s = s\<lparr>mNomination := n\<rparr>"

definition recordNomination :: "SCPEnvelope \<Rightarrow> slot_state \<Rightarrow> slot_state" where
  "recordNomination e s =
     recordStatement (statement e)
       (setNomination ((mNomination s)
          \<lparr>mLatestNominations := mapPut (nodeID (statement e)) e (mLatestNominations (mNomination s))\<rparr>) s)"

definition emitNomination :: "scp_env \<Rightarrow> process_self \<Rightarrow> slot_state \<Rightarrow> slot_state res" where
  "emitNomination env pe s =
     (let n = mNomination s;
          nom = NOMINATE (localQSetHash env) (mVotes n) (mAccepted n);
          envelope = createEnvelope env nom
      in bindE (pe envelope s) (\<lambda>(r, s1).
         if r = VALID
         then (let n1 = mNomination s1
               in if (case mLastNomination n1 of
                        None \<Rightarrow> True
                      | Some lastE \<Rightarrow> isNewerNomination (pledges (statement lastE)) nom)
                  then let s2 = setNomination (n1\<lparr>mLastNomination := Some envelope\<rparr>) s1
                       in Inr (if mFullyValidated s2 then callDriver (EmitEnvelope envelope) s2 else s2)
                  else Inr s1)
         else Inl (RuntimeError ''moved to a bad state (nomination)'')))"

text \<open>The loop that promotes votes to accepted, with the flag \<^verbatim>\<open>modified\<close>.\<close>

fun promoteVotes :: "scp_env \<Rightarrow> Value list \<Rightarrow> bool \<times> nomination_state \<Rightarrow> bool \<times> nomination_state" where
  "promoteVotes env [] acc = acc"
| "promoteVotes env (v # vs) (modified, n) =
     (if v \<in> set (mAccepted n) then promoteVotes env vs (modified, n)
      else if federatedAccept env (votePredicate v) (acceptPredicate v) (mLatestNominations n)
      then if driverValidateValue env v True = kFullyValidatedValue
           then promoteVotes env vs
                  (True, n\<lparr>mAccepted := stdInsert v (mAccepted n), mVotes := stdInsert v (mVotes n)\<rparr>)
           else (case driverExtractValidValue env v of
                   None \<Rightarrow> promoteVotes env vs (modified, n)
                 | Some toVote \<Rightarrow>
                     promoteVotes env vs
                       (modified \<or> toVote \<notin> set (mVotes n), n\<lparr>mVotes := stdInsert toVote (mVotes n)\<rparr>))
      else promoteVotes env vs (modified, n))"

text \<open>The loop that promotes accepted values to candidates, with the flag \<^verbatim>\<open>newCandidates\<close>.\<close>

fun promoteAccepted :: "scp_env \<Rightarrow> Value list \<Rightarrow> bool \<times> nomination_state \<Rightarrow> bool \<times> nomination_state" where
  "promoteAccepted env [] acc = acc"
| "promoteAccepted env (a # as) (new, n) =
     (if a \<in> set (mCandidates n) then promoteAccepted env as (new, n)
      else if federatedRatify env (acceptPredicate a) (mLatestNominations n)
      then promoteAccepted env as (True, n\<lparr>mCandidates := stdInsert a (mCandidates n)\<rparr>)
      else promoteAccepted env as (new, n))"

text \<open>The step that takes a vote from a round leader while there is no candidate.\<close>

definition voteForLeader :: "scp_env \<Rightarrow> SCPStatement \<Rightarrow> bool \<Rightarrow> slot_state \<Rightarrow> (bool \<times> slot_state) res" where
  "voteForLeader env st modified s =
     (let n = mNomination s
      in if mCandidates n = [] \<and> nodeID st \<in> set (mRoundLeaders n)
         then bindE (getNewValueFromNomination env n (pledges st)) (\<lambda>newVote.
              case newVote of
                None \<Rightarrow> Inr (modified, s)
              | Some v \<Rightarrow>
                  Inr (True, callDriver (NominatingValue v)
                               (setNomination (n\<lparr>mVotes := stdInsert v (mVotes n)\<rparr>) s)))
         else Inr (modified, s))"

text \<open>The last step, taken when there are new candidates.\<close>

definition updateComposite :: "nat \<Rightarrow> scp_env \<Rightarrow> slot_state \<Rightarrow> slot_state res" where
  "updateComposite bf env s =
     (let composite = driverCombineCandidates env (mCandidates (mNomination s));
          s1 = setNomination ((mNomination s)\<lparr>mLatestCompositeCandidate := composite\<rparr>) s
      in bindE (deref composite) (\<lambda>v.
         bindE (bumpState env (slotProcessSelf bf env) v False
                  (callDriver (UpdatedCandidateValue v) s1)) (\<lambda>(_, s2).
         Inr s2)))"

definition processNomination ::
    "nat \<Rightarrow> scp_env \<Rightarrow> process_self \<Rightarrow> SCPEnvelope \<Rightarrow> slot_state \<Rightarrow> (EnvelopeState \<times> slot_state) res" where
  "processNomination bf env pe envelope s =
     (let st = statement envelope; nom = pledges st
      in if \<not> isNewerNominationFor (nodeID st) nom (mNomination s) then Inr (INVALID, s)
         else if \<not> isSaneNomination nom then Inr (INVALID, s)
         else let s1 = recordNomination envelope s
              in if \<not> mNominationStarted (mNomination s1) then Inr (VALID, s1)
                 else let (modified, n2) = promoteVotes env (nomVotes nom) (False, mNomination s1);
                          (newCandidates, n3) = promoteAccepted env (mAccepted n2) (False, n2)
                      in bindE (voteForLeader env st modified (setNomination n3 s1)) (\<lambda>(modified', s4).
                         bindE (if modified' then emitNomination env pe s4 else Inr s4) (\<lambda>s5.
                         bindE (if newCandidates then updateComposite bf env s5 else Inr s5) (\<lambda>s6.
                         Inr (VALID, s6)))))"

text \<open>\<^verbatim>\<open>Slot::processEnvelope\<close> for nominations, and the recursion through the node's own nominations.\<close>

definition slotProcessNomination ::
    "nat \<Rightarrow> scp_env \<Rightarrow> process_self \<Rightarrow> SCPEnvelope \<Rightarrow> slot_state \<Rightarrow> (EnvelopeState \<times> slot_state) res" where
  "slotProcessNomination bf env pe envelope s =
     bindE (dbgAssert (slotIndex (statement envelope) = envSlotIndex env)) (\<lambda>_.
     let prev = (getLatestMessage (nodeID (statement envelope)) s \<noteq> None)
     in bindE (processNomination bf env pe envelope s) (\<lambda>(r, s').
        Inr (r, if \<not> prev \<and> r = VALID then maybeSetGotVBlocking env s' else s')))"

primrec nominateSelf :: "nat \<Rightarrow> nat \<Rightarrow> scp_env \<Rightarrow> process_self" where
  "nominateSelf 0 bf env = (\<lambda>e s. Inl OutOfFuel)"
| "nominateSelf (Suc n) bf env = (\<lambda>e s. slotProcessNomination bf env (nominateSelf n bf env) e s)"

section \<open>Nominating\<close>

text \<open>The loop over the leaders' latest nominations.\<close>

fun leaderVotes :: "scp_env \<Rightarrow> NodeID list \<Rightarrow> bool \<Rightarrow> slot_state \<Rightarrow> (bool \<times> slot_state) res" where
  "leaderVotes env [] updated s = Inr (updated, s)"
| "leaderVotes env (leader # leaders) updated s =
     (let n = mNomination s
      in case map_of (mLatestNominations n) leader of
           None \<Rightarrow> leaderVotes env leaders updated s
         | Some e \<Rightarrow>
             bindE (getNewValueFromNomination env n (pledges (statement e))) (\<lambda>lnmV.
             case lnmV of
               None \<Rightarrow> leaderVotes env leaders updated s
             | Some v \<Rightarrow>
                 leaderVotes env leaders True
                   (callDriver (NominatingValue v) (setNomination (n\<lparr>mVotes := stdInsert v (mVotes n)\<rparr>) s))))"

text \<open>The vote for the node's own value if it leads the round; \<open>n\<close> is the nomination state so far.\<close>

definition ownVote :: "scp_env \<Rightarrow> Value \<Rightarrow> nomination_state \<Rightarrow> slot_state \<Rightarrow> bool \<times> slot_state" where
  "ownVote env v n s =
     (if localNodeID env \<in> set (mRoundLeaders n) \<and> v \<notin> set (mVotes n)
      then (True, callDriver (NominatingValue v) (setNomination (n\<lparr>mVotes := stdInsert v (mVotes n)\<rparr>) s))
      else (False, setNomination n s))"

definition nominate ::
    "nat \<Rightarrow> scp_env \<Rightarrow> process_self \<Rightarrow> Value \<Rightarrow> Value \<Rightarrow> bool \<Rightarrow> slot_state \<Rightarrow> (bool \<times> slot_state) res" where
  "nominate fuel env pe v previousValue timedout s =
     (let n = mNomination s
      in if timedout \<and> \<not> mNominationStarted n then Inr (False, s)
         else bindE (updateRoundLeaders fuel env
                 (n\<lparr>mNominationStarted := True, mPreviousValue := previousValue,
                    mRoundNumber := mRoundNumber n + 1\<rparr>)) (\<lambda>n1.
              let timeout = computeTimeout (of_int (mRoundNumber n1));
                  (own, s1) = ownVote env v n1 s
              in bindE (leaderVotes env (mRoundLeaders n1) own s1) (\<lambda>(updated, s2).
                 let s3 = callDriver (SetupNominationTimer timeout) s2
                 in if updated then bindE (emitNomination env pe s3) (\<lambda>s4. Inr (True, s4))
                    else Inr (False, s3))))"

definition setNominationFromEnvelope :: "SCPEnvelope \<Rightarrow> slot_state \<Rightarrow> slot_state res" where
  "setNominationFromEnvelope e s =
     (if mNominationStarted (mNomination s)
      then Inl (RuntimeError ''Cannot set state after nomination is started'')
      else let s1 = recordNomination e s; n = mNomination s1; nom = pledges (statement e)
           in Inr (setNomination
                (n\<lparr>mAccepted := fold stdInsert (nomAccepted nom) (mAccepted n),
                   mVotes := fold stdInsert (nomVotes nom) (mVotes n),
                   mLastNomination := Some e\<rparr>) s1))"

definition processCurrentNominations ::
    "scp_env \<Rightarrow> ('s \<Rightarrow> SCPEnvelope \<Rightarrow> bool \<times> 's) \<Rightarrow> bool \<Rightarrow> slot_state \<Rightarrow> 's \<Rightarrow> bool \<times> 's" where
  "processCurrentNominations env f forceSelf s =
     visitEnvelopes f (map snd (filter (\<lambda>(n, _). forceSelf \<or> n \<noteq> localNodeID env \<or> mFullyValidated s)
                                  (mLatestNominations (mNomination s))))"

end
