(* ===== verification/NominationSteps.thy ===== *)
theory NominationSteps
  imports NominationProtocol
begin

text \<open>
  The nomination protocol as steps of the slot: every operation only grows the nomination state,
  keeps it well formed, and touches the ballot protocol through \<^verbatim>\<open>bumpState\<close> alone.
\<close>

section \<open>Statements\<close>

lemma stdIncludes_subset: "stdIncludes v p \<Longrightarrow> set p \<subseteq> set v"
  by (induction v p rule: stdIncludes.induct) (auto split: if_splits)

lemma stdIncludes_iff:
  "sorted_wrt (<) v \<Longrightarrow> sorted_wrt (<) p \<Longrightarrow> stdIncludes v p \<longleftrightarrow> set p \<subseteq> set v"
proof (induction v p rule: stdIncludes.induct)
  case (3 x v y p)
  show ?case
  proof (cases "y < x")
    case True
    with "3.prems" have "y \<notin> set (x # v)" by auto
    with True show ?thesis by auto
  next
    case False
    show ?thesis
    proof (cases "x < y")
      case True
      with "3.prems" have "x \<notin> set (y # p)" by auto
      with True False "3.IH"(2) "3.prems" show ?thesis by auto
    next
      case no: False
      with False have "x = y" by simp
      moreover have "x \<notin> set p" "y \<notin> set v" using "3.prems" \<open>x = y\<close> by auto
      ultimately show ?thesis using no "3.IH"(1) "3.prems" by auto
    qed
  qed
qed auto

lemma isSubsetHelper_sorted:
  assumes "sorted_wrt (<) v" "sorted_wrt (<) p"
  shows "isSubsetHelper p v = (set p \<subseteq> set v, \<not> set v \<subseteq> set p \<or> \<not> set p \<subseteq> set v)"
proof -
  have d: "distinct v" "distinct p" using assms by (auto simp: strict_sorted_iff)
  have "length p \<le> length v" if "set p \<subseteq> set v"
    using card_mono [OF _ that] d by (simp add: distinct_card)
  moreover have "length p = length v \<longleftrightarrow> set v \<subseteq> set p" if "set p \<subseteq> set v"
    using that d by (metis List.finite_set card_subset_eq distinct_card subset_antisym)
  ultimately show ?thesis
    unfolding isSubsetHelper_def Let_def stdIncludes_iff [OF assms] by auto
qed

lemma isNewerNomination_subset:
  "isNewerNomination old new \<Longrightarrow>
   set (nomVotes old) \<subseteq> set (nomVotes new) \<and> set (nomAccepted old) \<subseteq> set (nomAccepted new)"
  unfolding isNewerNomination_def isSubsetHelper_def Let_def
  by (auto split: if_splits prod.splits bool.splits dest: stdIncludes_subset)

lemma strictlyAscending_iff: "strictlyAscending xs \<longleftrightarrow> sorted_wrt (<) xs"
  by (induction xs rule: strictlyAscending.induct) (auto dest: less_trans)

lemma isNewerNomination_iff:
  assumes "sorted_wrt (<) (nomVotes old)" "sorted_wrt (<) (nomVotes new)"
    and "sorted_wrt (<) (nomAccepted old)" "sorted_wrt (<) (nomAccepted new)"
  shows "isNewerNomination old new \<longleftrightarrow>
    set (nomVotes old) \<subseteq> set (nomVotes new) \<and> set (nomAccepted old) \<subseteq> set (nomAccepted new) \<and>
    (set (nomVotes old) \<noteq> set (nomVotes new) \<or> set (nomAccepted old) \<noteq> set (nomAccepted new))"
  unfolding isNewerNomination_def isSubsetHelper_sorted [OF assms(2,1)] isSubsetHelper_sorted [OF assms(4,3)]
  by (auto split: bool.splits)

lemma set_stdInsert [simp]: "set (stdInsert x xs) = insert x (set xs)"
  by (auto simp: stdInsert_def set_insort_key)

lemma sorted_stdInsert [simp]: "sorted_wrt (<) xs \<Longrightarrow> sorted_wrt (<) (stdInsert x xs)"
  by (auto simp: stdInsert_def strict_sorted_iff sorted_insort distinct_insort)

lemma set_fold_stdInsert [simp]: "set (fold stdInsert ys xs) = set ys \<union> set xs"
  by (induction ys arbitrary: xs) auto

lemma sorted_fold_stdInsert [simp]: "sorted_wrt (<) xs \<Longrightarrow> sorted_wrt (<) (fold stdInsert ys xs)"
  by (induction ys arbitrary: xs) auto

section \<open>Pure operations\<close>

lemma nominationStep_votes [intro]:
  "nominationStep m n \<Longrightarrow> nominationStep m (n\<lparr>mVotes := stdInsert v (mVotes n)\<rparr>)"
  by (auto simp: nominationStep_def nominationOk_def)

lemma nominationStep_accepted [intro]:
  "nominationStep m n \<Longrightarrow>
   nominationStep m (n\<lparr>mAccepted := stdInsert v (mAccepted n), mVotes := stdInsert v (mVotes n)\<rparr>)"
  by (auto simp: nominationStep_def nominationOk_def)

lemma nominationStep_candidates [intro]:
  "nominationStep m n \<Longrightarrow> a \<in> set (mAccepted n) \<Longrightarrow>
   nominationStep m (n\<lparr>mCandidates := stdInsert a (mCandidates n)\<rparr>)"
  by (auto simp: nominationStep_def nominationOk_def)

lemma promoteVotes_step:
  "promoteVotes env vs (modified, n) = (modified', n') \<Longrightarrow> nominationStep m n \<Longrightarrow>
   nominationStep m n' \<and> mLatestNominations n' = mLatestNominations n"
proof (induction env vs "(modified, n)" arbitrary: modified n rule: promoteVotes.induct)
  case (2 env v vs modified n)
  then show ?case by (auto split: if_splits option.splits)
qed simp

lemma promoteAccepted_step:
  "promoteAccepted env as (new, n) = (new', n') \<Longrightarrow> set as \<subseteq> set (mAccepted n) \<Longrightarrow> nominationStep m n \<Longrightarrow>
   nominationStep m n'"
proof (induction env as "(new, n)" arbitrary: new n rule: promoteAccepted.induct)
  case (2 env a as new n)
  then show ?case by (auto split: if_splits)
qed simp

lemma leadersLoop_step:
  "leadersLoop fuel env q k n = Inr n' \<Longrightarrow> nominationStep m n \<Longrightarrow> nominationStep m n'"
proof (induction fuel arbitrary: n)
  case (Suc fuel)
  have "nominationStep m (n\<lparr>mRoundLeaders := fold stdInsert new (mRoundLeaders n)\<rparr>)"
    "nominationStep m (n\<lparr>mRoundLeaders := fold stdInsert new (mRoundLeaders n), mRoundNumber := mRoundNumber n + 1\<rparr>)"
    for new using Suc.prems(2) by (auto simp: nominationStep_def nominationOk_def)
  with Suc show ?case by (auto simp: bindE_Inr_iff Let_def split: if_splits)
qed simp

section \<open>Operations of the slot\<close>

lemma slotStep_nomination:
  assumes "nominationStep (mNomination s) n" "\<not> isValueExternalized c"
  shows "slotStep s (setNomination n s)" "slotStep s (callDriver c (setNomination n s))"
proof -
  have "quietCalls s (callDriver c (setNomination n s))"
    using assms(2) by (auto simp: quietCalls_def setNomination_def)
  note q = quietCalls_externalized [OF this] this
  show "slotStep s (setNomination n s)"
    using assms unfolding slotStep_def setNomination_def
    by (simp add: sameBallots_def isExternalized_def externalizedCalls_def externalizedOk_def)
  show "slotStep s (callDriver c (setNomination n s))"
    using assms q unfolding slotStep_def setNomination_def
    by (simp add: sameBallots_def isExternalized_def externalizedCalls_def externalizedOk_def)
qed

lemma recordNomination_step:
  assumes "isNewerNominationFor (nodeID (statement e)) (pledges (statement e)) (mNomination s)"
  shows "slotStep s (recordNomination e s)"
proof -
  let ?n = "(mNomination s)\<lparr>mLatestNominations := mapPut (nodeID (statement e)) e (mLatestNominations (mNomination s))\<rparr>"
  have "nominationsLe (mLatestNominations (mNomination s)) (mLatestNominations ?n)"
    using assms unfolding nominationsLe_def isNewerNominationFor_def
    by (auto simp: mapPut_lookup dest!: isNewerNomination_subset)
  then have "nominationStep (mNomination s) ?n"
    by (auto simp: nominationStep_def nominationOk_def mapPut_sorted)
  then show ?thesis
    unfolding slotStep_def recordNomination_def recordStatement_def setNomination_def
    by (simp add: sameBallots_def isExternalized_def externalizedCalls_def externalizedOk_def)
qed

lemma voteForLeader_step:
  "voteForLeader env st modified s = Inr (w, s') \<Longrightarrow> slotStep s s'"
  unfolding voteForLeader_def Let_def
  by (auto simp: bindE_Inr_iff split: if_splits option.splits intro!: slotStep_nomination nominationStep_votes)

lemma leaderVotes_step: "leaderVotes env ls updated s = Inr (w, s') \<Longrightarrow> slotStep s s'"
proof (induction ls arbitrary: updated s)
  case (Cons leader leaders)
  let ?t = "\<lambda>v. callDriver (NominatingValue v)
    (setNomination ((mNomination s)\<lparr>mVotes := stdInsert v (mVotes (mNomination s))\<rparr>) s)"
  have "slotStep s (?t v)" for v by (intro slotStep_nomination nominationStep_votes) auto
  then have "slotStep s s'" if "slotStep (?t v) s'" for v using that slotStep_trans by blast
  with Cons show ?case
    by (auto simp: Let_def bindE_Inr_iff split: option.splits)
qed simp

lemma updateComposite_step:
  assumes "updateComposite bf env s = Inr s'"
  shows "slotStep s s'"
proof -
  have "slotStep s (callDriver (UpdatedCandidateValue v)
      (setNomination ((mNomination s)\<lparr>mLatestCompositeCandidate := x\<rparr>) s))" for v x
    by (rule slotStep_nomination) (simp_all add: nominationStep_def nominationOk_def)
  moreover from assms obtain v w where "bumpState env (slotProcessSelf bf env) v False
      (callDriver (UpdatedCandidateValue v)
        (setNomination ((mNomination s)\<lparr>mLatestCompositeCandidate := Some v\<rparr>) s)) = Inr (w, s')"
    unfolding updateComposite_def Let_def by (auto simp: res_iffs)
  ultimately show ?thesis using selfp.bumpState_step slotStep_trans by blast
qed

section \<open>Operations that emit\<close>

lemma nominate_outcome:
  assumes "nominate fuel env pe v prev timedout s = Inr (w, s')"
  shows "s' = s \<or> (\<exists>n1 own s1 u s2.
     updateRoundLeaders fuel env ((mNomination s)\<lparr>mNominationStarted := True, mPreviousValue := prev,
       mRoundNumber := mRoundNumber (mNomination s) + 1\<rparr>) = Inr n1 \<and>
     ownVote env v n1 s = (own, s1) \<and> leaderVotes env (mRoundLeaders n1) own s1 = Inr (u, s2) \<and>
     (s' = callDriver (SetupNominationTimer (computeTimeout (of_int (mRoundNumber n1)))) s2 \<or>
      emitNomination env pe (callDriver (SetupNominationTimer (computeTimeout (of_int (mRoundNumber n1)))) s2) = Inr s'))"
proof (cases "timedout \<and> \<not> mNominationStarted (mNomination s)")
  case True
  with assms show ?thesis by (simp add: nominate_def Let_def)
next
  case False
  let ?n0 = "(mNomination s)\<lparr>mNominationStarted := True, mPreviousValue := prev,
    mRoundNumber := mRoundNumber (mNomination s) + 1\<rparr>"
  let ?timer = "\<lambda>n. callDriver (SetupNominationTimer (computeTimeout (of_int (mRoundNumber n))))"
  from assms False obtain n1 where n1: "updateRoundLeaders fuel env ?n0 = Inr n1"
    unfolding nominate_def Let_def by (auto simp: bindE_Inr_iff)
  obtain own s1 where s1: "ownVote env v n1 s = (own, s1)" by fastforce
  from assms False n1 s1 obtain u s2 where
    "leaderVotes env (mRoundLeaders n1) own s1 = Inr (u, s2)"
    "s' = ?timer n1 s2 \<or> emitNomination env pe (?timer n1 s2) = Inr s'"
    unfolding nominate_def Let_def by (auto simp: bindE_Inr_iff split: if_splits)
  with n1 s1 show ?thesis by blast
qed

context self_processor
begin

lemma emitNomination_step:
  assumes "emitNomination env pe s = Inr s'"
  shows "slotStep s s'"
proof -
  have upd: "slotStep t (setNomination ((mNomination t)\<lparr>mLastNomination := x\<rparr>) t)"
    "slotStep t (callDriver (EmitEnvelope c) (setNomination ((mNomination t)\<lparr>mLastNomination := x\<rparr>) t))" for t x c
    by (rule slotStep_nomination [where c = "EmitEnvelope c"]; simp add: nominationStep_def nominationOk_def)+
  obtain r t where t: "pe (createEnvelope env (NOMINATE (localQSetHash env)
      (mVotes (mNomination s)) (mAccepted (mNomination s)))) s = Inr (r, t)"
    and s': "slotStep t s'"
    using assms upd unfolding emitNomination_def Let_def by (auto simp: bindE_Inr_iff split: if_splits)
  from pe_step [OF t] s' show ?thesis by (rule slotStep_trans)
qed

lemma processNomination_step:
  assumes "processNomination bf env pe e s = Inr (r, s')"
  shows "slotStep s s'"
proof -
  let ?s1 = "recordNomination e s" and ?nom = "pledges (statement e)"
  obtain modified n2 where n2: "promoteVotes env (nomVotes ?nom) (False, mNomination ?s1) = (modified, n2)"
    by fastforce
  obtain new n3 where n3: "promoteAccepted env (mAccepted n2) (False, n2) = (new, n3)" by fastforce
  have s1: "slotStep s ?s1" if "isNewerNominationFor (nodeID (statement e)) ?nom (mNomination s)"
    by (rule recordNomination_step [OF that])
  have "nominationStep (mNomination ?s1) n3"
    using promoteAccepted_step [OF n3 subset_refl] promoteVotes_step [OF n2] by simp
  then have s3: "slotStep ?s1 (setNomination n3 ?s1)"
    using slotStep_nomination(1) [of ?s1 n3 "SetupBallotTimer None"] by simp
  have fin: "slotStep ?s1 s'"
    if s4: "voteForLeader env (statement e) modified (setNomination n3 ?s1) = Inr (w, s4)" and
      s5: "(if w then emitNomination env pe s4 else Inr s4) = Inr s5" and
      s': "(if new then updateComposite bf env s5 else Inr s5) = Inr s'" for w s4 s5
  proof -
    have "slotStep ?s1 s4" using s3 voteForLeader_step [OF s4] by (rule slotStep_trans)
    moreover have "slotStep s4 s5" using s5 emitNomination_step by (auto split: if_splits)
    moreover have "slotStep s5 s'" using s' updateComposite_step by (auto split: if_splits)
    ultimately show ?thesis by (meson slotStep_trans)
  qed
  show ?thesis
  proof (cases "isNewerNominationFor (nodeID (statement e)) ?nom (mNomination s) \<and> isSaneNomination ?nom")
    case False
    with assms have "s' = s" unfolding processNomination_def Let_def by (auto split: if_splits)
    then show ?thesis by simp
  next
    case True
    show ?thesis
    proof (cases "mNominationStarted (mNomination ?s1)")
      case False
      with True assms have "s' = ?s1" unfolding processNomination_def Let_def by simp
      with True s1 show ?thesis by simp
    next
      case started: True
      with True assms fin have "slotStep ?s1 s'"
        unfolding processNomination_def Let_def n2 n3 prod.case by (auto simp: bindE_Inr_iff)
      with s1 True slotStep_trans show ?thesis by blast
    qed
  qed
qed

lemma slotProcessNomination_step:
  assumes "slotProcessNomination bf env pe e s = Inr (r, s')"
  shows "slotStep s s'"
proof -
  from assms obtain t where "processNomination bf env pe e s = Inr (r, t)"
    "s' = t \<or> s' = maybeSetGotVBlocking env t"
    unfolding slotProcessNomination_def Let_def bindE_Inr_iff by (auto split: if_splits)
  then show ?thesis
    using processNomination_step slotStep_trans [OF _ maybeSetGotVBlocking_step] by blast
qed

lemma nominate_step:
  assumes "nominate fuel env pe v prev timedout s = Inr (w, s')"
  shows "slotStep s s'"
proof -
  let ?n0 = "(mNomination s)\<lparr>mNominationStarted := True, mPreviousValue := prev,
    mRoundNumber := mRoundNumber (mNomination s) + 1\<rparr>"
  let ?timer = "\<lambda>n. callDriver (SetupNominationTimer (computeTimeout (of_int (mRoundNumber n))))"
  from nominate_outcome [OF assms] consider "s' = s" |
    n1 own s1 u s2 where "updateRoundLeaders fuel env ?n0 = Inr n1" "ownVote env v n1 s = (own, s1)"
      "leaderVotes env (mRoundLeaders n1) own s1 = Inr (u, s2)"
      "s' = ?timer n1 s2 \<or> emitNomination env pe (?timer n1 s2) = Inr s'"
    by metis
  then show ?thesis
  proof cases
    case 2
    note n1 = 2(1) and s1 = 2(2) and s2 = 2(3)
    have "nominationStep (mNomination s) n1"
      using leadersLoop_step [OF n1 [unfolded updateRoundLeaders_def Let_def], of "mNomination s"]
      by (simp add: nominationStep_def nominationOk_def)
    then have "slotStep s s1"
      using s1 slotStep_nomination(1) [of s n1 "SetupBallotTimer None"]
        slotStep_nomination(2) [of s _ "NominatingValue v"] nominationStep_votes
      by (auto simp: ownVote_def split: if_splits)
    moreover have "slotStep s1 s2" using s2 by (rule leaderVotes_step)
    moreover have "slotStep s2 (?timer n1 s2)" by (rule slotStep_quiet) (auto simp: sameBallots_def)
    ultimately have "slotStep s (?timer n1 s2)" by (meson slotStep_trans)
    with 2(4) emitNomination_step slotStep_trans show ?thesis by blast
  qed simp
qed

end

lemma nominateSelf_step: "nominateSelf n bf env e s = Inr (r, s') \<Longrightarrow> slotStep s s'"
proof (induction n arbitrary: e s r s')
  case (Suc n)
  then have "self_processor (nominateSelf n bf env)" by unfold_locales
  from self_processor.slotProcessNomination_step [OF this] Suc.prems show ?case by simp
qed simp

interpretation nomp: self_processor env "nominateSelf n bf env" for env n bf
  by unfold_locales (rule nominateSelf_step)

end
