(* ===== verification/BallotMoves.thy ===== *)
theory BallotMoves
  imports BallotSync
begin

text \<open>
  The ballot protocol as an abstract transition system: a slot records a statement that is sane and
  newer, and moves its ballots only on the federated vote that the rules of the protocol ask for.
  Every operation of the code is a sequence of these moves.
\<close>

section \<open>Moves\<close>

text \<open>The statements of the ballot protocol a slot has recorded.\<close>

definition recorded :: "slot_state \<Rightarrow> SCPStatement set" where
  "recorded s = {st. pledgeType (pledges st) \<noteq> 3 \<and> st \<in> fst ` set (mStatementsHistory s)}"

definition sameFields :: "slot_state \<Rightarrow> slot_state \<Rightarrow> bool" where
  "sameFields s t \<longleftrightarrow> ballotFields t = ballotFields s \<and> mLatestEnvelopes t = mLatestEnvelopes s \<and>
     recorded t = recorded s"

text \<open>A node records as its own only the statement of its present state.\<close>

definition ownEnvelope :: "scp_env \<Rightarrow> SCPEnvelope \<Rightarrow> slot_state \<Rightarrow> bool" where
  "ownEnvelope env e s \<longleftrightarrow> (nodeID (statement e) = localNodeID env \<longrightarrow>
     (\<exists>pl. createStatement env s = Inr pl \<and> e = createEnvelope env pl))"

text \<open>A ballot accepted as prepared aborts the highest confirmed one: it is higher and of another value.\<close>

definition highAborted :: "slot_state \<Rightarrow> bool" where
  "highAborted s \<longleftrightarrow> (\<exists>h x. mHighBallot s = Some h \<and> (mPrepared s = Some x \<or> mPreparedPrime s = Some x)
     \<and> h < x \<and> bvalue h \<noteq> bvalue x)"

inductive ballotMove :: "scp_env \<Rightarrow> slot_state \<Rightarrow> slot_state \<Rightarrow> bool" for env s where
  idle: "sameFields s t \<Longrightarrow> ballotMove env s t"
| recordNewer: "isStatementSane env (statement e) self = Inr True \<Longrightarrow>
     ownEnvelope env e s \<Longrightarrow> isNewerStatementFor (nodeID (statement e)) (statement e) s \<Longrightarrow> ballotMove env s (recordEnvelope e s)"
| acceptPrepared: "mPhase s \<noteq> SCP_PHASE_EXTERNALIZE \<Longrightarrow> acceptsPrepared env b s \<Longrightarrow> skipPrepared b s = Inr False \<Longrightarrow>
     setPrepared b s = (w, s1) \<Longrightarrow> (highAborted s1 \<and> mCommit s1 \<noteq> None \<longrightarrow> mPhase s = SCP_PHASE_PREPARE) \<Longrightarrow>
     t = (if highAborted s1 then s1\<lparr>mCommit := None\<rparr> else s1) \<Longrightarrow> ballotMove env s t"
| confirmPrepared: "mPhase s = SCP_PHASE_PREPARE \<Longrightarrow> ratifiesPrepared env h s \<Longrightarrow>
     counter c \<noteq> 0 \<longrightarrow> areBallotsLessAndCompatible c h \<and> ratifiesPrepared env c s \<Longrightarrow>
     s1 = s \<or> (\<forall>b. mCurrentBallot s = Some b \<longrightarrow> areBallotsCompatible b h) \<and> setHighAndCommit c h s = Inr (w, s1) \<Longrightarrow>
     updateCurrentIfNeeded h s1 = Inr (u, t) \<Longrightarrow> ballotMove env s t"
| acceptCommit: "mPhase s \<noteq> SCP_PHASE_EXTERNALIZE \<Longrightarrow>
     mPhase s = SCP_PHASE_CONFIRM \<longrightarrow> map_option bvalue (mHighBallot s) = Some v \<Longrightarrow>
     acceptsCommit env (SCPBallot n v) s (lo, hi) \<Longrightarrow> lo \<noteq> 0 \<Longrightarrow>
     s1 = s\<lparr>mCommit := Some (SCPBallot lo v), mHighBallot := Some (SCPBallot hi v)\<rparr> \<Longrightarrow>
     (if mPhase s = SCP_PHASE_PREPARE then moveToConfirm (SCPBallot hi v) s1 else Inr s1) = Inr s2 \<Longrightarrow>
     updateCurrentIfNeeded (SCPBallot hi v) s2 = Inr (u, t) \<Longrightarrow> ballotMove env s t"
| confirmCommit: "mPhase s = SCP_PHASE_CONFIRM \<Longrightarrow> map_option bvalue (mCommit s) = Some v \<Longrightarrow>
     ratifiesCommit env (SCPBallot n v) s (lo, hi) \<Longrightarrow> lo \<noteq> 0 \<Longrightarrow>
     updateCurrentIfNeeded (SCPBallot hi v)
       (s\<lparr>mCommit := Some (SCPBallot lo v), mHighBallot := Some (SCPBallot hi v)\<rparr>) = Inr (u, s1) \<Longrightarrow>
     ballotMove env s (s1\<lparr>mPhase := SCP_PHASE_EXTERNALIZE\<rparr>)"
| bump: "mPhase s \<noteq> SCP_PHASE_EXTERNALIZE \<Longrightarrow> updateCurrentValue b s = Inr (w, t) \<Longrightarrow> ballotMove env s t"

abbreviation ballotMoves :: "scp_env \<Rightarrow> slot_state \<Rightarrow> slot_state \<Rightarrow> bool" where
  "ballotMoves env \<equiv> (ballotMove env)\<^sup>*\<^sup>*"

lemma sameFields_moves: "sameFields s t \<Longrightarrow> ballotMoves env s t"
  by (auto intro: ballotMove.idle)

lemma sameFields_trans: "sameFields a b \<Longrightarrow> sameFields b c \<Longrightarrow> sameFields a c"
  by (simp add: sameFields_def)

lemma sameFields_simps [simp]:
  "sameFields s s" "sameFields s (callDriver c s)" "sameFields s (s\<lparr>mValueOverride := x\<rparr>)"
  "sameFields s (s\<lparr>mCurrentMessageLevel := k\<rparr>)" "sameFields s (setFullyValidated v s)"
  "sameFields s (slotStopNomination s)" "sameFields s (maybeSetGotVBlocking env s)"
  "sameFields s (sendLatestEnvelope (s\<lparr>mLastEnvelope := y\<rparr>))" "sameFields s (sendLatestEnvelope s)"
  "sameFields s (checkHeardFromQuorum env s)" "sameFields s (s\<lparr>mNomination := n\<rparr>)"
  by (auto simp: sameFields_def ballotFields_def recorded_def setFullyValidated_def slotStopNomination_def
      maybeSetGotVBlocking_def sendLatestEnvelope_def checkHeardFromQuorum_def startBallotProtocolTimer_def
      stopBallotProtocolTimer_def callDriver_def Let_def split: option.splits)

section \<open>The votes behind the attempts\<close>

lemma scanAcceptPrepared_accepts:
  "scanAcceptPrepared env cands s = Inr (Some b) \<Longrightarrow> acceptsPrepared env b s \<and> skipPrepared b s = Inr False"
  by (induction cands) (auto simp: bindE_Inr_iff split: if_splits)

lemma scanConfirmPrepared_ratifies: "scanConfirmPrepared env cands s = Some (h, rest) \<Longrightarrow> ratifiesPrepared env h s"
  by (induction cands) (auto split: if_splits)

lemma scanCommit_ratifies:
  assumes "counter newC \<noteq> 0 \<longrightarrow> areBallotsLessAndCompatible newC newH \<and> ratifiesPrepared env newC s"
  shows "counter (scanCommit env b newH cands s newC) \<noteq> 0 \<longrightarrow>
           areBallotsLessAndCompatible (scanCommit env b newH cands s newC) newH \<and>
           ratifiesPrepared env (scanCommit env b newH cands s newC) s"
  using assms by (induction env b newH cands s newC rule: scanCommit.induct) auto

lemma findExtendedInterval_pred:
  "fst cand \<noteq> 0 \<longrightarrow> pred cand \<Longrightarrow> fst (findExtendedInterval cand bs pred) \<noteq> 0 \<Longrightarrow>
   pred (findExtendedInterval cand bs pred)"
  by (induction cand bs pred rule: findExtendedInterval.induct) (auto split: if_splits)

lemma commitCandidates_voted:
  "fst (acceptCommitCandidate env b s) \<noteq> 0 \<Longrightarrow> acceptsCommit env b s (acceptCommitCandidate env b s)"
  "fst (confirmCommitCandidate env b s) \<noteq> 0 \<Longrightarrow> ratifiesCommit env b s (confirmCommitCandidate env b s)"
  unfolding acceptCommitCandidate_def confirmCommitCandidate_def by (simp_all add: findExtendedInterval_pred)

lemma attemptAcceptPrepared_hands:
  assumes "attemptAcceptPrepared env pe hint s = Inr (w, s')"
  shows "s' = s \<or> mPhase s \<noteq> SCP_PHASE_EXTERNALIZE \<and>
           (\<exists>b. acceptsPrepared env b s \<and> skipPrepared b s = Inr False \<and> setAcceptPrepared env pe b s = Inr (w, s'))"
  using assms unfolding attemptAcceptPrepared_def
  by (cases "mPhase s") (auto simp: bindE_Inr_iff split: option.splits dest: scanAcceptPrepared_accepts)

lemma attemptConfirmPrepared_hands:
  assumes "attemptConfirmPrepared env pe hint s = r"
  shows "r = Inr (False, s) \<or> mPhase s = SCP_PHASE_PREPARE \<and>
           (\<exists>c h. (counter c \<noteq> 0 \<longrightarrow> areBallotsLessAndCompatible c h \<and> ratifiesPrepared env c s) \<and>
              ratifiesPrepared env h s \<and> r = setConfirmPrepared env pe c h s)"
proof (cases "mPhase s = SCP_PHASE_PREPARE \<and> mPrepared s \<noteq> None")
  case False
  with assms show ?thesis by (auto simp: attemptConfirmPrepared_def)
next
  case True
  show ?thesis
  proof (cases "scanConfirmPrepared env (rev (getPrepareCandidates hint s)) s")
    case None
    with True assms show ?thesis by (auto simp: attemptConfirmPrepared_def)
  next
    case (Some hc)
    obtain newH cands where hc: "hc = (newH, cands)" by fastforce
    let ?c = "\<lambda>k x. if k then scanCommit env x newH cands s (SCPBallot 0 []) else SCPBallot 0 []"
    have "counter (?c k x) \<noteq> 0 \<longrightarrow> areBallotsLessAndCompatible (?c k x) newH \<and> ratifiesPrepared env (?c k x) s" for k x
      using scanCommit_ratifies [of "SCPBallot 0 []" newH env s x cands] by simp
    moreover have "\<exists>k x. r = setConfirmPrepared env pe (?c k x) newH s"
      using True assms Some hc unfolding attemptConfirmPrepared_def Let_def by (auto split del: if_split) blast
    moreover have "ratifiesPrepared env newH s" using scanConfirmPrepared_ratifies Some hc by blast
    ultimately show ?thesis using True by blast
  qed
qed

lemma attemptAcceptCommit_hands:
  assumes "attemptAcceptCommit env pe hint s = Inr (w, s')"
  shows "(w, s') = (False, s) \<or> mPhase s \<noteq> SCP_PHASE_EXTERNALIZE \<and>
           (\<exists>b. acceptCommitHint hint = Inr (Some b) \<and> fst (acceptCommitCandidate env b s) \<noteq> 0 \<and>
              (mPhase s = SCP_PHASE_CONFIRM \<longrightarrow> map_option bvalue (mHighBallot s) = Some (bvalue b)) \<and>
              setAcceptCommit env pe (SCPBallot (fst (acceptCommitCandidate env b s)) (bvalue b))
                (SCPBallot (snd (acceptCommitCandidate env b s)) (bvalue b)) s = Inr (w, s'))"
proof (cases "acceptCommitHint hint")
  case (Inl e)
  with assms show ?thesis by (auto simp: attemptAcceptCommit_def split: if_splits)
next
  case (Inr hb)
  show ?thesis
  proof (cases hb)
    case None
    with assms Inr show ?thesis by (auto simp: attemptAcceptCommit_def split: if_splits)
  next
    case (Some b)
    with assms Inr show ?thesis
     by (cases "mPhase s"; cases "mHighBallot s")
       (auto simp: attemptAcceptCommit_def Let_def areBallotsCompatible_def split: if_splits)
  qed
qed

lemma attemptConfirmCommit_hands:
  assumes "attemptConfirmCommit env pe hint s = Inr (w, s')"
  shows "(w, s') = (False, s) \<or> mPhase s = SCP_PHASE_CONFIRM \<and>
           (\<exists>b. confirmCommitHint hint = Inr (Some b) \<and> fst (confirmCommitCandidate env b s) \<noteq> 0 \<and>
              map_option bvalue (mCommit s) = Some (bvalue b) \<and>
              setConfirmCommit env pe (SCPBallot (fst (confirmCommitCandidate env b s)) (bvalue b))
                (SCPBallot (snd (confirmCommitCandidate env b s)) (bvalue b)) s = Inr (w, s'))"
proof (cases "confirmCommitHint hint")
  case (Inl e)
  with assms show ?thesis by (auto simp: attemptConfirmCommit_def split: if_splits option.splits)
next
  case (Inr hb)
  show ?thesis
  proof (cases hb)
    case None
    with assms Inr show ?thesis by (auto simp: attemptConfirmCommit_def split: if_splits option.splits)
  next
    case (Some b)
    with assms Inr show ?thesis
      by (cases "mPhase s"; cases "mHighBallot s"; cases "mCommit s")
        (auto simp: attemptConfirmCommit_def Let_def areBallotsCompatible_def split: if_splits)
  qed
qed

section \<open>Every operation is a sequence of moves\<close>

locale move_processor =
  fixes env :: scp_env and pe :: process_self
  assumes pe_moves:
    "createStatement env s = Inr pl \<Longrightarrow> pe (createEnvelope env pl) s = Inr (r, s') \<Longrightarrow> ballotMoves env s s'"
begin

lemma emit_moves:
  assumes "emitCurrentStateStatement env pe s = Inr s'"
  shows "ballotMoves env s s'"
proof -
  from assms obtain t x where
    "s = t \<or> (\<exists>pl r. createStatement env s = Inr pl \<and> pe (createEnvelope env pl) s = Inr (r, t))"
    "s' = t \<or> s' = sendLatestEnvelope (t\<lparr>mLastEnvelope := x\<rparr>)"
    unfolding emitCurrentStateStatement_def Let_def by (auto simp: res_iffs split: if_splits)
  then have "ballotMoves env s t" "sameFields t s'" using pe_moves by auto
  then show ?thesis by (meson rtranclp_trans sameFields_moves)
qed

lemma moves_emit:
  "ballotMove env s t \<Longrightarrow> sameFields t t' \<Longrightarrow> emitCurrentStateStatement env pe t' = Inr s' \<Longrightarrow> ballotMoves env s s'"
  by (meson converse_rtranclp_into_rtranclp emit_moves rtranclp_trans sameFields_moves)

lemma moves_after: "sameFields s t \<Longrightarrow> ballotMoves env t s' \<Longrightarrow> ballotMoves env s s'"
  by (meson rtranclp_trans sameFields_moves)

lemma moves_before: "ballotMoves env s t \<Longrightarrow> sameFields t s' \<Longrightarrow> ballotMoves env s s'"
  by (meson rtranclp_trans sameFields_moves)

lemma setAcceptPrepared_moves:
  assumes "setAcceptPrepared env pe b s = Inr (w, s')" "mPhase s \<noteq> SCP_PHASE_EXTERNALIZE" "acceptsPrepared env b s"
    and "skipPrepared b s = Inr False"
  shows "ballotMoves env s s'"
proof -
  obtain d s1 where s1: "setPrepared b s = (d, s1)" by fastforce
  then have ph: "mPhase s1 = mPhase s"
    by (auto simp: setPrepared_def Let_def split: option.splits if_splits)
  define clearC where "clearC = (case mCommit s1 of None \<Rightarrow> False | Some _ \<Rightarrow>
      (case mHighBallot s1 of None \<Rightarrow> False | Some h \<Rightarrow>
        (case mPrepared s1 of None \<Rightarrow> False | Some p \<Rightarrow> areBallotsLessAndIncompatible h p) \<or>
        (case mPreparedPrime s1 of None \<Rightarrow> False | Some p' \<Rightarrow> areBallotsLessAndIncompatible h p')))"
  have c: "clearC \<longleftrightarrow> highAborted s1 \<and> mCommit s1 \<noteq> None"
    by (auto simp: clearC_def highAborted_def areBallotsLessAndIncompatible_iff split: option.splits)
  let ?t = "if highAborted s1 then s1\<lparr>mCommit := None\<rparr> else s1"
  have t: "(if clearC then s1\<lparr>mCommit := None\<rparr> else s1) = ?t" using c by auto
  have r: "clearC \<longrightarrow> mPhase s1 = SCP_PHASE_PREPARE"
    "s' = ?t \<or> emitCurrentStateStatement env pe (callDriver (AcceptedBallotPrepared b) ?t) = Inr s'"
    using assms(1) [unfolded setAcceptPrepared_def s1 Let_def prod.case, folded clearC_def] unfolding t [symmetric]
    by (auto simp: res_iffs split: if_splits)
  from ballotMove.acceptPrepared [OF assms(2-4) s1 _ refl] r(1) c ph have "ballotMove env s ?t" by simp
  with r(2) show ?thesis using moves_emit [of s ?t "callDriver (AcceptedBallotPrepared b) ?t"] by auto
qed

lemma setConfirmPrepared_moves:
  assumes "setConfirmPrepared env pe c h s = Inr (w, s')" "mPhase s = SCP_PHASE_PREPARE" "ratifiesPrepared env h s"
    and "counter c \<noteq> 0 \<longrightarrow> areBallotsLessAndCompatible c h \<and> ratifiesPrepared env c s"
  shows "ballotMoves env s s'"
proof -
  let ?t = "s\<lparr>mValueOverride := Some (bvalue h)\<rparr>"
  from assms(1) obtain d s3 w2 s4 where
    s3: "(if (case mCurrentBallot ?t of None \<Rightarrow> True | Some b \<Rightarrow> areBallotsCompatible b h)
          then setHighAndCommit c h ?t else Inr (False, ?t)) = Inr (d, s3)" and
    s4: "updateCurrentIfNeeded h s3 = Inr (w2, s4)" and
    s': "s' = s4 \<or> emitCurrentStateStatement env pe s4 = Inr s'"
    unfolding setConfirmPrepared_def Let_def by (auto simp: bindE_Inr_iff split: if_splits)
  have rat: "ratifiesPrepared env x ?t = ratifiesPrepared env x s" for x by (simp add: ratifiesPrepared_def)
  have "s3 = ?t \<or> (\<forall>b. mCurrentBallot ?t = Some b \<longrightarrow> areBallotsCompatible b h) \<and> setHighAndCommit c h ?t = Inr (d, s3)"
    using s3 by (auto split: if_splits option.splits)
  from ballotMove.confirmPrepared [OF _ _ _ this s4, of env] rat assms(2-4) have "ballotMove env ?t s4" by simp
  with s' have "ballotMoves env ?t s'" using moves_emit [of ?t s4 s4] by auto
  then show ?thesis by (rule moves_after [rotated]) simp
qed

lemma moveToConfirm_high:
  assumes "moveToConfirm h s = Inr s'" "mHighBallot s = Some h"
  shows "mHighBallot s' = Some h"
proof -
  have "mHighBallot t = Some h" if "bumpToBallot h False (s\<lparr>mPhase := SCP_PHASE_CONFIRM\<rparr>) = Inr t" for t
    using bumpToBallot_effect(9) [OF that] assms(2) by (auto simp: areBallotsCompatible_def split: option.splits)
  with assms show ?thesis
    unfolding moveToConfirm_def by (auto simp: Let_def bindE_Inr_iff split: if_splits option.splits)
qed

lemma setAcceptCommit_moves:
  assumes "setAcceptCommit env pe (SCPBallot lo v) (SCPBallot hi v) s = Inr (w, s')"
    and "mPhase s \<noteq> SCP_PHASE_EXTERNALIZE"
    and "mPhase s = SCP_PHASE_CONFIRM \<longrightarrow> map_option bvalue (mHighBallot s) = Some v"
    and "acceptsCommit env (SCPBallot n v) s (lo, hi)" "lo \<noteq> 0"
  shows "ballotMoves env s s'"
proof -
  let ?c = "SCPBallot lo v" and ?h = "SCPBallot hi v"
  let ?t = "s\<lparr>mValueOverride := Some v\<rparr>"
  let ?u = "?t\<lparr>mCommit := Some ?c, mHighBallot := Some ?h\<rparr>"
  define setCH where "setCH = (case (mHighBallot ?t, mCommit ?t) of
      (Some h0, Some c0) \<Rightarrow> compareBallots h0 ?h \<noteq> 0 \<or> compareBallots c0 ?c \<noteq> 0 | _ \<Rightarrow> True)"
  have "(if setCH then ?u else ?t) = ?u"
    unfolding setCH_def by (auto split: option.splits)
  note r = assms(1) [unfolded setAcceptCommit_def Let_def SCPBallot.sel, folded setCH_def, unfolded this]
  then obtain s2 where
    s2: "(if mPhase s = SCP_PHASE_PREPARE then moveToConfirm ?h ?u else Inr ?u) = Inr s2" and
    s': "\<not> setCH \<and> mPhase s \<noteq> SCP_PHASE_PREPARE \<and> s' = s2 \<or>
         (\<exists>hb u s3. mHighBallot s2 = Some hb \<and> updateCurrentIfNeeded hb s2 = Inr (u, s3) \<and>
            emitCurrentStateStatement env pe (callDriver (AcceptedCommit ?h) s3) = Inr s')"
    by (auto simp: res_iffs split: if_splits)
  have high: "mHighBallot s2 = Some ?h"
    using s2 moveToConfirm_high [of ?h ?u s2] by (auto split: if_splits)
  have acc: "acceptsCommit env (SCPBallot n v) ?t (lo, hi)" using assms(4) by (simp add: acceptsCommit_def)
  have "ballotMoves env ?t s'"
    using s'
  proof (elim disjE exE conjE, goal_cases)
    case 1
    then have "s' = ?u" "mHighBallot s = Some ?h \<and> mCommit s = Some ?c"
      using s2 by (auto simp: setCH_def split: option.splits)
    then show ?case by (auto intro!: sameFields_moves simp: sameFields_def ballotFields_def recorded_def)
  next
    case (2 hb u s3)
    with high have "ballotMove env ?t s3"
      by (intro ballotMove.acceptCommit [OF _ _ acc assms(5) refl, of s2 u s3]) (use s2 assms(2,3) in auto)
    with 2 show ?case using moves_emit [of ?t s3 "callDriver (AcceptedCommit ?h) s3"] by simp
  qed
  then show ?thesis by (rule moves_after [rotated]) simp
qed

lemma setConfirmCommit_moves:
  assumes "setConfirmCommit env pe (SCPBallot lo v) (SCPBallot hi v) s = Inr (w, s')"
    and "mPhase s = SCP_PHASE_CONFIRM" "map_option bvalue (mCommit s) = Some v"
    and "ratifiesCommit env (SCPBallot n v) s (lo, hi)" "lo \<noteq> 0"
  shows "ballotMoves env s s'"
proof -
  let ?t = "s\<lparr>mCommit := Some (SCPBallot lo v), mHighBallot := Some (SCPBallot hi v)\<rparr>"
  from assms(1) obtain u s1 s2 x where
    s1: "updateCurrentIfNeeded (SCPBallot hi v) ?t = Inr (u, s1)" and
    s2: "emitCurrentStateStatement env pe (s1\<lparr>mPhase := SCP_PHASE_EXTERNALIZE\<rparr>) = Inr s2" and
    s': "s' = callDriver (ValueExternalized x) (slotStopNomination s2)"
    unfolding setConfirmCommit_def by (auto simp: res_iffs Let_def)
  have "ballotMoves env s s2"
    using moves_emit [OF ballotMove.confirmCommit [OF assms(2-5) s1] _ s2] by simp
  moreover have "sameFields s2 s'"
    unfolding s' using sameFields_trans [of s2 "slotStopNomination s2"] by simp
  ultimately show ?thesis by (rule moves_before)
qed

lemma bumpStateTo_moves:
  assumes "bumpStateTo env pe v n s = Inr (w, s')"
  shows "ballotMoves env s s'"
proof -
  from assms consider "s' = s" | b w t where "mPhase s \<noteq> SCP_PHASE_EXTERNALIZE" "updateCurrentValue b s = Inr (w, t)"
      "s' = t \<or> (\<exists>u. emitCurrentStateStatement env pe t = Inr u \<and> s' = checkHeardFromQuorum env u)"
    unfolding bumpStateTo_def Let_def by (auto simp: bindE_Inr_iff split: if_splits)
  then show ?thesis
  proof cases
    case 2
    from ballotMove.bump [OF 2(1,2)] 2(3) moves_emit [of s t t] moves_before show ?thesis by fastforce
  qed simp
qed

lemma bumpState_moves: "bumpState env pe v force s = Inr (w, s') \<Longrightarrow> ballotMoves env s s'"
  using bumpState_outcome [of env pe v force s "Inr (w, s')"] bumpStateTo_moves by auto metis

lemma abandonBallot_moves: "abandonBallot env pe n s = Inr (w, s') \<Longrightarrow> ballotMoves env s s'"
  using abandonBallot_outcome [of env pe n s "Inr (w, s')"] bumpStateTo_moves bumpState_moves
  by (cases "n = 0") (auto, metis+)

lemma attemptBump_moves: "attemptBump env pe s = Inr (w, s') \<Longrightarrow> ballotMoves env s s'"
  using attemptBump_outcome [of env pe s "Inr (w, s')"] bumpStateTo_moves by auto metis

lemma bumpLoop_moves: "bumpLoop n env pe s = Inr (w, s') \<Longrightarrow> ballotMoves env s s'"
proof (induction n arbitrary: s w)
  case (Suc n)
  then show ?case
    by (auto simp: bindE_Inr_iff split: if_splits intro: attemptBump_moves rtranclp_trans [OF attemptBump_moves])
qed simp

lemma attempt_moves:
  "attemptAcceptPrepared env pe hint s = Inr (w, s') \<Longrightarrow> ballotMoves env s s'"
  "attemptConfirmPrepared env pe hint s = Inr (w, s') \<Longrightarrow> ballotMoves env s s'"
  "attemptAcceptCommit env pe hint s = Inr (w, s') \<Longrightarrow> ballotMoves env s s'"
  "attemptConfirmCommit env pe hint s = Inr (w, s') \<Longrightarrow> ballotMoves env s s'"
proof -
  show "ballotMoves env s s'" if "attemptAcceptPrepared env pe hint s = Inr (w, s')"
    using attemptAcceptPrepared_hands [OF that] setAcceptPrepared_moves by auto
  show "ballotMoves env s s'" if "attemptConfirmPrepared env pe hint s = Inr (w, s')"
    using attemptConfirmPrepared_hands [OF that] setConfirmPrepared_moves [of _ _ s w s']
    by (elim disjE exE conjE) (metis Inr_inject prod.inject rtranclp.rtrancl_refl)+
  show "ballotMoves env s s'" if "attemptAcceptCommit env pe hint s = Inr (w, s')"
    using attemptAcceptCommit_hands [OF that]
  proof (elim disjE exE conjE)
    fix b
    assume b: "mPhase s \<noteq> SCP_PHASE_EXTERNALIZE" "fst (acceptCommitCandidate env b s) \<noteq> 0"
      "mPhase s = SCP_PHASE_CONFIRM \<longrightarrow> map_option bvalue (mHighBallot s) = Some (bvalue b)"
      "setAcceptCommit env pe (SCPBallot (fst (acceptCommitCandidate env b s)) (bvalue b))
         (SCPBallot (snd (acceptCommitCandidate env b s)) (bvalue b)) s = Inr (w, s')"
    from setAcceptCommit_moves [OF b(4,1,3), of "counter b"] commitCandidates_voted(1) [OF b(2)] b(2)
    show ?thesis by simp
  qed simp
  show "ballotMoves env s s'" if "attemptConfirmCommit env pe hint s = Inr (w, s')"
    using attemptConfirmCommit_hands [OF that]
  proof (elim disjE exE conjE)
    fix b
    assume b: "mPhase s = SCP_PHASE_CONFIRM" "fst (confirmCommitCandidate env b s) \<noteq> 0"
      "map_option bvalue (mCommit s) = Some (bvalue b)"
      "setConfirmCommit env pe (SCPBallot (fst (confirmCommitCandidate env b s)) (bvalue b))
         (SCPBallot (snd (confirmCommitCandidate env b s)) (bvalue b)) s = Inr (w, s')"
    from setConfirmCommit_moves [OF b(4,1,3), of "counter b"] commitCandidates_voted(2) [OF b(2)] b(2)
    show ?thesis by simp
  qed simp
qed

lemma attemptRules_moves: "attemptRules env pe hint s = Inr (w, s') \<Longrightarrow> ballotMoves env s s'"
  unfolding attemptRules_def
  by (clarsimp simp: bindE_Inr_iff) (metis attempt_moves rtranclp_trans)

lemma advanceSlot_moves:
  assumes "advanceSlot fuel env pe hint s = Inr s'"
  shows "ballotMoves env s s'"
proof -
  let ?up = "\<lambda>t x. t\<lparr>mCurrentMessageLevel := x\<rparr>"
  from assms obtain w1 s1 w2 s2 x where
    r: "attemptRules env pe hint (?up s (mCurrentMessageLevel s + 1)) = Inr (w1, s1)"
      "attemptBumps fuel env pe s1 = Inr (w2, s2)" and
    s': "s' = ?up s2 x \<or> s' = sendLatestEnvelope (?up s2 x)"
    unfolding advanceSlot_def Let_def by (auto simp: bindE_Inr_iff split: if_splits)
  have "ballotMoves env s s1" using attemptRules_moves [OF r(1)] by (rule moves_after [rotated]) simp
  moreover have "ballotMoves env s1 s2"
    using r(2) unfolding attemptBumps_def
    by (auto simp: bindE_Inr_iff split: if_splits intro: moves_before [OF bumpLoop_moves])
  moreover have "sameFields s2 s'"
    using s' sameFields_trans [of s2 "?up s2 x"] by auto
  ultimately show ?thesis by (meson moves_before rtranclp_trans)
qed

lemma processEnvelope_moves:
  assumes "processEnvelope fuel env pe e self s = Inr (r, s')" "ownEnvelope env e s"
  shows "ballotMoves env s s'"
proof -
  from assms(1) consider "s' = s" | t where "isStatementSane env (statement e) self = Inr True"
      "isNewerStatementFor (nodeID (statement e)) (statement e) s" "t = s \<or> t = setFullyValidated False s"
      "s' = recordEnvelope e t \<or> (\<exists>hint. advanceSlot fuel env pe hint (recordEnvelope e t) = Inr s')"
    unfolding processEnvelope_def Let_def bindE_Inr_iff by (auto simp: res_iffs split: if_splits)
  then show ?thesis
  proof cases
    case 2
    then have "isNewerStatementFor (nodeID (statement e)) (statement e) t" "sameFields s t"
      by (auto simp: isNewerStatementFor_def setFullyValidated_def sameFields_def ballotFields_def recorded_def)
    moreover have "ownEnvelope env e t"
      using assms(2) \<open>sameFields s t\<close> createStatement_cong [of t s env] by (simp add: ownEnvelope_def sameFields_def)
    ultimately have "ballotMoves env s (recordEnvelope e t)"
      using ballotMove.recordNewer [OF 2(1)] moves_after by blast
    with 2(4) advanceSlot_moves show ?thesis by (meson rtranclp_trans)
  qed simp
qed

lemma slotProcessBallot_moves:
  assumes "slotProcessBallot fuel env pe e self s = Inr (r, s')" "ownEnvelope env e s"
  shows "ballotMoves env s s'"
proof -
  from assms(1) obtain t where t: "processEnvelope fuel env pe e self s = Inr (r, t)"
    and s': "s' = t \<or> s' = maybeSetGotVBlocking env t"
    unfolding slotProcessBallot_def Let_def bindE_Inr_iff by (auto split: if_splits)
  from s' have "sameFields t s'" by auto
  with processEnvelope_moves [OF t assms(2)] show ?thesis by (rule moves_before)
qed

end

lemma ownEnvelope_own: "createStatement env s = Inr pl \<Longrightarrow> ownEnvelope env (createEnvelope env pl) s"
  by (simp add: ownEnvelope_def)

lemma slotProcessSelf_moves:
  "createStatement env s = Inr pl \<Longrightarrow> slotProcessSelf n env (createEnvelope env pl) s = Inr (r, s') \<Longrightarrow>
   ballotMoves env s s'"
proof (induction n arbitrary: s pl r s')
  case (Suc n)
  then have "move_processor env (slotProcessSelf n env)" by unfold_locales
  from move_processor.slotProcessBallot_moves [OF this _ ownEnvelope_own] Suc.prems show ?case by simp
qed simp

interpretation selfm: move_processor env "slotProcessSelf n env" for env n
  by unfold_locales (rule slotProcessSelf_moves)

end
