(* ===== verification/BallotValues.thy ===== *)
theory BallotValues
  imports BallotMoves
begin

text \<open>
  The value a node has accepted to commit to is final: the current, high and commit ballots of a
  slot carry one value, and once the slot has left the first phase that value never changes.
\<close>

section \<open>One value\<close>

definition valuesOk :: "slot_state \<Rightarrow> bool" where
  "valuesOk s \<longleftrightarrow>
     (\<forall>h. mHighBallot s = Some h \<longrightarrow> map_option bvalue (mCurrentBallot s) = Some (bvalue h)) \<and>
     (\<forall>c. mCommit s = Some c \<longrightarrow> map_option bvalue (mHighBallot s) = Some (bvalue c))"

definition committedValue :: "slot_state \<Rightarrow> Value option" where
  "committedValue s = (if mPhase s = SCP_PHASE_PREPARE then None else map_option bvalue (mCommit s))"

definition valueStep :: "slot_state \<Rightarrow> slot_state \<Rightarrow> bool" where
  "valueStep s s' \<longleftrightarrow>
     (valuesOk s \<longrightarrow>
        valuesOk s' \<and> (\<forall>v. committedValue s = Some v \<longrightarrow> committedValue s' = Some v))"

lemma valueStep_refl [simp]: "valueStep s s"
  by (simp add: valueStep_def)

lemma valueStep_trans: "valueStep a b \<Longrightarrow> valueStep b c \<Longrightarrow> valueStep a c"
  by (simp add: valueStep_def)

lemma valueStep_core:
  "mPhase s' = mPhase s \<Longrightarrow> mCurrentBallot s' = mCurrentBallot s \<Longrightarrow> mHighBallot s' = mHighBallot s \<Longrightarrow>
   mCommit s' = mCommit s \<Longrightarrow> valueStep s s'"
  by (simp add: valueStep_def valuesOk_def committedValue_def)

section \<open>Local operations\<close>

text \<open>The condition in between, while the current ballot is not set yet.\<close>

definition commitHigh :: "slot_state \<Rightarrow> bool" where
  "commitHigh s \<longleftrightarrow> (\<forall>c. mCommit s = Some c \<longrightarrow> map_option bvalue (mHighBallot s) = Some (bvalue c))"

lemma valuesOk_commitHigh: "valuesOk s \<Longrightarrow> commitHigh s"
  by (simp add: valuesOk_def commitHigh_def)

lemma bumpToBallot_values:
  assumes "bumpToBallot b check s = Inr s'" "commitHigh s"
    and "committedValue s = None \<or> committedValue s = Some (bvalue b)"
  shows "valuesOk s' \<and> committedValue s' = committedValue s"
  using assms unfolding bumpToBallot_def valuesOk_def committedValue_def areBallotsCompatible_def commitHigh_def
  by (auto simp: res_iffs Let_def split: option.splits if_splits)

lemma updateCurrentIfNeeded_values:
  assumes "updateCurrentIfNeeded h s = Inr (w, s')" "commitHigh s" "mCurrentBallot s \<noteq> None \<Longrightarrow> valuesOk s"
    and "committedValue s = None \<or> committedValue s = Some (bvalue h)"
  shows "valuesOk s' \<and> committedValue s' = committedValue s"
proof (cases "w")
  case True
  with assms(1) have "bumpToBallot h True s = Inr s'"
    by (auto simp: updateCurrentIfNeeded_def bindE_Inr_iff split: if_splits)
  from bumpToBallot_values [OF this assms(2,4)] show ?thesis .
next
  case False
  with assms(1) have "mCurrentBallot s \<noteq> None" "s' = s"
    by (auto simp: updateCurrentIfNeeded_def bindE_Inr_iff split: if_splits option.splits)
  with assms(3) show ?thesis by simp
qed

lemma updateCurrentValue_values:
  assumes "updateCurrentValue b s = Inr (w, s')"
  shows "valueStep s s'"
proof (cases w)
  case False
  with updateCurrentValue_effect(5) [OF assms] show ?thesis by simp
next
  case True
  with assms have bump: "bumpToBallot b True s = Inr s'"
    and guard: "mCurrentBallot s = None \<or> (\<forall>c. mCommit s = Some c \<longrightarrow> bvalue c = bvalue b)"
    unfolding updateCurrentValue_def areBallotsCompatible_def
    by (auto simp: res_iffs split: option.splits if_splits)
  show ?thesis
    unfolding valueStep_def
  proof (intro impI)
    assume ok: "valuesOk s"
    then have "mCurrentBallot s = None \<longrightarrow> mCommit s = None" by (auto simp: valuesOk_def)
    with guard have "committedValue s = None \<or> committedValue s = Some (bvalue b)"
      by (cases "mCommit s") (auto simp: committedValue_def)
    from bumpToBallot_values [OF bump valuesOk_commitHigh [OF ok] this]
    show "valuesOk s' \<and> (\<forall>v. committedValue s = Some v \<longrightarrow> committedValue s' = Some v)" by auto
  qed
qed

lemma setHighAndCommit_values:
  assumes "setHighAndCommit c h s = Inr (w, s')" "counter c \<noteq> 0 \<Longrightarrow> bvalue c = bvalue h"
    and "valuesOk s" "\<And>b. mCurrentBallot s = Some b \<Longrightarrow> bvalue b = bvalue h"
  shows "commitHigh s' \<and> (mCurrentBallot s' \<noteq> None \<longrightarrow> valuesOk s')"
  using assms unfolding setHighAndCommit_def valuesOk_def commitHigh_def
  by (auto simp: res_iffs Let_def split: if_splits option.splits)

lemma moveToConfirm_values:
  assumes "moveToConfirm h s = Inr s'" "commitHigh s" "map_option bvalue (mHighBallot s) = Some (bvalue h)"
    "mCommit s = Some c"
  shows "commitHigh s' \<and> (mCurrentBallot s' \<noteq> None \<longrightarrow> valuesOk s') \<and> committedValue s' = Some (bvalue h) \<and>
         map_option bvalue (mHighBallot s') = Some (bvalue h)"
proof -
  let ?s1 = "s\<lparr>mPhase := SCP_PHASE_CONFIRM\<rparr>"
  have v: "committedValue ?s1 = Some (bvalue h)" "commitHigh ?s1"
    using assms(2-4) by (auto simp: committedValue_def commitHigh_def)
  show ?thesis
  proof (cases "mCurrentBallot s")
    case None
    with assms(1) have "s' = ?s1\<lparr>mPreparedPrime := None\<rparr>" by (simp add: moveToConfirm_def Let_def)
    with None v assms(3) show ?thesis by (auto simp: committedValue_def commitHigh_def)
  next
    case (Some b)
    show ?thesis
    proof (cases "areBallotsLessAndCompatible h b")
      case True
      with Some assms(1) have "s' = ?s1\<lparr>mPreparedPrime := None\<rparr>" by (simp add: moveToConfirm_def Let_def)
      with Some True v assms(3) show ?thesis
        by (auto simp: committedValue_def commitHigh_def valuesOk_def areBallotsLessAndCompatible_iff)
    next
      case False
      with Some assms(1) obtain t where t: "bumpToBallot h False ?s1 = Inr t" "s' = t\<lparr>mPreparedPrime := None\<rparr>"
        by (auto simp: moveToConfirm_def Let_def bindE_Inr_iff)
      from bumpToBallot_values [OF t(1) v(2)] v(1) have "valuesOk t" "committedValue t = Some (bvalue h)" by auto
      moreover have "mHighBallot t = mHighBallot s"
        using bumpToBallot_effect(9) [OF t(1)] assms(3) by (auto simp: areBallotsCompatible_def split: option.splits)
      ultimately show ?thesis using t(2) assms(3) by (auto simp: committedValue_def commitHigh_def valuesOk_def)
    qed
  qed
qed

section \<open>Every move keeps the value\<close>

lemma updateCurrentIfNeeded_step:
  assumes "updateCurrentIfNeeded h s1 = Inr (u, t)"
    and "valuesOk s \<Longrightarrow> commitHigh s1" "valuesOk s \<Longrightarrow> mCurrentBallot s1 \<noteq> None \<Longrightarrow> valuesOk s1"
    and "valuesOk s \<Longrightarrow> committedValue s1 = None \<or> committedValue s1 = Some (bvalue h)"
    and "\<And>v. valuesOk s \<Longrightarrow> committedValue s = Some v \<Longrightarrow> committedValue s1 = Some v"
  shows "valueStep s t"
  using updateCurrentIfNeeded_values [OF assms(1)] assms(2-5) unfolding valueStep_def by metis

lemma acceptCommit_values:
  assumes "mPhase s \<noteq> SCP_PHASE_EXTERNALIZE"
    and "mPhase s = SCP_PHASE_CONFIRM \<longrightarrow> map_option bvalue (mHighBallot s) = Some v"
    and s1: "s1 = s\<lparr>mCommit := Some (SCPBallot lo v), mHighBallot := Some (SCPBallot hi v)\<rparr>"
    and s2: "(if mPhase s = SCP_PHASE_PREPARE then moveToConfirm (SCPBallot hi v) s1 else Inr s1) = Inr s2"
    and "valuesOk s"
  shows "commitHigh s2 \<and> (mCurrentBallot s2 \<noteq> None \<longrightarrow> valuesOk s2) \<and> committedValue s2 = Some v \<and>
         (committedValue s = None \<or> committedValue s = Some v)"
proof (cases "mPhase s = SCP_PHASE_PREPARE")
  case True
  have "commitHigh s1" using s1 by (simp add: commitHigh_def)
  with moveToConfirm_values [of "SCPBallot hi v" s1 s2] s1 s2 True show ?thesis
    by (simp add: committedValue_def)
next
  case False
  with assms(1,2) have high: "map_option bvalue (mHighBallot s) = Some v" by (cases "mPhase s") auto
  with assms(5) have "\<forall>c. mCommit s = Some c \<longrightarrow> bvalue c = v" "map_option bvalue (mCurrentBallot s) = Some v"
    by (auto simp: valuesOk_def)
  with False s1 s2 show ?thesis by (cases "mCommit s") (auto simp: committedValue_def valuesOk_def commitHigh_def)
qed

lemma confirmCommit_values:
  assumes "mPhase s = SCP_PHASE_CONFIRM" "map_option bvalue (mCommit s) = Some v" "valuesOk s"
    and s1: "updateCurrentIfNeeded (SCPBallot hi v)
      (s\<lparr>mCommit := Some (SCPBallot lo v), mHighBallot := Some (SCPBallot hi v)\<rparr>) = Inr (u, s1)"
  shows "valuesOk s1 \<and> committedValue s1 = Some v"
proof -
  from assms(2,3) have "map_option bvalue (mHighBallot s) = Some v" by (auto simp: valuesOk_def)
  with assms(3) have "map_option bvalue (mCurrentBallot s) = Some v" by (auto simp: valuesOk_def)
  with updateCurrentIfNeeded_values [OF s1] assms(1) show ?thesis
    by (simp add: valuesOk_def commitHigh_def committedValue_def)
qed

lemma ballotMove_values: "ballotMove env s t \<Longrightarrow> valueStep s t"
proof (induction rule: ballotMove.induct)
  case (idle t)
  then show ?case by (auto simp: sameFields_def ballotFields_def intro: valueStep_core)
next
  case (recordNewer e self)
  show ?case by (rule valueStep_core) (simp_all add: recordEnvelope_def recordStatement_def)
next
  case (acceptPrepared b w s1 t)
  then have "mPhase s1 = mPhase s" "mCurrentBallot s1 = mCurrentBallot s" "mHighBallot s1 = mHighBallot s"
      "mCommit s1 = mCommit s"
    by (auto simp: setPrepared_def Let_def split: option.splits if_splits)
  with acceptPrepared(5,6) show ?case by (auto simp: valueStep_def valuesOk_def committedValue_def)
next
  case (confirmPrepared h c s1 w u t)
  have "commitHigh s1 \<and> (mCurrentBallot s1 \<noteq> None \<longrightarrow> valuesOk s1)" if "valuesOk s"
    using confirmPrepared(3,4) that valuesOk_commitHigh [OF that] setHighAndCommit_values [of c h s w s1]
    by (auto simp: areBallotsCompatible_def areBallotsLessAndCompatible_def)
  moreover have "mPhase s1 = SCP_PHASE_PREPARE"
    using confirmPrepared(1,4) by (auto dest: setHighAndCommit_effect(1))
  ultimately show ?case
    using confirmPrepared(1) updateCurrentIfNeeded_step [OF confirmPrepared(5), of s]
    by (auto simp: committedValue_def)
next
  case (acceptCommit v n lo hi s1 s2 u t)
  note vals = acceptCommit_values [OF acceptCommit(1,2,5,6)]
  show ?case by (rule updateCurrentIfNeeded_step [OF acceptCommit(7)]) (use vals in auto)
next
  case (confirmCommit v n lo hi u s1)
  from confirmCommit_values [OF confirmCommit(1,2) _ confirmCommit(5)] confirmCommit(1,2) show ?case
    by (auto simp: valueStep_def committedValue_def valuesOk_def split: if_splits)
next
  case (bump b w t)
  from bump(2) show ?case by (rule updateCurrentValue_values)
qed

lemma ballotMoves_values: "ballotMoves env s t \<Longrightarrow> valueStep s t"
  by (induction rule: rtranclp_induct) (auto intro: valueStep_trans ballotMove_values)

end
