(* ===== verification/BallotSpec.thy ===== *)
theory BallotSpec
  imports BallotValues
begin

text \<open>
  The ballot protocol as a specification of its own: the phase, the five ballots and the statements heard,
  with one rule per step of the protocol. The rules say on which federated vote a ballot may change and
  what it changes to; none of the functions that change the ballots in the code occurs in them.
\<close>

section \<open>The specification\<close>

record ballot_view =
  vPhase :: SCPPhase
  vCurrent :: "SCPBallot option"
  vPrepared :: "SCPBallot option"
  vPrime :: "SCPBallot option"
  vHigh :: "SCPBallot option"
  vCommit :: "SCPBallot option"
  vHeard :: "SCPEnvelope nodeMap"

definition vBallots :: "ballot_view \<Rightarrow> SCPBallot set" where
  "vBallots v = set_option (vPrepared v) \<union> set_option (vPrime v)"

text \<open>A ballot accepted as prepared is higher than the highest confirmed one and of another value.\<close>

definition vAborted :: "ballot_view \<Rightarrow> bool" where
  "vAborted v \<longleftrightarrow> (\<exists>h x. vHigh v = Some h \<and> x \<in> vBallots v \<and> h < x \<and> bvalue h \<noteq> bvalue x)"

text \<open>Another current ballot: what was confirmed or may be committed of another value is given up.\<close>

definition vMove :: "SCPBallot \<Rightarrow> ballot_view \<Rightarrow> ballot_view" where
  "vMove b v =
     (let w = v\<lparr>vCurrent := Some b\<rparr>
      in if map_option bvalue (vHigh v) \<in> {None, Some (bvalue b)} then w else w\<lparr>vHigh := None, vCommit := None\<rparr>)"

text \<open>The current ballot after a commit of a value up to a counter was accepted.\<close>

definition vJoin :: "SCPPhase \<Rightarrow> SCPBallot \<Rightarrow> SCPBallot option \<Rightarrow> SCPBallot option" where
  "vJoin phase h cur =
     (case cur of
        None \<Rightarrow> Some h
      | Some b \<Rightarrow>
          if (if phase = SCP_PHASE_PREPARE then bvalue b = bvalue h \<and> h \<le> b else h \<le> b) then Some b else Some h)"

inductive protocolStep :: "scp_env \<Rightarrow> ballot_view \<Rightarrow> ballot_view \<Rightarrow> bool" for env v where
  hear: "isStatementSane env (statement e) self = Inr True \<Longrightarrow>
     (\<forall>old. map_of (vHeard v) (nodeID (statement e)) = Some old \<longrightarrow> isNewerStatement (statement old) (statement e)) \<Longrightarrow>
     protocolStep env v (v\<lparr>vHeard := mapPut (nodeID (statement e)) e (vHeard v)\<rparr>)"
| acceptPrepared: "vPhase v \<noteq> SCP_PHASE_EXTERNALIZE \<Longrightarrow>
     federatedAccept env (\<lambda>st. votesToPrepare b (pledges st)) (hasPreparedBallot b) (vHeard v) \<Longrightarrow>
     w = v\<lparr>vPrepared := maxOpt (insert b (vBallots v)), vPrime := highestIncompatible (insert b (vBallots v))\<rparr> \<Longrightarrow>
     (vAborted w \<and> vCommit v \<noteq> None \<longrightarrow> vPhase v = SCP_PHASE_PREPARE) \<Longrightarrow>
     protocolStep env v (if vAborted w then w\<lparr>vCommit := None\<rparr> else w)"
| confirmPrepared: "vPhase v = SCP_PHASE_PREPARE \<Longrightarrow> federatedRatify env (hasPreparedBallot h) (vHeard v) \<Longrightarrow>
     map_option bvalue (vCurrent v) \<in> {None, Some (bvalue h)} \<Longrightarrow>
     c = None \<or> vCommit v = None \<and> (\<exists>b. c = Some b \<and> b \<le> h \<and> bvalue b = bvalue h
       \<and> federatedRatify env (hasPreparedBallot b) (vHeard v)) \<Longrightarrow>
     w = v\<lparr>vHigh := max (vHigh v) (Some h), vCommit := (if c = None then vCommit v else c)\<rparr> \<Longrightarrow>
     protocolStep env v (if vCurrent v < Some h then vMove h w else w)"
| joinPrepared: "vPhase v = SCP_PHASE_PREPARE \<Longrightarrow> federatedRatify env (hasPreparedBallot h) (vHeard v) \<Longrightarrow>
     vCurrent v < Some h \<Longrightarrow> protocolStep env v (vMove h v)"
| acceptCommit: "vPhase v \<noteq> SCP_PHASE_EXTERNALIZE \<Longrightarrow>
     (vPhase v = SCP_PHASE_CONFIRM \<longrightarrow> map_option bvalue (vHigh v) = Some x) \<Longrightarrow> lo \<noteq> 0 \<Longrightarrow>
     federatedAccept env (\<lambda>st. votesToCommit (SCPBallot n x) (lo, hi) (pledges st)) (commitPredicate (SCPBallot n x) (lo, hi))
       (vHeard v) \<Longrightarrow>
     protocolStep env v (v\<lparr>vPhase := SCP_PHASE_CONFIRM, vCurrent := vJoin (vPhase v) (SCPBallot hi x) (vCurrent v),
       vPrime := (if vPhase v = SCP_PHASE_PREPARE then None else vPrime v),
       vHigh := Some (SCPBallot hi x), vCommit := Some (SCPBallot lo x)\<rparr>)"
| confirmCommit: "vPhase v = SCP_PHASE_CONFIRM \<Longrightarrow> map_option bvalue (vCommit v) = Some x \<Longrightarrow> lo \<noteq> 0 \<Longrightarrow>
     federatedRatify env (commitPredicate (SCPBallot n x) (lo, hi)) (vHeard v) \<Longrightarrow>
     protocolStep env v (v\<lparr>vPhase := SCP_PHASE_EXTERNALIZE, vCurrent := max (vCurrent v) (Some (SCPBallot hi x)),
       vHigh := Some (SCPBallot hi x), vCommit := Some (SCPBallot lo x)\<rparr>)"
| bump: "vPhase v \<noteq> SCP_PHASE_EXTERNALIZE \<Longrightarrow> vCurrent v < Some b \<Longrightarrow>
     map_option bvalue (vCommit v) \<in> {None, Some (bvalue b)} \<Longrightarrow> protocolStep env v (vMove b v)"

text \<open>What the specification sees of a slot.\<close>

definition ballotView :: "slot_state \<Rightarrow> ballot_view" where
  "ballotView s = \<lparr>vPhase = mPhase s, vCurrent = mCurrentBallot s, vPrepared = mPrepared s, vPrime = mPreparedPrime s,
     vHigh = mHighBallot s, vCommit = mCommit s, vHeard = mLatestEnvelopes s\<rparr>"

section \<open>Every move is a step of the specification\<close>

lemma ballotView_simps [simp]:
  "vPhase (ballotView s) = mPhase s" "vCurrent (ballotView s) = mCurrentBallot s" "vPrepared (ballotView s) = mPrepared s"
  "vPrime (ballotView s) = mPreparedPrime s" "vHigh (ballotView s) = mHighBallot s" "vCommit (ballotView s) = mCommit s"
  "vHeard (ballotView s) = mLatestEnvelopes s" "vBallots (ballotView s) = preparedBallots s"
  by (simp_all add: ballotView_def vBallots_def preparedBallots_def)

lemma ballotView_commit: "ballotView (s\<lparr>mCommit := c\<rparr>) = (ballotView s)\<lparr>vCommit := c\<rparr>"
  by (simp add: ballotView_def)

lemma bumpToBallot_view:
  assumes "bumpToBallot b check s = Inr t"
  shows "ballotView t = vMove b (ballotView s)"
  using assms unfolding bumpToBallot_def
  by (auto simp: res_iffs Let_def vMove_def ballotView_def callDriver_def areBallotsCompatible_def
      split: option.splits if_splits)

lemma updateCurrentIfNeeded_view:
  assumes "updateCurrentIfNeeded h s = Inr (w, t)"
  shows "ballotView t = (if mCurrentBallot s < Some h then vMove h (ballotView s) else ballotView s)"
  using assms unfolding updateCurrentIfNeeded_def
  by (auto simp: res_iffs dest: bumpToBallot_view split: option.splits if_splits)

lemma updateCurrentValue_view:
  assumes "updateCurrentValue b s = Inr (w, t)" "valuesOk s"
  shows "t = s \<or> mPhase s \<noteq> SCP_PHASE_EXTERNALIZE \<and> mCurrentBallot s < Some b
    \<and> map_option bvalue (mCommit s) \<in> {None, Some (bvalue b)} \<and> ballotView t = vMove b (ballotView s)"
proof (cases "mCurrentBallot s")
  case None
  then have "mCommit s = None" using assms(2) by (auto simp: valuesOk_def)
  with None assms(1) show ?thesis unfolding updateCurrentValue_def
    by (auto simp: res_iffs dest: bumpToBallot_view split: if_splits)
next
  case (Some c)
  with assms(1) show ?thesis unfolding updateCurrentValue_def areBallotsCompatible_def
    by (auto simp: res_iffs dest: bumpToBallot_view split: option.splits if_splits)
qed

lemma setPrepared_frame:
  assumes "setPrepared b s = (w, s1)"
  shows "ballotView s1 = (ballotView s)\<lparr>vPrepared := mPrepared s1, vPrime := mPreparedPrime s1\<rparr>"
  using assms by (auto simp: setPrepared_def ballotView_def Let_def split: option.splits if_splits)

lemma skipPrepared_new:
  "skipPrepared b s = Inr False \<Longrightarrow> mPrepared s = Some p \<Longrightarrow> \<not> areBallotsLessAndCompatible b p"
  by (auto simp: skipPrepared_def res_iffs split: if_splits option.splits)

lemma highAborted_view: "highAborted s \<longleftrightarrow> vAborted (ballotView s)"
  by (auto simp: highAborted_def vAborted_def preparedBallots_def)

lemma acceptPrepared_view:
  assumes "mPhase s \<noteq> SCP_PHASE_EXTERNALIZE" "acceptsPrepared env b s" "skipPrepared b s = Inr False"
    "setPrepared b s = (w, s1)" "highAborted s1 \<and> mCommit s1 \<noteq> None \<longrightarrow> mPhase s = SCP_PHASE_PREPARE" "preparedOk s"
  shows "protocolStep env (ballotView s) (ballotView (if highAborted s1 then s1\<lparr>mCommit := None\<rparr> else s1))"
proof -
  have v: "ballotView s1 = (ballotView s)\<lparr>vPrepared := maxOpt (insert b (vBallots (ballotView s))),
      vPrime := highestIncompatible (insert b (vBallots (ballotView s)))\<rparr>"
    using setPrepared_frame [OF assms(4)] setPrepared_highest [OF assms(6) skipPrepared_new [OF assms(3)] assms(4)] by simp
  have c: "mCommit s1 = mCommit s" using arg_cong [OF v, of vCommit] by simp
  have "protocolStep env (ballotView s)
      (if vAborted (ballotView s1) then (ballotView s1)\<lparr>vCommit := None\<rparr> else ballotView s1)"
    using assms(1,2,5) c by (intro protocolStep.acceptPrepared [OF _ _ v]) (simp_all add: acceptsPrepared_def highAborted_view)
  then show ?thesis by (cases "vAborted (ballotView s1)") (simp_all add: highAborted_view ballotView_commit)
qed

lemma setHighAndCommit_view:
  assumes "setHighAndCommit c h s = Inr (w, s1)"
  shows "(counter c \<noteq> 0 \<longrightarrow> mCommit s = None)
    \<and> ballotView s1 = (ballotView s)\<lparr>vHigh := max (mHighBallot s) (Some h),
        vCommit := (if counter c \<noteq> 0 then Some c else mCommit s)\<rparr>"
  using assms
  by (auto simp: setHighAndCommit_def res_iffs Let_def ballotView_def callDriver_def max_def
      split: option.splits if_splits)

lemma confirmPrepared_view:
  assumes "mPhase s = SCP_PHASE_PREPARE" "ratifiesPrepared env h s"
    "counter c \<noteq> 0 \<longrightarrow> areBallotsLessAndCompatible c h \<and> ratifiesPrepared env c s"
    "s1 = s \<or> (\<forall>b. mCurrentBallot s = Some b \<longrightarrow> areBallotsCompatible b h) \<and> setHighAndCommit c h s = Inr (w, s1)"
    "updateCurrentIfNeeded h s1 = Inr (u, t)"
  shows "ballotView t = ballotView s \<or> protocolStep env (ballotView s) (ballotView t)"
  using assms(4)
proof
  assume "s1 = s"
  then show ?thesis
    using updateCurrentIfNeeded_view [OF assms(5)] protocolStep.joinPrepared [of "ballotView s" env h] assms(1,2)
    by (simp add: ratifiesPrepared_def split: if_splits)
next
  assume r: "(\<forall>b. mCurrentBallot s = Some b \<longrightarrow> areBallotsCompatible b h) \<and> setHighAndCommit c h s = Inr (w, s1)"
  let ?c = "if counter c \<noteq> 0 then Some c else None"
  note hc = setHighAndCommit_view [OF conjunct2 [OF r]]
  have "ballotView s1 = (ballotView s)\<lparr>vHigh := max (vHigh (ballotView s)) (Some h),
      vCommit := (if ?c = None then vCommit (ballotView s) else ?c)\<rparr>" using hc by simp
  moreover have "map_option bvalue (vCurrent (ballotView s)) \<in> {None, Some (bvalue h)}"
    using r by (cases "mCurrentBallot s") (auto simp: areBallotsCompatible_def)
  moreover have "?c = None \<or> vCommit (ballotView s) = None \<and> (\<exists>b. ?c = Some b \<and> b \<le> h \<and> bvalue b = bvalue h
       \<and> federatedRatify env (hasPreparedBallot b) (vHeard (ballotView s)))"
    using hc assms(3)
    by (auto simp: ratifiesPrepared_def areBallotsCompatible_def areBallotsLessAndCompatible_def split: if_splits)
  ultimately have "protocolStep env (ballotView s)
      (if vCurrent (ballotView s) < Some h then vMove h (ballotView s1) else ballotView s1)"
    using assms(1,2) by (intro protocolStep.confirmPrepared [where c = ?c]) (simp_all add: ratifiesPrepared_def)
  moreover have "mCurrentBallot s1 = mCurrentBallot s" using arg_cong [OF conjunct2 [OF hc], of vCurrent] by simp
  ultimately show ?thesis using updateCurrentIfNeeded_view [OF assms(5)] by simp
qed

lemma moveToConfirm_view:
  assumes "moveToConfirm h s = Inr t"
  shows "ballotView t = (let v = (ballotView s)\<lparr>vPhase := SCP_PHASE_CONFIRM\<rparr>
    in (if (case mCurrentBallot s of None \<Rightarrow> False | Some b \<Rightarrow> \<not> areBallotsLessAndCompatible h b) then vMove h v else v)
       \<lparr>vPrime := None\<rparr>)"
proof -
  have v: "ballotView (x\<lparr>mPreparedPrime := None\<rparr>) = (ballotView x)\<lparr>vPrime := None\<rparr>"
    "ballotView (x\<lparr>mPhase := p\<rparr>) = (ballotView x)\<lparr>vPhase := p\<rparr>" for x p by (simp_all add: ballotView_def)
  show ?thesis using assms unfolding moveToConfirm_def Let_def
    by (auto simp: bindE_Inr_iff v dest!: bumpToBallot_view split: if_splits option.splits)
qed

lemma ballotView_eqI:
  "vPhase v = vPhase w \<Longrightarrow> vCurrent v = vCurrent w \<Longrightarrow> vPrepared v = vPrepared w \<Longrightarrow> vPrime v = vPrime w
   \<Longrightarrow> vHigh v = vHigh w \<Longrightarrow> vCommit v = vCommit w \<Longrightarrow> vHeard v = vHeard w \<Longrightarrow> v = (w :: ballot_view)"
  by simp

lemma acceptCommit_view:
  assumes "mPhase s \<noteq> SCP_PHASE_EXTERNALIZE"
    "mPhase s = SCP_PHASE_CONFIRM \<longrightarrow> map_option bvalue (mHighBallot s) = Some x"
    "acceptsCommit env (SCPBallot n x) s (lo, hi)" "lo \<noteq> 0"
    "s1 = s\<lparr>mCommit := Some (SCPBallot lo x), mHighBallot := Some (SCPBallot hi x)\<rparr>"
    "(if mPhase s = SCP_PHASE_PREPARE then moveToConfirm (SCPBallot hi x) s1 else Inr s1) = Inr s2"
    "updateCurrentIfNeeded (SCPBallot hi x) s2 = Inr (u, t)"
  shows "protocolStep env (ballotView s) (ballotView t)"
proof -
  have v1: "ballotView s1 = (ballotView s)\<lparr>vHigh := Some (SCPBallot hi x), vCommit := Some (SCPBallot lo x)\<rparr>"
    using assms(5) by (simp add: ballotView_def)
  have cur: "mCurrentBallot s1 = mCurrentBallot s" using assms(5) by simp
  have v2: "ballotView s2 = (ballotView s1)\<lparr>vPhase := SCP_PHASE_CONFIRM,
      vCurrent := (case mCurrentBallot s of None \<Rightarrow> None
        | Some b \<Rightarrow> if mPhase s = SCP_PHASE_PREPARE \<and> \<not> areBallotsLessAndCompatible (SCPBallot hi x) b
            then Some (SCPBallot hi x) else Some b),
      vPrime := (if mPhase s = SCP_PHASE_PREPARE then None else mPreparedPrime s)\<rparr>"
  proof (cases "mPhase s = SCP_PHASE_PREPARE")
    case True
    with assms(6) have "moveToConfirm (SCPBallot hi x) s1 = Inr s2" by simp
    from moveToConfirm_view [OF this] True show ?thesis
      by (auto simp: v1 cur vMove_def Let_def intro!: ballotView_eqI split: option.splits)
  next
    case False
    with assms(1,6) have "s2 = s1" "mPhase s = SCP_PHASE_CONFIRM" by (cases "mPhase s"; simp)+
    then show ?thesis by (auto simp: v1 cur intro!: ballotView_eqI split: option.splits)
  qed
  have c2: "mCurrentBallot s2 = vCurrent (ballotView s2)" by simp
  have "ballotView t = (ballotView s)\<lparr>vPhase := SCP_PHASE_CONFIRM,
      vCurrent := vJoin (vPhase (ballotView s)) (SCPBallot hi x) (vCurrent (ballotView s)),
      vPrime := (if vPhase (ballotView s) = SCP_PHASE_PREPARE then None else vPrime (ballotView s)),
      vHigh := Some (SCPBallot hi x), vCommit := Some (SCPBallot lo x)\<rparr>"
    unfolding updateCurrentIfNeeded_view [OF assms(7)] c2 v2 v1
    by (cases "mCurrentBallot s")
      (auto simp: vJoin_def vMove_def Let_def areBallotsLessAndCompatible_def areBallotsCompatible_def intro!: ballotView_eqI)
  moreover have "protocolStep env (ballotView s) \<dots>"
    using assms(1-4) by (intro protocolStep.acceptCommit) (simp_all add: acceptsCommit_def)
  ultimately show ?thesis by simp
qed

lemma confirmCommit_view:
  assumes "mPhase s = SCP_PHASE_CONFIRM" "map_option bvalue (mCommit s) = Some x"
    "ratifiesCommit env (SCPBallot n x) s (lo, hi)" "lo \<noteq> 0"
    "updateCurrentIfNeeded (SCPBallot hi x)
       (s\<lparr>mCommit := Some (SCPBallot lo x), mHighBallot := Some (SCPBallot hi x)\<rparr>) = Inr (u, s1)"
  shows "protocolStep env (ballotView s) (ballotView (s1\<lparr>mPhase := SCP_PHASE_EXTERNALIZE\<rparr>))"
proof -
  have v: "ballotView (s1\<lparr>mPhase := SCP_PHASE_EXTERNALIZE\<rparr>) = (ballotView s1)\<lparr>vPhase := SCP_PHASE_EXTERNALIZE\<rparr>"
    "ballotView (s\<lparr>mCommit := Some (SCPBallot lo x), mHighBallot := Some (SCPBallot hi x)\<rparr>)
      = (ballotView s)\<lparr>vHigh := Some (SCPBallot hi x), vCommit := Some (SCPBallot lo x)\<rparr>" by (simp_all add: ballotView_def)
  have "ballotView (s1\<lparr>mPhase := SCP_PHASE_EXTERNALIZE\<rparr>) = (ballotView s)\<lparr>vPhase := SCP_PHASE_EXTERNALIZE,
      vCurrent := max (vCurrent (ballotView s)) (Some (SCPBallot hi x)),
      vHigh := Some (SCPBallot hi x), vCommit := Some (SCPBallot lo x)\<rparr>"
    unfolding v(1) updateCurrentIfNeeded_view [OF assms(5)] v(2)
    by (auto simp: vMove_def Let_def max_def intro!: ballotView_eqI)
  moreover have "protocolStep env (ballotView s) \<dots>"
    using assms(1-4) by (intro protocolStep.confirmCommit) (simp_all add: ratifiesCommit_def)
  ultimately show ?thesis by simp
qed

lemma recordEnvelope_view:
  "ballotView (recordEnvelope e s) = (ballotView s)\<lparr>vHeard := mapPut (nodeID (statement e)) e (mLatestEnvelopes s)\<rparr>"
  by (simp add: ballotView_def recordEnvelope_def recordStatement_def)

lemma ballotMove_view:
  assumes "ballotMove env s t" "valuesOk s" "preparedOk s"
  shows "ballotView t = ballotView s \<or> protocolStep env (ballotView s) (ballotView t)"
  using assms(1)
proof cases
  case idle
  then show ?thesis by (auto simp: sameFields_def ballotFields_def ballotView_def)
next
  case (recordNewer e self)
  have "protocolStep env (ballotView s)
      ((ballotView s)\<lparr>vHeard := mapPut (nodeID (statement e)) e (vHeard (ballotView s))\<rparr>)"
    using recordNewer by (intro protocolStep.hear) (auto simp: isNewerStatementFor_def split: option.splits)
  then show ?thesis using recordNewer(1) by (simp add: recordEnvelope_view)
next
  case (acceptPrepared b w s1)
  from acceptPrepared_view [OF acceptPrepared(1-5) assms(3)] acceptPrepared(6) show ?thesis by simp
next
  case (confirmPrepared h c s1 w u)
  from confirmPrepared_view [OF confirmPrepared] show ?thesis .
next
  case (acceptCommit v n lo hi s1 s2 u)
  from acceptCommit_view [OF acceptCommit] show ?thesis by simp
next
  case (confirmCommit v n lo hi u s1)
  from confirmCommit_view [OF confirmCommit(2-6)] confirmCommit(1) show ?thesis by simp
next
  case (bump b w)
  from updateCurrentValue_view [OF bump(2) assms(2)] show ?thesis
    using protocolStep.bump [of "ballotView s" b env] by auto
qed

section \<open>Runs\<close>

text \<open>The accepted ballots of the specification: the first only rises, the second is lower and of another value.\<close>

definition vPreparedOk :: "ballot_view \<Rightarrow> bool" where
  "vPreparedOk v \<longleftrightarrow> (\<forall>q. vPrime v = Some q \<longrightarrow> (\<exists>p. vPrepared v = Some p \<and> q < p \<and> bvalue q \<noteq> bvalue p))"

lemma preparedOk_view: "preparedOk s \<longleftrightarrow> vPreparedOk (ballotView s)"
  by (auto simp: preparedOk_def vPreparedOk_def areBallotsLessAndIncompatible_iff split: option.splits)

lemma vMove_prepared [simp]: "vPrepared (vMove b v) = vPrepared v" "vPrime (vMove b v) = vPrime v"
  by (simp_all add: vMove_def Let_def)

lemma highest_two:
  fixes A :: "SCPBallot set"
  assumes "finite A"
  shows "highestIncompatible (insert b A) = Some q \<Longrightarrow>
      \<exists>p. maxOpt (insert b A) = Some p \<and> q < p \<and> bvalue q \<noteq> bvalue p"
    and "x \<in> A \<Longrightarrow> Some x \<le> maxOpt (insert b A)"
proof -
  show "Some x \<le> maxOpt (insert b A)" if "x \<in> A" using that assms by (simp add: maxOpt_def)
  show "\<exists>p. maxOpt (insert b A) = Some p \<and> q < p \<and> bvalue q \<noteq> bvalue p" if "highestIncompatible (insert b A) = Some q"
  proof -
    let ?B = "{x \<in> insert b A. \<not> areBallotsCompatible x (Max (insert b A))}"
    have "?B \<noteq> {}" "q = Max ?B" using that by (auto simp: highestIncompatible_def maxOpt_def split: if_splits)
    then have "q \<in> ?B" using assms Max_in [of ?B] by simp
    then have "q \<le> Max (insert b A)" "bvalue q \<noteq> bvalue (Max (insert b A))"
      using assms by (auto simp: areBallotsCompatible_def intro: Max_ge)
    then show ?thesis by (auto simp: maxOpt_def order.strict_iff_order)
  qed
qed

lemma highest_second:
  fixes A :: "SCPBallot set"
  assumes "finite A" "p \<in> A" "q \<in> A" "q < p" "bvalue q \<noteq> bvalue p" "\<forall>x\<in>A. x \<le> p"
  shows "Some q \<le> highestIncompatible (insert b A)"
proof -
  let ?m = "Max (insert b A)" and ?B = "{x \<in> insert b A. \<not> areBallotsCompatible x (Max (insert b A))}"
  have "?m \<in> insert b A" "p \<le> ?m" using assms(1,2) Max_in [of "insert b A"] by auto
  then have "?m = b \<or> ?m = p" using assms(6) by (auto intro: order.antisym)
  then have B: "q \<in> ?B \<or> p \<in> ?B" using assms(2,3,5) by (auto simp: areBallotsCompatible_def)
  have "x \<le> Max ?B" if "x \<in> ?B" for x using that assms(1) by (intro Max_ge) simp_all
  from B this [of q] this [of p] have "q \<le> Max ?B" using assms(4) by (meson less_imp_le order_trans)
  moreover have "?B \<noteq> {}" using B by blast
  ultimately show ?thesis by (simp add: highestIncompatible_def maxOpt_def)
qed

lemma protocolStep_prime:
  assumes "protocolStep env v w" "vPreparedOk v" "vPhase w = SCP_PHASE_PREPARE"
  shows "vPhase v = SCP_PHASE_PREPARE \<and> vPrime v \<le> vPrime w"
  using assms(1)
proof cases
  case (acceptPrepared b u)
  have "vPrime v \<le> vPrime u"
  proof (cases "vPrime v")
    case (Some q)
    then obtain p where "vPrepared v = Some p" "q < p" "bvalue q \<noteq> bvalue p"
      using assms(2) by (auto simp: vPreparedOk_def)
    then show ?thesis using highest_second [of "vBallots v" p q b] Some by (auto simp: acceptPrepared(4) vBallots_def)
  qed simp
  then show ?thesis using acceptPrepared assms(3) by (auto split: if_splits)
qed (use assms(3) in \<open>auto simp: vMove_def Let_def split: if_splits\<close>)

lemma protocolStep_prepared:
  assumes "protocolStep env v w" "vPreparedOk v"
  shows "vPreparedOk w \<and> vPrepared v \<le> vPrepared w"
  using assms(1)
proof cases
  case (acceptPrepared b u)
  have fin: "finite (vBallots v)" by (simp add: vBallots_def)
  have "vPreparedOk u \<and> vPrepared v \<le> vPrepared u"
    using highest_two(1) [OF fin, of b] highest_two(2) [OF fin, where b = b] unfolding acceptPrepared(4)
    by (cases "vPrepared v") (simp_all add: vPreparedOk_def vBallots_def)
  then show ?thesis using acceptPrepared(1) by (auto simp: vPreparedOk_def)
qed (use assms(2) in \<open>auto simp: vPreparedOk_def split: if_splits\<close>)

lemma ballotMoves_view:
  assumes "ballotMoves env s t" "valuesOk s" "preparedOk s"
  shows "(protocolStep env)\<^sup>*\<^sup>* (ballotView s) (ballotView t) \<and> valuesOk t \<and> preparedOk t \<and> mPrepared s \<le> mPrepared t
    \<and> (mPhase t = SCP_PHASE_PREPARE \<longrightarrow> mPhase s = SCP_PHASE_PREPARE \<and> mPreparedPrime s \<le> mPreparedPrime t)"
  using assms
proof (induction rule: rtranclp_induct)
  case (step t u)
  then have t: "(protocolStep env)\<^sup>*\<^sup>* (ballotView s) (ballotView t)" "valuesOk t" "preparedOk t" "mPrepared s \<le> mPrepared t"
    "mPhase t = SCP_PHASE_PREPARE \<longrightarrow> mPhase s = SCP_PHASE_PREPARE \<and> mPreparedPrime s \<le> mPreparedPrime t"
    by blast+
  have "valuesOk u" using ballotMove_values [OF step(2)] t(2) by (simp add: valueStep_def)
  moreover have "(protocolStep env)\<^sup>*\<^sup>* (ballotView s) (ballotView u) \<and> preparedOk u \<and> mPrepared t \<le> mPrepared u
      \<and> (mPhase u = SCP_PHASE_PREPARE \<longrightarrow> mPhase t = SCP_PHASE_PREPARE \<and> mPreparedPrime t \<le> mPreparedPrime u)"
    using ballotMove_view [OF step(2) t(2,3)]
  proof
    assume eq: "ballotView u = ballotView t"
    have "mPrepared u = mPrepared t" "mPhase u = mPhase t" "mPreparedPrime u = mPreparedPrime t"
      using arg_cong [OF eq, of vPrepared, unfolded ballotView_simps] arg_cong [OF eq, of vPhase, unfolded ballotView_simps]
        arg_cong [OF eq, of vPrime, unfolded ballotView_simps] by simp_all
    with eq t(1,3) show ?thesis by (simp add: preparedOk_view)
  next
    assume st: "protocolStep env (ballotView t) (ballotView u)"
    from protocolStep_prepared [OF this] protocolStep_prime [OF this] t(3) rtranclp.rtrancl_into_rtrancl [OF t(1) st] show ?thesis
      by (simp add: preparedOk_view)
  qed
  ultimately show ?case using t(4,5) by (auto intro: order_trans)
qed simp

end
