(* ===== verification/SlotRuns.thy ===== *)
theory SlotRuns
  imports NominationSteps BallotSpec
begin

text \<open>
  The slot as a whole (\<^verbatim>\<open>scp/Slot.cpp\<close>): the dispatch of an envelope to the two protocols, the
  calls a slot offers, and the states a slot can reach through them.
\<close>

section \<open>The slot\<close>

definition slotProcessEnvelope ::
    "nat \<Rightarrow> scp_env \<Rightarrow> SCPEnvelope \<Rightarrow> bool \<Rightarrow> slot_state \<Rightarrow> (EnvelopeState \<times> slot_state) res" where
  "slotProcessEnvelope fuel env e self s =
     (case pledges (statement e) of
        NOMINATE _ _ _ \<Rightarrow> slotProcessNomination fuel env (nominateSelf fuel fuel env) e s
      | _ \<Rightarrow> slotProcessBallot fuel env (slotProcessSelf fuel env) e self s)"

definition slotNominate ::
    "nat \<Rightarrow> scp_env \<Rightarrow> Value \<Rightarrow> Value \<Rightarrow> bool \<Rightarrow> slot_state \<Rightarrow> (bool \<times> slot_state) res" where
  "slotNominate fuel env v previousValue timedout s =
     nominate fuel env (nominateSelf fuel fuel env) v previousValue timedout s"

definition slotAbandonBallot :: "nat \<Rightarrow> scp_env \<Rightarrow> slot_state \<Rightarrow> (bool \<times> slot_state) res" where
  "slotAbandonBallot fuel env s = abandonBallot env (slotProcessSelf fuel env) 0 s"

definition slotSetStateFromEnvelope :: "scp_env \<Rightarrow> SCPEnvelope \<Rightarrow> slot_state \<Rightarrow> slot_state res" where
  "slotSetStateFromEnvelope env e s =
     (if nodeID (statement e) = localNodeID env \<and> slotIndex (statement e) = envSlotIndex env
      then let prev = (getLatestMessage (nodeID (statement e)) s \<noteq> None)
           in bindE (case pledges (statement e) of
                       NOMINATE _ _ _ \<Rightarrow> setNominationFromEnvelope e s
                     | _ \<Rightarrow> setStateFromEnvelope e s) (\<lambda>s'.
              Inr (if \<not> prev then maybeSetGotVBlocking env s' else s'))
      else Inr s)"

text \<open>\<^verbatim>\<open>Slot::processCurrentState\<close>: the ballot envelopes follow unless a nomination stopped the visit.\<close>

definition slotProcessCurrentState ::
    "scp_env \<Rightarrow> ('s \<Rightarrow> SCPEnvelope \<Rightarrow> bool \<times> 's) \<Rightarrow> bool \<Rightarrow> slot_state \<Rightarrow> 's \<Rightarrow> 's" where
  "slotProcessCurrentState env f forceSelf s acc =
     (case processCurrentNominations env f forceSelf s acc of
        (False, acc') \<Rightarrow> acc'
      | (True, acc') \<Rightarrow> snd (processCurrentState env f forceSelf s acc'))"

definition getEntireCurrentState :: "scp_env \<Rightarrow> slot_state \<Rightarrow> SCPEnvelope list" where
  "getEntireCurrentState env s = slotProcessCurrentState env (\<lambda>acc e. (True, acc @ [e])) True s []"

definition getLatestMessagesSend :: "slot_state \<Rightarrow> SCPEnvelope list" where
  "getLatestMessagesSend s =
     (if mFullyValidated s
      then (case mLastNomination (mNomination s) of None \<Rightarrow> [] | Some e \<Rightarrow> [e]) @
           (case mLastEnvelope s of None \<Rightarrow> [] | Some e \<Rightarrow> [e])
      else [])"

text \<open>
  The calls that return, as a relation on the states of a slot, and the states a new slot can reach
  through them. Statements of the node itself do not arrive from outside.
\<close>

inductive slotCall :: "scp_env \<Rightarrow> slot_state \<Rightarrow> slot_state \<Rightarrow> bool" for env s where
  receive: "nodeID (statement e) \<noteq> localNodeID env \<Longrightarrow>
     slotProcessEnvelope fuel env e False s = Inr (r, s') \<Longrightarrow> slotCall env s s'"
| nominate: "slotNominate fuel env v prev timedout s = Inr (w, s') \<Longrightarrow> slotCall env s s'"
| timer: "ballotProtocolTimerExpired fuel env s = Inr s' \<Longrightarrow> slotCall env s s'"
| abandon: "slotAbandonBallot fuel env s = Inr (w, s') \<Longrightarrow> slotCall env s s'"
| stop: "slotCall env s (slotStopNomination s)"

abbreviation slotCalls :: "scp_env \<Rightarrow> slot_state \<Rightarrow> slot_state \<Rightarrow> bool" where
  "slotCalls env \<equiv> (slotCall env)\<^sup>*\<^sup>*"

definition slotReach :: "scp_env \<Rightarrow> slot_state \<Rightarrow> bool" where
  "slotReach env s \<longleftrightarrow> slotCalls env (Slot env) s"

lemma slotReach_calls: "slotReach env s \<Longrightarrow> slotCalls env s s' \<Longrightarrow> slotReach env s'"
  unfolding slotReach_def by (rule rtranclp_trans)

section \<open>Steps\<close>

lemma slotProcessEnvelope_step: "slotProcessEnvelope fuel env e self s = Inr (r, s') \<Longrightarrow> slotStep s s'"
  unfolding slotProcessEnvelope_def
  by (auto split: SCPPledges.splits dest: selfp.slotProcessBallot_step nomp.slotProcessNomination_step)

lemma slotNominate_step: "slotNominate fuel env v prev timedout s = Inr (w, s') \<Longrightarrow> slotStep s s'"
  unfolding slotNominate_def by (rule nomp.nominate_step)

lemma slotAbandonBallot_step: "slotAbandonBallot fuel env s = Inr (w, s') \<Longrightarrow> slotStep s s'"
  unfolding slotAbandonBallot_def by (rule selfp.abandonBallot_step)

lemma ballotProtocolTimerExpired_step: "ballotProtocolTimerExpired fuel env s = Inr s' \<Longrightarrow> slotStep s s'"
  unfolding ballotProtocolTimerExpired_def
  by (auto simp: bindE_Inr_iff dest: selfp.abandonBallot_step)

lemma slotStopNomination_step: "slotStep s (slotStopNomination s)"
  using slotStep_nomination(1) [of s "(mNomination s)\<lparr>mNominationStarted := False\<rparr>" "SetupBallotTimer None"]
  by (simp add: slotStopNomination_def setNomination_def nominationStep_stop)

lemmas slot_steps = slotProcessEnvelope_step slotNominate_step slotAbandonBallot_step
  ballotProtocolTimerExpired_step slotStopNomination_step

lemma slotCall_step: "slotCall env s s' \<Longrightarrow> slotStep s s'"
  by (induction rule: slotCall.induct) (rule slot_steps; assumption?)+

lemma slotCalls_step: "slotCalls env s s' \<Longrightarrow> slotStep s s'"
  by (induction rule: rtranclp_induct) (auto intro: slotStep_trans slotCall_step)

section \<open>What nominating keeps\<close>

text \<open>
  Nominating touches the ballots only through a bump of the ballot protocol. The contract below is what a
  relation between slot states must give for every operation of the nomination protocol to be in it.
\<close>

lemma sameFields_nomination [simp]:
  "sameFields s (setNomination n s)" "sameFields s (callDriver c (setNomination n s))"
  by (auto simp: sameFields_def ballotFields_def recorded_def setNomination_def callDriver_def)

lemma isSaneNomination_type: "isSaneNomination pl \<Longrightarrow> pledgeType pl = 3"
  by (cases pl) (auto simp: isSaneNomination_def)

lemma sameFields_recordNomination:
  "isSaneNomination (pledges (statement e)) \<Longrightarrow> sameFields s (recordNomination e s)"
  "isSaneNomination (pledges (statement e)) \<Longrightarrow> sameFields s (setNomination n (recordNomination e s))"
  using isSaneNomination_type [of "pledges (statement e)"]
  by (auto simp: sameFields_def ballotFields_def recorded_def setNomination_def recordNomination_def
      recordStatement_def)

lemma voteForLeader_same: "voteForLeader env st m s = Inr (w, s') \<Longrightarrow> sameFields s s'"
  unfolding voteForLeader_def Let_def by (auto simp: bindE_Inr_iff split: if_splits option.splits)

lemma ownVote_same: "ownVote env v n s = (w, s') \<Longrightarrow> sameFields s s'"
  unfolding ownVote_def by (auto split: if_splits)

lemma leaderVotes_same: "leaderVotes env ls updated s = Inr (w, s') \<Longrightarrow> sameFields s s'"
proof (induction ls arbitrary: updated s)
  case (Cons l ls)
  let ?vote = "\<lambda>v. callDriver (NominatingValue v)
    (setNomination ((mNomination s)\<lparr>mVotes := stdInsert v (mVotes (mNomination s))\<rparr>) s)"
  from Cons.prems consider "leaderVotes env ls updated s = Inr (w, s')"
    | v where "leaderVotes env ls True (?vote v) = Inr (w, s')"
    by (auto simp: Let_def bindE_Inr_iff split: option.splits)
  then show ?case
  proof cases
    case 2
    with Cons.IH sameFields_trans [of s "?vote v" s'] show ?thesis by simp
  qed (rule Cons.IH)
qed simp

locale nomination_keeps =
  fixes env :: scp_env and pe :: process_self and keep :: "slot_state \<Rightarrow> slot_state \<Rightarrow> bool"
  assumes keep_same: "sameFields s s' \<Longrightarrow> keep s s'"
    and keep_trans: "keep a b \<Longrightarrow> keep b c \<Longrightarrow> keep a c"
    and keep_bump: "bumpState env (slotProcessSelf n env) v force s = Inr (w, s') \<Longrightarrow> keep s s'"
    and keep_pe: "pe e s = Inr (r, s') \<Longrightarrow> keep s s'"
begin

lemma keep_after: "sameFields s t \<Longrightarrow> keep t s' \<Longrightarrow> keep s s'"
  using keep_trans keep_same by blast

lemma emitNomination_keep:
  assumes "emitNomination env pe s = Inr s'"
  shows "keep s s'"
proof -
  from assms obtain r s1 n x where "pe x s = Inr (r, s1)" and
    "s' = s1 \<or> s' = setNomination n s1 \<or> s' = callDriver (EmitEnvelope x) (setNomination n s1)"
    unfolding emitNomination_def Let_def by (auto simp: bindE_Inr_iff split: if_splits)
  then have "keep s s1" "sameFields s1 s'" using keep_pe by auto
  then show ?thesis using keep_trans keep_same by blast
qed

lemma updateComposite_keep:
  assumes "updateComposite bf env s = Inr s'"
  shows "keep s s'"
proof -
  from assms obtain n c v w where
    "bumpState env (slotProcessSelf bf env) v False (callDriver c (setNomination n s)) = Inr (w, s')"
    unfolding updateComposite_def Let_def by (auto simp: res_iffs)
  then show ?thesis using keep_bump keep_after [of s "callDriver c (setNomination n s)"] by simp
qed

lemma keep_steps:
  assumes "sameFields s s1" "s2 = s1 \<or> emitNomination env pe s1 = Inr s2"
    "s3 = s2 \<or> updateComposite bf env s2 = Inr s3"
  shows "keep s s3"
proof -
  have "keep s s1" "keep s1 s2" "keep s2 s3"
    using assms emitNomination_keep updateComposite_keep keep_same sameFields_simps(1) by blast+
  then show ?thesis using keep_trans by blast
qed

lemma processNomination_keep:
  assumes "processNomination bf env pe e s = Inr (r, s')"
  shows "keep s s'"
proof -
  from assms have "s' = s \<or> isSaneNomination (pledges (statement e)) \<and> (s' = recordNomination e s \<or>
     (\<exists>n st m w s4 s5. voteForLeader env st m (setNomination n (recordNomination e s)) = Inr (w, s4) \<and>
        (s5 = s4 \<or> emitNomination env pe s4 = Inr s5) \<and> (s' = s5 \<or> updateComposite bf env s5 = Inr s')))"
    unfolding processNomination_def Let_def by (fastforce simp: bindE_Inr_iff split: if_splits prod.splits)
  then consider "sameFields s s'"
    | n st m w s4 s5 where "isSaneNomination (pledges (statement e))"
        "voteForLeader env st m (setNomination n (recordNomination e s)) = Inr (w, s4)"
        "s5 = s4 \<or> emitNomination env pe s4 = Inr s5" "s' = s5 \<or> updateComposite bf env s5 = Inr s'"
    using sameFields_simps(1) sameFields_recordNomination(1) by metis
  then show ?thesis
  proof cases
    case 2
    from keep_steps [OF sameFields_trans [OF sameFields_recordNomination(2) [OF 2(1)] voteForLeader_same [OF 2(2)]] 2(3,4)]
    show ?thesis .
  qed (rule keep_same)
qed

lemma slotProcessNomination_keep:
  assumes "slotProcessNomination bf env pe e s = Inr (r, s')"
  shows "keep s s'"
proof -
  from assms obtain t where t: "processNomination bf env pe e s = Inr (r, t)"
    and s': "s' = t \<or> s' = maybeSetGotVBlocking env t"
    unfolding slotProcessNomination_def Let_def by (auto simp: bindE_Inr_iff split: if_splits)
  from s' have "sameFields t s'" by auto
  with processNomination_keep [OF t] show ?thesis using keep_trans keep_same by blast
qed

lemma nominate_keep:
  assumes "nominate fuel env pe v prev timedout s = Inr (w, s')"
  shows "keep s s'"
proof -
  let ?set = "\<lambda>n. callDriver (SetupNominationTimer (computeTimeout (of_int (mRoundNumber n))))"
  from nominate_outcome [OF assms] consider "s' = s" | n own s1 u s2 where "ownVote env v n s = (own, s1)"
      "leaderVotes env (mRoundLeaders n) own s1 = Inr (u, s2)"
      "s' = ?set n s2 \<or> emitNomination env pe (?set n s2) = Inr s'"
    by metis
  then show ?thesis
  proof cases
    case 2
    have "sameFields s s2" using sameFields_trans [OF ownVote_same [OF 2(1)] leaderVotes_same [OF 2(2)]] .
    then have "sameFields s (?set n s2)" using sameFields_trans [of s s2 "?set n s2"] by simp
    with 2(3) keep_same keep_after emitNomination_keep show ?thesis by blast
  qed (simp add: keep_same)
qed

end

definition syncStep :: "scp_env \<Rightarrow> slot_state \<Rightarrow> slot_state \<Rightarrow> bool" where
  "syncStep env s s' \<longleftrightarrow> (inSync env s \<longrightarrow> inSync env s')"

lemma syncStep_same: "sameFields s s' \<Longrightarrow> syncStep env s s'"
  unfolding syncStep_def sameFields_def using inSync_cong [of s' s env] by simp

lemma syncStep_trans: "syncStep env a b \<Longrightarrow> syncStep env b c \<Longrightarrow> syncStep env a c"
  by (simp add: syncStep_def)

lemma syncStep_bump: "bumpState env (slotProcessSelf n env) v force s = Inr (w, s') \<Longrightarrow> syncStep env s s'"
  unfolding syncStep_def by (auto dest: selfs.bumpState_sync)

lemma nominateSelf_sync: "nominateSelf n bf env e s = Inr (r, s') \<Longrightarrow> syncStep env s s'"
proof (induction n arbitrary: e s r s')
  case (Suc n)
  have "nomination_keeps env (nominateSelf n bf env) (syncStep env)"
    by unfold_locales (fact syncStep_same syncStep_trans syncStep_bump Suc.IH)+
  from nomination_keeps.slotProcessNomination_keep [OF this] Suc.prems show ?case by simp
qed simp

lemma nominateSelf_moves: "nominateSelf n bf env e s = Inr (r, s') \<Longrightarrow> ballotMoves env s s'"
proof (induction n arbitrary: e s r s')
  case (Suc n)
  have "nomination_keeps env (nominateSelf n bf env) (ballotMoves env)"
    by unfold_locales (fact sameFields_moves rtranclp_trans selfm.bumpState_moves Suc.IH)+
  from nomination_keeps.slotProcessNomination_keep [OF this] Suc.prems show ?case by simp
qed simp

interpretation noms: nomination_keeps env "nominateSelf n bf env" "syncStep env" for env n bf
  by unfold_locales (fact syncStep_same syncStep_trans syncStep_bump nominateSelf_sync)+

interpretation nomm: nomination_keeps env "nominateSelf n bf env" "ballotMoves env" for env n bf
  by unfold_locales (fact sameFields_moves rtranclp_trans selfm.bumpState_moves nominateSelf_moves)+

section \<open>Invariants of the reachable states\<close>

lemma slotProcessEnvelope_cases:
  assumes "slotProcessEnvelope fuel env e self s = Inr (r, s')"
  obtains "slotProcessNomination fuel env (nominateSelf fuel fuel env) e s = Inr (r, s')"
    | "slotProcessBallot fuel env (slotProcessSelf fuel env) e self s = Inr (r, s')"
  using assms unfolding slotProcessEnvelope_def by (auto split: SCPPledges.splits)

lemma slotCall_sync: "slotCall env s s' \<Longrightarrow> syncStep env s s'"
proof (induction rule: slotCall.induct)
  case (receive e fuel r s')
  from receive(2) show ?case
    using noms.slotProcessNomination_keep selfs.slotProcessBallot_sync(1) [OF _ receive(1)]
    by (cases rule: slotProcessEnvelope_cases) (auto simp: syncStep_def)
next
  case (nominate fuel v prev timedout w s')
  then show ?case unfolding slotNominate_def by (rule noms.nominate_keep)
next
  case (timer fuel s')
  then show ?case
    unfolding ballotProtocolTimerExpired_def syncStep_def by (auto simp: bindE_Inr_iff dest: selfs.abandonBallot_sync)
next
  case (abandon fuel w s')
  then show ?case unfolding slotAbandonBallot_def syncStep_def by (auto dest: selfs.abandonBallot_sync)
qed (simp add: syncStep_same)

lemma slotReach_sync: "slotReach env s \<Longrightarrow> inSync env s"
  unfolding slotReach_def
proof (induction rule: rtranclp_induct)
  case base
  show ?case by (simp add: inSync_def Slot_def ballotFields_def)
qed (use slotCall_sync syncStep_def in blast)

lemma slotCall_moves: "slotCall env s s' \<Longrightarrow> ballotMoves env s s'"
proof (induction rule: slotCall.induct)
  case (receive e fuel r s')
  from receive(2) show ?case
    using nomm.slotProcessNomination_keep selfm.slotProcessBallot_moves receive(1)
    by (cases rule: slotProcessEnvelope_cases) (auto simp: ownEnvelope_def)
next
  case (nominate fuel v prev timedout w s')
  then show ?case unfolding slotNominate_def by (rule nomm.nominate_keep)
next
  case (timer fuel s')
  then show ?case
    unfolding ballotProtocolTimerExpired_def by (auto simp: bindE_Inr_iff dest: selfm.abandonBallot_moves)
next
  case (abandon fuel w s')
  then show ?case unfolding slotAbandonBallot_def by (rule selfm.abandonBallot_moves)
qed (simp add: sameFields_moves)

lemma slotCalls_moves: "slotCalls env s s' \<Longrightarrow> ballotMoves env s s'"
  by (induction rule: rtranclp_induct) (auto intro: rtranclp_trans slotCall_moves)

lemma slotReach_moves: "slotReach env s \<Longrightarrow> ballotMoves env (Slot env) s"
  unfolding slotReach_def by (rule slotCalls_moves)

lemma slotReach_values: "slotReach env s \<Longrightarrow> valuesOk s"
  using ballotMoves_values [OF slotReach_moves, of env s] by (simp add: valueStep_def valuesOk_def Slot_def)

lemma slotReach_prepared: "slotReach env s \<Longrightarrow> preparedOk s"
  using ballotMoves_view [OF slotReach_moves, of env s] by (simp add: valuesOk_def preparedOk_def Slot_def)

end
