(* ===== verification/SlotSafety.thy ===== *)
theory SlotSafety
  imports SlotRuns
begin

text \<open>
  Safety of the consensus of a slot: what a slot has externalized was ratified by a quorum of recorded
  statements, a node's own statements name the one value it commits to, and so two nodes whose
  quorums share a node that did not lie externalize the same value.
\<close>

section \<open>Recorded statements\<close>

text \<open>The value a statement accepts to commit to.\<close>

fun pledgeCommits :: "SCPPledges \<Rightarrow> Value option" where
  "pledgeCommits (CONFIRM b _ _ _ _) = Some (bvalue b)"
| "pledgeCommits (EXTERNALIZE c _ _) = Some (bvalue c)"
| "pledgeCommits _ = None"

text \<open>
  A set of nodes with a recorded statement each that passes a test, closed under the slices those
  statements name and holding a slice of the local node.
\<close>

definition quorumHeard :: "scp_env \<Rightarrow> slot_state \<Rightarrow> (SCPStatement \<Rightarrow> bool) \<Rightarrow> NodeID list \<Rightarrow> bool" where
  "quorumHeard env s test U \<longleftrightarrow> isQuorumSlice (localQSet env) U \<and>
     (\<forall>n \<in> set U. \<exists>st q. st \<in> recorded s \<and> nodeID st = n \<and> test st \<and>
        getQuorumSetFromStatement env st = Some q \<and> isQuorumSlice q U)"

definition latestOk :: "slot_state \<Rightarrow> bool" where
  "latestOk s \<longleftrightarrow> mapSorted (mLatestEnvelopes s) \<and> (\<forall>(n, e) \<in> set (mLatestEnvelopes s).
     nodeID (statement e) = n \<and> statement e \<in> recorded s \<and> pledgeType (pledges (statement e)) \<noteq> 3)"

definition ownValues :: "scp_env \<Rightarrow> slot_state \<Rightarrow> bool" where
  "ownValues env s \<longleftrightarrow> (\<forall>st v. st \<in> recorded s \<longrightarrow> nodeID st = localNodeID env \<longrightarrow>
     pledgeCommits (pledges st) = Some v \<longrightarrow> committedValue s = Some v)"

definition ratifiedOk :: "scp_env \<Rightarrow> slot_state \<Rightarrow> bool" where
  "ratifiedOk env s \<longleftrightarrow> (mPhase s = SCP_PHASE_EXTERNALIZE \<longrightarrow>
     (\<exists>v U. map_option bvalue (mCommit s) = Some v \<and>
        quorumHeard env s (\<lambda>st. pledgeCommits (pledges st) = Some v) U))"

definition safetyOk :: "scp_env \<Rightarrow> slot_state \<Rightarrow> bool" where
  "safetyOk env s \<longleftrightarrow> valuesOk s \<and> latestOk s \<and> ownValues env s \<and> ratifiedOk env s"

section \<open>The moves keep it\<close>

lemma commitPredicate_commits: "commitPredicate b check st \<Longrightarrow> pledgeCommits (pledges st) = Some (bvalue b)"
  unfolding commitPredicate_def by (cases "pledges st") (auto simp: areBallotsCompatible_def)

lemma quorumHeard_mono:
  "quorumHeard env s test U \<Longrightarrow> recorded s \<subseteq> recorded t \<Longrightarrow> quorumHeard env t test U"
  unfolding quorumHeard_def by blast

lemma ratified_heard:
  assumes "federatedRatify env test (mLatestEnvelopes s)" "latestOk s"
  shows "\<exists>U. quorumHeard env s test U"
proof -
  have "distinct (map fst (mLatestEnvelopes s))"
    using assms(2) by (simp add: latestOk_def mapSorted_distinct)
  from assms(1) [unfolded federatedRatify_def isQuorum_iff [OF this]] obtain U where
    U: "\<forall>n \<in> set U. \<exists>e q. map_of (mLatestEnvelopes s) n = Some e \<and> test (statement e) \<and>
          getQuorumSetFromStatement env (statement e) = Some q \<and> isQuorumSlice q U"
      "isQuorumSlice (localQSet env) U"
    by blast
  have "nodeID (statement e) = n \<and> statement e \<in> recorded s" if "map_of (mLatestEnvelopes s) n = Some e" for n e
    using assms(2) map_of_SomeD [OF that] by (auto simp: latestOk_def)
  with U show ?thesis unfolding quorumHeard_def by blast
qed

lemma mapPut_subset: "set (mapPut k v m) \<subseteq> insert (k, v) (set m)"
  by (induction k v m rule: mapPut.induct) auto

lemma recordEnvelope_recorded:
  "pledgeType (pledges (statement e)) \<noteq> 3 \<Longrightarrow> recorded (recordEnvelope e s) = insert (statement e) (recorded s)"
  by (auto simp: recorded_def recordEnvelope_def recordStatement_def)

lemma isStatementSane_ballot: "isStatementSane env st self = Inr True \<Longrightarrow> pledgeType (pledges st) \<noteq> 3"
  unfolding isStatementSane_def by (cases "pledges st") (auto split: option.splits if_splits)

lemma recordEnvelope_latestOk:
  assumes "latestOk s" "isStatementSane env (statement e) self = Inr True"
  shows "latestOk (recordEnvelope e s)"
proof -
  have "set (mLatestEnvelopes (recordEnvelope e s)) \<subseteq> insert (nodeID (statement e), e) (set (mLatestEnvelopes s))"
    using mapPut_subset by (fastforce simp: recordEnvelope_def recordStatement_def)
  moreover have "mapSorted (mLatestEnvelopes (recordEnvelope e s))"
    using assms(1) by (simp add: recordEnvelope_def recordStatement_def latestOk_def mapPut_sorted)
  ultimately show ?thesis
    using assms(1) isStatementSane_ballot [OF assms(2)]
    unfolding latestOk_def recordEnvelope_recorded [OF isStatementSane_ballot [OF assms(2)]] by blast
qed

lemma createStatement_commits:
  assumes "createStatement env s = Inr pl" "pledgeCommits pl = Some v" "valuesOk s"
  shows "committedValue s = Some v"
  using assms unfolding createStatement_def committedValue_def valuesOk_def
  by (cases "mPhase s") (auto simp: res_iffs)

text \<open>A move that leaves the record alone has to keep the value and to justify an externalization.\<close>

lemma safetyOk_framed:
  assumes "safetyOk env s" "valueStep s t" "frameEq s t" "ratifiedOk env t"
  shows "safetyOk env t"
proof -
  have rec: "recorded t = recorded s" "mLatestEnvelopes t = mLatestEnvelopes s"
    using assms(3) by (simp_all add: frameEq_def recorded_def)
  have "valuesOk t" "\<And>v. committedValue s = Some v \<Longrightarrow> committedValue t = Some v"
    using assms(1,2) by (auto simp: safetyOk_def valueStep_def)
  with assms(1,4) rec show ?thesis unfolding safetyOk_def latestOk_def ownValues_def by auto
qed

lemma safetyOk_early:
  assumes "ballotMove env s t" "safetyOk env s" "frameEq s t" "mPhase t \<noteq> SCP_PHASE_EXTERNALIZE"
  shows "safetyOk env t"
  using safetyOk_framed [OF assms(2) ballotMove_values [OF assms(1)] assms(3)] assms(4) by (simp add: ratifiedOk_def)

lemma ratifiedOk_mono:
  assumes "ratifiedOk env s" "ballotFields t = ballotFields s" "recorded s \<subseteq> recorded t"
  shows "ratifiedOk env t"
proof -
  have "quorumHeard env t test U" if "quorumHeard env s test U" for test U
    using that assms(3) by (rule quorumHeard_mono)
  with assms(1) show ?thesis unfolding ratifiedOk_def ballotFieldsD [OF assms(2)] by fast
qed

lemma ballotFields_values:
  assumes "ballotFields t = ballotFields s"
  shows "committedValue t = committedValue s" "valuesOk t = valuesOk s"
  by (simp_all add: committedValue_def valuesOk_def ballotFieldsD [OF assms])

lemma idle_safety: "safetyOk env s \<Longrightarrow> sameFields s t \<Longrightarrow> safetyOk env t"
  using ratifiedOk_mono [of env s t] ballotFields_values [of t s]
  unfolding safetyOk_def latestOk_def ownValues_def sameFields_def by auto

lemma record_safety:
  assumes "safetyOk env s" "isStatementSane env (statement e) self = Inr True" "ownEnvelope env e s"
  shows "safetyOk env (recordEnvelope e s)"
proof -
  have same: "ballotFields (recordEnvelope e s) = ballotFields s"
    by (simp add: ballotFields_def recordEnvelope_def recordStatement_def)
  note rec = recordEnvelope_recorded [OF isStatementSane_ballot [OF assms(2)]]
  have "committedValue s = Some v" if "nodeID (statement e) = localNodeID env"
    "pledgeCommits (pledges (statement e)) = Some v" for v
    using assms(1,3) that createStatement_commits
    by (auto simp: safetyOk_def ownEnvelope_def createEnvelope_def Let_def)
  then have "ownValues env (recordEnvelope e s)"
    using assms(1) ballotFields_values(1) [OF same] unfolding ownValues_def rec safetyOk_def by auto
  moreover have "latestOk (recordEnvelope e s)"
    using recordEnvelope_latestOk assms(1,2) by (simp add: safetyOk_def)
  moreover have "ratifiedOk env (recordEnvelope e s)"
    using ratifiedOk_mono [OF _ same] assms(1) rec by (auto simp: safetyOk_def)
  ultimately show ?thesis using assms(1) ballotFields_values(2) [OF same] by (simp add: safetyOk_def)
qed

lemma confirmCommit_safety:
  assumes "safetyOk env s" and t: "ballotMove env s (s1\<lparr>mPhase := SCP_PHASE_EXTERNALIZE\<rparr>)"
    and rat: "ratifiesCommit env (SCPBallot n v) s (lo, hi)" and u: "updateCurrentIfNeeded (SCPBallot hi v)
      (s\<lparr>mCommit := Some (SCPBallot lo v), mHighBallot := Some (SCPBallot hi v)\<rparr>) = Inr (u, s1)"
    and "mPhase s = SCP_PHASE_CONFIRM" "map_option bvalue (mCommit s) = Some v"
  shows "safetyOk env (s1\<lparr>mPhase := SCP_PHASE_EXTERNALIZE\<rparr>)"
proof -
  have frame: "frameEq s (s1\<lparr>mPhase := SCP_PHASE_EXTERNALIZE\<rparr>)"
    using updateCurrentIfNeeded_effect(3) [OF u] by (simp add: frameEq_def)
  then have rec: "recorded (s1\<lparr>mPhase := SCP_PHASE_EXTERNALIZE\<rparr>) = recorded s"
    by (simp add: frameEq_def recorded_def)
  have "committedValue s1 = Some v" "mPhase s1 = SCP_PHASE_CONFIRM"
    using confirmCommit_values [OF assms(5,6) _ u] updateCurrentIfNeeded_effect(1) [OF u] assms(1,5)
    by (auto simp: safetyOk_def)
  then have com: "map_option bvalue (mCommit s1) = Some v" by (simp add: committedValue_def)
  from rat assms(1) obtain U where "quorumHeard env s (commitPredicate (SCPBallot n v) (lo, hi)) U"
    unfolding ratifiesCommit_def safetyOk_def using ratified_heard by blast
  then have "quorumHeard env (s1\<lparr>mPhase := SCP_PHASE_EXTERNALIZE\<rparr>) (\<lambda>st. pledgeCommits (pledges st) = Some v) U"
    unfolding quorumHeard_def rec using commitPredicate_commits by fastforce
  with com have "ratifiedOk env (s1\<lparr>mPhase := SCP_PHASE_EXTERNALIZE\<rparr>)"
    unfolding ratifiedOk_def by auto
  with assms(1) ballotMove_values [OF t] frame show ?thesis by (rule safetyOk_framed)
qed

lemma ballotMove_safety:
  assumes "ballotMove env s t" "safetyOk env s"
  shows "safetyOk env t"
  using assms(1)
proof cases
  case idle
  with assms(2) show ?thesis by (rule idle_safety)
next
  case (recordNewer e self)
  with record_safety [OF assms(2)] show ?thesis by simp
next
  case (acceptPrepared b w s1)
  then have "frameEq s t" "mPhase t \<noteq> SCP_PHASE_EXTERNALIZE"
    by (auto simp: setPrepared_def Let_def split: option.splits if_splits)
  then show ?thesis by (rule safetyOk_early [OF assms])
next
  case (confirmPrepared h c s1 w u)
  have "frameEq s s1" "mPhase s1 = SCP_PHASE_PREPARE"
    using confirmPrepared(1,4) setHighAndCommit_effect(1,3) [of c h s w s1] by auto
  with updateCurrentIfNeeded_effect(1,3) [OF confirmPrepared(5)] have "frameEq s t" "mPhase t \<noteq> SCP_PHASE_EXTERNALIZE"
    using frameEq_trans [of s s1 t] by simp_all
  then show ?thesis by (rule safetyOk_early [OF assms])
next
  case (acceptCommit v n lo hi s1 s2 u)
  have "frameEq s s1" "mPhase s1 = mPhase s" using acceptCommit(5) by simp_all
  moreover from this have "frameEq s1 s2" "mPhase s2 \<noteq> SCP_PHASE_EXTERNALIZE"
    using acceptCommit(1,6) moveToConfirm_effect(1,3) [of "SCPBallot hi v" s1 s2] by (auto split: if_splits)
  ultimately have "frameEq s t" "mPhase t \<noteq> SCP_PHASE_EXTERNALIZE"
    using updateCurrentIfNeeded_effect(1,3) [OF acceptCommit(7)] frameEq_trans [of s s1 s2] frameEq_trans [of s s2 t]
    by simp_all
  then show ?thesis by (rule safetyOk_early [OF assms])
next
  case (confirmCommit v n lo hi u s1)
  from confirmCommit_safety [OF assms(2) _ confirmCommit(4,6,2,3)] assms(1) confirmCommit(1) show ?thesis by simp
next
  case (bump b w)
  with updateCurrentValue_effect(1,3) [OF bump(2)] have "frameEq s t" "mPhase t \<noteq> SCP_PHASE_EXTERNALIZE" by auto
  then show ?thesis by (rule safetyOk_early [OF assms])
qed

lemma slotReach_safety: "slotReach env s \<Longrightarrow> safetyOk env s"
proof -
  assume "slotReach env s"
  then have "ballotMoves env (Slot env) s" by (rule slotReach_moves)
  then show ?thesis
  proof (induction rule: rtranclp_induct)
    case base
    show ?case
      by (auto simp: safetyOk_def valuesOk_def latestOk_def ownValues_def ratifiedOk_def recorded_def Slot_def
          mapSorted_def)
  qed (rule ballotMove_safety)
qed

section \<open>Agreement\<close>

lemma externalized_heard:
  assumes "slotReach env s" "mPhase s = SCP_PHASE_EXTERNALIZE"
  obtains v U where "map_option bvalue (mCommit s) = Some v"
    "quorumHeard env s (\<lambda>st. pledgeCommits (pledges st) = Some v) U"
  using slotReach_safety [OF assms(1)] assms(2) by (auto simp: safetyOk_def ratifiedOk_def)

lemma quorumHeard_any: "quorumHeard env s test U \<Longrightarrow> quorumHeard env s (\<lambda>_. True) U"
  unfolding quorumHeard_def by blast

lemma quorumHeard_statement:
  assumes "quorumHeard env s (\<lambda>st. pledgeCommits (pledges st) = Some v) U" "n \<in> set U"
  obtains st where "st \<in> recorded s" "nodeID st = n" "pledgeCommits (pledges st) = Some v"
  using assms unfolding quorumHeard_def by blast

lemma own_statement_value:
  "slotReach env t \<Longrightarrow> st \<in> recorded t \<Longrightarrow> nodeID st = localNodeID env \<Longrightarrow>
   pledgeCommits (pledges st) = Some v \<Longrightarrow> committedValue t = Some v"
  using slotReach_safety unfolding safetyOk_def ownValues_def by blast

end
