(* ===== verification/SlotExamples.thy ===== *)
theory SlotExamples
  imports SlotSafety
begin

text \<open>
  A network of two nodes that need each other, with a driver that accepts every value, and the slots of
  its nodes after they heard one message of the other. The properties are applied to it.
\<close>

definition demoQSet :: SCPQuorumSet where
  "demoQSet = SCPQuorumSet 2 [0, 1] []"

definition demoEnv :: "NodeID \<Rightarrow> scp_env" where
  "demoEnv n =
     \<lparr>localNodeID = n, localQSet = demoQSet, localQSetHash = 7, localIsValidator = True, envSlotIndex = 5,
      driverGetQSet = (\<lambda>h. if h = 7 then Some demoQSet else None),
      driverValidateValue = (\<lambda>_ _. kFullyValidatedValue), driverSign = (\<lambda>_. []),
      driverExtractValidValue = (\<lambda>v. Some v),
      driverCombineCandidates = (\<lambda>vs. case vs of [] \<Rightarrow> None | v # _ \<Rightarrow> Some v),
      driverComputeHashNode = (\<lambda>_ _ isPriority _ node. if isPriority then of_nat node + 1 else 0),
      driverComputeValueHash = (\<lambda>_ _ _ _. 0)\<rparr>"

definition demoEnvelope :: "NodeID \<Rightarrow> SCPPledges \<Rightarrow> SCPEnvelope" where
  "demoEnvelope n pl = \<lparr>statement = \<lparr>nodeID = n, slotIndex = 5, pledges = pl\<rparr>, signature = []\<rparr>"

text \<open>Node 0 hears that node 1 externalized the value 9, and node 1 hears the answer of node 0.\<close>

definition demoMessage :: "NodeID \<Rightarrow> SCPEnvelope" where
  "demoMessage n =
     (if n = 0 then demoEnvelope 1 (EXTERNALIZE (SCPBallot 1 [9]) 1 7)
      else demoEnvelope 0 (EXTERNALIZE (SCPBallot 1 [9]) UINT32_MAX 7))"

definition demoState :: "NodeID \<Rightarrow> slot_state" where
  "demoState n =
     (case slotProcessEnvelope 60 (demoEnv n) (demoMessage n) False (Slot (demoEnv n)) of
        Inl _ \<Rightarrow> Slot (demoEnv n)
      | Inr (_, s) \<Rightarrow> s)"

lemma demo_returns:
  "\<not> isl (slotProcessEnvelope 60 (demoEnv 0) (demoMessage 0) False (Slot (demoEnv 0)))"
  "\<not> isl (slotProcessEnvelope 60 (demoEnv 1) (demoMessage 1) False (Slot (demoEnv 1)))"
  by code_simp+

lemma demo_phase: "mPhase (demoState 0) = SCP_PHASE_EXTERNALIZE" "mPhase (demoState 1) = SCP_PHASE_EXTERNALIZE"
  by code_simp+

lemma demo_calls:
  "slotCall (demoEnv 0) (Slot (demoEnv 0)) (demoState 0)" "slotCall (demoEnv 1) (Slot (demoEnv 1)) (demoState 1)"
proof -
  have "slotCall (demoEnv n) (Slot (demoEnv n)) (demoState n)"
    if r: "\<not> isl (slotProcessEnvelope 60 (demoEnv n) (demoMessage n) False (Slot (demoEnv n)))"
      and n: "nodeID (statement (demoMessage n)) \<noteq> n" for n
  proof -
    obtain r s where rs: "slotProcessEnvelope 60 (demoEnv n) (demoMessage n) False (Slot (demoEnv n)) = Inr (r, s)"
      using r by (cases "slotProcessEnvelope 60 (demoEnv n) (demoMessage n) False (Slot (demoEnv n))") auto
    moreover have "localNodeID (demoEnv n) = n" by (simp add: demoEnv_def)
    ultimately have "slotCall (demoEnv n) (Slot (demoEnv n)) s"
      using n by (intro slotCall.receive [of "demoMessage n"]) auto
    with rs show ?thesis by (simp add: demoState_def)
  qed
  moreover have "nodeID (statement (demoMessage 0)) \<noteq> 0" "nodeID (statement (demoMessage 1)) \<noteq> 1"
    by code_simp+
  ultimately show "slotCall (demoEnv 0) (Slot (demoEnv 0)) (demoState 0)"
    "slotCall (demoEnv 1) (Slot (demoEnv 1)) (demoState 1)"
    using demo_returns by blast+
qed

lemma demo_reach: "slotReach (demoEnv 0) (demoState 0)" "slotReach (demoEnv 1) (demoState 1)"
  unfolding slotReach_def using demo_calls by blast+

lemma demo_slices: "quorumHeard (demoEnv n) s test U \<Longrightarrow> 0 \<in> set U"
  by (rule ccontr) (auto simp: quorumHeard_def demoEnv_def demoQSet_def isQuorumSlice_iff need_def split: if_splits)

lemma demo_recorded: "st \<in> recorded (demoState 1) \<Longrightarrow> nodeID st = 0 \<Longrightarrow> st \<in> recorded (demoState 0)"
proof -
  have "list_all (\<lambda>(st, _). nodeID st = 0 \<longrightarrow> st \<in> fst ` set (mStatementsHistory (demoState 0)))
    (mStatementsHistory (demoState 1))"
    by code_simp
  then show "st \<in> recorded (demoState 1) \<Longrightarrow> nodeID st = 0 \<Longrightarrow> st \<in> recorded (demoState 0)"
    by (auto simp: recorded_def list_all_iff)
qed

text \<open>Node 0 has recorded that node 1 is at counter 4 and has not started a ballot itself.\<close>

definition demoAhead :: slot_state where
  "demoAhead = recordEnvelope (demoEnvelope 1 (PREPARE 7 (SCPBallot 4 [9]) None None 0 0)) (Slot (demoEnv 0))"

lemma demo_sane: "isQuorumSetSane demoQSet False = (True, None)"
  by code_simp

end
