(* ===== verification/SCPProperties.thy ===== *)
theory SCPProperties
  imports SlotExamples BallotFuel
begin

text \<open>
  The properties of a slot: agreement, finality, the quorum behind an externalized value, the
  invariants of its state, progress, termination, restoring, and the two defects of the code.
\<close>

section \<open>Safety of the consensus\<close>

text \<open>
  C1. Two nodes that externalized a slot externalized the same value, provided that any two sets of
  nodes that are quorums for what the two nodes heard share a node that is honest. A node is honest if
  it runs this protocol and the statements the two recorded as its statements are ones it made.
\<close>

theorem externalized_values_agree:
  assumes "slotReach env1 s1" "slotReach env2 s2"
    and "mPhase s1 = SCP_PHASE_EXTERNALIZE" "mPhase s2 = SCP_PHASE_EXTERNALIZE"
    and intersect: "\<And>U1 U2. quorumHeard env1 s1 (\<lambda>_. True) U1 \<Longrightarrow> quorumHeard env2 s2 (\<lambda>_. True) U2 \<Longrightarrow>
      \<exists>n \<in> set U1 \<inter> set U2. honest n"
    and honest: "\<And>n. honest n \<Longrightarrow> \<exists>env t. localNodeID env = n \<and> slotReach env t \<and>
      (\<forall>st \<in> recorded s1 \<union> recorded s2. nodeID st = n \<longrightarrow> st \<in> recorded t)"
  shows "\<exists>v. map_option bvalue (mCommit s1) = Some v \<and> map_option bvalue (mCommit s2) = Some v"
proof -
  obtain v1 U1 where 1: "map_option bvalue (mCommit s1) = Some v1"
    "quorumHeard env1 s1 (\<lambda>st. pledgeCommits (pledges st) = Some v1) U1"
    by (rule externalized_heard [OF assms(1,3)])
  obtain v2 U2 where 2: "map_option bvalue (mCommit s2) = Some v2"
    "quorumHeard env2 s2 (\<lambda>st. pledgeCommits (pledges st) = Some v2) U2"
    by (rule externalized_heard [OF assms(2,4)])
  obtain n where n: "n \<in> set U1" "n \<in> set U2" "honest n"
    using intersect [OF quorumHeard_any [OF 1(2)] quorumHeard_any [OF 2(2)]] by blast
  obtain env t where t: "localNodeID env = n" "slotReach env t"
    "\<forall>st \<in> recorded s1 \<union> recorded s2. nodeID st = n \<longrightarrow> st \<in> recorded t"
    using honest [OF n(3)] by blast
  obtain st1 where st1: "st1 \<in> recorded s1" "nodeID st1 = n" "pledgeCommits (pledges st1) = Some v1"
    by (rule quorumHeard_statement [OF 1(2) n(1)])
  obtain st2 where st2: "st2 \<in> recorded s2" "nodeID st2 = n" "pledgeCommits (pledges st2) = Some v2"
    by (rule quorumHeard_statement [OF 2(2) n(2)])
  have "committedValue t = Some v1" "committedValue t = Some v2"
    using own_statement_value [OF t(2)] t(1,3) st1 st2 by auto
  with 1(1) 2(1) show ?thesis by (intro exI [of _ v1]) simp
qed

theorem externalized_values_agree_witness:
  "\<exists>v. map_option bvalue (mCommit (demoState 0)) = Some v \<and> map_option bvalue (mCommit (demoState 1)) = Some v"
proof (rule externalized_values_agree [OF demo_reach demo_phase, where honest = "\<lambda>n. n = 0"])
  show "\<exists>n \<in> set U1 \<inter> set U2. n = 0" if "quorumHeard (demoEnv 0) (demoState 0) (\<lambda>_. True) U1"
    "quorumHeard (demoEnv 1) (demoState 1) (\<lambda>_. True) U2" for U1 U2
    using demo_slices [OF that(1)] demo_slices [OF that(2)] by blast
  show "\<exists>env t. localNodeID env = n \<and> slotReach env t \<and>
      (\<forall>st \<in> recorded (demoState 0) \<union> recorded (demoState 1). nodeID st = n \<longrightarrow> st \<in> recorded t)" if "n = 0" for n
    using that demo_reach(1) demo_recorded by (intro exI [of _ "demoEnv 0"] exI [of _ "demoState 0"])
      (auto simp: demoEnv_def)
qed

text \<open>
  C3. A slot that is externalized has recorded, for some set of nodes that contains a slice of the local
  node and of each of its members, a statement of each member that commits to the externalized value.
\<close>

theorem externalized_by_quorum:
  assumes "slotReach env s" "mPhase s = SCP_PHASE_EXTERNALIZE"
  shows "\<exists>v U. map_option bvalue (mCommit s) = Some v \<and> isQuorumSlice (localQSet env) U \<and>
    (\<forall>n \<in> set U. \<exists>st q. st \<in> recorded s \<and> nodeID st = n \<and> pledgeCommits (pledges st) = Some v \<and>
       getQuorumSetFromStatement env st = Some q \<and> isQuorumSlice q U)"
  using externalized_heard [OF assms] unfolding quorumHeard_def by metis

theorem externalized_by_quorum_witness:
  "\<exists>v U. map_option bvalue (mCommit (demoState 0)) = Some v \<and> isQuorumSlice (localQSet (demoEnv 0)) U \<and>
    (\<forall>n \<in> set U. \<exists>st q. st \<in> recorded (demoState 0) \<and> nodeID st = n \<and> pledgeCommits (pledges st) = Some v \<and>
       getQuorumSetFromStatement (demoEnv 0) st = Some q \<and> isQuorumSlice q U)"
  using externalized_by_quorum [OF demo_reach(1) demo_phase(1)] .

text \<open>
  C2. The value a slot has accepted to commit to is final: no further call changes it, and once the slot
  is externalized its ballots and its phase do not change either.
\<close>

theorem committed_value_final:
  assumes "slotReach env s" "slotCalls env s s'"
  shows "(\<forall>v. committedValue s = Some v \<longrightarrow> committedValue s' = Some v) \<and>
    (mPhase s = SCP_PHASE_EXTERNALIZE \<longrightarrow> mPhase s' = SCP_PHASE_EXTERNALIZE \<and> sameBallots s s')"
  using ballotMoves_values [OF slotCalls_moves [OF assms(2)]] slotReach_values [OF assms(1)]
    slotCalls_step [OF assms(2)] slotStep_externalized slotStepD(4)
  by (auto simp: valueStep_def)

theorem committed_value_final_witness:
  "committedValue (slotStopNomination (demoState 0)) = Some [9] \<and>
   mPhase (slotStopNomination (demoState 0)) = SCP_PHASE_EXTERNALIZE"
proof -
  have "slotCalls (demoEnv 0) (demoState 0) (slotStopNomination (demoState 0))"
    by (rule r_into_rtranclp) (rule slotCall.stop)
  moreover have "committedValue (demoState 0) = Some [9]" by code_simp
  ultimately show ?thesis
    using committed_value_final [OF demo_reach(1), of "slotStopNomination (demoState 0)"] demo_phase(1) by simp
qed

text \<open>
  C4. The driver is told of an externalized value exactly once, when the slot reaches its last phase, and
  the value is the one the slot committed to.
\<close>

theorem externalizes_once:
  assumes "slotReach env s"
  shows "length (filter isValueExternalized (driverCalls s)) = (if mPhase s = SCP_PHASE_EXTERNALIZE then 1 else 0) \<and>
    (\<forall>v. ValueExternalized v \<in> set (driverCalls s) \<longrightarrow> map_option bvalue (mCommit s) = Some v)"
  using slotStepD(10,14) [OF slotCalls_step [OF assms [unfolded slotReach_def]]]
  by (auto simp: externalizedOk_def externalizedCalls_def isExternalized_def Slot_def)

theorem externalizes_once_witness:
  "length (filter isValueExternalized (driverCalls (demoState 0))) = 1"
  using externalizes_once [OF demo_reach(1)] demo_phase(1) by simp

section \<open>The state of a slot\<close>

text \<open>
  C5. Between calls the invariants that \<^verbatim>\<open>checkInvariants\<close> asserts hold, no processing is pending, the
  maps are ordered and hold ballot statements of the node they are filed under, what is accepted in the
  nomination is voted for and what is a candidate is accepted, and the latest statement of the node itself
  is the one \<^verbatim>\<open>createStatement\<close> builds from the state.
\<close>

theorem slot_invariants:
  assumes "slotReach env s"
  shows "checkInvariants s = Inr () \<and> mCurrentMessageLevel s = 0 \<and> mapSorted (mLatestEnvelopes s) \<and>
    (\<forall>(n, e) \<in> set (mLatestEnvelopes s). nodeID (statement e) = n \<and> pledgeType (pledges (statement e)) \<noteq> 3) \<and>
    nominationOk (mNomination s) \<and>
    (\<forall>e. map_of (mLatestEnvelopes s) (localNodeID env) = Some e \<longrightarrow>
       (\<exists>pl. createStatement env s = Inr pl \<and> e = createEnvelope env pl))"
proof -
  note sync = slotReach_sync [OF assms]
  have "\<exists>pl. createStatement env s = Inr pl \<and> e = createEnvelope env pl"
    if "map_of (mLatestEnvelopes s) (localNodeID env) = Some e" for e
    using sync that by (cases "createStatement env s") (auto simp: inSync_def)
  moreover have "nominationOk (mNomination (Slot env))" "mCurrentMessageLevel (Slot env) = 0"
    by (simp_all add: Slot_def NominationProtocol_def nominationOk_def mapSorted_def)
  then have "nominationOk (mNomination s)" "mCurrentMessageLevel s = 0"
    using slotStepD(5,11) [OF slotCalls_step [OF assms [unfolded slotReach_def]]]
    by (auto simp: nominationStep_def)
  moreover have "latestOk s" using slotReach_safety [OF assms] by (simp add: safetyOk_def)
  ultimately show ?thesis using inSync_invariants [OF sync] unfolding latestOk_def by blast
qed

theorem slot_invariants_witness:
  "checkInvariants (demoState 0) = Inr () \<and> mCurrentMessageLevel (demoState 0) = 0"
  using slot_invariants [OF demo_reach(1)] by blast

text \<open>
  C8. What of a slot never goes back over a call: the phase; the highest ballot accepted as prepared; within
  a phase the current ballot; within the first phase the second prepared ballot; recorded statements are
  only replaced by newer ones; no vote, accepted value or candidate of the nomination is withdrawn; the
  statement history and the calls of the driver are only appended to. The current ballot may drop when the
  second phase is entered, and the confirmed ballot and the one to commit may be given up in the first.
\<close>

theorem slot_progress:
  assumes "slotReach env s" "slotCall env s s'"
  shows "phaseRank (mPhase s) \<le> phaseRank (mPhase s') \<and>
    mPrepared s \<le> mPrepared s' \<and>
    (mPhase s = mPhase s' \<longrightarrow> mCurrentBallot s \<le> mCurrentBallot s') \<and>
    (mPhase s' = SCP_PHASE_PREPARE \<longrightarrow> mPreparedPrime s \<le> mPreparedPrime s') \<and>
    (\<forall>n e. map_of (mLatestEnvelopes s) n = Some e \<longrightarrow>
       (\<exists>e'. map_of (mLatestEnvelopes s') n = Some e' \<and>
             (e' = e \<or> isNewerStatement (statement e) (statement e')))) \<and>
    set (mVotes (mNomination s)) \<subseteq> set (mVotes (mNomination s')) \<and>
    set (mAccepted (mNomination s)) \<subseteq> set (mAccepted (mNomination s')) \<and>
    set (mCandidates (mNomination s)) \<subseteq> set (mCandidates (mNomination s')) \<and>
    prefix (mStatementsHistory s) (mStatementsHistory s') \<and> prefix (driverCalls s) (driverCalls s')"
  using slotStepD [OF slotCall_step [OF assms(2)]]
    ballotMoves_view [OF slotCall_moves [OF assms(2)] slotReach_values [OF assms(1)] slotReach_prepared [OF assms(1)]]
  unfolding latestLe_def newerOrSame_def nominationStep_def isNewerStatement_def by auto

theorem slot_progress_witness:
  "phaseRank (mPhase (Slot (demoEnv 0))) \<le> phaseRank (mPhase (demoState 0)) \<and>
   mPrepared (Slot (demoEnv 0)) \<le> mPrepared (demoState 0)"
proof -
  have "slotReach (demoEnv 0) (Slot (demoEnv 0))" by (simp add: slotReach_def)
  from slot_progress [OF this demo_calls(1)] show ?thesis by blast
qed

text \<open>
  C7. A call of a slot is a run of the protocol as it is specified apart from the code: the phase and the
  ballots change only by the rules of \<open>protocolStep\<close>, each on the federated vote over the statements heard
  that the rule asks for. The one change that needs no vote, a bump, raises the current ballot and never
  leaves a value that is to be committed. The calls are all but the restoring of a slot at the start.
\<close>

theorem slot_refines_protocol:
  assumes "slotReach env s" "slotCall env s s'"
  shows "(protocolStep env)\<^sup>*\<^sup>* (ballotView s) (ballotView s')"
  using ballotMoves_view [OF slotCall_moves [OF assms(2)] slotReach_values [OF assms(1)] slotReach_prepared [OF assms(1)]]
  by blast

theorem slot_refines_protocol_witness:
  "(protocolStep (demoEnv 0))\<^sup>*\<^sup>* (ballotView (Slot (demoEnv 0))) (ballotView (demoState 0))"
proof -
  have "slotReach (demoEnv 0) (Slot (demoEnv 0))" by (simp add: slotReach_def)
  from slot_refines_protocol [OF this demo_calls(1)] show ?thesis .
qed

text \<open>
  C6. Processing a ballot statement ends: with \<open>3 * 2 ^ 32 + 52\<close> units of fuel the recursion through the
  node's own statements and the loop of bumps are never cut off, and more fuel gives the same result, so
  the bound of the model is not seen.
\<close>

theorem processing_terminates:
  assumes "mCurrentMessageLevel s = 0" "3 * 2 ^ 32 + 52 \<le> fuel"
  shows "slotProcessBallot fuel env (slotProcessSelf fuel env) e self s \<noteq> Inl OutOfFuel \<and>
    (\<forall>more \<ge> fuel. slotProcessBallot more env (slotProcessSelf more env) e self s =
       slotProcessBallot fuel env (slotProcessSelf fuel env) e self s)"
proof -
  have "bounded_processor (slotProcessSelf fuel env) 1"
    using assms(2) by unfold_locales (rule slotProcessSelf_fuel; simp)
  then have "noFuel (slotProcessBallot fuel env (slotProcessSelf fuel env) e self s)"
    using assms by (intro slotProcessBallot_fuel bounded_processor.advanceSlot_fuel) auto
  moreover have "processor_le (slotProcessSelf fuel env) (slotProcessSelf more env)" if "fuel \<le> more" for more
    using that by unfold_locales (rule slotProcessSelf_le)
  ultimately show ?thesis
    using processor_le.slotProcessBallot_le fuelLe_noFuel by (metis noFuel_def)
qed

theorem processing_terminates_witness:
  "slotProcessBallot (3 * 2 ^ 32 + 52) (demoEnv 0) (slotProcessSelf (3 * 2 ^ 32 + 52) (demoEnv 0)) (demoMessage 0) False
     (Slot (demoEnv 0)) \<noteq> Inl OutOfFuel"
proof -
  have "mCurrentMessageLevel (Slot (demoEnv 0)) = 0" by (simp add: Slot_def)
  from processing_terminates [OF this order_refl] show ?thesis by blast
qed

section \<open>The rules of the ballot protocol\<close>

text \<open>
  C30. The order by which statements of a node supersede each other is a strict order: no statement
  supersedes itself, and it is transitive; the type of the statement never goes back.
\<close>

theorem isNewerStatement_strict_order:
  "\<not> isNewerStatement st st \<and>
   (isNewerStatement st1 st2 \<longrightarrow> isNewerStatement st2 st3 \<longrightarrow> isNewerStatement st1 st3) \<and>
   (isNewerStatement st1 st2 \<longrightarrow> pledgeType (pledges st1) \<le> pledgeType (pledges st2))"
  unfolding isNewerStatement_def
  using isNewerPledges_irrefl isNewerPledges_trans isNewerPledges_type by blast

theorem isNewerStatement_strict_order_witness:
  "isNewerStatement (statement (demoEnvelope 1 (PREPARE 7 (SCPBallot 1 [9]) None None 0 0)))
     (statement (demoEnvelope 1 (EXTERNALIZE (SCPBallot 1 [9]) 1 7)))"
proof -
  let ?st = "\<lambda>pl. statement (demoEnvelope 1 pl)"
  let ?p = "PREPARE 7 (SCPBallot 1 [9]) None None 0 0" and ?c = "CONFIRM (SCPBallot 1 [9]) 1 1 1 7"
  have "isNewerStatement (?st ?p) (?st ?c)" "isNewerStatement (?st ?c) (?st (EXTERNALIZE (SCPBallot 1 [9]) 1 7))"
    by code_simp+
  with isNewerStatement_strict_order [of "?st ?p" "?st ?p" "?st ?c" "?st (EXTERNALIZE (SCPBallot 1 [9]) 1 7)"]
  show ?thesis by blast
qed

text \<open>
  C29. The ballots a slot remembers as accepted prepared: the first is always the greatest of the accepted
  ballots, and the second, after a ballot that the first did not cover, is the greatest of those that are
  incompatible with the first. A ballot that the first covers (compatible with it and not higher) leaves
  the second as it is, unless there is none: then the code stores the covered ballot itself.
\<close>

theorem setPrepared_two_highest:
  assumes "preparedOk s"
  shows "mPrepared (snd (setPrepared ballot s)) = maxOpt (insert ballot (preparedBallots s)) \<and>
    mPreparedPrime (snd (setPrepared ballot s)) =
      (if \<exists>p. mPrepared s = Some p \<and> areBallotsLessAndCompatible ballot p
       then if mPreparedPrime s = None \<and> mPrepared s \<noteq> Some ballot then Some ballot else mPreparedPrime s
       else highestIncompatible (insert ballot (preparedBallots s)))"
proof (cases "\<exists>p. mPrepared s = Some p \<and> areBallotsLessAndCompatible ballot p")
  case True
  then show ?thesis using setPrepared_covered [OF assms, of _ ballot] by auto
next
  case False
  then show ?thesis using setPrepared_highest [OF assms, of ballot "fst (setPrepared ballot s)"] by auto
qed

theorem setPrepared_two_highest_witness:
  "mPreparedPrime (snd (setPrepared (SCPBallot 2 [8]) (demoState 0))) =
     highestIncompatible (insert (SCPBallot 2 [8]) (preparedBallots (demoState 0)))"
proof -
  have "preparedOk (demoState 0)" "mPrepared (demoState 0) = Some (SCPBallot UINT32_MAX [9])" by code_simp+
  moreover have "\<not> areBallotsLessAndCompatible (SCPBallot 2 [8]) (SCPBallot UINT32_MAX [9])" by code_simp
  ultimately show ?thesis using setPrepared_two_highest [of "demoState 0" "SCPBallot 2 [8]"] by simp
qed

text \<open>
  C28. The interval to commit that the scan of the boundaries finds has as its upper end the highest
  boundary above 0 that satisfies the predicate, and extends down as far as it holds at every boundary; it
  is (0, 0), for none, exactly if the predicate holds at no boundary above 0. Where 0 is a boundary, as a
  statement with commit counter 0 makes it, the interval may extend down to 0; the callers take it for none.
\<close>

theorem findExtendedInterval_correct:
  "let r = findExtendedInterval (0, 0) (rev (stdSet bs)) pred
   in if \<exists>b \<in> set bs. b \<noteq> 0 \<and> pred (b, b) then extendedInterval (set bs) pred (fst r) (snd r) else r = (0, 0)"
proof (cases "\<exists>b \<in> set bs. b \<noteq> 0 \<and> pred (b, b)")
  case True
  then obtain lo hi where "findExtendedInterval (0, 0) (rev (stdSet bs)) pred = (lo, hi)" "extendedInterval (set bs) pred lo hi"
    using findExtendedInterval_some [OF rev_stdSet_sorted, of bs pred] by auto
  with True show ?thesis by simp
next
  case False
  then have "findExtendedInterval (0, 0) (rev (stdSet bs)) pred = (0, 0)" by (intro findExtendedInterval_none) auto
  with False show ?thesis by (simp only: Let_def if_False)
qed

theorem findExtendedInterval_correct_witness:
  "extendedInterval {1, 3, 7} (\<lambda>(lo, hi). 2 \<le> lo \<and> hi \<le> 5)
     (fst (findExtendedInterval (0, 0) (rev (stdSet [7, 1, 3])) (\<lambda>(lo, hi). 2 \<le> lo \<and> hi \<le> 5)))
     (snd (findExtendedInterval (0, 0) (rev (stdSet [7, 1, 3])) (\<lambda>(lo, hi). 2 \<le> lo \<and> hi \<le> 5)))"
proof -
  have "\<exists>b \<in> set [7, 1, 3 :: uint32]. b \<noteq> 0 \<and> (\<lambda>(lo, hi). 2 \<le> lo \<and> hi \<le> 5) (b, b)" by code_simp
  with findExtendedInterval_correct [of "[7, 1, 3]" "\<lambda>(lo, hi). 2 \<le> lo \<and> hi \<le> 5"]
  show ?thesis by (simp add: Let_def insert_commute)
qed

text \<open>
  C27. When a blocking set of nodes is ahead of the local counter, the slot moves to the lowest counter
  that no blocking set is ahead of (step 9 of the protocol).
\<close>

theorem attemptBump_lowest:
  assumes "isQuorumSetSane (localQSet env) extra = (True, None)" "mPhase s \<noteq> SCP_PHASE_EXTERNALIZE"
    and "hasVBlockingSubsetStrictlyAheadOf env (mLatestEnvelopes s)
           (case mCurrentBallot s of None \<Rightarrow> 0 | Some b \<Rightarrow> counter b)"
  shows "\<exists>n. attemptBump env pe s = abandonBallot env pe n s \<and>
    (\<forall>k. hasVBlockingSubsetStrictlyAheadOf env (mLatestEnvelopes s) k \<longleftrightarrow> k < n)"
  using bump_counter [OF isQuorumSetSane_wf [OF assms(1)] assms(3)] assms(2,3)
  unfolding attemptBump_def Let_def by (cases "mPhase s") auto

theorem attemptBump_lowest_witness:
  "\<exists>n. attemptBump (demoEnv 0) (slotProcessSelf 60 (demoEnv 0)) demoAhead =
       abandonBallot (demoEnv 0) (slotProcessSelf 60 (demoEnv 0)) n demoAhead"
proof -
  have "mPhase demoAhead \<noteq> SCP_PHASE_EXTERNALIZE" "hasVBlockingSubsetStrictlyAheadOf (demoEnv 0)
      (mLatestEnvelopes demoAhead) (case mCurrentBallot demoAhead of None \<Rightarrow> 0 | Some b \<Rightarrow> counter b)"
    "isQuorumSetSane (localQSet (demoEnv 0)) False = (True, None)"
    by code_simp+
  from attemptBump_lowest [OF this(3,1,2)] show ?thesis by blast
qed

section \<open>Restoring a slot\<close>

text \<open>
  C9. The state a slot is restored to from the latest statement it made is one it would describe by the
  same statement, in the same phase: nothing a node has told others is lost over a restart.
\<close>

theorem restore_roundtrip:
  assumes "slotReach env s" "map_of (mLatestEnvelopes s) (localNodeID env) = Some e" "mCurrentBallot s \<noteq> None"
  shows "\<exists>s'. setStateFromEnvelope e (Slot env) = Inr s' \<and> createStatement env s' = createStatement env s \<and>
    mPhase s' = mPhase s"
proof -
  obtain pl where pl: "createStatement env s = Inr pl" "e = createEnvelope env pl"
    using slotReach_sync [OF assms(1)] assms(2) by (cases "createStatement env s") (auto simp: inSync_def)
  obtain b where b: "mCurrentBallot s = Some b" using assms(3) by blast
  show ?thesis
    using restore_prepare [OF pl(1) _ b] restore_confirm [OF pl(1)] restore_externalize [OF pl(1) _ b] pl
    by (cases "mPhase s") auto
qed

theorem restore_roundtrip_witness:
  "\<exists>s'. setStateFromEnvelope (demoMessage 1) (Slot (demoEnv 0)) = Inr s' \<and>
     createStatement (demoEnv 0) s' = createStatement (demoEnv 0) (demoState 0) \<and> mPhase s' = mPhase (demoState 0)"
proof -
  have "map_of (mLatestEnvelopes (demoState 0)) (localNodeID (demoEnv 0)) = Some (demoMessage 1)"
    "mCurrentBallot (demoState 0) \<noteq> None"
    by code_simp+
  from restore_roundtrip [OF demo_reach(1) this] show ?thesis .
qed

section \<open>Nomination\<close>

text \<open>
  C31. For nominations with ascending lists, as the sanity check demands, a nomination supersedes another
  exactly if it keeps all its votes and accepted values and has more of one of them.
\<close>

theorem isNewerNomination_grows:
  assumes "isSaneNomination old" "isSaneNomination new"
  shows "isNewerNomination old new \<longleftrightarrow>
    set (nomVotes old) \<subseteq> set (nomVotes new) \<and> set (nomAccepted old) \<subseteq> set (nomAccepted new) \<and>
    (set (nomVotes old) \<noteq> set (nomVotes new) \<or> set (nomAccepted old) \<noteq> set (nomAccepted new))"
  using assms unfolding isSaneNomination_def by (intro isNewerNomination_iff) (simp_all add: strictlyAscending_iff)

theorem isNewerNomination_grows_witness:
  "isNewerNomination (NOMINATE 7 [[1]] []) (NOMINATE 7 [[1], [2]] [])"
proof -
  have "isSaneNomination (NOMINATE 7 [[1]] [])" "isSaneNomination (NOMINATE 7 [[1], [2]] [])" by code_simp+
  from isNewerNomination_grows [OF this] show ?thesis by auto
qed

lemma considerLeader_weightless:
  assumes "node \<noteq> localNodeID env" "getNodeWeight node q = Some 0"
  shows "considerLeader env n q node acc = Inr acc"
  using assms by (simp add: considerLeader_def getNodePriority_def Let_def)

lemma newRoundLeaders_alone:
  assumes "\<And>node. node \<in> set (qnodes q) \<Longrightarrow> node \<noteq> localNodeID env \<and> getNodeWeight node q = Some 0"
    and "mPreviousValue n \<noteq> []"
  shows "newRoundLeaders env n q = Inr [localNodeID env]"
proof -
  have "\<exists>p. getNodePriority env n (localNodeID env) q = Inr p"
    using assms(2) by (auto simp: getNodePriority_def hashNode_def)
  then obtain p where p: "getNodePriority env n (localNodeID env) q = Inr p" by blast
  have "fold (\<lambda>cur acc. bindE acc (considerLeader env n q cur)) ns (Inr a) = Inr a"
    if "set ns \<subseteq> set (qnodes q)" for ns a
    using that assms(1) by (induction ns) (auto simp: considerLeader_weightless)
  then show ?thesis by (simp add: newRoundLeaders_def p forAllNodes_fold)
qed

lemma leadersLoop_stuck:
  assumes "\<And>node. node \<in> set (qnodes q) \<Longrightarrow> node \<noteq> localNodeID env \<and> getNodeWeight node q = Some 0" "qnodes q \<noteq> []"
    and "mRoundLeaders n = [localNodeID env]" "mPreviousValue n \<noteq> []"
  shows "leadersLoop fuel env q (Suc (length (qnodes q))) n = Inl OutOfFuel"
  using assms(3,4)
proof (induction fuel arbitrary: n)
  case (Suc fuel)
  with newRoundLeaders_alone [OF assms(1)] assms(2) show ?case by (simp add: Let_def stdInsert_def)
qed simp

lemma leaderCount: "snd (forAllNodes (\<lambda>k _. (True, k + 1)) q 1) = Suc (length (qnodes q))"
proof -
  have "fold (\<lambda>_ k. k + 1) ns (j :: nat) = j + length ns" for ns :: "NodeID list" and j
    by (induction ns arbitrary: j) auto
  then show ?thesis by (simp add: forAllNodes_fold)
qed

text \<open>
  C37. With a quorum set that names other nodes and gives all of them weight zero once the node itself is
  taken out, as one that asks for one of two nodes, and a previous value that is not empty, the first search for round leaders makes the node its
  only leader, and no search after that returns: in every round it finds the node again and adds no leader.
\<close>

theorem updateRoundLeaders_diverges:
  assumes "q = normalizeQSet (localQSet env) (Some (localNodeID env))" "qnodes q \<noteq> []"
    and "\<And>node. node \<in> set (qnodes q) \<Longrightarrow> node \<noteq> localNodeID env \<and> getNodeWeight node q = Some 0"
    and "mRoundLeaders n = []" "mPreviousValue n \<noteq> []"
  shows "updateRoundLeaders (Suc fuel) env n = Inr (n\<lparr>mRoundLeaders := [localNodeID env]\<rparr>) \<and>
    updateRoundLeaders fuel' env (n\<lparr>mRoundLeaders := [localNodeID env], mRoundNumber := r\<rparr>) = Inl OutOfFuel"
proof
  show "updateRoundLeaders (Suc fuel) env n = Inr (n\<lparr>mRoundLeaders := [localNodeID env]\<rparr>)"
    using newRoundLeaders_alone [OF assms(3,5)] assms(4)
    unfolding updateRoundLeaders_def Let_def assms(1) [symmetric] leaderCount by (simp add: Let_def stdInsert_def)
  show "updateRoundLeaders fuel' env (n\<lparr>mRoundLeaders := [localNodeID env], mRoundNumber := r\<rparr>) = Inl OutOfFuel"
    using leadersLoop_stuck [OF assms(3,2)] assms(5)
    unfolding updateRoundLeaders_def Let_def assms(1) [symmetric] leaderCount by simp
qed

theorem updateRoundLeaders_diverges_witness:
  "updateRoundLeaders 1 (demoEnv 0\<lparr>localQSet := SCPQuorumSet 1 [0, 1] []\<rparr>) (NominationProtocol\<lparr>mPreviousValue := [1]\<rparr>)
     = Inr (NominationProtocol\<lparr>mPreviousValue := [1], mRoundLeaders := [0]\<rparr>) \<and>
   updateRoundLeaders 1000 (demoEnv 0\<lparr>localQSet := SCPQuorumSet 1 [0, 1] []\<rparr>)
     (NominationProtocol\<lparr>mPreviousValue := [1], mRoundLeaders := [0], mRoundNumber := 1\<rparr>) = Inl OutOfFuel"
proof -
  let ?env = "demoEnv 0\<lparr>localQSet := SCPQuorumSet 1 [0, 1] []\<rparr>"
  let ?q = "normalizeQSet (localQSet ?env) (Some (localNodeID ?env))"
  have q: "?q = SCPQuorumSet 0 [1] []" and w: "getNodeWeight 1 (SCPQuorumSet 0 [1] []) = Some 0" by code_simp+
  have "node \<noteq> localNodeID ?env \<and> getNodeWeight node ?q = Some 0" if "node \<in> set (qnodes ?q)" for node
    using that w unfolding q by (simp add: demoEnv_def)
  moreover have "qnodes ?q \<noteq> []" unfolding q by simp
  moreover have "localNodeID ?env = 0" by (simp add: demoEnv_def)
  ultimately show ?thesis
    using updateRoundLeaders_diverges [OF refl, of ?env "NominationProtocol\<lparr>mPreviousValue := [1]\<rparr>" 0 1000 1]
    by (simp add: NominationProtocol_def)
qed

section \<open>A statement that aborts the node\<close>

definition faultyEnv :: scp_env where
  "faultyEnv = (demoEnv 0)\<lparr>localQSet := SCPQuorumSet 4 [0, 1, 2, 3, 4] [],
     driverGetQSet := (\<lambda>_. Some (SCPQuorumSet 4 [0, 1, 2, 3, 4] []))\<rparr>"

definition faultyMessage :: "NodeID \<Rightarrow> uint32 \<Rightarrow> SCPEnvelope" where
  "faultyMessage n c = demoEnvelope n (PREPARE 7 (SCPBallot 1 [1]) (Some (SCPBallot c [1])) None 0 0)"

definition faultyStep :: "SCPEnvelope \<Rightarrow> slot_state \<Rightarrow> slot_state" where
  "faultyStep e s = (case slotProcessEnvelope 60 faultyEnv e False s of Inl _ \<Rightarrow> s | Inr (_, s') \<Rightarrow> s')"

lemma faultyStep_reach:
  assumes "slotReach faultyEnv s" "nodeID (statement e) \<noteq> 0"
  shows "slotReach faultyEnv (faultyStep e s)"
proof (cases "slotProcessEnvelope 60 faultyEnv e False s")
  case (Inl x)
  with assms(1) show ?thesis by (simp add: faultyStep_def)
next
  case (Inr p)
  moreover obtain r s' where "p = (r, s')" by fastforce
  moreover have "localNodeID faultyEnv = 0" by (simp add: faultyEnv_def demoEnv_def)
  ultimately have "slotCall faultyEnv s s'" "faultyStep e s = s'"
    using assms(2) slotCall.receive [of e faultyEnv 60 s r s'] by (auto simp: faultyStep_def)
  with assms(1) show ?thesis unfolding slotReach_def by simp
qed

text \<open>
  C36. A sane statement of another node can abort the process: \<^verbatim>\<open>isStatementSane\<close> lets pass a statement
  that prepared a ballot with counter 0, and a slot that hears it from one node, after two others accepted
  the same value with counter 1, fails an assertion.
\<close>

theorem sane_statement_aborts:
  "\<exists>s. slotReach faultyEnv s \<and> nodeID (statement (faultyMessage 4 0)) \<noteq> localNodeID faultyEnv \<and>
     isStatementSane faultyEnv (statement (faultyMessage 4 0)) False = Inr True \<and>
     slotProcessEnvelope 60 faultyEnv (faultyMessage 4 0) False s = Inl Abort"
proof -
  let ?s = "faultyStep (faultyMessage 2 1) (faultyStep (faultyMessage 1 1) (Slot faultyEnv))"
  have "slotReach faultyEnv ?s"
    by (intro faultyStep_reach) (simp_all add: slotReach_def faultyMessage_def demoEnvelope_def)
  moreover have "nodeID (statement (faultyMessage 4 0)) \<noteq> localNodeID faultyEnv"
    "isStatementSane faultyEnv (statement (faultyMessage 4 0)) False = Inr True"
    "slotProcessEnvelope 60 faultyEnv (faultyMessage 4 0) False ?s = Inl Abort"
    by code_simp+
  ultimately show ?thesis by blast
qed

end
