(* ===== verification/SCPNode.thy ===== *)
theory SCPNode
  imports SCPProperties
begin

text \<open>
  The node (\<^verbatim>\<open>scp/SCP.cpp\<close> and the state of \<^verbatim>\<open>scp/LocalNode.cpp\<close>): its slots by index, the calls the
  application makes, restoring a slot and changing the quorum set among them, and that none of them changes
  what a slot the node keeps has committed to.
\<close>

section \<open>State\<close>

record local_node =
  mNodeID :: NodeID
  mIsValidator :: bool
  mQSet :: SCPQuorumSet
  mQSetHash :: Hash

text \<open>
  The driver: the hash of a quorum set and, per slot, the answers a slot asks for. The fields of a
  slot's environment that belong to the local node are filled in by \<open>slotEnv\<close>.
\<close>

record scp_driver =
  driverHashOf :: "SCPQuorumSet \<Rightarrow> Hash"
  driverFor :: "uint64 \<Rightarrow> scp_env"

record scp_state =
  mDriver :: scp_driver
  mLocalNode :: local_node
  mKnownSlots :: "(uint64, slot_state) stdMap"

definition slotEnv :: "scp_state \<Rightarrow> uint64 \<Rightarrow> scp_env" where
  "slotEnv scp i = (driverFor (mDriver scp) i)
     \<lparr>localNodeID := mNodeID (mLocalNode scp), localQSet := mQSet (mLocalNode scp),
      localQSetHash := mQSetHash (mLocalNode scp), localIsValidator := mIsValidator (mLocalNode scp),
      envSlotIndex := i\<rparr>"

definition LocalNode :: "scp_driver \<Rightarrow> NodeID \<Rightarrow> bool \<Rightarrow> SCPQuorumSet \<Rightarrow> local_node" where
  "LocalNode driver n isValidator qSet =
     (let q = normalizeQSet qSet None
      in \<lparr>mNodeID = n, mIsValidator = isValidator, mQSet = q, mQSetHash = driverHashOf driver q\<rparr>)"

definition SCP :: "scp_driver \<Rightarrow> NodeID \<Rightarrow> bool \<Rightarrow> SCPQuorumSet \<Rightarrow> scp_state" where
  "SCP driver n isValidator qSetLocal =
     \<lparr>mDriver = driver, mLocalNode = LocalNode driver n isValidator qSetLocal, mKnownSlots = []\<rparr>"

definition updateQuorumSet :: "scp_driver \<Rightarrow> SCPQuorumSet \<Rightarrow> local_node \<Rightarrow> local_node" where
  "updateQuorumSet driver qSet ln = ln\<lparr>mQSetHash := driverHashOf driver qSet, mQSet := qSet\<rparr>"

section \<open>Operations\<close>

text \<open>
  \<open>getSlot\<close> finds a slot or, if asked to, creates it; \<open>putSlot\<close> is the effect on the map of a call that
  changed the slot it points to.
\<close>

definition getSlot :: "uint64 \<Rightarrow> scp_state \<Rightarrow> slot_state option" where
  "getSlot i scp = map_of (mKnownSlots scp) i"

definition getOrCreateSlot :: "uint64 \<Rightarrow> scp_state \<Rightarrow> slot_state" where
  "getOrCreateSlot i scp = (case getSlot i scp of None \<Rightarrow> Slot (slotEnv scp i) | Some s \<Rightarrow> s)"

definition putSlot :: "uint64 \<Rightarrow> slot_state \<Rightarrow> scp_state \<Rightarrow> scp_state" where
  "putSlot i s scp = scp\<lparr>mKnownSlots := mapPut i s (mKnownSlots scp)\<rparr>"

definition receiveEnvelope :: "nat \<Rightarrow> SCPEnvelope \<Rightarrow> scp_state \<Rightarrow> (EnvelopeState \<times> scp_state) res" where
  "receiveEnvelope fuel e scp =
     (let i = slotIndex (statement e)
      in bindE (slotProcessEnvelope fuel (slotEnv scp i) e False (getOrCreateSlot i scp)) (\<lambda>(r, s).
         Inr (r, putSlot i s scp)))"

definition scpNominate ::
    "nat \<Rightarrow> uint64 \<Rightarrow> Value \<Rightarrow> Value \<Rightarrow> scp_state \<Rightarrow> (bool \<times> scp_state) res" where
  "scpNominate fuel i v previousValue scp =
     bindE (dbgAssert (mIsValidator (mLocalNode scp))) (\<lambda>_.
     bindE (slotNominate fuel (slotEnv scp i) v previousValue False (getOrCreateSlot i scp)) (\<lambda>(w, s).
     Inr (w, putSlot i s scp)))"

text \<open>The timers a slot has set call back into it.\<close>

definition nominationTimer ::
    "nat \<Rightarrow> uint64 \<Rightarrow> Value \<Rightarrow> Value \<Rightarrow> scp_state \<Rightarrow> (bool \<times> scp_state) res" where
  "nominationTimer fuel i v previousValue scp =
     (case getSlot i scp of
        None \<Rightarrow> Inr (False, scp)
      | Some s \<Rightarrow>
          bindE (slotNominate fuel (slotEnv scp i) v previousValue True s) (\<lambda>(w, s').
          Inr (w, putSlot i s' scp)))"

definition ballotTimer :: "nat \<Rightarrow> uint64 \<Rightarrow> scp_state \<Rightarrow> scp_state res" where
  "ballotTimer fuel i scp =
     (case getSlot i scp of
        None \<Rightarrow> Inr scp
      | Some s \<Rightarrow>
          bindE (ballotProtocolTimerExpired fuel (slotEnv scp i) s) (\<lambda>s'. Inr (putSlot i s' scp)))"

definition stopNomination :: "uint64 \<Rightarrow> scp_state \<Rightarrow> scp_state" where
  "stopNomination i scp =
     (case getSlot i scp of None \<Rightarrow> scp | Some s \<Rightarrow> putSlot i (slotStopNomination s) scp)"

definition updateLocalQuorumSet :: "SCPQuorumSet \<Rightarrow> scp_state \<Rightarrow> scp_state" where
  "updateLocalQuorumSet qSet scp =
     scp\<lparr>mLocalNode := updateQuorumSet (mDriver scp) qSet (mLocalNode scp)\<rparr>"

text \<open>The loop erases from the front of the ordered map.\<close>

definition purgeSlots :: "uint64 \<Rightarrow> scp_state \<Rightarrow> scp_state" where
  "purgeSlots maxSlotIndex scp =
     scp\<lparr>mKnownSlots := dropWhile (\<lambda>(i, _). i < maxSlotIndex) (mKnownSlots scp)\<rparr>"

definition isSlotFullyValidated :: "uint64 \<Rightarrow> scp_state \<Rightarrow> bool" where
  "isSlotFullyValidated i scp = (case getSlot i scp of None \<Rightarrow> False | Some s \<Rightarrow> mFullyValidated s)"

definition gotVBlocking :: "uint64 \<Rightarrow> scp_state \<Rightarrow> bool" where
  "gotVBlocking i scp = (case getSlot i scp of None \<Rightarrow> False | Some s \<Rightarrow> mGotVBlocking s)"

definition getKnownSlotsCount :: "scp_state \<Rightarrow> nat" where
  "getKnownSlotsCount scp = length (mKnownSlots scp)"

definition getCumulativeStatemtCount :: "scp_state \<Rightarrow> nat" where
  "getCumulativeStatemtCount scp = sum_list (map (\<lambda>(_, s). length (mStatementsHistory s)) (mKnownSlots scp))"

definition scpLatestMessagesSend :: "uint64 \<Rightarrow> scp_state \<Rightarrow> SCPEnvelope list" where
  "scpLatestMessagesSend i scp = (case getSlot i scp of None \<Rightarrow> [] | Some s \<Rightarrow> getLatestMessagesSend s)"

definition scpSetStateFromEnvelope :: "uint64 \<Rightarrow> SCPEnvelope \<Rightarrow> scp_state \<Rightarrow> scp_state res" where
  "scpSetStateFromEnvelope i e scp =
     bindE (slotSetStateFromEnvelope (slotEnv scp i) e (getOrCreateSlot i scp)) (\<lambda>s. Inr (putSlot i s scp))"

definition scpEmpty :: "scp_state \<Rightarrow> bool" where
  "scpEmpty scp \<longleftrightarrow> mKnownSlots scp = []"

definition scpProcessCurrentState ::
    "uint64 \<Rightarrow> ('s \<Rightarrow> SCPEnvelope \<Rightarrow> bool \<times> 's) \<Rightarrow> bool \<Rightarrow> scp_state \<Rightarrow> 's \<Rightarrow> 's" where
  "scpProcessCurrentState i f forceSelf scp acc =
     (case getSlot i scp of
        None \<Rightarrow> acc
      | Some s \<Rightarrow> slotProcessCurrentState (slotEnv scp i) f forceSelf s acc)"

text \<open>A visit of slot indices that ends when the visitor returns false.\<close>

fun visitSlots :: "('s \<Rightarrow> uint64 \<Rightarrow> bool \<times> 's) \<Rightarrow> uint64 list \<Rightarrow> 's \<Rightarrow> 's" where
  "visitSlots f [] acc = acc"
| "visitSlots f (i # is) acc = (case f acc i of (True, acc') \<Rightarrow> visitSlots f is acc' | (False, acc') \<Rightarrow> acc')"

definition processSlotsAscendingFrom :: "uint64 \<Rightarrow> ('s \<Rightarrow> uint64 \<Rightarrow> bool \<times> 's) \<Rightarrow> scp_state \<Rightarrow> 's \<Rightarrow> 's" where
  "processSlotsAscendingFrom startingSlot f scp =
     visitSlots f (dropWhile (\<lambda>i. i < startingSlot) (map fst (mKnownSlots scp)))"

definition processSlotsDescendingFrom :: "uint64 \<Rightarrow> ('s \<Rightarrow> uint64 \<Rightarrow> bool \<times> 's) \<Rightarrow> scp_state \<Rightarrow> 's \<Rightarrow> 's" where
  "processSlotsDescendingFrom startingSlot f scp =
     visitSlots f (rev (takeWhile (\<lambda>i. i \<le> startingSlot) (map fst (mKnownSlots scp))))"

definition scpLatestMessage :: "NodeID \<Rightarrow> scp_state \<Rightarrow> SCPEnvelope option" where
  "scpLatestMessage n scp =
     (case find (\<lambda>(_, s). getLatestMessage n s \<noteq> None) (rev (mKnownSlots scp)) of
        None \<Rightarrow> None
      | Some (_, s) \<Rightarrow> getLatestMessage n s)"

definition scpExternalizingState :: "uint64 \<Rightarrow> scp_state \<Rightarrow> SCPEnvelope list res" where
  "scpExternalizingState i scp =
     (case getSlot i scp of None \<Rightarrow> Inr [] | Some s \<Rightarrow> getExternalizingState (slotEnv scp i) s)"

section \<open>The slots of a node\<close>

text \<open>
  The calls of a node. Statements of the node itself do not arrive from outside; a statement that a slot is
  restored from confirms a ballot if it commits to one, as every statement that a slot makes.
\<close>

definition restorable :: "SCPPledges \<Rightarrow> bool" where
  "restorable pl = (case pl of PREPARE _ _ _ _ nC nH \<Rightarrow> nC \<noteq> 0 \<longrightarrow> nH \<noteq> 0 | _ \<Rightarrow> True)"

inductive scpCall :: "scp_state \<Rightarrow> scp_state \<Rightarrow> bool" for scp where
  receive: "nodeID (statement e) \<noteq> mNodeID (mLocalNode scp) \<Longrightarrow>
     receiveEnvelope fuel e scp = Inr (r, scp') \<Longrightarrow> scpCall scp scp'"
| nominate: "scpNominate fuel i v prev scp = Inr (w, scp') \<Longrightarrow> scpCall scp scp'"
| nominationTimer: "nominationTimer fuel i v prev scp = Inr (w, scp') \<Longrightarrow> scpCall scp scp'"
| ballotTimer: "ballotTimer fuel i scp = Inr scp' \<Longrightarrow> scpCall scp scp'"
| stop: "scpCall scp (stopNomination i scp)"
| purge: "scpCall scp (purgeSlots i scp)"
| restore: "restorable (pledges (statement e)) \<Longrightarrow> scpSetStateFromEnvelope i e scp = Inr scp' \<Longrightarrow> scpCall scp scp'"
| quorumSet: "scpCall scp (updateLocalQuorumSet q scp)"

text \<open>What a call may do to a slot: a committed value stays, and all ballots of an externalized slot.\<close>

definition finalStep :: "slot_state \<Rightarrow> slot_state \<Rightarrow> bool" where
  "finalStep s s' \<longleftrightarrow> (valuesOk s \<longrightarrow> valuesOk s' \<and>
     (\<forall>v. committedValue s = Some v \<longrightarrow> committedValue s' = Some v \<and>
        (mPhase s = SCP_PHASE_EXTERNALIZE \<longrightarrow> mPhase s' = SCP_PHASE_EXTERNALIZE \<and> sameBallots s s')))"

lemma finalStep_refl [simp]: "finalStep s s"
  by (simp add: finalStep_def)

lemma slotCall_final: "slotCall env s s' \<Longrightarrow> finalStep s s'"
  using ballotMoves_values [OF slotCall_moves] slotCall_step slotStep_externalized slotStepD(4)
  unfolding finalStep_def valueStep_def by metis

text \<open>A slot with a committed value is past the start of its ballot protocol, and restoring it throws.\<close>

lemma valuesOk_started: "valuesOk s \<Longrightarrow> mCurrentBallot s = None \<Longrightarrow> mHighBallot s = None \<and> mCommit s = None"
  by (auto simp: valuesOk_def)

lemma finalStep_fresh:
  assumes "valuesOk s \<Longrightarrow> mCurrentBallot s = None" "valuesOk s \<Longrightarrow> valuesOk s'"
  shows "finalStep s s'"
  using assms valuesOk_started [of s] by (auto simp: finalStep_def committedValue_def)

lemma finalStep_same: "ballotFields s' = ballotFields s \<Longrightarrow> finalStep s s'"
  by (auto simp: finalStep_def ballotFields_def valuesOk_def committedValue_def sameBallots_def)

lemma setStateFromEnvelope_final:
  assumes "setStateFromEnvelope e s = Inr s'" "restorable (pledges (statement e))"
  shows "finalStep s s'"
proof (rule finalStep_fresh)
  show "mCurrentBallot s = None" using assms(1) by (auto simp: setStateFromEnvelope_def split: if_splits)
  then show "valuesOk s'" if "valuesOk s"
    using assms valuesOk_started [OF that]
    by (auto simp: setStateFromEnvelope_def Let_def bindE_Inr_iff bumpToBallot_def res_iffs valuesOk_def restorable_def
        recordEnvelope_def recordStatement_def callDriver_def split: SCPPledges.splits if_splits option.splits)
qed

lemma slotSetState_final:
  assumes "slotSetStateFromEnvelope env e s = Inr s'" "restorable (pledges (statement e))"
  shows "finalStep s s'"
proof -
  have vb: "finalStep s (maybeSetGotVBlocking env u)" if "finalStep s u" for u
    using that by (auto simp: finalStep_def maybeSetGotVBlocking_def valuesOk_def committedValue_def sameBallots_def)
  have "finalStep s u" if "setNominationFromEnvelope e s = Inr u" for u
    using that by (intro finalStep_same)
      (auto simp: setNominationFromEnvelope_def Let_def setNomination_def recordNomination_def recordStatement_def
        ballotFields_def split: if_splits)
  then show ?thesis
    using assms vb setStateFromEnvelope_final [OF _ assms(2)]
    by (auto simp: slotSetStateFromEnvelope_def Let_def bindE_Inr_iff split: if_splits SCPPledges.splits)
qed

lemma slotEnv_id [simp]: "localNodeID (slotEnv scp i) = mNodeID (mLocalNode scp)"
  by (simp add: slotEnv_def)

lemma putSlot_get [simp]: "getSlot j (putSlot i s scp) = (if i = j then Some s else getSlot j scp)"
  by (auto simp: putSlot_def getSlot_def mapPut_lookup)

lemma getOrCreateSlot_known: "getSlot i scp = Some s \<Longrightarrow> getOrCreateSlot i scp = s"
  by (simp add: getOrCreateSlot_def)

lemma map_of_dropWhile: "map_of (dropWhile P m) i = Some s \<Longrightarrow> distinct (map fst m) \<Longrightarrow> map_of m i = Some s"
  by (induction m) (auto split: if_splits dest: map_of_SomeD simp: rev_image_eqI)

text \<open>The slots are distinct, and what each of them holds is consistent.\<close>

definition scpOk :: "scp_state \<Rightarrow> bool" where
  "scpOk scp \<longleftrightarrow> mapSorted (mKnownSlots scp) \<and> (\<forall>i s. getSlot i scp = Some s \<longrightarrow> valuesOk s)"

definition slotsStep :: "scp_state \<Rightarrow> scp_state \<Rightarrow> bool" where
  "slotsStep scp scp' \<longleftrightarrow> (mapSorted (mKnownSlots scp) \<longrightarrow> mapSorted (mKnownSlots scp')) \<and>
     (mapSorted (mKnownSlots scp) \<longrightarrow>
       (\<forall>i s'. getSlot i scp' = Some s' \<longrightarrow> finalStep (getOrCreateSlot i scp) s'))"

lemma slotsStep_put:
  assumes "finalStep (getOrCreateSlot i scp) s"
  shows "slotsStep scp (putSlot i s scp)"
  using assms unfolding slotsStep_def putSlot_def
  by (auto simp: mapPut_sorted putSlot_get [unfolded putSlot_def] getOrCreateSlot_def)

lemma slotsStep_same:
  "mapSorted (mKnownSlots scp) \<longrightarrow> mapSorted (mKnownSlots scp') \<Longrightarrow>
   (\<And>i s. mapSorted (mKnownSlots scp) \<Longrightarrow> getSlot i scp' = Some s \<Longrightarrow> getSlot i scp = Some s) \<Longrightarrow> slotsStep scp scp'"
  by (auto simp: slotsStep_def getOrCreateSlot_known)

lemma mapSorted_dropWhile: "mapSorted m \<Longrightarrow> mapSorted (dropWhile P m)"
  by (induction m) (auto simp: mapSorted_def)

lemma scpCall_step: "scpCall scp scp' \<Longrightarrow> slotsStep scp scp'"
proof (induction rule: scpCall.induct)
  case (receive e fuel r scp')
  then show ?case
    by (auto simp: receiveEnvelope_def Let_def bindE_Inr_iff intro!: slotsStep_put slotCall_final slotCall.receive)
next
  case (nominate fuel i v prev w scp')
  then show ?case
    by (auto simp: scpNominate_def bindE_Inr_iff intro!: slotsStep_put slotCall_final slotCall.nominate)
next
  case (nominationTimer fuel i v prev w scp')
  then show ?case
    by (auto simp: nominationTimer_def bindE_Inr_iff getOrCreateSlot_known split: option.splits
        intro!: slotsStep_put slotsStep_same slotCall_final slotCall.nominate)
next
  case (ballotTimer fuel i scp')
  then show ?case
    by (auto simp: ballotTimer_def bindE_Inr_iff getOrCreateSlot_known split: option.splits
        intro!: slotsStep_put slotsStep_same slotCall_final slotCall.timer)
next
  case (stop i)
  show ?case
    by (auto simp: stopNomination_def getOrCreateSlot_known split: option.splits
        intro!: slotsStep_put slotsStep_same slotCall_final slotCall.stop)
next
  case (purge i)
  show ?case
    by (rule slotsStep_same)
      (auto simp: purgeSlots_def getSlot_def mapSorted_dropWhile dest: map_of_dropWhile mapSorted_distinct)
next
  case (restore e i scp')
  then show ?case
    by (auto simp: scpSetStateFromEnvelope_def bindE_Inr_iff intro!: slotsStep_put slotSetState_final)
next
  case (quorumSet q)
  show ?case by (rule slotsStep_same) (simp_all add: updateLocalQuorumSet_def getSlot_def)
qed

lemma scpCall_ok: "scpCall scp scp' \<Longrightarrow> scpOk scp \<Longrightarrow> scpOk scp'"
proof -
  assume "scpCall scp scp'" and ok: "scpOk scp"
  then have "slotsStep scp scp'" by (simp add: scpCall_step)
  moreover have "valuesOk (getOrCreateSlot i scp)" for i
    using ok by (auto simp: getOrCreateSlot_def scpOk_def valuesOk_def Slot_def split: option.splits)
  ultimately show ?thesis using ok by (auto simp: slotsStep_def scpOk_def finalStep_def)
qed

lemma SCP_ok: "scpOk (SCP driver n v q)"
  by (simp add: scpOk_def SCP_def getSlot_def mapSorted_def)

lemma scpCalls_ok: "scpCall\<^sup>*\<^sup>* scp scp' \<Longrightarrow> scpOk scp \<Longrightarrow> scpOk scp'"
  by (induction rule: rtranclp_induct) (auto dest: scpCall_ok)

section \<open>Properties\<close>

definition demoDriver :: scp_driver where
  "demoDriver = \<lparr>driverHashOf = (\<lambda>_. 7), driverFor = (\<lambda>_. demoEnv 0)\<rparr>"

definition demoNode :: scp_state where
  "demoNode =
     (case receiveEnvelope 60 (demoMessage 0) (SCP demoDriver 0 True demoQSet) of
        Inl _ \<Rightarrow> SCP demoDriver 0 True demoQSet
      | Inr (_, scp) \<Rightarrow> scp)"

lemma demoNode_received: "\<exists>r. receiveEnvelope 60 (demoMessage 0) (SCP demoDriver 0 True demoQSet) = Inr (r, demoNode)"
proof -
  have "\<not> isl (receiveEnvelope 60 (demoMessage 0) (SCP demoDriver 0 True demoQSet))" by code_simp
  then show ?thesis
    by (cases "receiveEnvelope 60 (demoMessage 0) (SCP demoDriver 0 True demoQSet)") (auto simp: demoNode_def)
qed

text \<open>The calls of a node that do not forget a slot.\<close>

definition keepsSlot :: "uint64 \<Rightarrow> scp_state \<Rightarrow> scp_state \<Rightarrow> bool" where
  "keepsSlot i scp scp' \<longleftrightarrow> scpCall scp scp' \<and> getSlot i scp' \<noteq> None"

text \<open>
  C10. Whatever a node does from its start, for all of its slots in any order and with slots restored and the
  quorum set changed in between, a slot that it does not purge keeps the value it has committed to, and
  once it is externalized all of its ballots.
\<close>

theorem scp_committed_final:
  assumes "scpCall\<^sup>*\<^sup>* (SCP driver n v q) scp" "(keepsSlot i)\<^sup>*\<^sup>* scp scp'"
    and "getSlot i scp = Some s" "committedValue s = Some x"
  shows "\<exists>s'. getSlot i scp' = Some s' \<and> committedValue s' = Some x \<and>
    (mPhase s = SCP_PHASE_EXTERNALIZE \<longrightarrow> mPhase s' = SCP_PHASE_EXTERNALIZE \<and> sameBallots s s')"
  using assms(2)
proof (induction rule: rtranclp_induct)
  case (step a b)
  then obtain s1 where s1: "getSlot i a = Some s1" "committedValue s1 = Some x"
    "mPhase s = SCP_PHASE_EXTERNALIZE \<longrightarrow> mPhase s1 = SCP_PHASE_EXTERNALIZE \<and> sameBallots s s1" by blast
  have "scpCall\<^sup>*\<^sup>* scp a" using step(1) by (rule rtranclp_mono [THEN predicate2D, rotated]) (auto simp: keepsSlot_def)
  then have ok: "scpOk a" using scpCalls_ok [OF rtranclp_trans [OF assms(1)] SCP_ok] by blast
  obtain s2 where s2: "getSlot i b = Some s2" and "scpCall a b" using step(2) by (auto simp: keepsSlot_def)
  then have "finalStep s1 s2" using scpCall_step ok s1(1) by (fastforce simp: slotsStep_def scpOk_def getOrCreateSlot_known)
  then show ?case using s1 s2 ok sameBallots_trans by (fastforce simp: finalStep_def scpOk_def)
qed (use assms(3,4) in simp)

theorem scp_committed_final_witness:
  "committedValue (the (getSlot 5 (updateLocalQuorumSet (SCPQuorumSet 1 [0] []) demoNode))) = Some [9]"
proof -
  let ?node = "updateLocalQuorumSet (SCPQuorumSet 1 [0] []) demoNode"
  obtain r where r: "receiveEnvelope 60 (demoMessage 0) (SCP demoDriver 0 True demoQSet) = Inr (r, demoNode)"
    using demoNode_received by blast
  have "nodeID (statement (demoMessage 0)) \<noteq> mNodeID (mLocalNode (SCP demoDriver 0 True demoQSet))" by code_simp
  then have c: "scpCall (SCP demoDriver 0 True demoQSet) demoNode" using r by (rule scpCall.receive)
  have "getSlot 5 ?node \<noteq> None" by code_simp
  then have k: "keepsSlot 5 demoNode ?node" by (simp add: keepsSlot_def scpCall.quorumSet)
  have "committedValue (the (getSlot 5 demoNode)) = Some [9]" "getSlot 5 demoNode \<noteq> None" by code_simp+
  then obtain s where "getSlot 5 demoNode = Some s" "committedValue s = Some [9]" by auto
  moreover have "scpCall\<^sup>*\<^sup>* (SCP demoDriver 0 True demoQSet) demoNode" "(keepsSlot 5)\<^sup>*\<^sup>* demoNode ?node"
    using c k by blast+
  ultimately show ?thesis using scp_committed_final [of demoDriver 0 True demoQSet demoNode 5 ?node s "[9]"] by auto
qed

end
