(* ===== verification/Exchange.thy ===== *)
theory Exchange
  imports Numeric
begin

text \<open>
  \<^verbatim>\<open>transactions/OfferExchange.cpp\<close>, the arithmetic of crossing two offers: the amounts exchanged
  under the four limits of the two sellers, in the three generations of the protocol, the check of
  the rounding error and the adjustment of an offer to what its seller can honour. Amounts are
  \<^verbatim>\<open>int64_t\<close> and the parts of a price \<^verbatim>\<open>int32_t\<close>, both as \<open>int\<close>; the intermediate 128-bit
  values are words, as in \<^verbatim>\<open>util/numeric.cpp\<close>. An exception is a value of \<open>tx_error\<close>.
\<close>

section \<open>Data\<close>

record Price =
  priceN :: int
  priceD :: int

datatype RoundingType = NORMAL | PATH_PAYMENT_STRICT_SEND | PATH_PAYMENT_STRICT_RECEIVE

datatype ExchangeResultType = EXCHANGE_NORMAL | REDUCED_TO_ZERO | BOGUS

record ExchangeResult =
  numWheatReceived :: int
  numSheepSend :: int
  reduced :: bool

definition exchangeResultType :: "ExchangeResult \<Rightarrow> ExchangeResultType" where
  "exchangeResultType r =
     (if numWheatReceived r \<noteq> 0 \<and> numSheepSend r \<noteq> 0 then EXCHANGE_NORMAL
      else if reduced r then REDUCED_TO_ZERO else BOGUS)"

record ExchangeResultV10 =
  wheatReceived10 :: int
  sheepSend10 :: int
  wheatStays :: bool

text \<open>
  What the transaction code throws: a failed assertion, the overflow of \<^verbatim>\<open>bigDivide\<close>, an access to
  the wrong arm of an XDR union, an index out of the range of a vector, or a
  \<^verbatim>\<open>std::runtime_error\<close> with its message. \<open>TxOutOfFuel\<close> is not an exception of the code: it marks a
  loop that the bound of the model cut off.
\<close>

datatype tx_error =
    AssertFailed | Overflowed | WrongUnion | OutOfRange | TxRuntimeError string | TxOutOfFuel

type_synonym 'a tx = "tx_error + 'a"

definition numericTx :: "numeric_error + 'a \<Rightarrow> 'a tx" where
  "numericTx r =
     (case r of
        Inl OverflowError \<Rightarrow> Inl Overflowed
      | Inl AssertionFailure \<Rightarrow> Inl AssertFailed
      | Inr x \<Rightarrow> Inr x)"

section \<open>The exchanges of protocol versions before 10\<close>

definition exchangeV2 :: "int \<Rightarrow> Price \<Rightarrow> int \<Rightarrow> int \<Rightarrow> ExchangeResult tx" where
  "exchangeV2 wheatReceived price maxWheatReceive maxSheepSend =
     (let red = (wheatReceived > maxWheatReceive);
          wheat = min wheatReceived maxWheatReceive
      in bindE (numericTx (bigDivide_i64 wheat (priceN price) (priceD price) ROUND_DOWN)) (\<lambda>q.
         let sheep = (case q of None \<Rightarrow> INT64_MAX | Some x \<Rightarrow> x);
             red' = (red \<or> sheep > maxSheepSend);
             sheep' = min sheep maxSheepSend
         in bindE (numericTx (bigDivide_throw sheep' (priceD price) (priceN price) ROUND_DOWN)) (\<lambda>w.
            Inr \<lparr>numWheatReceived = w, numSheepSend = sheep', reduced = red'\<rparr>)))"

definition exchangeV3 :: "int \<Rightarrow> Price \<Rightarrow> int \<Rightarrow> int \<Rightarrow> ExchangeResult tx" where
  "exchangeV3 wheatReceived price maxWheatReceive maxSheepSend =
     (let red = (wheatReceived > maxWheatReceive);
          wheat = min wheatReceived maxWheatReceive
      in bindE (numericTx (bigDivide_i64 wheat (priceN price) (priceD price) ROUND_UP)) (\<lambda>q.
         let sheep = (case q of None \<Rightarrow> INT64_MAX | Some x \<Rightarrow> x);
             red' = (red \<or> q = None \<or> sheep > maxSheepSend);
             sheep' = min sheep maxSheepSend
         in bindE (numericTx (bigDivide_i64 sheep' (priceD price) (priceN price) ROUND_DOWN)) (\<lambda>q'.
            let newWheat = (case q' of None \<Rightarrow> INT64_MAX | Some x \<Rightarrow> x)
            in Inr \<lparr>numWheatReceived = min wheat newWheat, numSheepSend = sheep', reduced = red'\<rparr>)))"

section \<open>The exchange of protocol version 10\<close>

text \<open>
  \<open>errN\<close> and \<open>errD\<close> are products of an \<^verbatim>\<open>int32_t\<close> by 100 in \<^verbatim>\<open>int64_t\<close> and cannot wrap.
\<close>

definition checkPriceErrorBound :: "Price \<Rightarrow> int \<Rightarrow> int \<Rightarrow> bool \<Rightarrow> bool tx" where
  "checkPriceErrorBound price wheatReceive sheepSend canFavorWheat =
     (let errN = 100 * priceN price; errD = 100 * priceD price
      in bindE (numericTx (bigMultiply_i64 errN wheatReceive)) (\<lambda>lhs.
         bindE (numericTx (bigMultiply_i64 errD sheepSend)) (\<lambda>rhs.
         if canFavorWheat \<and> rhs > lhs then Inr True
         else let absDiff = (if lhs > rhs then lhs - rhs else rhs - lhs)
              in bindE (numericTx (bigMultiply_i64 (priceN price) wheatReceive)) (\<lambda>cap.
                 Inr (absDiff \<le> cap)))))"

definition calculateOfferValue :: "int \<Rightarrow> int \<Rightarrow> int \<Rightarrow> int \<Rightarrow> uint128 tx" where
  "calculateOfferValue n d maxSend maxReceive =
     bindE (numericTx (bigMultiply_i64 maxSend n)) (\<lambda>sendValue.
     bindE (numericTx (bigMultiply_i64 maxReceive d)) (\<lambda>receiveValue.
     Inr (min sendValue receiveValue)))"

definition exchangeV10WithoutPriceErrorThresholds ::
    "Price \<Rightarrow> int \<Rightarrow> int \<Rightarrow> int \<Rightarrow> int \<Rightarrow> RoundingType \<Rightarrow> ExchangeResultV10 tx" where
  "exchangeV10WithoutPriceErrorThresholds price maxWheatSend maxWheatReceive maxSheepSend
       maxSheepReceive round =
     bindE (calculateOfferValue (priceN price) (priceD price) maxWheatSend maxSheepReceive)
       (\<lambda>wheatValue.
     bindE (calculateOfferValue (priceD price) (priceN price) maxSheepSend maxWheatReceive)
       (\<lambda>sheepValue.
     let stays = (wheatValue > sheepValue)
     in bindE
       (if stays then
          (if round = PATH_PAYMENT_STRICT_SEND then
             bindE (numericTx (bigDivide128_throw sheepValue (priceN price) ROUND_DOWN)) (\<lambda>wheat.
             Inr (wheat, min maxSheepSend maxSheepReceive))
           else if priceN price > priceD price \<or> round = PATH_PAYMENT_STRICT_RECEIVE then
             bindE (numericTx (bigDivide128_throw sheepValue (priceN price) ROUND_DOWN)) (\<lambda>wheat.
             bindE (numericTx (bigDivide_throw wheat (priceN price) (priceD price) ROUND_UP)) (\<lambda>sheep.
             Inr (wheat, sheep)))
           else
             bindE (numericTx (bigDivide128_throw sheepValue (priceD price) ROUND_DOWN)) (\<lambda>sheep.
             bindE (numericTx (bigDivide_throw sheep (priceD price) (priceN price) ROUND_DOWN)) (\<lambda>wheat.
             Inr (wheat, sheep))))
        else
          (if priceN price > priceD price then
             bindE (numericTx (bigDivide128_throw wheatValue (priceN price) ROUND_DOWN)) (\<lambda>wheat.
             bindE (numericTx (bigDivide_throw wheat (priceN price) (priceD price) ROUND_DOWN)) (\<lambda>sheep.
             Inr (wheat, sheep)))
           else
             bindE (numericTx (bigDivide128_throw wheatValue (priceD price) ROUND_DOWN)) (\<lambda>sheep.
             bindE (numericTx (bigDivide_throw sheep (priceD price) (priceN price) ROUND_UP)) (\<lambda>wheat.
             Inr (wheat, sheep)))))
       (\<lambda>(wheatReceive, sheepSend).
     if wheatReceive < 0 \<or> wheatReceive > min maxWheatReceive maxWheatSend then
       Inl (TxRuntimeError ''wheatReceive out of bounds'')
     else if sheepSend < 0 \<or> sheepSend > min maxSheepReceive maxSheepSend then
       Inl (TxRuntimeError ''sheepSend out of bounds'')
     else Inr \<lparr>wheatReceived10 = wheatReceive, sheepSend10 = sheepSend, wheatStays = stays\<rparr>)))"

definition applyPriceErrorThresholds ::
    "Price \<Rightarrow> int \<Rightarrow> int \<Rightarrow> bool \<Rightarrow> RoundingType \<Rightarrow> ExchangeResultV10 tx" where
  "applyPriceErrorThresholds price wheatReceive sheepSend stays round =
     (let done = (\<lambda>wheat sheep.
        Inr \<lparr>wheatReceived10 = wheat, sheepSend10 = sheep, wheatStays = stays\<rparr>)
      in if wheatReceive > 0 \<and> sheepSend > 0 then
           bindE (numericTx (bigMultiply_i64 wheatReceive (priceN price))) (\<lambda>wheatReceiveValue.
           bindE (numericTx (bigMultiply_i64 sheepSend (priceD price))) (\<lambda>sheepSendValue.
           if stays \<and> sheepSendValue < wheatReceiveValue then
             Inl (TxRuntimeError ''favored sheep when wheat stays'')
           else if \<not> stays \<and> sheepSendValue > wheatReceiveValue then
             Inl (TxRuntimeError ''favored wheat when sheep stays'')
           else if round = NORMAL then
             bindE (checkPriceErrorBound price wheatReceive sheepSend False) (\<lambda>ok.
             if \<not> ok then done 0 0 else done wheatReceive sheepSend)
           else
             bindE (checkPriceErrorBound price wheatReceive sheepSend True) (\<lambda>ok.
             if \<not> ok then Inl (TxRuntimeError ''exceeded price error bound'')
             else done wheatReceive sheepSend)))
         else if round = PATH_PAYMENT_STRICT_SEND then
           (if sheepSend = 0 then Inl (TxRuntimeError ''invalid amount of sheep sent'')
            else done wheatReceive sheepSend)
         else done 0 0)"

definition exchangeV10 ::
    "Price \<Rightarrow> int \<Rightarrow> int \<Rightarrow> int \<Rightarrow> int \<Rightarrow> RoundingType \<Rightarrow> ExchangeResultV10 tx" where
  "exchangeV10 price maxWheatSend maxWheatReceive maxSheepSend maxSheepReceive round =
     bindE (exchangeV10WithoutPriceErrorThresholds price maxWheatSend maxWheatReceive maxSheepSend
              maxSheepReceive round) (\<lambda>before.
     applyPriceErrorThresholds price (wheatReceived10 before) (sheepSend10 before)
       (wheatStays before) round)"

definition adjustOfferAmount :: "Price \<Rightarrow> int \<Rightarrow> int \<Rightarrow> int tx" where
  "adjustOfferAmount price maxWheatSend maxSheepReceive =
     bindE (exchangeV10 price maxWheatSend INT64_MAX INT64_MAX maxSheepReceive NORMAL) (\<lambda>res.
     Inr (wheatReceived10 res))"

section \<open>Exact values of the 128-bit steps\<close>

definition INT32_MAX :: int where
  "INT32_MAX = 2 ^ 31 - 1"

definition isAmount :: "int \<Rightarrow> bool" where
  "isAmount x \<longleftrightarrow> 0 \<le> x \<and> x \<le> INT64_MAX"

definition validPrice :: "Price \<Rightarrow> bool" where
  "validPrice p \<longleftrightarrow> 0 < priceN p \<and> priceN p \<le> INT32_MAX \<and> 0 < priceD p \<and> priceD p \<le> INT32_MAX"

lemma numericTx_simps [simp]:
  "numericTx (Inr x) = Inr x"
  "numericTx (Inl OverflowError) = Inl Overflowed"
  "numericTx (Inl AssertionFailure) = Inl AssertFailed"
  by (simp_all add: numericTx_def)

lemma validPriceD:
  assumes "validPrice p"
  shows "0 < priceN p" "0 < priceD p" "priceN p \<le> INT64_MAX" "priceD p \<le> INT64_MAX"
    "isAmount (priceN p)" "isAmount (priceD p)"
    "isAmount (100 * priceN p)" "isAmount (100 * priceD p)"
  using assms by (auto simp: validPrice_def isAmount_def INT32_MAX_def INT64_MAX_def)

lemma bigDivide_throw_exact:
  assumes "isAmount A" "isAmount B" "0 < C" "C \<le> INT64_MAX" "div_rounded (A * B) C r \<le> INT64_MAX"
  shows "bigDivide_throw A B C r = Inr (div_rounded (A * B) C r)"
  using assms by (simp add: bigDivide_throw_def bigDivide_i64_exact isAmount_def)

lemma bigDivide128_throw_exact:
  assumes "0 < B" "B \<le> INT64_MAX" "div_rounded (uint a) B r \<le> INT64_MAX"
  shows "bigDivide128_throw a B r = Inr (div_rounded (uint a) B r)"
  using assms by (simp add: bigDivide128_throw_def bigDivide128_i64_exact)

lemma bigMultiply_i64_exact:
  assumes "isAmount a" "isAmount b"
  obtains w where "bigMultiply_i64 a b = Inr w" "uint w = a * b"
proof
  show "bigMultiply_i64 a b = Inr (bigMultiply_u64 (word_of_int a) (word_of_int b))"
    using assms by (simp add: bigMultiply_i64_def isAmount_def)
  show "uint (bigMultiply_u64 (word_of_int a) (word_of_int b)) = a * b"
    using assms by (simp add: bigMultiply_u64_exact uint_word_of_int_64 isAmount_def INT64_MAX_def)
qed

lemma calculateOfferValue_exact:
  assumes "isAmount n" "isAmount d" "isAmount s" "isAmount r"
  obtains w where "calculateOfferValue n d s r = Inr w" "uint w = min (s * n) (r * d)"
proof -
  obtain w1 where 1: "bigMultiply_i64 s n = Inr w1" "uint w1 = s * n"
    using bigMultiply_i64_exact [OF assms(3,1)] .
  obtain w2 where 2: "bigMultiply_i64 r d = Inr w2" "uint w2 = r * d"
    using bigMultiply_i64_exact [OF assms(4,2)] .
  show ?thesis
  proof
    show "calculateOfferValue n d s r = Inr (min w1 w2)"
      by (simp add: calculateOfferValue_def 1 2)
    show "uint (min w1 w2) = min (s * n) (r * d)"
      using 1(2) 2(2) by (simp add: min_def word_le_def)
  qed
qed


lemma uint_diff_le:
  fixes x y :: uint128
  assumes "y \<le> x"
  shows "uint (x - y) = uint x - uint y"
  using assms uint_sub_lem [of y x] by (simp add: word_le_def)

text \<open>
  The test on 128-bit words is the test on integers: no product overflows and the subtraction is
  taken the right way round.
\<close>

lemma checkPriceErrorBound_exact:
  assumes p: "validPrice p" and w: "isAmount w" and s: "isAmount s"
  shows "checkPriceErrorBound p w s fav =
    Inr (fav \<and> w * priceN p < s * priceD p
         \<or> 100 * \<bar>w * priceN p - s * priceD p\<bar> \<le> w * priceN p)"
proof -
  note pd = validPriceD [OF p]
  obtain lhs where l: "bigMultiply_i64 (100 * priceN p) w = Inr lhs" "uint lhs = 100 * priceN p * w"
    using bigMultiply_i64_exact [OF pd(7) w] .
  obtain rhs where r: "bigMultiply_i64 (100 * priceD p) s = Inr rhs" "uint rhs = 100 * priceD p * s"
    using bigMultiply_i64_exact [OF pd(8) s] .
  obtain cap where c: "bigMultiply_i64 (priceN p) w = Inr cap" "uint cap = priceN p * w"
    using bigMultiply_i64_exact [OF pd(5) w] .
  have lt: "(rhs > lhs) = (w * priceN p < s * priceD p)"
    by (simp add: word_less_def l r mult.commute mult.left_commute)
  have "uint (if lhs > rhs then lhs - rhs else rhs - lhs) = \<bar>uint lhs - uint rhs\<bar>"
    using uint_diff_le [of rhs lhs] uint_diff_le [of lhs rhs] by (auto simp: word_less_def word_le_def)
  also have "\<dots> = 100 * \<bar>w * priceN p - s * priceD p\<bar>"
  proof -
    have "uint lhs - uint rhs = 100 * (w * priceN p - s * priceD p)"
      unfolding l r by (simp add: algebra_simps)
    then show ?thesis by (simp only: abs_mult abs_numeral)
  qed
  finally have le: "((if lhs > rhs then lhs - rhs else rhs - lhs) \<le> cap) =
      (100 * \<bar>w * priceN p - s * priceD p\<bar> \<le> w * priceN p)"
    by (simp add: word_le_def c mult.commute)
  show ?thesis
    unfolding checkPriceErrorBound_def Let_def l(1) r(1) c(1) using lt le by auto
qed

section \<open>The exchange over mathematical integers\<close>

text \<open>
  \<open>exchangeExact\<close> is \<^verbatim>\<open>exchangeV10WithoutPriceErrorThresholds\<close> in exact arithmetic: the value of each
  offer in units of the scaled price, the smaller offer being taken and the amount of the cheaper
  asset being rounded in favour of the larger one.
\<close>

definition wheatOfferValue :: "Price \<Rightarrow> int \<Rightarrow> int \<Rightarrow> int" where
  "wheatOfferValue p maxWheatSend maxSheepReceive =
     min (maxWheatSend * priceN p) (maxSheepReceive * priceD p)"

definition sheepOfferValue :: "Price \<Rightarrow> int \<Rightarrow> int \<Rightarrow> int" where
  "sheepOfferValue p maxSheepSend maxWheatReceive =
     min (maxSheepSend * priceD p) (maxWheatReceive * priceN p)"

definition takeWheatOffer :: "Price \<Rightarrow> int \<Rightarrow> int \<times> int" where
  "takeWheatOffer p v =
     (if priceN p > priceD p
      then (let w = v div priceN p in (w, w * priceN p div priceD p))
      else (let s = v div priceD p in (div_rounded (s * priceD p) (priceN p) ROUND_UP, s)))"

definition takeSheepOffer :: "Price \<Rightarrow> int \<Rightarrow> int \<Rightarrow> RoundingType \<Rightarrow> int \<times> int" where
  "takeSheepOffer p v limit round =
     (if round = PATH_PAYMENT_STRICT_SEND then (v div priceN p, limit)
      else if priceN p > priceD p \<or> round = PATH_PAYMENT_STRICT_RECEIVE
      then (let w = v div priceN p in (w, div_rounded (w * priceN p) (priceD p) ROUND_UP))
      else (let s = v div priceD p in (s * priceD p div priceN p, s)))"

definition exchangeExact ::
    "Price \<Rightarrow> int \<Rightarrow> int \<Rightarrow> int \<Rightarrow> int \<Rightarrow> RoundingType \<Rightarrow> ExchangeResultV10" where
  "exchangeExact p maxWheatSend maxWheatReceive maxSheepSend maxSheepReceive round =
     (let wv = wheatOfferValue p maxWheatSend maxSheepReceive;
          sv = sheepOfferValue p maxSheepSend maxWheatReceive;
          (w, s) = (if wv > sv then takeSheepOffer p sv (min maxSheepSend maxSheepReceive) round
                    else takeWheatOffer p wv)
      in \<lparr>wheatReceived10 = w, sheepSend10 = s, wheatStays = (wv > sv)\<rparr>)"

lemma div_le_of_le_mult: "0 < d \<Longrightarrow> v \<le> k * d \<Longrightarrow> v div d \<le> (k :: int)"
  using zdiv_mono1 [of v "k * d" d] by simp

lemma div_mult_le: "0 < d \<Longrightarrow> v div d * d \<le> (v :: int)"
  using div_rounded_down_bounds(1) [of d v] by (simp add: div_rounded_def)

lemma mult_le_of_le_div: "0 < d \<Longrightarrow> s \<le> v div d \<Longrightarrow> s * d \<le> (v :: int)"
  using mult_right_mono [of s "v div d" d] div_mult_le [of d v] by linarith

lemma div_rounded_ROUND_DOWN [simp]: "div_rounded v d ROUND_DOWN = v div d"
  by (simp add: div_rounded_def)

text \<open>
  A value bounded by both scaled limits gives amounts within the limits, whichever side is
  rounded.
\<close>

lemma takeWheatOffer_bounds:
  assumes p: "validPrice p" and v: "0 \<le> v" "v \<le> W * priceN p" "v \<le> S * priceD p"
    and e: "takeWheatOffer p v = (w, s)"
  shows "0 \<le> w" "w \<le> W" "0 \<le> s" "s \<le> S" "s * priceD p \<le> w * priceN p" "s * priceD p \<le> v"
proof -
  note pd = validPriceD(1,2) [OF p]
  have "0 \<le> w \<and> w \<le> W \<and> 0 \<le> s \<and> s \<le> S \<and> s * priceD p \<le> w * priceN p \<and> s * priceD p \<le> v"
  proof (cases "priceN p > priceD p")
    case True
    have w: "w = v div priceN p" and s: "s = w * priceN p div priceD p"
      using e True by (auto simp: takeWheatOffer_def Let_def)
    have wv: "w * priceN p \<le> v" using pd w by (simp add: div_mult_le)
    have sd: "s * priceD p \<le> w * priceN p" using pd s by (simp add: div_mult_le)
    have "0 \<le> w" using v pd w by (simp add: pos_imp_zdiv_nonneg_iff)
    moreover have "w \<le> W" using w pd v(2) by (simp add: div_le_of_le_mult)
    moreover have "0 \<le> s" using s pd \<open>0 \<le> w\<close> by (simp add: pos_imp_zdiv_nonneg_iff)
    moreover have "s \<le> S" unfolding s by (rule div_le_of_le_mult) (use pd wv v(3) in auto)
    ultimately show ?thesis using sd wv by linarith
  next
    case False
    have s: "s = v div priceD p" and w: "w = div_rounded (s * priceD p) (priceN p) ROUND_UP"
      using e False by (auto simp: takeWheatOffer_def Let_def)
    have sv: "s * priceD p \<le> v" using pd s by (simp add: div_mult_le)
    have "0 \<le> s" using v pd s by (simp add: pos_imp_zdiv_nonneg_iff)
    moreover have "0 \<le> w" using w pd \<open>0 \<le> s\<close> by (simp add: div_rounded_nonneg)
    moreover have "s \<le> S" using s pd v(3) by (simp add: div_le_of_le_mult)
    moreover have "w \<le> W" unfolding w
      by (rule div_rounded_ROUND_UP_least) (use pd sv v(2) in auto)
    moreover have "s * priceD p \<le> w * priceN p" unfolding w using pd by (simp add: div_rounded_up_bounds)
    ultimately show ?thesis using sv by simp
  qed
  then show "0 \<le> w" "w \<le> W" "0 \<le> s" "s \<le> S" "s * priceD p \<le> w * priceN p" "s * priceD p \<le> v"
    by auto
qed

lemma takeSheepOffer_bounds:
  assumes p: "validPrice p" and v: "0 \<le> v" "v \<le> W * priceN p" "v \<le> L * priceD p"
    and e: "takeSheepOffer p v L round = (w, s)"
  shows "0 \<le> w" "w \<le> W" "0 \<le> s" "s \<le> L" "w * priceN p \<le> s * priceD p" "w * priceN p \<le> v"
proof -
  note pd = validPriceD(1,2) [OF p]
  have vL: "0 \<le> L" using v(1,3) pd by (metis order_trans zero_le_mult_iff linorder_not_less)
  have "0 \<le> w \<and> w \<le> W \<and> 0 \<le> s \<and> s \<le> L \<and> w * priceN p \<le> s * priceD p \<and> w * priceN p \<le> v"
  proof (cases "priceN p > priceD p \<or> round \<noteq> NORMAL")
    case True
    have w: "w = v div priceN p"
      using e True by (cases round) (auto simp: takeSheepOffer_def Let_def)
    have wv: "w * priceN p \<le> v" using pd w by (simp add: div_mult_le)
    have w0: "0 \<le> w" using v pd w by (simp add: pos_imp_zdiv_nonneg_iff)
    have wW: "w \<le> W" using w pd v(2) by (simp add: div_le_of_le_mult)
    consider (send) "s = L" | (up) "s = div_rounded (w * priceN p) (priceD p) ROUND_UP"
      using e True by (cases round) (auto simp: takeSheepOffer_def Let_def)
    then show ?thesis
    proof cases
      case send
      then show ?thesis using w0 wW wv v(3) vL by auto
    next
      case up
      have "s \<le> L" unfolding up by (rule div_rounded_ROUND_UP_least) (use pd wv v(3) in auto)
      moreover have "w * priceN p \<le> s * priceD p" unfolding up using pd by (simp add: div_rounded_up_bounds)
      moreover have "0 \<le> s" unfolding up using pd w0 by (simp add: div_rounded_nonneg)
      ultimately show ?thesis using w0 wW wv by blast
    qed
  next
    case False
    have s: "s = v div priceD p" and w: "w = s * priceD p div priceN p"
      using e False by (auto simp: takeSheepOffer_def Let_def)
    have sv: "s * priceD p \<le> v" using pd s by (simp add: div_mult_le)
    have ws: "w * priceN p \<le> s * priceD p" using pd w by (simp add: div_mult_le)
    have "0 \<le> s" using v pd s by (simp add: pos_imp_zdiv_nonneg_iff)
    moreover have "0 \<le> w" using w pd \<open>0 \<le> s\<close> by (simp add: pos_imp_zdiv_nonneg_iff)
    moreover have "s \<le> L" using s pd v(3) by (simp add: div_le_of_le_mult)
    moreover have "w \<le> W" unfolding w by (rule div_le_of_le_mult) (use pd sv v(2) in auto)
    ultimately show ?thesis using sv ws by linarith
  qed
  then show "0 \<le> w" "w \<le> W" "0 \<le> s" "s \<le> L" "w * priceN p \<le> s * priceD p" "w * priceN p \<le> v"
    by auto
qed


text \<open>The amounts the code computes are the exact ones: no step overflows and no check throws.\<close>

lemma isAmount_mono: "isAmount b \<Longrightarrow> 0 \<le> a \<Longrightarrow> a \<le> b \<Longrightarrow> isAmount a"
  by (simp add: isAmount_def)

lemma takeWheatOffer_code:
  assumes p: "validPrice p" and v: "v \<le> W * priceN p" "v \<le> S * priceD p" "uint x = v"
    and a: "isAmount W" "isAmount S"
  shows "(if priceN p > priceD p then
             bindE (numericTx (bigDivide128_throw x (priceN p) ROUND_DOWN)) (\<lambda>wheat.
             bindE (numericTx (bigDivide_throw wheat (priceN p) (priceD p) ROUND_DOWN)) (\<lambda>sheep.
             Inr (wheat, sheep)))
           else
             bindE (numericTx (bigDivide128_throw x (priceD p) ROUND_DOWN)) (\<lambda>sheep.
             bindE (numericTx (bigDivide_throw sheep (priceD p) (priceN p) ROUND_UP)) (\<lambda>wheat.
             Inr (wheat, sheep)))) = Inr (takeWheatOffer p v)"
proof -
  note pd = validPriceD [OF p]
  obtain w s where ws: "takeWheatOffer p v = (w, s)" by fastforce
  have v0: "0 \<le> v" using v(3) by auto
  note b = takeWheatOffer_bounds [OF p v0 v(1,2) ws]
  have amt: "isAmount w" "isAmount s" "w \<le> INT64_MAX" "s \<le> INT64_MAX"
    using b a by (auto simp: isAmount_def)
  show ?thesis
  proof (cases "priceN p > priceD p")
    case True
    then have "w = v div priceN p" "s = w * priceN p div priceD p"
      using ws by (auto simp: takeWheatOffer_def Let_def)
    then show ?thesis using True amt pd ws v(3)
      by (simp add: bigDivide128_throw_exact bigDivide_throw_exact)
  next
    case False
    then have "s = v div priceD p" "w = div_rounded (s * priceD p) (priceN p) ROUND_UP"
      using ws by (auto simp: takeWheatOffer_def Let_def)
    then show ?thesis using False amt pd ws v(3)
      by (simp add: bigDivide128_throw_exact bigDivide_throw_exact)
  qed
qed

lemma takeSheepOffer_code:
  assumes p: "validPrice p" and v: "v \<le> W * priceN p" "v \<le> L * priceD p" "uint x = v"
    and a: "isAmount W" "isAmount L"
  shows "(if round = PATH_PAYMENT_STRICT_SEND then
             bindE (numericTx (bigDivide128_throw x (priceN p) ROUND_DOWN)) (\<lambda>wheat.
             Inr (wheat, L))
           else if priceN p > priceD p \<or> round = PATH_PAYMENT_STRICT_RECEIVE then
             bindE (numericTx (bigDivide128_throw x (priceN p) ROUND_DOWN)) (\<lambda>wheat.
             bindE (numericTx (bigDivide_throw wheat (priceN p) (priceD p) ROUND_UP)) (\<lambda>sheep.
             Inr (wheat, sheep)))
           else
             bindE (numericTx (bigDivide128_throw x (priceD p) ROUND_DOWN)) (\<lambda>sheep.
             bindE (numericTx (bigDivide_throw sheep (priceD p) (priceN p) ROUND_DOWN)) (\<lambda>wheat.
             Inr (wheat, sheep)))) = Inr (takeSheepOffer p v L round)"
proof -
  note pd = validPriceD [OF p]
  obtain w s where ws: "takeSheepOffer p v L round = (w, s)" by fastforce
  have v0: "0 \<le> v" using v(3) by auto
  note b = takeSheepOffer_bounds [OF p v0 v(1,2) ws]
  have amt: "isAmount w" "isAmount s" "w \<le> INT64_MAX" "s \<le> INT64_MAX"
    using b a by (auto simp: isAmount_def)
  show ?thesis
  proof (cases "priceN p > priceD p \<or> round \<noteq> NORMAL")
    case True
    then have "w = v div priceN p"
      "round \<noteq> PATH_PAYMENT_STRICT_SEND \<Longrightarrow> s = div_rounded (w * priceN p) (priceD p) ROUND_UP"
      using ws by (cases round; auto simp: takeSheepOffer_def Let_def)+
    then show ?thesis using True amt pd ws v(3)
      by (cases round) (auto simp: bigDivide128_throw_exact bigDivide_throw_exact takeSheepOffer_def)
  next
    case False
    then have "s = v div priceD p" "w = s * priceD p div priceN p"
      using ws by (auto simp: takeSheepOffer_def Let_def)
    then show ?thesis using False amt pd ws v(3)
      by (simp add: bigDivide128_throw_exact bigDivide_throw_exact)
  qed
qed

definition exchangeLimits :: "int \<Rightarrow> int \<Rightarrow> int \<Rightarrow> int \<Rightarrow> bool" where
  "exchangeLimits ws wr ss sr \<longleftrightarrow> isAmount ws \<and> isAmount wr \<and> isAmount ss \<and> isAmount sr"

lemma offerValue_le:
  assumes "validPrice p"
  shows "wheatOfferValue p ws sr \<le> ws * priceN p" "wheatOfferValue p ws sr \<le> sr * priceD p"
    "sheepOfferValue p ss wr \<le> wr * priceN p" "sheepOfferValue p ss wr \<le> ss * priceD p"
    "v \<le> a * priceN p \<Longrightarrow> v \<le> b * priceN p \<Longrightarrow> v \<le> min a b * priceN p"
    "v \<le> a * priceD p \<Longrightarrow> v \<le> b * priceD p \<Longrightarrow> v \<le> min a b * priceD p"
  by (auto simp: wheatOfferValue_def sheepOfferValue_def min_def)

lemma offerValue_nonneg:
  assumes "validPrice p" "isAmount a" "isAmount b"
  shows "0 \<le> wheatOfferValue p a b" "0 \<le> sheepOfferValue p a b"
  using assms validPriceD [OF assms(1)] by (auto simp: wheatOfferValue_def sheepOfferValue_def isAmount_def)

lemma exchangeExact_bounds:
  assumes p: "validPrice p" and l: "exchangeLimits ws wr ss sr"
    and r: "exchangeExact p ws wr ss sr round = r"
  shows "0 \<le> wheatReceived10 r" "wheatReceived10 r \<le> min wr ws"
    "0 \<le> sheepSend10 r" "sheepSend10 r \<le> min sr ss"
    "wheatStays r \<Longrightarrow> wheatReceived10 r * priceN p \<le> sheepSend10 r * priceD p"
    "\<not> wheatStays r \<Longrightarrow> sheepSend10 r * priceD p \<le> wheatReceived10 r * priceN p"
proof -
  let ?wv = "wheatOfferValue p ws sr" and ?sv = "sheepOfferValue p ss wr"
  have "0 \<le> ?wv" "0 \<le> ?sv" using p l by (simp_all add: offerValue_nonneg exchangeLimits_def)
  note le = offerValue_le [OF p]
  have "0 \<le> wheatReceived10 r \<and> wheatReceived10 r \<le> min wr ws
    \<and> 0 \<le> sheepSend10 r \<and> sheepSend10 r \<le> min sr ss
    \<and> (wheatStays r \<longrightarrow> wheatReceived10 r * priceN p \<le> sheepSend10 r * priceD p)
    \<and> (\<not> wheatStays r \<longrightarrow> sheepSend10 r * priceD p \<le> wheatReceived10 r * priceN p)"
  proof (cases "?wv > ?sv")
    case True
    obtain w s where t: "takeSheepOffer p ?sv (min ss sr) round = (w, s)" by fastforce
    have "?sv \<le> min wr ws * priceN p" "?sv \<le> min ss sr * priceD p"
      using True le(1,2) [of ws sr] le(3,4) [of ss wr] by (auto intro!: le(5,6))
    from takeSheepOffer_bounds [OF p \<open>0 \<le> ?sv\<close> this t] show ?thesis
      using r t True by (auto simp: exchangeExact_def Let_def)
  next
    case False
    obtain w s where t: "takeWheatOffer p ?wv = (w, s)" by fastforce
    have "?wv \<le> min wr ws * priceN p" "?wv \<le> min ss sr * priceD p"
      using False le(1,2) [of ws sr] le(3,4) [of ss wr] by (auto intro!: le(5,6))
    from takeWheatOffer_bounds [OF p \<open>0 \<le> ?wv\<close> this t] show ?thesis
      using r t False by (auto simp: exchangeExact_def Let_def)
  qed
  then show "0 \<le> wheatReceived10 r" "wheatReceived10 r \<le> min wr ws"
    "0 \<le> sheepSend10 r" "sheepSend10 r \<le> min sr ss"
    "wheatStays r \<Longrightarrow> wheatReceived10 r * priceN p \<le> sheepSend10 r * priceD p"
    "\<not> wheatStays r \<Longrightarrow> sheepSend10 r * priceD p \<le> wheatReceived10 r * priceN p"
    by blast+
qed

lemma exchangeV10Without_exact:
  assumes p: "validPrice p" and l: "exchangeLimits ws wr ss sr"
  shows "exchangeV10WithoutPriceErrorThresholds p ws wr ss sr round =
    Inr (exchangeExact p ws wr ss sr round)"
proof -
  let ?wv = "wheatOfferValue p ws sr" and ?sv = "sheepOfferValue p ss wr"
  have a: "isAmount ws" "isAmount wr" "isAmount ss" "isAmount sr"
    using l by (auto simp: exchangeLimits_def)
  note pd = validPriceD [OF p] and le = offerValue_le [OF p]
  obtain x where x: "calculateOfferValue (priceN p) (priceD p) ws sr = Inr x" "uint x = ?wv"
    using calculateOfferValue_exact [OF pd(5,6) a(1,4)] unfolding wheatOfferValue_def .
  obtain y where y: "calculateOfferValue (priceD p) (priceN p) ss wr = Inr y" "uint y = ?sv"
    using calculateOfferValue_exact [OF pd(6,5) a(3,2)] unfolding sheepOfferValue_def .
  have stays: "(x > y) = (?wv > ?sv)" by (simp add: word_less_def x y)
  have amt: "isAmount (min wr ws)" "isAmount (min ss sr)" using a by (auto simp: min_def)
  note bounds = exchangeExact_bounds [OF p l, of round]
  show ?thesis
  proof (cases "?wv > ?sv")
    case True
    have "?sv \<le> min wr ws * priceN p" "?sv \<le> min ss sr * priceD p"
      using True le(1,2) [of ws sr] le(3,4) [of ss wr] by (auto intro!: le(5,6))
    note code = takeSheepOffer_code [OF p this y(2) amt, of round]
    obtain w s where t: "takeSheepOffer p ?sv (min ss sr) round = (w, s)" by fastforce
    have "exchangeExact p ws wr ss sr round =
        \<lparr>wheatReceived10 = w, sheepSend10 = s, wheatStays = True\<rparr>"
      using t True by (simp add: exchangeExact_def Let_def)
    with bounds [OF this] show ?thesis
      using True by (auto simp: exchangeV10WithoutPriceErrorThresholds_def x(1) y(1) stays
          code [unfolded t] Let_def)
  next
    case False
    have "?wv \<le> min wr ws * priceN p" "?wv \<le> min ss sr * priceD p"
      using False le(1,2) [of ws sr] le(3,4) [of ss wr] by (auto intro!: le(5,6))
    note code = takeWheatOffer_code [OF p this x(2) amt]
    obtain w s where t: "takeWheatOffer p ?wv = (w, s)" by fastforce
    have "exchangeExact p ws wr ss sr round =
        \<lparr>wheatReceived10 = w, sheepSend10 = s, wheatStays = False\<rparr>"
      using t False by (simp add: exchangeExact_def Let_def)
    with bounds [OF this] show ?thesis
      using False by (auto simp: exchangeV10WithoutPriceErrorThresholds_def x(1) y(1) stays
          code [unfolded t] Let_def)
  qed
qed


section \<open>The error thresholds\<close>

definition withinOnePercent :: "Price \<Rightarrow> int \<Rightarrow> int \<Rightarrow> bool" where
  "withinOnePercent p w s \<longleftrightarrow> 100 * \<bar>w * priceN p - s * priceD p\<bar> \<le> w * priceN p"

definition favorsStayer :: "Price \<Rightarrow> ExchangeResultV10 \<Rightarrow> bool" where
  "favorsStayer p r \<longleftrightarrow>
     (if wheatStays r then wheatReceived10 r * priceN p \<le> sheepSend10 r * priceD p
      else sheepSend10 r * priceD p \<le> wheatReceived10 r * priceN p)"

lemma applyPriceErrorThresholds_exact:
  assumes p: "validPrice p" and a: "isAmount w" "isAmount s"
    and f: "favorsStayer p \<lparr>wheatReceived10 = w, sheepSend10 = s, wheatStays = st\<rparr>"
  shows "applyPriceErrorThresholds p w s st round =
    (let ok = Inr \<lparr>wheatReceived10 = w, sheepSend10 = s, wheatStays = st\<rparr>;
         none = Inr \<lparr>wheatReceived10 = 0, sheepSend10 = 0, wheatStays = st\<rparr>
     in if 0 < w \<and> 0 < s then
          (if withinOnePercent p w s then ok
           else if round = NORMAL then none
           else if w * priceN p < s * priceD p then ok
           else Inl (TxRuntimeError ''exceeded price error bound''))
        else if round = PATH_PAYMENT_STRICT_SEND then
          (if s = 0 then Inl (TxRuntimeError ''invalid amount of sheep sent'') else ok)
        else none)"
proof -
  note pd = validPriceD [OF p]
  obtain x where x: "bigMultiply_i64 w (priceN p) = Inr x" "uint x = w * priceN p"
    using bigMultiply_i64_exact [OF a(1) pd(5)] .
  obtain y where y: "bigMultiply_i64 s (priceD p) = Inr y" "uint y = s * priceD p"
    using bigMultiply_i64_exact [OF a(2) pd(6)] .
  have lt: "(x < y) = (w * priceN p < s * priceD p)" "(y < x) = (s * priceD p < w * priceN p)"
    by (auto simp: word_less_def x y)
  show ?thesis
    using f by (cases st) (auto simp: applyPriceErrorThresholds_def x(1) y(1) Let_def lt
        withinOnePercent_def favorsStayer_def checkPriceErrorBound_exact [OF p a])
qed

lemma exchangeExact_amounts:
  assumes p: "validPrice p" and l: "exchangeLimits ws wr ss sr"
    and r: "exchangeExact p ws wr ss sr round = r"
  shows "isAmount (wheatReceived10 r)" "isAmount (sheepSend10 r)" "favorsStayer p r"
  using exchangeExact_bounds [OF p l r] l
  by (auto simp: isAmount_def exchangeLimits_def favorsStayer_def)

lemma exchangeV10_exact:
  assumes p: "validPrice p" and l: "exchangeLimits ws wr ss sr"
    and r: "exchangeExact p ws wr ss sr round = r"
  shows "exchangeV10 p ws wr ss sr round =
    (let none = Inr (r\<lparr>wheatReceived10 := 0, sheepSend10 := 0\<rparr>)
     in if 0 < wheatReceived10 r \<and> 0 < sheepSend10 r then
          (if withinOnePercent p (wheatReceived10 r) (sheepSend10 r) then Inr r
           else if round = NORMAL then none
           else if wheatReceived10 r * priceN p < sheepSend10 r * priceD p then Inr r
           else Inl (TxRuntimeError ''exceeded price error bound''))
        else if round = PATH_PAYMENT_STRICT_SEND then
          (if sheepSend10 r = 0 then Inl (TxRuntimeError ''invalid amount of sheep sent'')
           else Inr r)
        else none)"
proof -
  note a = exchangeExact_amounts [OF p l r]
  obtain w s st where r': "r = \<lparr>wheatReceived10 = w, sheepSend10 = s, wheatStays = st\<rparr>"
    by (cases r) auto
  show ?thesis
    using a unfolding exchangeV10_def exchangeV10Without_exact [OF p l] r
    by (simp add: r' applyPriceErrorThresholds_exact [OF p] Let_def)
qed

text \<open>For two of the three rounding modes nothing is given for nothing.\<close>

lemma div_rounded_up_zero_iff: "0 < d \<Longrightarrow> 0 \<le> n \<Longrightarrow> div_rounded n d ROUND_UP = 0 \<longleftrightarrow> n = 0"
  using div_rounded_up_bounds [of d n] by (auto simp: div_rounded_def)

lemma div_zero_of_ge: "0 < d \<Longrightarrow> d \<le> e \<Longrightarrow> 0 \<le> n \<Longrightarrow> n * e div d = 0 \<longleftrightarrow> n = (0 :: int)"
  using zdiv_mono1 [of "n * d" "n * e" d] by (auto simp: mult_left_mono)

lemma takeWheatOffer_zero_iff:
  assumes p: "validPrice p" and v: "0 \<le> v" and e: "takeWheatOffer p v = (w, s)"
  shows "w = 0 \<longleftrightarrow> s = 0"
proof -
  note pd = validPriceD(1,2) [OF p]
  show ?thesis
  proof (cases "priceN p > priceD p")
    case True
    then have "s = w * priceN p div priceD p" "w = v div priceN p"
      using e by (auto simp: takeWheatOffer_def Let_def)
    moreover have "0 \<le> v div priceN p" using v pd by (simp add: pos_imp_zdiv_nonneg_iff)
    ultimately show ?thesis using True pd by (simp add: div_zero_of_ge)
  next
    case False
    then have "w = div_rounded (s * priceD p) (priceN p) ROUND_UP" "s = v div priceD p"
      using e by (auto simp: takeWheatOffer_def Let_def)
    moreover have "0 \<le> v div priceD p" using v pd by (simp add: pos_imp_zdiv_nonneg_iff)
    ultimately show ?thesis using pd by (simp add: div_rounded_up_zero_iff)
  qed
qed

lemma takeSheepOffer_zero_iff:
  assumes p: "validPrice p" and v: "0 \<le> v" and r: "round \<noteq> PATH_PAYMENT_STRICT_SEND"
    and e: "takeSheepOffer p v L round = (w, s)"
  shows "w = 0 \<longleftrightarrow> s = 0"
proof -
  note pd = validPriceD(1,2) [OF p]
  show ?thesis
  proof (cases "priceN p > priceD p \<or> round = PATH_PAYMENT_STRICT_RECEIVE")
    case True
    then have "s = div_rounded (w * priceN p) (priceD p) ROUND_UP" "w = v div priceN p"
      using e r by (auto simp: takeSheepOffer_def Let_def)
    moreover have "0 \<le> v div priceN p" using v pd by (simp add: pos_imp_zdiv_nonneg_iff)
    ultimately show ?thesis using pd by (simp add: div_rounded_up_zero_iff)
  next
    case False
    then have "w = s * priceD p div priceN p" "s = v div priceD p"
      using e r by (auto simp: takeSheepOffer_def Let_def)
    moreover have "0 \<le> v div priceD p" using v pd by (simp add: pos_imp_zdiv_nonneg_iff)
    ultimately show ?thesis using False pd by (simp add: div_zero_of_ge)
  qed
qed

lemma exchangeExact_zero_iff:
  assumes p: "validPrice p" and l: "exchangeLimits ws wr ss sr"
    and r: "exchangeExact p ws wr ss sr round = r" and round: "round \<noteq> PATH_PAYMENT_STRICT_SEND"
  shows "wheatReceived10 r = 0 \<longleftrightarrow> sheepSend10 r = 0"
proof -
  let ?wv = "wheatOfferValue p ws sr" and ?sv = "sheepOfferValue p ss wr"
  have v: "0 \<le> ?wv" "0 \<le> ?sv" using p l by (simp_all add: offerValue_nonneg exchangeLimits_def)
  obtain w s where t: "takeSheepOffer p ?sv (min ss sr) round = (w, s)" by fastforce
  obtain w' s' where t': "takeWheatOffer p ?wv = (w', s')" by fastforce
  show ?thesis
    using takeSheepOffer_zero_iff [OF p v(2) round t] takeWheatOffer_zero_iff [OF p v(1) t'] r t t'
    by (auto simp: exchangeExact_def Let_def split: if_splits)
qed

section \<open>Adjusting an offer\<close>

lemma adjustOfferAmount_exact:
  assumes p: "validPrice p" and a: "isAmount ws" "isAmount sr"
    and t: "takeWheatOffer p (wheatOfferValue p ws sr) = (w, s)"
  shows "adjustOfferAmount p ws sr =
    Inr (if 0 < w \<and> 0 < s \<and> withinOnePercent p w s then w else 0)"
proof -
  note pd = validPriceD [OF p]
  have l: "exchangeLimits ws INT64_MAX INT64_MAX sr"
    using a by (auto simp: exchangeLimits_def isAmount_def)
  have "ws * priceN p \<le> INT64_MAX * priceN p" "sr * priceD p \<le> INT64_MAX * priceD p"
    using a pd by (auto simp: isAmount_def intro: mult_right_mono)
  then have "wheatOfferValue p ws sr \<le> sheepOfferValue p INT64_MAX INT64_MAX"
    by (auto simp: wheatOfferValue_def sheepOfferValue_def)
  with t have "exchangeExact p ws INT64_MAX INT64_MAX sr NORMAL =
      \<lparr>wheatReceived10 = w, sheepSend10 = s, wheatStays = False\<rparr>"
    by (simp add: exchangeExact_def Let_def)
  then show ?thesis
    by (simp add: adjustOfferAmount_def exchangeV10_exact [OF p l] Let_def)
qed

lemma takeWheatOffer_idem:
  assumes p: "validPrice p" and a: "isAmount ws" "isAmount sr"
    and t: "takeWheatOffer p (wheatOfferValue p ws sr) = (w, s)"
  shows "takeWheatOffer p (wheatOfferValue p w sr) = (w, s)"
proof -
  let ?v = "wheatOfferValue p ws sr"
  note pd = validPriceD(1,2) [OF p]
  note b = takeWheatOffer_bounds [OF p offerValue_nonneg(1) [OF p a] offerValue_le(1,2) [OF p] t]
  show ?thesis
  proof (cases "priceN p > priceD p")
    case True
    have w: "w = ?v div priceN p" and s: "s = w * priceN p div priceD p"
      using t True by (auto simp: takeWheatOffer_def Let_def)
    have "w * priceN p \<le> ?v" using pd w by (simp add: div_mult_le)
    then have "wheatOfferValue p w sr = w * priceN p"
      using offerValue_le(2) [OF p, of ws sr] by (simp add: wheatOfferValue_def)
    then show ?thesis using True pd s by (simp add: takeWheatOffer_def Let_def)
  next
    case False
    have s: "s = ?v div priceD p" and w: "w = div_rounded (s * priceD p) (priceN p) ROUND_UP"
      using t False by (auto simp: takeWheatOffer_def Let_def)
    let ?v' = "wheatOfferValue p w sr"
    have "s * priceD p \<le> ?v'"
      using b(5,6) offerValue_le(2) [OF p, of ws sr] by (simp add: wheatOfferValue_def)
    then have 1: "s \<le> ?v' div priceD p"
      using zdiv_mono1 [of "s * priceD p" ?v' "priceD p"] pd by simp
    have "w * priceN p \<le> ws * priceN p" using b(2) pd by (simp add: mult_right_mono)
    then have "?v' \<le> ?v" by (auto simp: wheatOfferValue_def min_def)
    then have "?v' div priceD p \<le> s" unfolding s using pd by (simp add: zdiv_mono1)
    with 1 have "?v' div priceD p = s" by simp
    then show ?thesis using False w by (simp add: takeWheatOffer_def Let_def)
  qed
qed


lemma adjustOfferAmount_cases:
  assumes p: "validPrice p" and a: "isAmount ws" "isAmount sr"
  obtains w s where "takeWheatOffer p (wheatOfferValue p ws sr) = (w, s)"
    "0 \<le> w" "w \<le> ws" "0 \<le> s" "s \<le> sr" "s * priceD p \<le> w * priceN p"
    "adjustOfferAmount p ws sr = Inr (if 0 < w \<and> 0 < s \<and> withinOnePercent p w s then w else 0)"
proof -
  obtain w s where t: "takeWheatOffer p (wheatOfferValue p ws sr) = (w, s)" by fastforce
  note b = takeWheatOffer_bounds [OF p offerValue_nonneg(1) [OF p a] offerValue_le(1,2) [OF p] t]
  from that [OF t b(1-5) adjustOfferAmount_exact [OF p a t]] show ?thesis .
qed

lemma takeWheatOffer_0:
  assumes "validPrice p"
  shows "takeWheatOffer p 0 = (0, 0)"
  using validPriceD [OF assms] by (auto simp: takeWheatOffer_def div_rounded_def)

lemma adjustOfferAmount_0:
  assumes p: "validPrice p" and a: "isAmount sr"
  shows "adjustOfferAmount p 0 sr = Inr 0"
proof -
  have "wheatOfferValue p 0 sr = 0"
    using a validPriceD [OF p] by (simp add: wheatOfferValue_def isAmount_def)
  then show ?thesis
    using adjustOfferAmount_exact [OF p _ a, of 0] takeWheatOffer_0 [OF p] by (simp add: isAmount_def INT64_MAX_def)
qed

lemma adjustOfferAmount_idem:
  assumes p: "validPrice p" and a: "isAmount ws" "isAmount sr" and e: "adjustOfferAmount p ws sr = Inr x"
  shows "isAmount x" "x \<le> ws" "adjustOfferAmount p x sr = Inr x"
proof -
  obtain w s where t: "takeWheatOffer p (wheatOfferValue p ws sr) = (w, s)" and b: "0 \<le> w" "w \<le> ws"
    and x: "x = (if 0 < w \<and> 0 < s \<and> withinOnePercent p w s then w else 0)"
    by (rule adjustOfferAmount_cases [OF p a]) (use e in auto)
  have w: "isAmount w" using b a(1) by (simp add: isAmount_def)
  show "isAmount x" using w x a by (auto simp: isAmount_def)
  show "x \<le> ws" using x a b by (auto simp: isAmount_def)
  show "adjustOfferAmount p x sr = Inr x"
  proof (cases "0 < w \<and> 0 < s \<and> withinOnePercent p w s")
    case True
    then show ?thesis
      using adjustOfferAmount_exact [OF p w a(2) takeWheatOffer_idem [OF p a t]] x by simp
  next
    case False
    then show ?thesis using adjustOfferAmount_0 [OF p a(2)] x by auto
  qed
qed

text \<open>An offer that the taker takes whole is exchanged exactly as \<^verbatim>\<open>adjustOffer\<close> foresaw.\<close>

lemma exchangeExact_adjusted:
  assumes p: "validPrice p" and l: "exchangeLimits ws wr ss sr" and pos: "0 < ws"
    and adj: "adjustOfferAmount p ws sr = Inr ws"
    and r: "exchangeExact p ws wr ss sr round = r" and st: "\<not> wheatStays r"
  shows "wheatReceived10 r = ws" "0 < sheepSend10 r" "withinOnePercent p ws (sheepSend10 r)"
proof -
  have a: "isAmount ws" "isAmount sr" using l by (auto simp: exchangeLimits_def)
  obtain w s where t: "takeWheatOffer p (wheatOfferValue p ws sr) = (w, s)"
    and x: "ws = (if 0 < w \<and> 0 < s \<and> withinOnePercent p w s then w else 0)"
    by (rule adjustOfferAmount_cases [OF p a]) (use adj in auto)
  have "0 < w \<and> 0 < s \<and> withinOnePercent p w s \<and> ws = w" using x pos by (auto split: if_splits)
  moreover have "r = \<lparr>wheatReceived10 = w, sheepSend10 = s, wheatStays = False\<rparr>"
    using r st t by (auto simp: exchangeExact_def Let_def split: prod.splits if_splits)
  ultimately show "wheatReceived10 r = ws" "0 < sheepSend10 r" "withinOnePercent p ws (sheepSend10 r)"
    by auto
qed

section \<open>The older exchanges in exact arithmetic\<close>

lemma saturated_quotient:
  assumes "isAmount A" "isAmount B" "0 < C" "C \<le> INT64_MAX"
  obtains q where "bigDivide_i64 A B C r = Inr q"
    "(case q of None \<Rightarrow> INT64_MAX | Some x \<Rightarrow> x) = min (div_rounded (A * B) C r) INT64_MAX"
    "q = None \<longleftrightarrow> INT64_MAX < div_rounded (A * B) C r"
  using that [of "if div_rounded (A * B) C r \<le> INT64_MAX then Some (div_rounded (A * B) C r) else None"]
    bigDivide_i64_exact [of A B C r] assms
  by (auto simp: isAmount_def Let_def)

lemma exchangeV2_exact:
  assumes p: "validPrice p" and a: "isAmount wheat" "isAmount wr" "isAmount ss"
  defines "s \<equiv> min (min wheat wr * priceN p div priceD p) ss"
  shows "exchangeV2 wheat p wr ss =
    Inr \<lparr>numWheatReceived = s * priceD p div priceN p, numSheepSend = s,
         reduced = (wheat > wr \<or> min (min wheat wr * priceN p div priceD p) INT64_MAX > ss)\<rparr>"
proof -
  note pd = validPriceD [OF p]
  let ?w = "min wheat wr"
  have w: "isAmount ?w" using a by (auto simp: min_def)
  obtain q where q: "bigDivide_i64 ?w (priceN p) (priceD p) ROUND_DOWN = Inr q"
    "(case q of None \<Rightarrow> INT64_MAX | Some x \<Rightarrow> x) = min (?w * priceN p div priceD p) INT64_MAX"
    using saturated_quotient [OF w pd(5,2,4), of ROUND_DOWN] by auto
  have s: "min (min (?w * priceN p div priceD p) INT64_MAX) ss = s"
    using a(3) by (auto simp: s_def isAmount_def)
  have "0 \<le> ?w * priceN p div priceD p"
    using w pd by (simp add: pos_imp_zdiv_nonneg_iff isAmount_def)
  then have sa: "isAmount s" using a(3) by (auto simp: s_def isAmount_def)
  have "s \<le> ?w * priceN p div priceD p" by (simp add: s_def)
  then have "s * priceD p \<le> ?w * priceN p"
    by (rule mult_le_of_le_div [OF pd(2)])
  then have "s * priceD p div priceN p \<le> ?w" by (rule div_le_of_le_mult [OF pd(1)])
  then have "s * priceD p div priceN p \<le> INT64_MAX"
    using w unfolding isAmount_def by linarith
  then have "bigDivide_throw s (priceD p) (priceN p) ROUND_DOWN = Inr (s * priceD p div priceN p)"
    using bigDivide_throw_exact [OF sa pd(6,1,3), of ROUND_DOWN] by simp
  then show ?thesis by (simp add: exchangeV2_def Let_def q s)
qed

lemma exchangeV3_exact:
  assumes p: "validPrice p" and a: "isAmount wheat" "isAmount wr" "isAmount ss"
  defines "q \<equiv> div_rounded (min wheat wr * priceN p) (priceD p) ROUND_UP"
  shows "exchangeV3 wheat p wr ss =
    Inr \<lparr>numWheatReceived = min (min wheat wr) (min q ss * priceD p div priceN p),
         numSheepSend = min q ss, reduced = (wheat > wr \<or> q > ss)\<rparr>"
proof -
  note pd = validPriceD [OF p]
  let ?w = "min wheat wr" and ?s = "min q ss"
  have w: "isAmount ?w" using a by (auto simp: min_def)
  obtain x where x: "bigDivide_i64 ?w (priceN p) (priceD p) ROUND_UP = Inr x"
    "(case x of None \<Rightarrow> INT64_MAX | Some x \<Rightarrow> x) = min q INT64_MAX" "x = None \<longleftrightarrow> INT64_MAX < q"
    using saturated_quotient [OF w pd(5,2,4), of ROUND_UP] unfolding q_def by auto
  have s: "min (min q INT64_MAX) ss = ?s" using a(3) by (auto simp: isAmount_def)
  have red: "(INT64_MAX < q \<or> min q INT64_MAX > ss) = (q > ss)" using a(3) by (auto simp: isAmount_def)
  have "0 \<le> q" using w pd by (simp add: q_def div_rounded_nonneg isAmount_def)
  then have sa: "isAmount ?s" using a(3) by (auto simp: isAmount_def)
  obtain y where y: "bigDivide_i64 ?s (priceD p) (priceN p) ROUND_DOWN = Inr y"
    "(case y of None \<Rightarrow> INT64_MAX | Some x \<Rightarrow> x) = min (?s * priceD p div priceN p) INT64_MAX"
    using saturated_quotient [OF sa pd(6,1,3), of ROUND_DOWN] by auto
  have "min ?w (min (?s * priceD p div priceN p) INT64_MAX) = min ?w (?s * priceD p div priceN p)"
    using w by (auto simp: isAmount_def)
  then show ?thesis
    unfolding exchangeV3_def Let_def x(1) numericTx_simps bindE_simps x(2,3) s y(1) y(2) using red
    by simp
qed

section \<open>Properties\<close>

text \<open>
  C18. Crossing two offers in the order book never throws, keeps within the four limits, and gives the
  rounding error to the offer that stays. Either both sellers get something, at a price within one
  percent of the price of the offer, or nothing is exchanged.
\<close>

theorem exchangeV10_normal:
  assumes "validPrice p" "exchangeLimits maxWheatSend maxWheatReceive maxSheepSend maxSheepReceive"
  shows "\<exists>r. exchangeV10 p maxWheatSend maxWheatReceive maxSheepSend maxSheepReceive NORMAL = Inr r
    \<and> 0 \<le> wheatReceived10 r \<and> wheatReceived10 r \<le> min maxWheatReceive maxWheatSend
    \<and> 0 \<le> sheepSend10 r \<and> sheepSend10 r \<le> min maxSheepReceive maxSheepSend
    \<and> favorsStayer p r
    \<and> (wheatStays r \<longleftrightarrow> min (maxSheepSend * priceD p) (maxWheatReceive * priceN p)
                          < min (maxWheatSend * priceN p) (maxSheepReceive * priceD p))
    \<and> (wheatReceived10 r = 0 \<and> sheepSend10 r = 0
       \<or> 0 < wheatReceived10 r \<and> 0 < sheepSend10 r
         \<and> withinOnePercent p (wheatReceived10 r) (sheepSend10 r))"
proof -
  let ?r = "exchangeExact p maxWheatSend maxWheatReceive maxSheepSend maxSheepReceive NORMAL"
  note b = exchangeExact_bounds [OF assms refl, of NORMAL]
    and z = exchangeExact_zero_iff [OF assms refl, of NORMAL]
    and f = exchangeExact_amounts(3) [OF assms refl, of NORMAL]
    and e = exchangeV10_exact [OF assms refl, of NORMAL]
  have st: "wheatStays ?r \<longleftrightarrow> sheepOfferValue p maxSheepSend maxWheatReceive
      < wheatOfferValue p maxWheatSend maxSheepReceive"
    by (simp add: exchangeExact_def Let_def split: prod.splits)
  have lim: "0 \<le> min maxWheatReceive maxWheatSend" "0 \<le> min maxSheepReceive maxSheepSend"
    using assms(2) by (auto simp: exchangeLimits_def isAmount_def)
  show ?thesis
  proof (cases "0 < wheatReceived10 ?r \<and> 0 < sheepSend10 ?r
      \<and> withinOnePercent p (wheatReceived10 ?r) (sheepSend10 ?r)")
    case True
    then show ?thesis using b(1-4) f e st
      by (intro exI [of _ ?r]) (simp add: sheepOfferValue_def wheatOfferValue_def)
  next
    case False
    then have "exchangeV10 p maxWheatSend maxWheatReceive maxSheepSend maxSheepReceive NORMAL =
        Inr (?r\<lparr>wheatReceived10 := 0, sheepSend10 := 0\<rparr>)"
      using e by (auto simp: Let_def)
    then show ?thesis using lim st
      by (intro exI [of _ "?r\<lparr>wheatReceived10 := 0, sheepSend10 := 0\<rparr>"])
        (simp add: favorsStayer_def sheepOfferValue_def wheatOfferValue_def)
  qed
qed

theorem exchangeV10_normal_witness:
  "\<exists>r. exchangeV10 \<lparr>priceN = 3, priceD = 2\<rparr> 101 28 500 41 NORMAL = Inr r
    \<and> favorsStayer \<lparr>priceN = 3, priceD = 2\<rparr> r"
  using exchangeV10_normal [of "\<lparr>priceN = 3, priceD = 2\<rparr>" 101 28 500 41]
  by (auto simp: validPrice_def exchangeLimits_def isAmount_def INT32_MAX_def INT64_MAX_def)

text \<open>
  C19. A path payment that crosses an adjusted offer never throws. If the offer is not used up, its
  owner is paid at least the price; a strict-receive payment that can afford all it wants gets
  exactly that for the least sheep that pay for it, and a strict-send payment sends all the sheep it
  can. If the offer is used up, it is taken whole and its owner loses at most one percent.
\<close>

theorem exchangeV10_path_payment:
  assumes "validPrice p" "exchangeLimits maxWheatSend maxWheatReceive maxSheepSend maxSheepReceive"
    and "0 < maxWheatSend" "0 < maxSheepSend" "0 < maxSheepReceive" "round \<noteq> NORMAL"
    and "adjustOfferAmount p maxWheatSend maxSheepReceive = Inr maxWheatSend"
  shows "\<exists>r. exchangeV10 p maxWheatSend maxWheatReceive maxSheepSend maxSheepReceive round = Inr r
    \<and> 0 \<le> wheatReceived10 r \<and> wheatReceived10 r \<le> min maxWheatReceive maxWheatSend
    \<and> 0 \<le> sheepSend10 r \<and> sheepSend10 r \<le> min maxSheepReceive maxSheepSend
    \<and> favorsStayer p r
    \<and> (\<not> wheatStays r \<longrightarrow> wheatReceived10 r = maxWheatSend
         \<and> withinOnePercent p maxWheatSend (sheepSend10 r))
    \<and> (wheatStays r \<longrightarrow> round = PATH_PAYMENT_STRICT_SEND \<longrightarrow>
         sheepSend10 r = min maxSheepSend maxSheepReceive)
    \<and> (wheatStays r \<longrightarrow> round = PATH_PAYMENT_STRICT_RECEIVE \<longrightarrow>
         maxWheatReceive * priceN p \<le> maxSheepSend * priceD p \<longrightarrow>
         wheatReceived10 r = maxWheatReceive
         \<and> sheepSend10 r = div_rounded (maxWheatReceive * priceN p) (priceD p) ROUND_UP)"
proof -
  let ?r = "exchangeExact p maxWheatSend maxWheatReceive maxSheepSend maxSheepReceive round"
  note pd = validPriceD [OF assms(1)]
  note b = exchangeExact_bounds [OF assms(1,2) refl, of round]
    and z = exchangeExact_zero_iff [OF assms(1,2) refl, of round]
    and f = exchangeExact_amounts(3) [OF assms(1,2) refl, of round]
    and e = exchangeV10_exact [OF assms(1,2) refl, of round]
    and adj = exchangeExact_adjusted [OF assms(1-3,7) refl, of round]
  let ?sv = "sheepOfferValue p maxSheepSend maxWheatReceive"
  have t: "takeSheepOffer p ?sv (min maxSheepSend maxSheepReceive) round
      = (wheatReceived10 ?r, sheepSend10 ?r)" if "wheatStays ?r"
    using that by (auto simp: exchangeExact_def Let_def split: prod.splits if_splits)
  have send: "sheepSend10 ?r = min maxSheepSend maxSheepReceive"
    if "wheatStays ?r" "round = PATH_PAYMENT_STRICT_SEND"
    using t [OF that(1)] that(2) by (simp add: takeSheepOffer_def)
  have recv: "wheatReceived10 ?r = maxWheatReceive
      \<and> sheepSend10 ?r = div_rounded (maxWheatReceive * priceN p) (priceD p) ROUND_UP"
    if "wheatStays ?r" "round = PATH_PAYMENT_STRICT_RECEIVE"
      "maxWheatReceive * priceN p \<le> maxSheepSend * priceD p"
    using t [OF that(1)] that(2,3) pd
    by (auto simp: takeSheepOffer_def sheepOfferValue_def min_def Let_def split: if_splits)
  have ok: "exchangeV10 p maxWheatSend maxWheatReceive maxSheepSend maxSheepReceive round = Inr ?r"
  proof (cases "wheatStays ?r")
    case False
    then show ?thesis using e adj assms(3) by (simp add: Let_def)
  next
    case True
    have w: "wheatReceived10 ?r * priceN p \<le> sheepSend10 ?r * priceD p" using f True
      by (simp add: favorsStayer_def)
    have "withinOnePercent p (wheatReceived10 ?r) (sheepSend10 ?r)
      \<or> wheatReceived10 ?r * priceN p < sheepSend10 ?r * priceD p"
    proof (cases "wheatReceived10 ?r * priceN p = sheepSend10 ?r * priceD p")
      case True
      have "0 \<le> wheatReceived10 ?r * priceN p" using b(1) pd by simp
      with True show ?thesis unfolding withinOnePercent_def by simp
    qed (use w in simp)
    moreover have "0 < sheepSend10 ?r" if "round = PATH_PAYMENT_STRICT_SEND"
      using send [OF True that] assms(4,5) by simp
    moreover have "?r\<lparr>wheatReceived10 := 0, sheepSend10 := 0\<rparr> = ?r"
      if "round \<noteq> PATH_PAYMENT_STRICT_SEND" "\<not> (0 < wheatReceived10 ?r \<and> 0 < sheepSend10 ?r)"
    proof -
      have "wheatReceived10 ?r = 0 \<and> sheepSend10 ?r = 0" using z [OF that(1)] that(2) b(1,3) by linarith
      then show ?thesis by (cases ?r) simp
    qed
    ultimately show ?thesis using e assms(6) by (auto simp: Let_def)
  qed
  show ?thesis
    using ok b(1-4) f adj send recv by (intro exI [of _ ?r]) blast
qed


theorem exchangeV10_path_payment_witness:
  "\<exists>r. exchangeV10 \<lparr>priceN = 2, priceD = 3\<rparr> 150 101 INT64_MAX 100 PATH_PAYMENT_STRICT_RECEIVE = Inr r
    \<and> favorsStayer \<lparr>priceN = 2, priceD = 3\<rparr> r"
proof -
  let ?p = "\<lparr>priceN = 2, priceD = 3\<rparr>"
  have p: "validPrice ?p" by (simp add: validPrice_def INT32_MAX_def)
  have l: "exchangeLimits 150 101 INT64_MAX 100"
    by (simp add: exchangeLimits_def isAmount_def INT64_MAX_def)
  have t: "takeWheatOffer ?p (wheatOfferValue ?p 150 100) = (150, 100)"
    by (simp add: takeWheatOffer_def wheatOfferValue_def div_rounded_def)
  have a: "adjustOfferAmount ?p 150 100 = Inr 150"
    using adjustOfferAmount_exact [OF p _ _ t] l
    by (simp add: exchangeLimits_def withinOnePercent_def)
  from exchangeV10_path_payment [OF p l _ _ _ _ a, of PATH_PAYMENT_STRICT_RECEIVE] show ?thesis
    by (auto simp: INT64_MAX_def)
qed

text \<open>
  C20. Adjusting an offer is total, never raises its amount and has no further effect on an offer that
  is adjusted; what it leaves is either nothing or an amount that a taker without limits can take
  whole with a rounding error below one percent.
\<close>

theorem adjustOffer_idempotent:
  assumes "validPrice p" "isAmount maxWheatSend" "isAmount maxSheepReceive"
  shows "\<exists>x. adjustOfferAmount p maxWheatSend maxSheepReceive = Inr x
    \<and> 0 \<le> x \<and> x \<le> maxWheatSend
    \<and> adjustOfferAmount p x maxSheepReceive = Inr x
    \<and> (x = 0 \<or> (\<exists>s. 0 < s \<and> s \<le> maxSheepReceive \<and> s * priceD p \<le> x * priceN p
                     \<and> withinOnePercent p x s))"
proof -
  obtain w s where b: "0 \<le> w" "w \<le> maxWheatSend" "0 \<le> s" "s \<le> maxSheepReceive"
      "s * priceD p \<le> w * priceN p"
    and x: "adjustOfferAmount p maxWheatSend maxSheepReceive =
      Inr (if 0 < w \<and> 0 < s \<and> withinOnePercent p w s then w else 0)" (is "_ = Inr ?x")
    by (rule adjustOfferAmount_cases [OF assms])
  note i = adjustOfferAmount_idem [OF assms x]
  have "?x = 0 \<or> (\<exists>s. 0 < s \<and> s \<le> maxSheepReceive \<and> s * priceD p \<le> ?x * priceN p
      \<and> withinOnePercent p ?x s)"
    using b by auto
  with x i show ?thesis by (intro exI [of _ ?x]) (auto simp: isAmount_def)
qed

theorem adjustOffer_idempotent_witness:
  "\<exists>x. adjustOfferAmount \<lparr>priceN = 2, priceD = 3\<rparr> 101 INT64_MAX = Inr x \<and> x \<le> 101
    \<and> adjustOfferAmount \<lparr>priceN = 2, priceD = 3\<rparr> x INT64_MAX = Inr x"
  using adjustOffer_idempotent [of "\<lparr>priceN = 2, priceD = 3\<rparr>" 101 INT64_MAX]
  by (auto simp: validPrice_def isAmount_def INT32_MAX_def INT64_MAX_def)

text \<open>
  C21. The exchanges of the older protocols never throw on amounts and a valid price, keep within the
  limits, never give the taker wheat below the price, and one that is not reduced by a limit sells
  all the wheat of the offer (version 3).
\<close>

theorem exchangeV2_V3_bounds:
  assumes "validPrice p" "isAmount wheat" "isAmount maxWheatReceive" "isAmount maxSheepSend"
  shows "(\<exists>r. exchangeV2 wheat p maxWheatReceive maxSheepSend = Inr r
      \<and> 0 \<le> numWheatReceived r \<and> numWheatReceived r \<le> min wheat maxWheatReceive
      \<and> 0 \<le> numSheepSend r \<and> numSheepSend r \<le> maxSheepSend
      \<and> numWheatReceived r * priceN p \<le> numSheepSend r * priceD p)
    \<and> (\<exists>r. exchangeV3 wheat p maxWheatReceive maxSheepSend = Inr r
      \<and> 0 \<le> numWheatReceived r \<and> numWheatReceived r \<le> min wheat maxWheatReceive
      \<and> 0 \<le> numSheepSend r \<and> numSheepSend r \<le> maxSheepSend
      \<and> numWheatReceived r * priceN p \<le> numSheepSend r * priceD p
      \<and> (reduced r \<or> numWheatReceived r = wheat))"
proof (intro conjI)
  note pd = validPriceD [OF assms(1)]
  let ?w = "min wheat maxWheatReceive"
  have w: "0 \<le> ?w" using assms(2,3) by (simp add: isAmount_def)
  have s0: "0 \<le> maxSheepSend" using assms(4) by (simp add: isAmount_def)
  let ?s = "min (?w * priceN p div priceD p) maxSheepSend"
  have q0: "0 \<le> ?w * priceN p div priceD p" using w pd by (simp add: pos_imp_zdiv_nonneg_iff)
  have "?s * priceD p \<le> ?w * priceN p" by (rule mult_le_of_le_div [OF pd(2)]) simp
  then have "?s * priceD p div priceN p \<le> ?w" by (rule div_le_of_le_mult [OF pd(1)])
  moreover have "0 \<le> ?s * priceD p div priceN p" using pd q0 s0 by (simp add: pos_imp_zdiv_nonneg_iff)
  ultimately show "\<exists>r. exchangeV2 wheat p maxWheatReceive maxSheepSend = Inr r
      \<and> 0 \<le> numWheatReceived r \<and> numWheatReceived r \<le> ?w
      \<and> 0 \<le> numSheepSend r \<and> numSheepSend r \<le> maxSheepSend
      \<and> numWheatReceived r * priceN p \<le> numSheepSend r * priceD p"
    unfolding exchangeV2_exact [OF assms] using pd q0 s0 div_mult_le [of "priceN p" "?s * priceD p"] by simp
  let ?q = "div_rounded (?w * priceN p) (priceD p) ROUND_UP"
  let ?b = "min ?q maxSheepSend * priceD p div priceN p"
  have "0 \<le> ?q" using w pd by (simp add: div_rounded_nonneg)
  then have b: "0 \<le> ?b" using pd s0 by (simp add: pos_imp_zdiv_nonneg_iff)
  have bn: "?b * priceN p \<le> min ?q maxSheepSend * priceD p" using pd by (simp add: div_mult_le)
  have "min ?w ?b * priceN p \<le> ?b * priceN p" using pd by (intro mult_right_mono) auto
  with bn have fav: "min ?w ?b * priceN p \<le> min ?q maxSheepSend * priceD p" by linarith
  have all: "?w \<le> ?b" if "?q \<le> maxSheepSend"
  proof -
    have "?w * priceN p \<le> min ?q maxSheepSend * priceD p"
      using that pd div_rounded_up_bounds(1) [of "priceD p" "?w * priceN p"] by simp
    then show ?thesis using zdiv_mono1 [of "?w * priceN p" _ "priceN p"] pd by fastforce
  qed
  have "?q > maxSheepSend \<or> wheat > maxWheatReceive \<or> min ?w ?b = wheat"
    using all by linarith
  moreover have "0 \<le> min ?w ?b" "min ?w ?b \<le> ?w" "0 \<le> min ?q maxSheepSend" "min ?q maxSheepSend \<le> maxSheepSend"
    using b w s0 \<open>0 \<le> ?q\<close> by linarith+
  ultimately show "\<exists>r. exchangeV3 wheat p maxWheatReceive maxSheepSend = Inr r
      \<and> 0 \<le> numWheatReceived r \<and> numWheatReceived r \<le> ?w
      \<and> 0 \<le> numSheepSend r \<and> numSheepSend r \<le> maxSheepSend
      \<and> numWheatReceived r * priceN p \<le> numSheepSend r * priceD p
      \<and> (reduced r \<or> numWheatReceived r = wheat)"
    unfolding exchangeV3_exact [OF assms] Inr_inject using fav
    by (intro exI conjI) (rule refl, unfold ExchangeResult.simps, blast+)
qed

theorem exchangeV2_V3_bounds_witness:
  "\<exists>r. exchangeV3 7 \<lparr>priceN = 3, priceD = 2\<rparr> 100 100 = Inr r
    \<and> numWheatReceived r * 3 \<le> numSheepSend r * 2 \<and> (reduced r \<or> numWheatReceived r = 7)"
  using exchangeV2_V3_bounds [of "\<lparr>priceN = 3, priceD = 2\<rparr>" 7 100 100]
  by (auto simp: validPrice_def isAmount_def INT32_MAX_def INT64_MAX_def)

end
