(* ===== verification/LedgerEntries.thy ===== *)
theory LedgerEntries
  imports Exchange
begin

text \<open>
  The ledger: the entries of \<^verbatim>\<open>xdr/DigitalBits-ledger-entries.x\<close>, the header of
  \<^verbatim>\<open>xdr/DigitalBits-ledger.x\<close>, the sponsorships of \<^verbatim>\<open>ledger/InternalLedgerEntry.h\<close> and a ledger
  state as the transactions see it through a \<^verbatim>\<open>LedgerTxn\<close>: a finite map from keys to entries. XDR
  unions are \<open>datatype\<close>s, extension points are options, \<^verbatim>\<open>int64\<close> amounts are \<open>int\<close>s and unsigned
  counters are words.
\<close>

section \<open>Entries\<close>

type_synonym AccountID = nat
type_synonym bytes = "8 word list"

datatype Asset =
    ASSET_TYPE_NATIVE
  | ASSET_TYPE_CREDIT_ALPHANUM4 bytes AccountID
  | ASSET_TYPE_CREDIT_ALPHANUM12 bytes AccountID

record Liabilities =
  liabBuying :: int
  liabSelling :: int

datatype SignerKey =
    SIGNER_KEY_TYPE_ED25519 nat
  | SIGNER_KEY_TYPE_PRE_AUTH_TX nat
  | SIGNER_KEY_TYPE_HASH_X nat

record Signer =
  signerKey :: SignerKey
  signerWeight :: uint32

record AccountEntryExtensionV2 =
  numSponsored :: uint32
  numSponsoring :: uint32
  signerSponsoringIDs :: "AccountID option list"

record AccountEntryExtensionV1 =
  v1Liabilities :: Liabilities
  v1Ext :: "AccountEntryExtensionV2 option"

record AccountEntry =
  accountID :: AccountID
  accBalance :: int
  seqNum :: int
  numSubEntries :: uint32
  inflationDest :: "AccountID option"
  accFlags :: uint32
  homeDomain :: string
  thresholds :: bytes
  signers :: "Signer list"
  accExt :: "AccountEntryExtensionV1 option"

record TrustLineEntry =
  tlAccountID :: AccountID
  tlAsset :: Asset
  tlBalance :: int
  tlLimit :: int
  tlFlags :: uint32
  tlExt :: "Liabilities option"

record OfferEntry =
  sellerID :: AccountID
  offerID :: int
  selling :: Asset
  buying :: Asset
  offerAmount :: int
  offerPrice :: Price
  offerFlags :: uint32

record DataEntry =
  dataAccountID :: AccountID
  dataName :: string
  dataValue :: bytes

datatype ClaimPredicate =
    CLAIM_PREDICATE_UNCONDITIONAL
  | CLAIM_PREDICATE_AND "ClaimPredicate list"
  | CLAIM_PREDICATE_OR "ClaimPredicate list"
  | CLAIM_PREDICATE_NOT "ClaimPredicate option"
  | CLAIM_PREDICATE_BEFORE_ABSOLUTE_TIME int
  | CLAIM_PREDICATE_BEFORE_RELATIVE_TIME int

record Claimant =
  destination :: AccountID
  predicate :: ClaimPredicate

record ClaimableBalanceEntry =
  balanceID :: Hash
  claimants :: "Claimant list"
  cbAsset :: Asset
  cbAmount :: int

datatype LedgerEntryData =
    ACCOUNT AccountEntry
  | TRUSTLINE TrustLineEntry
  | OFFER OfferEntry
  | DATA DataEntry
  | CLAIMABLE_BALANCE ClaimableBalanceEntry

text \<open>
  \<open>ledgerExt\<close> is \<^verbatim>\<open>ext\<close>: \<open>None\<close> is version 0, \<open>Some\<close> the \<^verbatim>\<open>sponsoringID\<close> of version 1.
\<close>

record LedgerEntry =
  lastModifiedLedgerSeq :: uint32
  ledgerData :: LedgerEntryData
  ledgerExt :: "AccountID option option"

datatype LedgerKey =
    AccountKey AccountID
  | TrustLineKey AccountID Asset
  | OfferKey AccountID int
  | DataKey AccountID string
  | ClaimableBalanceKey Hash

primrec dataKeyOf :: "LedgerEntryData \<Rightarrow> LedgerKey" where
  "dataKeyOf (ACCOUNT a) = AccountKey (accountID a)"
| "dataKeyOf (TRUSTLINE t) = TrustLineKey (tlAccountID t) (tlAsset t)"
| "dataKeyOf (OFFER off) = OfferKey (sellerID off) (offerID off)"
| "dataKeyOf (DATA d) = DataKey (dataAccountID d) (dataName d)"
| "dataKeyOf (CLAIMABLE_BALANCE c) = ClaimableBalanceKey (balanceID c)"

definition LedgerEntryKey :: "LedgerEntry \<Rightarrow> LedgerKey" where
  "LedgerEntryKey le = dataKeyOf (ledgerData le)"

text \<open>The accessors of the union throw on another arm.\<close>

definition accountOf :: "LedgerEntry \<Rightarrow> AccountEntry tx" where
  "accountOf le = (case ledgerData le of ACCOUNT a \<Rightarrow> Inr a | _ \<Rightarrow> Inl WrongUnion)"

definition trustLineOf :: "LedgerEntry \<Rightarrow> TrustLineEntry tx" where
  "trustLineOf le = (case ledgerData le of TRUSTLINE t \<Rightarrow> Inr t | _ \<Rightarrow> Inl WrongUnion)"

definition offerOf :: "LedgerEntry \<Rightarrow> OfferEntry tx" where
  "offerOf le = (case ledgerData le of OFFER off \<Rightarrow> Inr off | _ \<Rightarrow> Inl WrongUnion)"

definition getIssuer :: "Asset \<Rightarrow> AccountID tx" where
  "getIssuer asset =
     (case asset of
        ASSET_TYPE_NATIVE \<Rightarrow> Inl WrongUnion
      | ASSET_TYPE_CREDIT_ALPHANUM4 code issuer \<Rightarrow> Inr issuer
      | ASSET_TYPE_CREDIT_ALPHANUM12 code issuer \<Rightarrow> Inr issuer)"

section \<open>Header and state\<close>

record LedgerHeader =
  ledgerVersion :: uint32
  previousLedgerHash :: Hash
  closeTime :: uint64
  ledgerSeq :: uint32
  totalCoins :: int
  feePool :: int
  inflationSeq :: uint32
  idPool :: uint64
  baseFee :: uint32
  baseReserve :: uint32
  maxTxSetSize :: uint32

fun putAssoc :: "'k \<Rightarrow> 'v \<Rightarrow> ('k \<times> 'v) list \<Rightarrow> ('k \<times> 'v) list" where
  "putAssoc k v [] = [(k, v)]"
| "putAssoc k v ((k', v') # m) = (if k' = k then (k, v) # m else (k', v') # putAssoc k v m)"

definition eraseAssoc :: "'k \<Rightarrow> ('k \<times> 'v) list \<Rightarrow> ('k \<times> 'v) list" where
  "eraseAssoc k m = filter (\<lambda>e. fst e \<noteq> k) m"

text \<open>
  A state is what a transaction sees: the header, the entries by key, the sponsoring account of each
  account that is being sponsored and the number of accounts each account is sponsoring.
\<close>

record LedgerState =
  lsHeader :: LedgerHeader
  lsEntries :: "(LedgerKey \<times> LedgerEntry) list"
  lsSponsorships :: "(AccountID \<times> AccountID) list"
  lsCounters :: "(AccountID \<times> int) list"

definition loadEntry :: "LedgerState \<Rightarrow> LedgerKey \<Rightarrow> LedgerEntry option" where
  "loadEntry ls k = map_of (lsEntries ls) k"

definition storeEntry :: "LedgerEntry \<Rightarrow> LedgerState \<Rightarrow> LedgerState" where
  "storeEntry le ls = ls\<lparr>lsEntries := putAssoc (LedgerEntryKey le) le (lsEntries ls)\<rparr>"

definition eraseEntry :: "LedgerKey \<Rightarrow> LedgerState \<Rightarrow> LedgerState" where
  "eraseEntry k ls = ls\<lparr>lsEntries := eraseAssoc k (lsEntries ls)\<rparr>"

text \<open>The current value of a handle, which throws if the load found nothing.\<close>

definition current :: "LedgerEntry option \<Rightarrow> LedgerEntry tx" where
  "current h = (case h of None \<Rightarrow> Inl (TxRuntimeError ''LedgerTxnEntry not active'') | Some le \<Rightarrow> Inr le)"

section \<open>The map behind the state\<close>

text \<open>
  What the operations rely on: a lookup after a write or an erasure, and that a sum over the entries
  changes by the entry written.
\<close>

definition sumAssoc :: "('k \<Rightarrow> 'v \<Rightarrow> int) \<Rightarrow> ('k \<times> 'v) list \<Rightarrow> int" where
  "sumAssoc f m = (\<Sum>e \<leftarrow> m. f (fst e) (snd e))"

definition weightAt :: "('k \<Rightarrow> 'v \<Rightarrow> int) \<Rightarrow> 'k \<Rightarrow> 'v option \<Rightarrow> int" where
  "weightAt f k v = (case v of None \<Rightarrow> 0 | Some x \<Rightarrow> f k x)"

lemma weightAt_simps [simp]: "weightAt f k None = 0" "weightAt f k (Some x) = f k x"
  by (simp_all add: weightAt_def)

lemma map_of_putAssoc [simp]: "map_of (putAssoc k v m) = (map_of m)(k \<mapsto> v)"
  by (induction k v m rule: putAssoc.induct) (auto simp: fun_eq_iff)

lemma map_of_eraseAssoc: "map_of (eraseAssoc k m) k' = (if k' = k then None else map_of m k')"
  by (induction m) (auto simp: eraseAssoc_def)

lemma set_keys_putAssoc: "fst ` set (putAssoc k v m) = insert k (fst ` set m)"
  by (induction k v m rule: putAssoc.induct) auto

lemma distinct_putAssoc [simp]: "distinct (map fst m) \<Longrightarrow> distinct (map fst (putAssoc k v m))"
proof (induction k v m rule: putAssoc.induct)
  case (2 k v k' v' m)
  then show ?case using set_keys_putAssoc [of k v m] by auto
qed simp

lemma distinct_eraseAssoc [simp]: "distinct (map fst m) \<Longrightarrow> distinct (map fst (eraseAssoc k m))"
  by (simp add: eraseAssoc_def distinct_map_filter)

lemma sumAssoc_putAssoc:
  "sumAssoc f (putAssoc k v m) = sumAssoc f m + f k v - weightAt f k (map_of m k)"
  by (induction k v m rule: putAssoc.induct) (auto simp: sumAssoc_def)

lemma eraseAssoc_absent: "k \<notin> fst ` set m \<Longrightarrow> eraseAssoc k m = m"
  by (induction m) (auto simp: eraseAssoc_def)

lemma sumAssoc_eraseAssoc:
  "distinct (map fst m) \<Longrightarrow> sumAssoc f (eraseAssoc k m) = sumAssoc f m - weightAt f k (map_of m k)"
proof (induction m)
  case (Cons e m)
  show ?case
  proof (cases "fst e = k")
    case True
    then have "eraseAssoc k (e # m) = m"
      using Cons.prems eraseAssoc_absent [of k m] by (auto simp: eraseAssoc_def)
    then show ?thesis using True by (cases e) (auto simp: sumAssoc_def)
  next
    case False
    then show ?thesis using Cons by (cases e) (auto simp: sumAssoc_def eraseAssoc_def)
  qed
qed (simp add: sumAssoc_def eraseAssoc_def)

locale entry_store =
  fixes get :: "'s \<Rightarrow> 'k \<Rightarrow> 'v option"
    and put :: "'v \<Rightarrow> 's \<Rightarrow> 's"
    and erase :: "'k \<Rightarrow> 's \<Rightarrow> 's"
    and key :: "'v \<Rightarrow> 'k"
    and wf :: "'s \<Rightarrow> bool"
    and total :: "('k \<Rightarrow> 'v \<Rightarrow> int) \<Rightarrow> 's \<Rightarrow> int"
  assumes get_put: "get (put v s) k = (if k = key v then Some v else get s k)"
    and get_erase: "get (erase k s) k' = (if k' = k then None else get s k')"
    and wf_put: "wf s \<Longrightarrow> wf (put v s)"
    and wf_erase: "wf s \<Longrightarrow> wf (erase k s)"
    and total_put: "total f (put v s) = total f s + f (key v) v - weightAt f (key v) (get s (key v))"
    and total_erase: "wf s \<Longrightarrow> total f (erase k s) = total f s - weightAt f k (get s k)"
begin

lemma get_put_same [simp]: "get (put v s) (key v) = Some v"
  by (simp add: get_put)

lemma get_put_other: "k \<noteq> key v \<Longrightarrow> get (put v s) k = get s k"
  by (simp add: get_put)

lemma total_put_same_weight:
  assumes "get s (key v) = Some v'" "f (key v) v = f (key v) v'"
  shows "total f (put v s) = total f s"
  using assms by (simp add: total_put)

lemma total_put_delta:
  assumes "get s (key v) = Some v'" "f (key v) v = f (key v) v' + d"
  shows "total f (put v s) = total f s + d"
  using assms by (simp add: total_put)

lemma total_transfer:
  assumes "get s (key v) = Some v'" "get s (key w) = Some w'" "key v \<noteq> key w"
    and "f (key v) v + f (key w) w = f (key v) v' + f (key w) w'"
  shows "total f (put w (put v s)) = total f s"
  using assms by (simp add: total_put get_put)

end

definition stateWf :: "LedgerState \<Rightarrow> bool" where
  "stateWf ls \<longleftrightarrow> distinct (map fst (lsEntries ls))
     \<and> (\<forall>e \<in> set (lsEntries ls). fst e = LedgerEntryKey (snd e))"

definition totalOver :: "(LedgerKey \<Rightarrow> LedgerEntry \<Rightarrow> int) \<Rightarrow> LedgerState \<Rightarrow> int" where
  "totalOver f ls = sumAssoc f (lsEntries ls)"

lemma set_putAssoc: "e \<in> set (putAssoc k v m) \<Longrightarrow> e = (k, v) \<or> e \<in> set m"
  by (induction k v m rule: putAssoc.induct) (auto split: if_splits)

interpretation lst: entry_store loadEntry storeEntry eraseEntry LedgerEntryKey stateWf totalOver
proof unfold_locales
  show "stateWf (storeEntry v s)" if "stateWf s" for v s
    using that by (auto simp: stateWf_def storeEntry_def dest: set_putAssoc)
  show "stateWf (eraseEntry k s)" if "stateWf s" for k s
    using that by (auto simp: stateWf_def eraseEntry_def) (auto simp: eraseAssoc_def)
qed (auto simp: loadEntry_def storeEntry_def eraseEntry_def map_of_eraseAssoc totalOver_def
      sumAssoc_putAssoc sumAssoc_eraseAssoc stateWf_def)

lemma loadEntry_key: "stateWf ls \<Longrightarrow> loadEntry ls k = Some le \<Longrightarrow> LedgerEntryKey le = k"
  by (auto simp: stateWf_def loadEntry_def dest!: map_of_SomeD)

lemma storeEntry_other [simp]:
  "lsHeader (storeEntry le ls) = lsHeader ls" "lsSponsorships (storeEntry le ls) = lsSponsorships ls"
  "lsCounters (storeEntry le ls) = lsCounters ls"
  by (simp_all add: storeEntry_def)

lemma eraseEntry_other [simp]:
  "lsHeader (eraseEntry k ls) = lsHeader ls" "lsSponsorships (eraseEntry k ls) = lsSponsorships ls"
  "lsCounters (eraseEntry k ls) = lsCounters ls"
  by (simp_all add: eraseEntry_def)

end
