(* ===== verification/TransactionUtils.thy ===== *)
theory TransactionUtils
  imports LedgerEntries
begin

unbundle bit_operations_syntax

text \<open>
  \<^verbatim>\<open>transactions/TransactionUtils.cpp\<close>, \<^verbatim>\<open>ledger/TrustLineWrapper.cpp\<close> and \<^verbatim>\<open>util/types.cpp\<close>: balances,
  reserves and liabilities of accounts and trust lines. A function that returns \<^verbatim>\<open>bool\<close> and updates
  its entry on success returns \<open>None\<close> for \<^verbatim>\<open>false\<close>, leaving the entry as it was, and the updated entry
  for \<^verbatim>\<open>true\<close>. Sums of \<^verbatim>\<open>int64_t\<close> amounts are sums of integers; the lemmas show that they stay in range
  on the entries that the validity conditions describe.
\<close>

section \<open>Extensions\<close>

definition noLiabilities :: Liabilities where
  "noLiabilities = \<lparr>liabBuying = 0, liabSelling = 0\<rparr>"

definition prepareAccountEntryExtensionV1 :: "AccountEntry \<Rightarrow> AccountEntryExtensionV1" where
  "prepareAccountEntryExtensionV1 ae =
     (case accExt ae of None \<Rightarrow> \<lparr>v1Liabilities = noLiabilities, v1Ext = None\<rparr> | Some v1 \<Rightarrow> v1)"

definition prepareAccountEntryExtensionV2 :: "AccountEntry \<Rightarrow> AccountEntryExtensionV2" where
  "prepareAccountEntryExtensionV2 ae =
     (case v1Ext (prepareAccountEntryExtensionV1 ae) of
        None \<Rightarrow> \<lparr>numSponsored = 0, numSponsoring = 0,
                 signerSponsoringIDs = replicate (length (signers ae)) None\<rparr>
      | Some v2 \<Rightarrow> v2)"

definition setAccountEntryExtensionV2 :: "AccountEntryExtensionV2 \<Rightarrow> AccountEntry \<Rightarrow> AccountEntry" where
  "setAccountEntryExtensionV2 v2 ae =
     ae\<lparr>accExt := Some ((prepareAccountEntryExtensionV1 ae)\<lparr>v1Ext := Some v2\<rparr>)\<rparr>"

definition prepareTrustLineEntryExtensionV1 :: "TrustLineEntry \<Rightarrow> Liabilities" where
  "prepareTrustLineEntryExtensionV1 line = (case tlExt line of None \<Rightarrow> noLiabilities | Some l \<Rightarrow> l)"

definition prepareLedgerEntryExtensionV1 :: "LedgerEntry \<Rightarrow> AccountID option" where
  "prepareLedgerEntryExtensionV1 le = (case ledgerExt le of None \<Rightarrow> None | Some sponsoringID \<Rightarrow> sponsoringID)"

definition getAccountEntryExtensionV2 :: "AccountEntry \<Rightarrow> AccountEntryExtensionV2 tx" where
  "getAccountEntryExtensionV2 ae =
     (case accExt ae of
        None \<Rightarrow> Inl (TxRuntimeError ''expected AccountEntry extension V2'')
      | Some v1 \<Rightarrow> (case v1Ext v1 of
          None \<Rightarrow> Inl (TxRuntimeError ''expected AccountEntry extension V2'')
        | Some v2 \<Rightarrow> Inr v2))"

definition getLedgerEntryExtensionV1 :: "LedgerEntry \<Rightarrow> AccountID option tx" where
  "getLedgerEntryExtensionV1 le =
     (case ledgerExt le of
        None \<Rightarrow> Inl (TxRuntimeError ''expected LedgerEntry extension V1'')
      | Some sponsoringID \<Rightarrow> Inr sponsoringID)"

definition hasAccountEntryExtV2 :: "AccountEntry \<Rightarrow> bool" where
  "hasAccountEntryExtV2 ae = (case accExt ae of None \<Rightarrow> False | Some v1 \<Rightarrow> v1Ext v1 \<noteq> None)"

section \<open>Authorization\<close>

definition AUTHORIZED_FLAG :: uint32 where "AUTHORIZED_FLAG = 1"
definition AUTHORIZED_TO_MAINTAIN_LIABILITIES_FLAG :: uint32 where
  "AUTHORIZED_TO_MAINTAIN_LIABILITIES_FLAG = 2"
definition MASK_TRUSTLINE_FLAGS :: uint32 where "MASK_TRUSTLINE_FLAGS = 1"
definition MASK_TRUSTLINE_FLAGS_V13 :: uint32 where "MASK_TRUSTLINE_FLAGS_V13 = 3"

definition isAuthorized :: "TrustLineEntry \<Rightarrow> bool" where
  "isAuthorized line \<longleftrightarrow> tlFlags line AND AUTHORIZED_FLAG \<noteq> 0"

definition isAuthorizedToMaintainLiabilities :: "TrustLineEntry \<Rightarrow> bool" where
  "isAuthorizedToMaintainLiabilities line \<longleftrightarrow>
     isAuthorized line \<or> tlFlags line AND AUTHORIZED_TO_MAINTAIN_LIABILITIES_FLAG \<noteq> 0"

definition checkAuthorization :: "LedgerHeader \<Rightarrow> TrustLineEntry \<Rightarrow> bool tx" where
  "checkAuthorization header line =
     (if ledgerVersion header < 10 then Inr (isAuthorized line)
      else if \<not> isAuthorizedToMaintainLiabilities line then
        Inl (TxRuntimeError ''Invalid authorization'')
      else Inr True)"

definition trustLineFlagIsValid :: "uint32 \<Rightarrow> uint32 \<Rightarrow> bool" where
  "trustLineFlagIsValid flag version =
     (if version < 13 then flag AND NOT MASK_TRUSTLINE_FLAGS = 0
      else let invalidAuthCombo = AUTHORIZED_FLAG OR AUTHORIZED_TO_MAINTAIN_LIABILITIES_FLAG
           in flag AND NOT MASK_TRUSTLINE_FLAGS_V13 = 0
              \<and> flag AND invalidAuthCombo \<noteq> invalidAuthCombo)"

definition setAuthorized :: "LedgerHeader \<Rightarrow> uint32 \<Rightarrow> TrustLineEntry \<Rightarrow> TrustLineEntry tx" where
  "setAuthorized header authorized line =
     (if \<not> trustLineFlagIsValid authorized (ledgerVersion header) then
        Inl (TxRuntimeError ''trying to set invalid trust line flag'')
      else Inr (line\<lparr>tlFlags := authorized\<rparr>))"

section \<open>Reserves and liabilities\<close>

text \<open>
  Up to version 8 the product is computed in \<^verbatim>\<open>uint32_t\<close> and wraps.
\<close>

definition getMinBalanceFor :: "LedgerHeader \<Rightarrow> uint32 \<Rightarrow> uint32 \<Rightarrow> uint32 \<Rightarrow> int tx" where
  "getMinBalanceFor lh subentries sponsoring sponsored =
     (if ledgerVersion lh < 14 \<and> (sponsored \<noteq> 0 \<or> sponsoring \<noteq> 0) then
        Inl (TxRuntimeError ''unexpected sponsorship state'')
      else if ledgerVersion lh \<le> 8 then Inr (uint ((2 + subentries) * baseReserve lh))
      else let effEntries = 2 + uint subentries + uint sponsoring - uint sponsored
           in if effEntries < 0 then Inl (TxRuntimeError ''unexpected account state'')
              else Inr (effEntries * uint (baseReserve lh)))"

definition getMinBalance :: "LedgerHeader \<Rightarrow> AccountEntry \<Rightarrow> int tx" where
  "getMinBalance header acc =
     (let (sponsoring, sponsored) =
        (if ledgerVersion header \<ge> 14 \<and> hasAccountEntryExtV2 acc
         then (numSponsoring (prepareAccountEntryExtensionV2 acc),
               numSponsored (prepareAccountEntryExtensionV2 acc))
         else (0, 0))
      in getMinBalanceFor header (numSubEntries acc) sponsoring sponsored)"

definition accLiabilities :: "AccountEntry \<Rightarrow> Liabilities" where
  "accLiabilities acc = (case accExt acc of None \<Rightarrow> noLiabilities | Some v1 \<Rightarrow> v1Liabilities v1)"

definition tlLiabilities :: "TrustLineEntry \<Rightarrow> Liabilities" where
  "tlLiabilities line = (case tlExt line of None \<Rightarrow> noLiabilities | Some l \<Rightarrow> l)"

definition getBuyingLiabilities :: "LedgerHeader \<Rightarrow> LedgerEntry \<Rightarrow> int tx" where
  "getBuyingLiabilities header le =
     (if ledgerVersion header < 10 then
        Inl (TxRuntimeError ''Liabilities accessed before version 10'')
      else case ledgerData le of
        ACCOUNT acc \<Rightarrow> Inr (liabBuying (accLiabilities acc))
      | TRUSTLINE line \<Rightarrow> Inr (liabBuying (tlLiabilities line))
      | _ \<Rightarrow> Inl (TxRuntimeError ''Unknown LedgerEntry type''))"

definition getSellingLiabilities :: "LedgerHeader \<Rightarrow> LedgerEntry \<Rightarrow> int tx" where
  "getSellingLiabilities header le =
     (if ledgerVersion header < 10 then
        Inl (TxRuntimeError ''Liabilities accessed before version 10'')
      else case ledgerData le of
        ACCOUNT acc \<Rightarrow> Inr (liabSelling (accLiabilities acc))
      | TRUSTLINE line \<Rightarrow> Inr (liabSelling (tlLiabilities line))
      | _ \<Rightarrow> Inl (TxRuntimeError ''Unknown LedgerEntry type''))"

definition getAvailableBalance :: "LedgerHeader \<Rightarrow> LedgerEntry \<Rightarrow> int tx" where
  "getAvailableBalance header le =
     bindE
       (case ledgerData le of
          ACCOUNT acc \<Rightarrow> bindE (getMinBalance header acc) (\<lambda>minBalance. Inr (accBalance acc - minBalance))
        | TRUSTLINE line \<Rightarrow> bindE (checkAuthorization header line) (\<lambda>_. Inr (tlBalance line))
        | _ \<Rightarrow> Inl (TxRuntimeError ''Unknown LedgerEntry type''))
       (\<lambda>avail.
     if ledgerVersion header \<ge> 10 then
       bindE (getSellingLiabilities header le) (\<lambda>s. Inr (avail - s))
     else Inr avail)"

definition getMaxAmountReceive :: "LedgerHeader \<Rightarrow> LedgerEntry \<Rightarrow> int tx" where
  "getMaxAmountReceive header le =
     (case ledgerData le of
        ACCOUNT acc \<Rightarrow>
          if ledgerVersion header \<ge> 10 then
            bindE (getBuyingLiabilities header le) (\<lambda>b. Inr (INT64_MAX - (accBalance acc + b)))
          else Inr INT64_MAX
      | TRUSTLINE line \<Rightarrow>
          bindE (checkAuthorization header line) (\<lambda>auth.
          if \<not> auth then Inr 0
          else if ledgerVersion header \<ge> 10 then
            bindE (getBuyingLiabilities header le) (\<lambda>b. Inr (tlLimit line - tlBalance line - b))
          else Inr (tlLimit line - tlBalance line))
      | _ \<Rightarrow> Inl (TxRuntimeError ''Unknown LedgerEntry type''))"

definition getMinimumLimit :: "LedgerHeader \<Rightarrow> LedgerEntry \<Rightarrow> int tx" where
  "getMinimumLimit header le =
     bindE (trustLineOf le) (\<lambda>line.
     if ledgerVersion header \<ge> 10 then
       bindE (getBuyingLiabilities header le) (\<lambda>b. Inr (tlBalance line + b))
     else Inr (tlBalance line))"

section \<open>Changing balances and liabilities\<close>

text \<open>\<^verbatim>\<open>addBalance(int64_t& balance, int64_t delta, int64_t maxBalance)\<close>.\<close>

definition addBalanceTo :: "int \<Rightarrow> int \<Rightarrow> int \<Rightarrow> int option tx" where
  "addBalanceTo balance delta maxBalance =
     (if \<not> balance \<ge> 0 \<or> \<not> maxBalance \<ge> 0 then Inl AssertFailed
      else if delta = 0 then Inr (Some balance)
      else if delta < - balance then Inr None
      else if maxBalance - balance < delta then Inr None
      else Inr (Some (balance + delta)))"

definition addBalance :: "LedgerHeader \<Rightarrow> LedgerEntry \<Rightarrow> int \<Rightarrow> LedgerEntry option tx" where
  "addBalance header entry delta =
     (case ledgerData entry of
        ACCOUNT acc \<Rightarrow>
          if delta = 0 then Inr (Some entry)
          else bindE (addBalanceTo (accBalance acc) delta INT64_MAX) (\<lambda>r.
            case r of
              None \<Rightarrow> Inr None
            | Some newBalance \<Rightarrow>
                let success = Inr (Some (entry\<lparr>ledgerData := ACCOUNT (acc\<lparr>accBalance := newBalance\<rparr>)\<rparr>))
                in if ledgerVersion header \<ge> 10 then
                     bindE (getMinBalance header acc) (\<lambda>minBalance.
                     bindE (getSellingLiabilities header entry) (\<lambda>s.
                     bindE (getBuyingLiabilities header entry) (\<lambda>b.
                     if delta < 0 \<and> newBalance - minBalance < s then Inr None
                     else if newBalance > INT64_MAX - b then Inr None
                     else success)))
                   else success)
      | TRUSTLINE line \<Rightarrow>
          if delta = 0 then Inr (Some entry)
          else bindE (checkAuthorization header line) (\<lambda>auth.
            if \<not> auth then Inr None
            else bindE (addBalanceTo (tlBalance line) delta (tlLimit line)) (\<lambda>r.
              case r of
                None \<Rightarrow> Inr None
              | Some newBalance \<Rightarrow>
                  let success = Inr (Some (entry\<lparr>ledgerData := TRUSTLINE (line\<lparr>tlBalance := newBalance\<rparr>)\<rparr>))
                  in if ledgerVersion header \<ge> 10 then
                       bindE (getSellingLiabilities header entry) (\<lambda>s.
                       bindE (getBuyingLiabilities header entry) (\<lambda>b.
                       if newBalance < s then Inr None
                       else if newBalance > tlLimit line - b then Inr None
                       else success))
                     else success))
      | _ \<Rightarrow> Inl (TxRuntimeError ''Unknown LedgerEntry type''))"

definition setAccBuying :: "int \<Rightarrow> AccountEntry \<Rightarrow> AccountEntry" where
  "setAccBuying b acc =
     (let v1 = prepareAccountEntryExtensionV1 acc
      in acc\<lparr>accExt := Some (v1\<lparr>v1Liabilities := (v1Liabilities v1)\<lparr>liabBuying := b\<rparr>\<rparr>)\<rparr>)"

definition setAccSelling :: "int \<Rightarrow> AccountEntry \<Rightarrow> AccountEntry" where
  "setAccSelling s acc =
     (let v1 = prepareAccountEntryExtensionV1 acc
      in acc\<lparr>accExt := Some (v1\<lparr>v1Liabilities := (v1Liabilities v1)\<lparr>liabSelling := s\<rparr>\<rparr>)\<rparr>)"

definition setTlBuying :: "int \<Rightarrow> TrustLineEntry \<Rightarrow> TrustLineEntry" where
  "setTlBuying b line = line\<lparr>tlExt := Some ((prepareTrustLineEntryExtensionV1 line)\<lparr>liabBuying := b\<rparr>)\<rparr>"

definition setTlSelling :: "int \<Rightarrow> TrustLineEntry \<Rightarrow> TrustLineEntry" where
  "setTlSelling s line = line\<lparr>tlExt := Some ((prepareTrustLineEntryExtensionV1 line)\<lparr>liabSelling := s\<rparr>)\<rparr>"

definition addBuyingLiabilities :: "LedgerHeader \<Rightarrow> LedgerEntry \<Rightarrow> int \<Rightarrow> LedgerEntry option tx" where
  "addBuyingLiabilities header entry delta =
     bindE (getBuyingLiabilities header entry) (\<lambda>buyingLiab.
     if delta = 0 then Inr (Some entry)
     else case ledgerData entry of
       ACCOUNT acc \<Rightarrow>
         bindE (addBalanceTo buyingLiab delta (INT64_MAX - accBalance acc)) (\<lambda>r.
         Inr (map_option (\<lambda>b. entry\<lparr>ledgerData := ACCOUNT (setAccBuying b acc)\<rparr>) r))
     | TRUSTLINE line \<Rightarrow>
         bindE (checkAuthorization header line) (\<lambda>auth.
         if \<not> auth then Inr None
         else bindE (addBalanceTo buyingLiab delta (tlLimit line - tlBalance line)) (\<lambda>r.
              Inr (map_option (\<lambda>b. entry\<lparr>ledgerData := TRUSTLINE (setTlBuying b line)\<rparr>) r)))
     | _ \<Rightarrow> Inl (TxRuntimeError ''Unknown LedgerEntry type''))"

definition addSellingLiabilities :: "LedgerHeader \<Rightarrow> LedgerEntry \<Rightarrow> int \<Rightarrow> LedgerEntry option tx" where
  "addSellingLiabilities header entry delta =
     bindE (getSellingLiabilities header entry) (\<lambda>sellingLiab.
     if delta = 0 then Inr (Some entry)
     else case ledgerData entry of
       ACCOUNT acc \<Rightarrow>
         bindE (getMinBalance header acc) (\<lambda>minBalance.
         let maxLiabilities = accBalance acc - minBalance
         in if maxLiabilities < 0 then Inr None
            else bindE (addBalanceTo sellingLiab delta maxLiabilities) (\<lambda>r.
                 Inr (map_option (\<lambda>s. entry\<lparr>ledgerData := ACCOUNT (setAccSelling s acc)\<rparr>) r)))
     | TRUSTLINE line \<Rightarrow>
         bindE (checkAuthorization header line) (\<lambda>auth.
         if \<not> auth then Inr None
         else bindE (addBalanceTo sellingLiab delta (tlBalance line)) (\<lambda>r.
              Inr (map_option (\<lambda>s. entry\<lparr>ledgerData := TRUSTLINE (setTlSelling s line)\<rparr>) r)))
     | _ \<Rightarrow> Inl (TxRuntimeError ''Unknown LedgerEntry type''))"

section \<open>Identifiers\<close>

definition generateID :: "LedgerHeader \<Rightarrow> uint64 \<times> LedgerHeader" where
  "generateID header = (let newID = idPool header + 1 in (newID, header\<lparr>idPool := newID\<rparr>))"

definition getStartingSequenceNumber :: "uint32 \<Rightarrow> uint64" where
  "getStartingSequenceNumber seq = push_bit 32 (ucast seq)"

end
