(* ===== verification/OfferLiabilities.thy ===== *)
theory OfferLiabilities
  imports TransactionUtils
begin

text \<open>
  \<^verbatim>\<open>ledger/TrustLineWrapper.cpp\<close>, the liabilities of offers in \<^verbatim>\<open>transactions/TransactionUtils.cpp\<close> and the
  limits of a seller in \<^verbatim>\<open>transactions/OfferExchange.cpp\<close>. A wrapper is empty (\<open>None\<close>), the trust line of
  another account's asset, or the issuer's own unlimited line. A change made through a handle is
  written to the state the handle was loaded from.
\<close>

section \<open>Trust lines of issuers and others\<close>

datatype TrustLineWrapper = NonIssuerImpl LedgerEntry | IssuerImpl AccountID Asset

definition loadTrustLine :: "LedgerState \<Rightarrow> AccountID \<Rightarrow> Asset \<Rightarrow> TrustLineWrapper option tx" where
  "loadTrustLine ls acct asset =
     (if asset = ASSET_TYPE_NATIVE then Inl (TxRuntimeError ''trustline for native asset'')
      else bindE (getIssuer asset) (\<lambda>issuer.
        if issuer \<noteq> acct then
          Inr (map_option NonIssuerImpl (loadEntry ls (TrustLineKey acct asset)))
        else Inr (Some (IssuerImpl acct asset))))"

definition loadTrustLineIfNotNative ::
    "LedgerState \<Rightarrow> AccountID \<Rightarrow> Asset \<Rightarrow> TrustLineWrapper option tx" where
  "loadTrustLineIfNotNative ls acct asset =
     (if asset = ASSET_TYPE_NATIVE then Inr None else loadTrustLine ls acct asset)"

definition storeTrustLine :: "TrustLineWrapper \<Rightarrow> LedgerState \<Rightarrow> LedgerState" where
  "storeTrustLine w ls =
     (case w of NonIssuerImpl le \<Rightarrow> storeEntry le ls | IssuerImpl acct asset \<Rightarrow> ls)"

definition lineAddBalance :: "LedgerHeader \<Rightarrow> TrustLineWrapper \<Rightarrow> int \<Rightarrow> TrustLineWrapper option tx" where
  "lineAddBalance header w delta =
     (case w of
        NonIssuerImpl le \<Rightarrow> bindE (addBalance header le delta) (\<lambda>r. Inr (map_option NonIssuerImpl r))
      | IssuerImpl acct asset \<Rightarrow> Inr (Some w))"

definition lineAddBuyingLiabilities ::
    "LedgerHeader \<Rightarrow> TrustLineWrapper \<Rightarrow> int \<Rightarrow> TrustLineWrapper option tx" where
  "lineAddBuyingLiabilities header w delta =
     (case w of
        NonIssuerImpl le \<Rightarrow>
          bindE (addBuyingLiabilities header le delta) (\<lambda>r. Inr (map_option NonIssuerImpl r))
      | IssuerImpl acct asset \<Rightarrow> Inr (Some w))"

definition lineAddSellingLiabilities ::
    "LedgerHeader \<Rightarrow> TrustLineWrapper \<Rightarrow> int \<Rightarrow> TrustLineWrapper option tx" where
  "lineAddSellingLiabilities header w delta =
     (case w of
        NonIssuerImpl le \<Rightarrow>
          bindE (addSellingLiabilities header le delta) (\<lambda>r. Inr (map_option NonIssuerImpl r))
      | IssuerImpl acct asset \<Rightarrow> Inr (Some w))"

definition lineIsAuthorized :: "TrustLineWrapper \<Rightarrow> bool tx" where
  "lineIsAuthorized w =
     (case w of
        NonIssuerImpl le \<Rightarrow> bindE (trustLineOf le) (\<lambda>line. Inr (isAuthorized line))
      | IssuerImpl acct asset \<Rightarrow> Inr True)"

definition lineIsAuthorizedToMaintainLiabilities :: "TrustLineWrapper \<Rightarrow> bool tx" where
  "lineIsAuthorizedToMaintainLiabilities w =
     (case w of
        NonIssuerImpl le \<Rightarrow> bindE (trustLineOf le) (\<lambda>line. Inr (isAuthorizedToMaintainLiabilities line))
      | IssuerImpl acct asset \<Rightarrow> Inr True)"

definition lineGetBalance :: "TrustLineWrapper \<Rightarrow> int tx" where
  "lineGetBalance w =
     (case w of
        NonIssuerImpl le \<Rightarrow> bindE (trustLineOf le) (\<lambda>line. Inr (tlBalance line))
      | IssuerImpl acct asset \<Rightarrow> Inr INT64_MAX)"

definition lineGetAvailableBalance :: "LedgerHeader \<Rightarrow> TrustLineWrapper \<Rightarrow> int tx" where
  "lineGetAvailableBalance header w =
     (case w of
        NonIssuerImpl le \<Rightarrow> getAvailableBalance header le
      | IssuerImpl acct asset \<Rightarrow> Inr INT64_MAX)"

definition lineGetMaxAmountReceive :: "LedgerHeader \<Rightarrow> TrustLineWrapper \<Rightarrow> int tx" where
  "lineGetMaxAmountReceive header w =
     (case w of
        NonIssuerImpl le \<Rightarrow> getMaxAmountReceive header le
      | IssuerImpl acct asset \<Rightarrow> Inr INT64_MAX)"

section \<open>Liabilities of an offer\<close>

definition getOfferBuyingLiabilities :: "LedgerHeader \<Rightarrow> OfferEntry \<Rightarrow> int tx" where
  "getOfferBuyingLiabilities header oe =
     (if ledgerVersion header < 10 then
        Inl (TxRuntimeError ''Offer liabilities calculated before version 10'')
      else bindE (exchangeV10WithoutPriceErrorThresholds (offerPrice oe) (offerAmount oe)
                    INT64_MAX INT64_MAX INT64_MAX NORMAL) (\<lambda>res.
           Inr (sheepSend10 res)))"

definition getOfferSellingLiabilities :: "LedgerHeader \<Rightarrow> OfferEntry \<Rightarrow> int tx" where
  "getOfferSellingLiabilities header oe =
     (if ledgerVersion header < 10 then
        Inl (TxRuntimeError ''Offer liabilities calculated before version 10'')
      else bindE (exchangeV10WithoutPriceErrorThresholds (offerPrice oe) (offerAmount oe)
                    INT64_MAX INT64_MAX INT64_MAX NORMAL) (\<lambda>res.
           Inr (wheatReceived10 res)))"

text \<open>
  The two halves of \<^verbatim>\<open>acquireOrReleaseLiabilities\<close> differ in the liability they change: \<open>addLiab\<close> is
  the change of an account, \<open>lineLiab\<close> that of a trust line, \<open>msg\<close> the exception if it fails.
\<close>

definition changeLiabilities ::
    "(LedgerHeader \<Rightarrow> LedgerEntry \<Rightarrow> int \<Rightarrow> LedgerEntry option tx)
     \<Rightarrow> (LedgerHeader \<Rightarrow> TrustLineWrapper \<Rightarrow> int \<Rightarrow> TrustLineWrapper option tx)
     \<Rightarrow> string \<Rightarrow> LedgerState \<Rightarrow> AccountID \<Rightarrow> Asset \<Rightarrow> int \<Rightarrow> LedgerState tx" where
  "changeLiabilities addLiab lineLiab msg ls seller asset delta =
     (if asset = ASSET_TYPE_NATIVE then
        (case loadEntry ls (AccountKey seller) of
           None \<Rightarrow> Inl (TxRuntimeError ''account does not exist'')
         | Some account \<Rightarrow>
             bindE (addLiab (lsHeader ls) account delta) (\<lambda>r.
             case r of
               None \<Rightarrow> Inl (TxRuntimeError msg)
             | Some account' \<Rightarrow> Inr (storeEntry account' ls)))
      else bindE (loadTrustLine ls seller asset) (\<lambda>trust.
        case trust of
          None \<Rightarrow> Inl (TxRuntimeError ''trustline does not exist'')
        | Some w \<Rightarrow>
            bindE (lineLiab (lsHeader ls) w delta) (\<lambda>r.
            case r of
              None \<Rightarrow> Inl (TxRuntimeError msg)
            | Some w' \<Rightarrow> Inr (storeTrustLine w' ls))))"

definition acquireOrReleaseLiabilities :: "LedgerState \<Rightarrow> OfferEntry \<Rightarrow> bool \<Rightarrow> LedgerState tx" where
  "acquireOrReleaseLiabilities ls oe isAcquire =
     (if buying oe = selling oe then Inl (TxRuntimeError ''buying and selling same asset'')
      else bindE (getOfferBuyingLiabilities (lsHeader ls) oe) (\<lambda>b.
           bindE (changeLiabilities addBuyingLiabilities lineAddBuyingLiabilities
                    ''could not add buying liabilities'' ls (sellerID oe) (buying oe)
                    (if isAcquire then b else - b)) (\<lambda>ls1.
           bindE (getOfferSellingLiabilities (lsHeader ls1) oe) (\<lambda>s.
           changeLiabilities addSellingLiabilities lineAddSellingLiabilities
             ''could not add selling liabilities'' ls1 (sellerID oe) (selling oe)
             (if isAcquire then s else - s)))))"

definition acquireLiabilities :: "LedgerState \<Rightarrow> OfferEntry \<Rightarrow> LedgerState tx" where
  "acquireLiabilities ls oe = acquireOrReleaseLiabilities ls oe True"

definition releaseLiabilities :: "LedgerState \<Rightarrow> OfferEntry \<Rightarrow> LedgerState tx" where
  "releaseLiabilities ls oe = acquireOrReleaseLiabilities ls oe False"

section \<open>What a seller can sell and buy\<close>

definition canSellAtMostBasedOnSheep ::
    "LedgerHeader \<Rightarrow> Asset \<Rightarrow> TrustLineWrapper option \<Rightarrow> Price \<Rightarrow> int tx" where
  "canSellAtMostBasedOnSheep header sheep sheepLine wheatPrice =
     (if sheep = ASSET_TYPE_NATIVE then Inr INT64_MAX
      else bindE (case sheepLine of None \<Rightarrow> Inr 0 | Some w \<Rightarrow> lineGetMaxAmountReceive header w)
             (\<lambda>sellerMaxSheep.
           bindE (numericTx (bigDivide_i64 sellerMaxSheep (priceD wheatPrice) (priceN wheatPrice)
                    ROUND_DOWN)) (\<lambda>q.
           Inr (case q of None \<Rightarrow> INT64_MAX | Some wheatAmount \<Rightarrow> wheatAmount))))"

definition canSellAtMost ::
    "LedgerHeader \<Rightarrow> LedgerEntry option \<Rightarrow> Asset \<Rightarrow> TrustLineWrapper option \<Rightarrow> int tx" where
  "canSellAtMost header account asset trustLine =
     (if asset = ASSET_TYPE_NATIVE then
        bindE (current account) (\<lambda>acc.
        bindE (getAvailableBalance header acc) (\<lambda>a. Inr (max a 0)))
      else case trustLine of
        None \<Rightarrow> Inr 0
      | Some w \<Rightarrow>
          bindE (lineIsAuthorizedToMaintainLiabilities w) (\<lambda>auth.
          if auth then bindE (lineGetAvailableBalance header w) (\<lambda>a. Inr (max a 0))
          else Inr 0))"

definition canBuyAtMost ::
    "LedgerHeader \<Rightarrow> LedgerEntry option \<Rightarrow> Asset \<Rightarrow> TrustLineWrapper option \<Rightarrow> int tx" where
  "canBuyAtMost header account asset trustLine =
     (if asset = ASSET_TYPE_NATIVE then
        bindE (current account) (\<lambda>acc.
        bindE (getMaxAmountReceive header acc) (\<lambda>a. Inr (max a 0)))
      else case trustLine of
        None \<Rightarrow> Inr 0
      | Some w \<Rightarrow> bindE (lineGetMaxAmountReceive header w) (\<lambda>a. Inr (max a 0)))"

text \<open>The overload of \<^verbatim>\<open>adjustOffer\<close> on an offer of the ledger.\<close>

definition adjustOffer ::
    "LedgerHeader \<Rightarrow> OfferEntry \<Rightarrow> LedgerEntry option \<Rightarrow> Asset \<Rightarrow> TrustLineWrapper option
     \<Rightarrow> Asset \<Rightarrow> TrustLineWrapper option \<Rightarrow> OfferEntry tx" where
  "adjustOffer header oe account wheat wheatLine sheep sheepLine =
     bindE (canSellAtMost header account wheat wheatLine) (\<lambda>sell.
     bindE (canBuyAtMost header account sheep sheepLine) (\<lambda>maxSheepReceive.
     bindE (adjustOfferAmount (offerPrice oe) (min (offerAmount oe) sell) maxSheepReceive) (\<lambda>a.
     Inr (oe\<lparr>offerAmount := a\<rparr>))))"

end
