(* ===== verification/BalanceRules.thy ===== *)
theory BalanceRules
  imports OfferLiabilities
begin

text \<open>
  What the balance and liability operations do to a holding, an account or a trust line, once the
  protocol version is at least 10. Accounts and trust lines follow the same rules with two
  differences: an account keeps a reserve and has no limit but \<^verbatim>\<open>INT64_MAX\<close>.
\<close>

section \<open>Holdings\<close>

definition isHolding :: "LedgerEntry \<Rightarrow> bool" where
  "isHolding le = (case ledgerData le of ACCOUNT _ \<Rightarrow> True | TRUSTLINE _ \<Rightarrow> True | _ \<Rightarrow> False)"

definition isTrustLine :: "LedgerEntry \<Rightarrow> bool" where
  "isTrustLine le = (case ledgerData le of TRUSTLINE _ \<Rightarrow> True | _ \<Rightarrow> False)"

definition balanceOf :: "LedgerEntry \<Rightarrow> int" where
  "balanceOf le = (case ledgerData le of ACCOUNT a \<Rightarrow> accBalance a | TRUSTLINE t \<Rightarrow> tlBalance t | _ \<Rightarrow> 0)"

definition buyingOf :: "LedgerEntry \<Rightarrow> int" where
  "buyingOf le =
     (case ledgerData le of
        ACCOUNT a \<Rightarrow> liabBuying (accLiabilities a) | TRUSTLINE t \<Rightarrow> liabBuying (tlLiabilities t) | _ \<Rightarrow> 0)"

definition sellingOf :: "LedgerEntry \<Rightarrow> int" where
  "sellingOf le =
     (case ledgerData le of
        ACCOUNT a \<Rightarrow> liabSelling (accLiabilities a) | TRUSTLINE t \<Rightarrow> liabSelling (tlLiabilities t) | _ \<Rightarrow> 0)"

definition capOf :: "LedgerEntry \<Rightarrow> int" where
  "capOf le = (case ledgerData le of TRUSTLINE t \<Rightarrow> tlLimit t | _ \<Rightarrow> INT64_MAX)"

definition reserveOf :: "LedgerHeader \<Rightarrow> LedgerEntry \<Rightarrow> int" where
  "reserveOf h le =
     (case ledgerData le of
        ACCOUNT a \<Rightarrow> (case getMinBalance h a of Inr m \<Rightarrow> m | Inl _ \<Rightarrow> 0) | _ \<Rightarrow> 0)"

definition setBalance :: "int \<Rightarrow> LedgerEntry \<Rightarrow> LedgerEntry" where
  "setBalance x le =
     le\<lparr>ledgerData := (case ledgerData le of
        ACCOUNT a \<Rightarrow> ACCOUNT (a\<lparr>accBalance := x\<rparr>)
      | TRUSTLINE t \<Rightarrow> TRUSTLINE (t\<lparr>tlBalance := x\<rparr>)
      | d \<Rightarrow> d)\<rparr>"

definition setBuying :: "int \<Rightarrow> LedgerEntry \<Rightarrow> LedgerEntry" where
  "setBuying x le =
     le\<lparr>ledgerData := (case ledgerData le of
        ACCOUNT a \<Rightarrow> ACCOUNT (setAccBuying x a)
      | TRUSTLINE t \<Rightarrow> TRUSTLINE (setTlBuying x t)
      | d \<Rightarrow> d)\<rparr>"

definition setSelling :: "int \<Rightarrow> LedgerEntry \<Rightarrow> LedgerEntry" where
  "setSelling x le =
     le\<lparr>ledgerData := (case ledgerData le of
        ACCOUNT a \<Rightarrow> ACCOUNT (setAccSelling x a)
      | TRUSTLINE t \<Rightarrow> TRUSTLINE (setTlSelling x t)
      | d \<Rightarrow> d)\<rparr>"

text \<open>
  The bounds every account and trust line satisfies: amounts are not negative, what is held and what
  may still come in fit the limit, and a trust line covers what its offers sell.
\<close>

definition holdingOk :: "LedgerEntry \<Rightarrow> bool" where
  "holdingOk le \<longleftrightarrow> 0 \<le> balanceOf le \<and> 0 \<le> buyingOf le \<and> 0 \<le> sellingOf le
     \<and> balanceOf le + buyingOf le \<le> capOf le \<and> capOf le \<le> INT64_MAX
     \<and> (isTrustLine le \<longrightarrow> sellingOf le \<le> balanceOf le)"

text \<open>An operation on the entry does not throw: the reserve is defined or the line is authorized.\<close>

definition usable :: "LedgerHeader \<Rightarrow> LedgerEntry \<Rightarrow> bool" where
  "usable h le =
     (case ledgerData le of
        ACCOUNT a \<Rightarrow> (case getMinBalance h a of Inr m \<Rightarrow> 0 \<le> m | Inl _ \<Rightarrow> False)
      | TRUSTLINE t \<Rightarrow> isAuthorizedToMaintainLiabilities t
      | _ \<Rightarrow> False)"

lemmas holding_defs = balanceOf_def buyingOf_def sellingOf_def capOf_def reserveOf_def isHolding_def isTrustLine_def

lemma accLiabilities_set [simp]:
  "accLiabilities (setAccBuying x a) = (accLiabilities a)\<lparr>liabBuying := x\<rparr>"
  "accLiabilities (setAccSelling x a) = (accLiabilities a)\<lparr>liabSelling := x\<rparr>"
  "accLiabilities (a\<lparr>accBalance := x\<rparr>) = accLiabilities a"
  "accBalance (setAccBuying x a) = accBalance a" "accBalance (setAccSelling x a) = accBalance a"
  "accountID (setAccBuying x a) = accountID a" "accountID (setAccSelling x a) = accountID a"
  by (simp_all add: accLiabilities_def setAccBuying_def setAccSelling_def Let_def
      prepareAccountEntryExtensionV1_def split: option.splits)

lemma tlLiabilities_set [simp]:
  "tlLiabilities (setTlBuying x t) = (tlLiabilities t)\<lparr>liabBuying := x\<rparr>"
  "tlLiabilities (setTlSelling x t) = (tlLiabilities t)\<lparr>liabSelling := x\<rparr>"
  "tlLiabilities (t\<lparr>tlBalance := x\<rparr>) = tlLiabilities t"
  "tlBalance (setTlBuying x t) = tlBalance t" "tlBalance (setTlSelling x t) = tlBalance t"
  "tlLimit (setTlBuying x t) = tlLimit t" "tlLimit (setTlSelling x t) = tlLimit t"
  "tlFlags (setTlBuying x t) = tlFlags t" "tlFlags (setTlSelling x t) = tlFlags t"
  "tlAccountID (setTlBuying x t) = tlAccountID t" "tlAccountID (setTlSelling x t) = tlAccountID t"
  "tlAsset (setTlBuying x t) = tlAsset t" "tlAsset (setTlSelling x t) = tlAsset t"
  by (simp_all add: tlLiabilities_def setTlBuying_def setTlSelling_def
      prepareTrustLineEntryExtensionV1_def split: option.splits)

lemma getMinBalance_cong:
  assumes "numSubEntries a' = numSubEntries a"
    and "hasAccountEntryExtV2 a' = hasAccountEntryExtV2 a"
    and "hasAccountEntryExtV2 a \<Longrightarrow> prepareAccountEntryExtensionV2 a' = prepareAccountEntryExtensionV2 a"
  shows "getMinBalance h a' = getMinBalance h a"
  using assms by (simp add: getMinBalance_def)

lemma getMinBalance_set [simp]:
  "getMinBalance h (setAccBuying x a) = getMinBalance h a"
  "getMinBalance h (setAccSelling x a) = getMinBalance h a"
  "getMinBalance h (a\<lparr>accBalance := x\<rparr>) = getMinBalance h a"
  by (rule getMinBalance_cong;
      simp add: setAccBuying_def setAccSelling_def hasAccountEntryExtV2_def Let_def
        prepareAccountEntryExtensionV1_def prepareAccountEntryExtensionV2_def split: option.splits)+

lemma isAuthorized_set [simp]:
  "isAuthorizedToMaintainLiabilities (setTlBuying x t) = isAuthorizedToMaintainLiabilities t"
  "isAuthorizedToMaintainLiabilities (setTlSelling x t) = isAuthorizedToMaintainLiabilities t"
  "isAuthorizedToMaintainLiabilities (t\<lparr>tlBalance := x\<rparr>) = isAuthorizedToMaintainLiabilities t"
  by (simp_all add: isAuthorizedToMaintainLiabilities_def isAuthorized_def)

text \<open>Each setter changes one component of a holding.\<close>

lemma balanceOf_set [simp]:
  "isHolding le \<Longrightarrow> balanceOf (setBalance x le) = x"
  "balanceOf (setBuying x le) = balanceOf le" "balanceOf (setSelling x le) = balanceOf le"
  by (auto simp: holding_defs setBalance_def setBuying_def setSelling_def split: LedgerEntryData.splits)

lemma buyingOf_set [simp]:
  "isHolding le \<Longrightarrow> buyingOf (setBuying x le) = x"
  "buyingOf (setBalance x le) = buyingOf le" "buyingOf (setSelling x le) = buyingOf le"
  by (auto simp: holding_defs setBalance_def setBuying_def setSelling_def split: LedgerEntryData.splits)

lemma sellingOf_set [simp]:
  "isHolding le \<Longrightarrow> sellingOf (setSelling x le) = x"
  "sellingOf (setBalance x le) = sellingOf le" "sellingOf (setBuying x le) = sellingOf le"
  by (auto simp: holding_defs setBalance_def setBuying_def setSelling_def split: LedgerEntryData.splits)

lemma capOf_set [simp]:
  "capOf (setBalance x le) = capOf le" "capOf (setBuying x le) = capOf le" "capOf (setSelling x le) = capOf le"
  by (auto simp: holding_defs setBalance_def setBuying_def setSelling_def split: LedgerEntryData.splits)

lemma reserveOf_set [simp]:
  "reserveOf h (setBalance x le) = reserveOf h le" "reserveOf h (setBuying x le) = reserveOf h le"
  "reserveOf h (setSelling x le) = reserveOf h le"
  by (auto simp: holding_defs setBalance_def setBuying_def setSelling_def split: LedgerEntryData.splits)

lemma isHolding_set [simp]:
  "isHolding (setBalance x le) = isHolding le" "isHolding (setBuying x le) = isHolding le"
  "isHolding (setSelling x le) = isHolding le"
  by (auto simp: holding_defs setBalance_def setBuying_def setSelling_def split: LedgerEntryData.splits)

lemma isTrustLine_set [simp]:
  "isTrustLine (setBalance x le) = isTrustLine le" "isTrustLine (setBuying x le) = isTrustLine le"
  "isTrustLine (setSelling x le) = isTrustLine le"
  by (auto simp: holding_defs setBalance_def setBuying_def setSelling_def split: LedgerEntryData.splits)

lemma usable_set [simp]:
  "usable h (setBalance x le) = usable h le" "usable h (setBuying x le) = usable h le"
  "usable h (setSelling x le) = usable h le"
  by (auto simp: usable_def setBalance_def setBuying_def setSelling_def split: LedgerEntryData.splits)

lemma key_set [simp]:
  "LedgerEntryKey (setBalance x le) = LedgerEntryKey le" "LedgerEntryKey (setBuying x le) = LedgerEntryKey le"
  "LedgerEntryKey (setSelling x le) = LedgerEntryKey le"
  by (auto simp: LedgerEntryKey_def setBalance_def setBuying_def setSelling_def split: LedgerEntryData.splits)

lemma setBalance_same: "setBalance (balanceOf le) le = le"
  by (auto simp: setBalance_def balanceOf_def split: LedgerEntryData.splits)

lemma usable_isHolding: "usable h le \<Longrightarrow> isHolding le"
  by (auto simp: usable_def isHolding_def split: LedgerEntryData.splits)

lemma reserveOf_nonneg: "usable h le \<Longrightarrow> 0 \<le> reserveOf h le"
  by (auto simp: usable_def reserveOf_def split: LedgerEntryData.splits sum.splits)

section \<open>The operations\<close>

text \<open>
  The facts below are on versions from 10 on and on usable, valid holdings; they say exactly when an
  operation succeeds and what it changes.
\<close>

lemma getAvailableBalance_holding:
  assumes "10 \<le> ledgerVersion h" "usable h le"
  shows "getAvailableBalance h le = Inr (balanceOf le - reserveOf h le - sellingOf le)"
  using assms
  by (auto simp: getAvailableBalance_def usable_def getSellingLiabilities_def holding_defs
      checkAuthorization_def split: LedgerEntryData.splits sum.splits)

lemma getMaxAmountReceive_holding:
  assumes "10 \<le> ledgerVersion h" "usable h le"
  shows "getMaxAmountReceive h le = Inr (capOf le - balanceOf le - buyingOf le)"
  using assms
  by (auto simp: getMaxAmountReceive_def usable_def getBuyingLiabilities_def holding_defs
      checkAuthorization_def split: LedgerEntryData.splits sum.splits)

lemma addBalanceTo_eq:
  assumes "0 \<le> b" "b \<le> m"
  shows "addBalanceTo b d m = Inr (if 0 \<le> b + d \<and> b + d \<le> m then Some (b + d) else None)"
  using assms by (auto simp: addBalanceTo_def)

lemma addBalance_holding:
  assumes v: "10 \<le> ledgerVersion h" and u: "usable h le" and ok: "holdingOk le"
  shows "addBalance h le d =
    Inr (if (d < 0 \<longrightarrow> reserveOf h le + sellingOf le \<le> balanceOf le + d)
            \<and> (0 < d \<longrightarrow> balanceOf le + d + buyingOf le \<le> capOf le)
         then Some (setBalance (balanceOf le + d) le) else None)"
proof (cases "ledgerData le")
  case (ACCOUNT a)
  obtain m where m: "getMinBalance h a = Inr m" "0 \<le> m"
    using u ACCOUNT by (auto simp: usable_def split: sum.splits)
  have b: "0 \<le> accBalance a" "accBalance a + liabBuying (accLiabilities a) \<le> INT64_MAX"
      "0 \<le> liabBuying (accLiabilities a)" "0 \<le> liabSelling (accLiabilities a)"
    using ok ACCOUNT by (auto simp: holdingOk_def holding_defs)
  have "addBalanceTo (accBalance a) d INT64_MAX =
      Inr (if 0 \<le> accBalance a + d \<and> accBalance a + d \<le> INT64_MAX then Some (accBalance a + d) else None)"
    using b by (intro addBalanceTo_eq) auto
  then show ?thesis
    using ACCOUNT v m b
    by (auto simp: addBalance_def holding_defs setBalance_def getSellingLiabilities_def
        getBuyingLiabilities_def Let_def)
next
  case (TRUSTLINE t)
  have auth: "isAuthorizedToMaintainLiabilities t" using u TRUSTLINE by (simp add: usable_def)
  have b: "0 \<le> tlBalance t" "tlBalance t + liabBuying (tlLiabilities t) \<le> tlLimit t"
      "0 \<le> liabBuying (tlLiabilities t)" "0 \<le> liabSelling (tlLiabilities t)"
      "liabSelling (tlLiabilities t) \<le> tlBalance t"
    using ok TRUSTLINE by (auto simp: holdingOk_def holding_defs)
  have "addBalanceTo (tlBalance t) d (tlLimit t) =
      Inr (if 0 \<le> tlBalance t + d \<and> tlBalance t + d \<le> tlLimit t then Some (tlBalance t + d) else None)"
    using b by (intro addBalanceTo_eq) auto
  then show ?thesis
    using TRUSTLINE v auth b
    by (auto simp: addBalance_def holding_defs setBalance_def getSellingLiabilities_def
        getBuyingLiabilities_def checkAuthorization_def Let_def)
qed (use u in \<open>auto simp: usable_def\<close>)

lemma addBuyingLiabilities_holding:
  assumes v: "10 \<le> ledgerVersion h" and u: "usable h le" and ok: "holdingOk le"
  shows "addBuyingLiabilities h le d =
    Inr (if d = 0 then Some le
         else if 0 \<le> buyingOf le + d \<and> balanceOf le + buyingOf le + d \<le> capOf le
         then Some (setBuying (buyingOf le + d) le) else None)"
proof (cases "ledgerData le")
  case (ACCOUNT a)
  have b: "accBalance a + liabBuying (accLiabilities a) \<le> INT64_MAX" "0 \<le> liabBuying (accLiabilities a)"
    using ok ACCOUNT by (auto simp: holdingOk_def holding_defs)
  have "addBalanceTo (liabBuying (accLiabilities a)) d (INT64_MAX - accBalance a) =
      Inr (if 0 \<le> liabBuying (accLiabilities a) + d \<and> liabBuying (accLiabilities a) + d \<le> INT64_MAX - accBalance a
           then Some (liabBuying (accLiabilities a) + d) else None)"
    using b by (intro addBalanceTo_eq) auto
  then show ?thesis
    using ACCOUNT v b by (auto simp: addBuyingLiabilities_def holding_defs setBuying_def getBuyingLiabilities_def)
next
  case (TRUSTLINE t)
  have auth: "isAuthorizedToMaintainLiabilities t" using u TRUSTLINE by (simp add: usable_def)
  have b: "tlBalance t + liabBuying (tlLiabilities t) \<le> tlLimit t" "0 \<le> liabBuying (tlLiabilities t)"
    using ok TRUSTLINE by (auto simp: holdingOk_def holding_defs)
  have "addBalanceTo (liabBuying (tlLiabilities t)) d (tlLimit t - tlBalance t) =
      Inr (if 0 \<le> liabBuying (tlLiabilities t) + d \<and> liabBuying (tlLiabilities t) + d \<le> tlLimit t - tlBalance t
           then Some (liabBuying (tlLiabilities t) + d) else None)"
    using b by (intro addBalanceTo_eq) auto
  then show ?thesis
    using TRUSTLINE v auth b
    by (auto simp: addBuyingLiabilities_def holding_defs setBuying_def getBuyingLiabilities_def checkAuthorization_def)
qed (use u in \<open>auto simp: usable_def\<close>)

lemma addSellingLiabilities_holding:
  assumes v: "10 \<le> ledgerVersion h" and u: "usable h le" and ok: "holdingOk le"
    and cov: "reserveOf h le + sellingOf le \<le> balanceOf le"
  shows "addSellingLiabilities h le d =
    Inr (if d = 0 then Some le
         else if 0 \<le> sellingOf le + d \<and> reserveOf h le + sellingOf le + d \<le> balanceOf le
         then Some (setSelling (sellingOf le + d) le) else None)"
proof (cases "ledgerData le")
  case (ACCOUNT a)
  obtain m where m: "getMinBalance h a = Inr m" "0 \<le> m"
    using u ACCOUNT by (auto simp: usable_def split: sum.splits)
  have b: "m + liabSelling (accLiabilities a) \<le> accBalance a" "0 \<le> liabSelling (accLiabilities a)"
    using ok cov ACCOUNT m by (auto simp: holdingOk_def holding_defs)
  have "addBalanceTo (liabSelling (accLiabilities a)) d (accBalance a - m) =
      Inr (if 0 \<le> liabSelling (accLiabilities a) + d \<and> liabSelling (accLiabilities a) + d \<le> accBalance a - m
           then Some (liabSelling (accLiabilities a) + d) else None)"
    using b by (intro addBalanceTo_eq) auto
  then show ?thesis
    using ACCOUNT v b m
    by (auto simp: addSellingLiabilities_def holding_defs setSelling_def getSellingLiabilities_def Let_def)
next
  case (TRUSTLINE t)
  have auth: "isAuthorizedToMaintainLiabilities t" using u TRUSTLINE by (simp add: usable_def)
  have b: "liabSelling (tlLiabilities t) \<le> tlBalance t" "0 \<le> liabSelling (tlLiabilities t)"
    using ok TRUSTLINE by (auto simp: holdingOk_def holding_defs)
  have "addBalanceTo (liabSelling (tlLiabilities t)) d (tlBalance t) =
      Inr (if 0 \<le> liabSelling (tlLiabilities t) + d \<and> liabSelling (tlLiabilities t) + d \<le> tlBalance t
           then Some (liabSelling (tlLiabilities t) + d) else None)"
    using b by (intro addBalanceTo_eq) auto
  then show ?thesis
    using TRUSTLINE v auth b
    by (auto simp: addSellingLiabilities_def holding_defs setSelling_def getSellingLiabilities_def checkAuthorization_def)
qed (use u in \<open>auto simp: usable_def\<close>)

end
