(* ===== verification/Sponsorship.thy ===== *)
theory Sponsorship
  imports TransactionUtils
begin

text \<open>
  \<^verbatim>\<open>transactions/SponsorshipUtils.cpp\<close>: the counts of sponsored and sponsoring entries that an account
  carries, and the creation and removal of entries and signers with or without a sponsor. The
  functions take references to the entry, to the sponsoring account and a pointer to the sponsored
  account, which is null, another entry or (for an account) the entry itself: that is \<open>Sponsored\<close>.
  An iterator into the signers is its position.
\<close>

section \<open>Accounts of an entry\<close>

definition onAccount :: "(AccountEntry \<Rightarrow> AccountEntry tx) \<Rightarrow> LedgerEntry \<Rightarrow> LedgerEntry tx" where
  "onAccount f le =
     bindE (accountOf le) (\<lambda>ae. bindE (f ae) (\<lambda>ae'. Inr (le\<lparr>ledgerData := ACCOUNT ae'\<rparr>)))"

definition addSubEntries :: "uint32 \<Rightarrow> LedgerEntry \<Rightarrow> LedgerEntry tx" where
  "addSubEntries n = onAccount (\<lambda>ae. Inr (ae\<lparr>numSubEntries := numSubEntries ae + n\<rparr>))"

definition addNumSponsoring :: "uint32 \<Rightarrow> LedgerEntry \<Rightarrow> LedgerEntry tx" where
  "addNumSponsoring n = onAccount (\<lambda>ae.
     let v2 = prepareAccountEntryExtensionV2 ae
     in Inr (setAccountEntryExtensionV2 (v2\<lparr>numSponsoring := numSponsoring v2 + n\<rparr>) ae))"

definition addNumSponsored :: "uint32 \<Rightarrow> LedgerEntry \<Rightarrow> LedgerEntry tx" where
  "addNumSponsored n = onAccount (\<lambda>ae.
     let v2 = prepareAccountEntryExtensionV2 ae
     in Inr (setAccountEntryExtensionV2 (v2\<lparr>numSponsored := numSponsored v2 + n\<rparr>) ae))"

definition subNumSponsoring :: "uint32 \<Rightarrow> LedgerEntry \<Rightarrow> LedgerEntry tx" where
  "subNumSponsoring n = onAccount (\<lambda>ae.
     bindE (getAccountEntryExtensionV2 ae) (\<lambda>v2.
     Inr (setAccountEntryExtensionV2 (v2\<lparr>numSponsoring := numSponsoring v2 - n\<rparr>) ae)))"

definition subNumSponsored :: "uint32 \<Rightarrow> LedgerEntry \<Rightarrow> LedgerEntry tx" where
  "subNumSponsored n = onAccount (\<lambda>ae.
     bindE (getAccountEntryExtensionV2 ae) (\<lambda>v2.
     Inr (setAccountEntryExtensionV2 (v2\<lparr>numSponsored := numSponsored v2 - n\<rparr>) ae)))"

definition getNumSponsored :: "LedgerEntry \<Rightarrow> uint32 tx" where
  "getNumSponsored le =
     bindE (accountOf le) (\<lambda>ae.
     Inr (if hasAccountEntryExtV2 ae then numSponsored (prepareAccountEntryExtensionV2 ae) else 0))"

definition getNumSponsoring :: "LedgerEntry \<Rightarrow> uint32 tx" where
  "getNumSponsoring le =
     bindE (accountOf le) (\<lambda>ae.
     Inr (if hasAccountEntryExtV2 ae then numSponsoring (prepareAccountEntryExtensionV2 ae) else 0))"

datatype IsSignerSponsoredResult = DOES_NOT_EXIST | NOT_SPONSORED | SPONSORED

datatype SponsorshipResult =
    SUCCESS | LOW_RESERVE | TOO_MANY_SUBENTRIES | TOO_MANY_SPONSORING | TOO_MANY_SPONSORED

datatype Sponsored = NoSponsored | SponsoredAccount LedgerEntry | SponsoredSelf

definition sponsoredEntry :: "LedgerEntry \<Rightarrow> Sponsored \<Rightarrow> LedgerEntry option" where
  "sponsoredEntry le sponsored =
     (case sponsored of NoSponsored \<Rightarrow> None | SponsoredAccount acc \<Rightarrow> Some acc | SponsoredSelf \<Rightarrow> Some le)"

text \<open>A change of the sponsored account, if there is one, written back where it came from.\<close>

definition onSponsored ::
    "(LedgerEntry \<Rightarrow> LedgerEntry tx) \<Rightarrow> LedgerEntry \<Rightarrow> Sponsored \<Rightarrow> (LedgerEntry \<times> Sponsored) tx" where
  "onSponsored f le sponsored =
     (case sponsored of
        NoSponsored \<Rightarrow> Inr (le, NoSponsored)
      | SponsoredAccount acc \<Rightarrow> bindE (f acc) (\<lambda>acc'. Inr (le, SponsoredAccount acc'))
      | SponsoredSelf \<Rightarrow> bindE (f le) (\<lambda>le'. Inr (le', SponsoredSelf)))"

definition accountIsSponsor :: "AccountID option \<Rightarrow> LedgerEntry \<Rightarrow> unit tx" where
  "accountIsSponsor sponsoringID sponsoringAcc =
     (case sponsoringID of
        None \<Rightarrow> Inl (TxRuntimeError ''sponsorship doesn't match'')
      | Some i \<Rightarrow>
          bindE (accountOf sponsoringAcc) (\<lambda>ae.
          if i = accountID ae then Inr ()
          else Inl (TxRuntimeError ''sponsorship doesn't match'')))"

definition isSignerSponsored :: "nat \<Rightarrow> LedgerEntry \<Rightarrow> LedgerEntry \<Rightarrow> IsSignerSponsoredResult tx" where
  "isSignerSponsored n sponsoringAcc sponsoredAcc =
     bindE (accountOf sponsoredAcc) (\<lambda>ae.
     if n = length (signers ae) then Inr DOES_NOT_EXIST
     else if hasAccountEntryExtV2 ae then
       (let ids = signerSponsoringIDs (prepareAccountEntryExtensionV2 ae)
        in if n \<ge> length ids then Inl OutOfRange
           else if ids ! n \<noteq> None then
             bindE (accountIsSponsor (ids ! n) sponsoringAcc) (\<lambda>_. Inr SPONSORED)
           else Inr NOT_SPONSORED)
     else Inr NOT_SPONSORED)"

section \<open>Whether a sponsorship can be established, removed or transferred\<close>

definition canEstablishSponsorshipHelper ::
    "LedgerHeader \<Rightarrow> LedgerEntry \<Rightarrow> LedgerEntry option \<Rightarrow> uint32 \<Rightarrow> SponsorshipResult tx" where
  "canEstablishSponsorshipHelper lh sponsoringAcc sponsoredAcc mult =
     bindE (getAvailableBalance lh sponsoringAcc) (\<lambda>avail.
     if avail < uint mult * uint (baseReserve lh) then Inr LOW_RESERVE
     else bindE (getNumSponsoring sponsoringAcc) (\<lambda>ing.
     if ing > - 1 - mult then Inr TOO_MANY_SPONSORING
     else case sponsoredAcc of
       None \<Rightarrow> Inr SUCCESS
     | Some acc \<Rightarrow> bindE (getNumSponsored acc) (\<lambda>ed.
         if ed > - 1 - mult then Inr TOO_MANY_SPONSORED else Inr SUCCESS)))"

definition canRemoveSponsorshipHelper ::
    "LedgerHeader \<Rightarrow> LedgerEntry \<Rightarrow> LedgerEntry option \<Rightarrow> uint32 \<Rightarrow> SponsorshipResult tx" where
  "canRemoveSponsorshipHelper lh sponsoringAcc sponsoredAcc mult =
     bindE (getNumSponsoring sponsoringAcc) (\<lambda>ing.
     if ing < mult then Inl (TxRuntimeError ''insufficient numSponsoring'')
     else case sponsoredAcc of
       None \<Rightarrow> Inr SUCCESS
     | Some acc \<Rightarrow>
         bindE (getNumSponsored acc) (\<lambda>ed.
         if ed < mult then Inl (TxRuntimeError ''insufficient numSponsored'')
         else bindE (getAvailableBalance lh acc) (\<lambda>avail.
           if avail < uint mult * uint (baseReserve lh) then Inr LOW_RESERVE else Inr SUCCESS)))"

definition canTransferSponsorshipHelper ::
    "LedgerHeader \<Rightarrow> LedgerEntry \<Rightarrow> LedgerEntry \<Rightarrow> uint32 \<Rightarrow> SponsorshipResult tx" where
  "canTransferSponsorshipHelper lh oldSponsoringAcc newSponsoringAcc mult =
     bindE (canRemoveSponsorshipHelper lh oldSponsoringAcc None mult) (\<lambda>removeRes.
     if removeRes \<noteq> SUCCESS then Inr removeRes
     else canEstablishSponsorshipHelper lh newSponsoringAcc None mult)"

definition computeMultiplier :: "LedgerEntry \<Rightarrow> uint32" where
  "computeMultiplier le =
     (case ledgerData le of
        ACCOUNT _ \<Rightarrow> 2
      | CLAIMABLE_BALANCE cb \<Rightarrow> word_of_nat (length (claimants cb))
      | _ \<Rightarrow> 1)"

definition isSubentry :: "LedgerEntry \<Rightarrow> bool" where
  "isSubentry le =
     (case ledgerData le of
        ACCOUNT _ \<Rightarrow> False
      | CLAIMABLE_BALANCE _ \<Rightarrow> False
      | _ \<Rightarrow> True)"

definition isAccount :: "LedgerEntry \<Rightarrow> bool" where
  "isAccount le = (case ledgerData le of ACCOUNT _ \<Rightarrow> True | _ \<Rightarrow> False)"

definition isClaimableBalance :: "LedgerEntry \<Rightarrow> bool" where
  "isClaimableBalance le = (case ledgerData le of CLAIMABLE_BALANCE _ \<Rightarrow> True | _ \<Rightarrow> False)"

definition requireV14 :: "LedgerHeader \<Rightarrow> unit tx" where
  "requireV14 lh =
     (if ledgerVersion lh < 14 then Inl (TxRuntimeError ''sponsorship before version 14'') else Inr ())"

definition entrySponsor :: "LedgerEntry \<Rightarrow> AccountID option" where
  "entrySponsor le = (case ledgerExt le of None \<Rightarrow> None | Some sponsoringID \<Rightarrow> sponsoringID)"

definition canEstablishEntrySponsorship ::
    "LedgerHeader \<Rightarrow> LedgerEntry \<Rightarrow> LedgerEntry \<Rightarrow> LedgerEntry option \<Rightarrow> SponsorshipResult tx" where
  "canEstablishEntrySponsorship lh le sponsoringAcc sponsoredAcc =
     bindE (requireV14 lh) (\<lambda>_.
     if entrySponsor le \<noteq> None then Inl (TxRuntimeError ''sponsoring sponsored entry'')
     else canEstablishSponsorshipHelper lh sponsoringAcc sponsoredAcc (computeMultiplier le))"

definition canRemoveEntrySponsorship ::
    "LedgerHeader \<Rightarrow> LedgerEntry \<Rightarrow> LedgerEntry \<Rightarrow> LedgerEntry option \<Rightarrow> SponsorshipResult tx" where
  "canRemoveEntrySponsorship lh le sponsoringAcc sponsoredAcc =
     bindE (requireV14 lh) (\<lambda>_.
     if entrySponsor le = None then
       Inl (TxRuntimeError ''removing sponsorship on unsponsored entry'')
     else bindE (accountIsSponsor (entrySponsor le) sponsoringAcc) (\<lambda>_.
          canRemoveSponsorshipHelper lh sponsoringAcc sponsoredAcc (computeMultiplier le)))"

definition canTransferEntrySponsorship ::
    "LedgerHeader \<Rightarrow> LedgerEntry \<Rightarrow> LedgerEntry \<Rightarrow> LedgerEntry \<Rightarrow> SponsorshipResult tx" where
  "canTransferEntrySponsorship lh le oldSponsoringAcc newSponsoringAcc =
     bindE (requireV14 lh) (\<lambda>_.
     if entrySponsor le = None then
       Inl (TxRuntimeError ''transferring sponsorship on unsponsored entry'')
     else bindE (accountIsSponsor (entrySponsor le) oldSponsoringAcc) (\<lambda>_.
          canTransferSponsorshipHelper lh oldSponsoringAcc newSponsoringAcc (computeMultiplier le)))"

definition canEstablishSignerSponsorship ::
    "LedgerHeader \<Rightarrow> nat \<Rightarrow> LedgerEntry \<Rightarrow> LedgerEntry \<Rightarrow> SponsorshipResult tx" where
  "canEstablishSignerSponsorship lh n sponsoringAcc sponsoredAcc =
     bindE (requireV14 lh) (\<lambda>_.
     bindE (isSignerSponsored n sponsoringAcc sponsoredAcc) (\<lambda>r.
     if r \<noteq> NOT_SPONSORED then Inl (TxRuntimeError ''bad signer sponsorship'')
     else canEstablishSponsorshipHelper lh sponsoringAcc (Some sponsoredAcc) 1))"

definition canRemoveSignerSponsorship ::
    "LedgerHeader \<Rightarrow> nat \<Rightarrow> LedgerEntry \<Rightarrow> LedgerEntry \<Rightarrow> SponsorshipResult tx" where
  "canRemoveSignerSponsorship lh n sponsoringAcc sponsoredAcc =
     bindE (requireV14 lh) (\<lambda>_.
     bindE (isSignerSponsored n sponsoringAcc sponsoredAcc) (\<lambda>r.
     if r \<noteq> SPONSORED then Inl (TxRuntimeError ''bad signer sponsorship'')
     else canRemoveSponsorshipHelper lh sponsoringAcc (Some sponsoredAcc) 1))"

definition canTransferSignerSponsorship ::
    "LedgerHeader \<Rightarrow> nat \<Rightarrow> LedgerEntry \<Rightarrow> LedgerEntry \<Rightarrow> LedgerEntry \<Rightarrow> SponsorshipResult tx" where
  "canTransferSignerSponsorship lh n oldSponsoringAcc newSponsoringAcc sponsoredAcc =
     bindE (requireV14 lh) (\<lambda>_.
     bindE (isSignerSponsored n oldSponsoringAcc sponsoredAcc) (\<lambda>r.
     if r \<noteq> SPONSORED then Inl (TxRuntimeError ''bad signer sponsorship'')
     else canTransferSponsorshipHelper lh oldSponsoringAcc newSponsoringAcc 1))"

section \<open>Establishing, removing and transferring\<close>

definition establishEntrySponsorship ::
    "LedgerEntry \<Rightarrow> LedgerEntry \<Rightarrow> Sponsored \<Rightarrow> (LedgerEntry \<times> LedgerEntry \<times> Sponsored) tx" where
  "establishEntrySponsorship le sponsoringAcc sponsored =
     (let mult = computeMultiplier le
      in bindE (accountOf sponsoringAcc) (\<lambda>ae.
         let le1 = le\<lparr>ledgerExt := Some (Some (accountID ae))\<rparr>
         in bindE (addNumSponsoring mult sponsoringAcc) (\<lambda>sponsoringAcc'.
            bindE (onSponsored (addNumSponsored mult) le1 sponsored) (\<lambda>(le2, sponsored').
            Inr (le2, sponsoringAcc', sponsored')))))"

definition removeEntrySponsorship ::
    "LedgerEntry \<Rightarrow> LedgerEntry \<Rightarrow> Sponsored \<Rightarrow> (LedgerEntry \<times> LedgerEntry \<times> Sponsored) tx" where
  "removeEntrySponsorship le sponsoringAcc sponsored =
     bindE (getLedgerEntryExtensionV1 le) (\<lambda>sponsoringID.
     bindE (accountIsSponsor sponsoringID sponsoringAcc) (\<lambda>_.
     let le1 = le\<lparr>ledgerExt := Some None\<rparr>; mult = computeMultiplier le
     in bindE (subNumSponsoring mult sponsoringAcc) (\<lambda>sponsoringAcc'.
        bindE (onSponsored (subNumSponsored mult) le1 sponsored) (\<lambda>(le2, sponsored').
        Inr (le2, sponsoringAcc', sponsored')))))"

definition transferEntrySponsorship ::
    "LedgerEntry \<Rightarrow> LedgerEntry \<Rightarrow> LedgerEntry \<Rightarrow> (LedgerEntry \<times> LedgerEntry \<times> LedgerEntry) tx" where
  "transferEntrySponsorship le oldSponsoringAcc newSponsoringAcc =
     bindE (getLedgerEntryExtensionV1 le) (\<lambda>sponsoringID.
     bindE (accountIsSponsor sponsoringID oldSponsoringAcc) (\<lambda>_.
     bindE (accountOf newSponsoringAcc) (\<lambda>ae.
     let le1 = le\<lparr>ledgerExt := Some (Some (accountID ae))\<rparr>; mult = computeMultiplier le
     in bindE (addNumSponsoring mult newSponsoringAcc) (\<lambda>new'.
        bindE (subNumSponsoring mult oldSponsoringAcc) (\<lambda>old'.
        Inr (le1, old', new'))))))"

definition setSignerSponsor :: "nat \<Rightarrow> AccountID option \<Rightarrow> AccountEntryExtensionV2 \<Rightarrow> AccountEntryExtensionV2 tx" where
  "setSignerSponsor n i v2 =
     (if n \<ge> length (signerSponsoringIDs v2) then Inl OutOfRange
      else Inr (v2\<lparr>signerSponsoringIDs := (signerSponsoringIDs v2)[n := i]\<rparr>))"

definition establishSignerSponsorship ::
    "nat \<Rightarrow> LedgerEntry \<Rightarrow> LedgerEntry \<Rightarrow> (LedgerEntry \<times> LedgerEntry) tx" where
  "establishSignerSponsorship n sponsoringAcc sponsoredAcc =
     bindE (accountOf sponsoringAcc) (\<lambda>ing.
     bindE (onAccount (\<lambda>ae.
        bindE (setSignerSponsor n (Some (accountID ing)) (prepareAccountEntryExtensionV2 ae)) (\<lambda>v2.
        Inr (setAccountEntryExtensionV2 (v2\<lparr>numSponsored := numSponsored v2 + 1\<rparr>) ae))) sponsoredAcc)
       (\<lambda>sponsoredAcc'.
     bindE (addNumSponsoring 1 sponsoringAcc) (\<lambda>sponsoringAcc'.
     Inr (sponsoringAcc', sponsoredAcc'))))"

definition removeSignerSponsorship ::
    "nat \<Rightarrow> LedgerEntry \<Rightarrow> LedgerEntry \<Rightarrow> (LedgerEntry \<times> LedgerEntry) tx" where
  "removeSignerSponsorship n sponsoringAcc sponsoredAcc =
     bindE (onAccount (\<lambda>ae.
        bindE (getAccountEntryExtensionV2 ae) (\<lambda>v2.
        if n \<ge> length (signerSponsoringIDs v2) then Inl OutOfRange
        else bindE (accountIsSponsor (signerSponsoringIDs v2 ! n) sponsoringAcc) (\<lambda>_.
             bindE (setSignerSponsor n None v2) (\<lambda>v2'.
             Inr (setAccountEntryExtensionV2 (v2'\<lparr>numSponsored := numSponsored v2' - 1\<rparr>) ae))))) sponsoredAcc)
       (\<lambda>sponsoredAcc'.
     bindE (subNumSponsoring 1 sponsoringAcc) (\<lambda>sponsoringAcc'.
     Inr (sponsoringAcc', sponsoredAcc')))"

definition transferSignerSponsorship ::
    "nat \<Rightarrow> LedgerEntry \<Rightarrow> LedgerEntry \<Rightarrow> LedgerEntry \<Rightarrow> (LedgerEntry \<times> LedgerEntry \<times> LedgerEntry) tx" where
  "transferSignerSponsorship n oldSponsoringAcc newSponsoringAcc sponsoredAcc =
     bindE (accountOf newSponsoringAcc) (\<lambda>new.
     bindE (onAccount (\<lambda>ae.
        bindE (getAccountEntryExtensionV2 ae) (\<lambda>v2.
        if n \<ge> length (signerSponsoringIDs v2) then Inl OutOfRange
        else bindE (accountIsSponsor (signerSponsoringIDs v2 ! n) oldSponsoringAcc) (\<lambda>_.
             bindE (setSignerSponsor n (Some (accountID new)) v2) (\<lambda>v2'.
             Inr (setAccountEntryExtensionV2 v2' ae))))) sponsoredAcc)
       (\<lambda>sponsoredAcc'.
     bindE (addNumSponsoring 1 newSponsoringAcc) (\<lambda>new'.
     bindE (subNumSponsoring 1 oldSponsoringAcc) (\<lambda>old'.
     Inr (old', new', sponsoredAcc')))))"

section \<open>Whether an entry can be created or removed\<close>

definition ACCOUNT_SUBENTRY_LIMIT :: uint32 where "ACCOUNT_SUBENTRY_LIMIT = 1000"
definition FIRST_PROTOCOL_SUPPORTING_OPERATION_LIMITS :: uint32 where
  "FIRST_PROTOCOL_SUPPORTING_OPERATION_LIMITS = 11"

definition canCreateEntryWithoutSponsorship ::
    "LedgerHeader \<Rightarrow> LedgerEntry \<Rightarrow> LedgerEntry \<Rightarrow> SponsorshipResult tx" where
  "canCreateEntryWithoutSponsorship lh le acc =
     bindE (accountOf acc) (\<lambda>ae.
     case ledgerData le of
       ACCOUNT new \<Rightarrow>
         bindE (getMinBalance lh ae) (\<lambda>minBalance.
         if accBalance new < minBalance then Inr LOW_RESERVE else Inr SUCCESS)
     | _ \<Rightarrow>
       if ledgerVersion lh \<ge> FIRST_PROTOCOL_SUPPORTING_OPERATION_LIMITS
          \<and> numSubEntries ae \<ge> ACCOUNT_SUBENTRY_LIMIT then Inr TOO_MANY_SUBENTRIES
       else let mult = computeMultiplier le
            in if ledgerVersion lh < 9 then
                 bindE (getAvailableBalance lh
                   (acc\<lparr>ledgerData := ACCOUNT (ae\<lparr>numSubEntries := numSubEntries ae + mult\<rparr>)\<rparr>)) (\<lambda>avail.
                 if avail < 0 then Inr LOW_RESERVE else Inr SUCCESS)
               else bindE (getAvailableBalance lh acc) (\<lambda>avail.
                 if avail < uint mult * uint (baseReserve lh) then Inr LOW_RESERVE else Inr SUCCESS))"

definition canCreateEntryWithSponsorship ::
    "LedgerHeader \<Rightarrow> LedgerEntry \<Rightarrow> LedgerEntry \<Rightarrow> LedgerEntry option \<Rightarrow> SponsorshipResult tx" where
  "canCreateEntryWithSponsorship lh le sponsoringAcc sponsoredAcc =
     bindE (requireV14 lh) (\<lambda>_.
     bindE (case sponsoredAcc of
              Some s \<Rightarrow>
                if isSubentry le then
                  bindE (accountOf s) (\<lambda>ae. Inr (numSubEntries ae \<ge> ACCOUNT_SUBENTRY_LIMIT))
                else Inr False
            | None \<Rightarrow> Inr False) (\<lambda>tooMany.
     if tooMany then Inr TOO_MANY_SUBENTRIES
     else canEstablishEntrySponsorship lh le sponsoringAcc sponsoredAcc))"

definition canRemoveEntryWithoutSponsorship :: "LedgerEntry \<Rightarrow> LedgerEntry \<Rightarrow> unit tx" where
  "canRemoveEntryWithoutSponsorship le acc =
     (if isAccount le then Inr ()
      else bindE (accountOf acc) (\<lambda>ae.
        if numSubEntries ae < computeMultiplier le then
          Inl (TxRuntimeError ''invalid account state'')
        else Inr ()))"

definition canRemoveEntryWithSponsorship ::
    "LedgerHeader \<Rightarrow> LedgerEntry \<Rightarrow> LedgerEntry \<Rightarrow> LedgerEntry option \<Rightarrow> unit tx" where
  "canRemoveEntryWithSponsorship lh le sponsoringAcc sponsoredAcc =
     bindE (requireV14 lh) (\<lambda>_.
     let mult = computeMultiplier le
     in bindE (getNumSponsoring sponsoringAcc) (\<lambda>ing.
        if ing < mult then Inl (TxRuntimeError ''invalid sponsoring account state'')
        else if isAccount le \<and> sponsoredAcc \<noteq> Some le then
          Inl (TxRuntimeError ''invalid sponsored account'')
        else case sponsoredAcc of
          None \<Rightarrow> Inr ()
        | Some s \<Rightarrow>
            bindE (accountOf s) (\<lambda>ae.
            bindE (getNumSponsored s) (\<lambda>ed.
            if (\<not> isAccount le \<and> numSubEntries ae < mult) \<or> ed < mult then
              Inl (TxRuntimeError ''invalid sponsored account state'')
            else Inr ()))))"

definition canCreateSignerWithoutSponsorship :: "LedgerHeader \<Rightarrow> LedgerEntry \<Rightarrow> SponsorshipResult tx" where
  "canCreateSignerWithoutSponsorship lh acc =
     bindE (accountOf acc) (\<lambda>ae.
     if ledgerVersion lh \<ge> FIRST_PROTOCOL_SUPPORTING_OPERATION_LIMITS
        \<and> numSubEntries ae \<ge> ACCOUNT_SUBENTRY_LIMIT then Inr TOO_MANY_SUBENTRIES
     else bindE (getAvailableBalance lh acc) (\<lambda>avail.
          if avail < uint (baseReserve lh) then Inr LOW_RESERVE else Inr SUCCESS))"

definition canCreateSignerWithSponsorship ::
    "LedgerHeader \<Rightarrow> nat \<Rightarrow> LedgerEntry \<Rightarrow> LedgerEntry \<Rightarrow> SponsorshipResult tx" where
  "canCreateSignerWithSponsorship lh n sponsoringAcc sponsoredAcc =
     bindE (requireV14 lh) (\<lambda>_.
     bindE (accountOf sponsoredAcc) (\<lambda>ae.
     if numSubEntries ae \<ge> ACCOUNT_SUBENTRY_LIMIT then Inr TOO_MANY_SUBENTRIES
     else canEstablishSignerSponsorship lh n sponsoringAcc sponsoredAcc))"

definition canRemoveSignerWithoutSponsorship :: "LedgerEntry \<Rightarrow> unit tx" where
  "canRemoveSignerWithoutSponsorship acc =
     bindE (accountOf acc) (\<lambda>ae.
     if numSubEntries ae < 1 then Inl (TxRuntimeError ''invalid account state'') else Inr ())"

definition canRemoveSignerWithSponsorship :: "LedgerHeader \<Rightarrow> LedgerEntry \<Rightarrow> LedgerEntry \<Rightarrow> unit tx" where
  "canRemoveSignerWithSponsorship lh sponsoringAcc sponsoredAcc =
     bindE (requireV14 lh) (\<lambda>_.
     bindE (getNumSponsoring sponsoringAcc) (\<lambda>ing.
     if ing < 1 then Inl (TxRuntimeError ''invalid sponsoring account state'')
     else bindE (accountOf sponsoredAcc) (\<lambda>ae.
          bindE (getNumSponsored sponsoredAcc) (\<lambda>ed.
          if numSubEntries ae < 1 \<or> ed < 1 then
            Inl (TxRuntimeError ''invalid sponsored account state'')
          else Inr ()))))"

section \<open>Creating and removing\<close>

definition createEntryWithoutSponsorship :: "LedgerEntry \<Rightarrow> LedgerEntry \<Rightarrow> LedgerEntry tx" where
  "createEntryWithoutSponsorship le acc = (if isSubentry le then addSubEntries 1 acc else Inr acc)"

definition createEntryWithSponsorship ::
    "LedgerEntry \<Rightarrow> LedgerEntry \<Rightarrow> Sponsored \<Rightarrow> (LedgerEntry \<times> LedgerEntry \<times> Sponsored) tx" where
  "createEntryWithSponsorship le sponsoringAcc sponsored =
     bindE (onSponsored (createEntryWithoutSponsorship le) le sponsored) (\<lambda>(le1, sponsored1).
     establishEntrySponsorship le1 sponsoringAcc sponsored1)"

definition removeEntryWithoutSponsorship :: "LedgerEntry \<Rightarrow> LedgerEntry \<Rightarrow> LedgerEntry tx" where
  "removeEntryWithoutSponsorship le acc = (if isAccount le then Inr acc else addSubEntries (- 1) acc)"

definition removeEntryWithSponsorship ::
    "LedgerEntry \<Rightarrow> LedgerEntry \<Rightarrow> Sponsored \<Rightarrow> (LedgerEntry \<times> LedgerEntry \<times> Sponsored) tx" where
  "removeEntryWithSponsorship le sponsoringAcc sponsored =
     bindE (onSponsored (removeEntryWithoutSponsorship le) le sponsored) (\<lambda>(le1, sponsored1).
     removeEntrySponsorship le1 sponsoringAcc sponsored1)"

definition createSignerWithoutSponsorship :: "LedgerEntry \<Rightarrow> LedgerEntry tx" where
  "createSignerWithoutSponsorship acc = addSubEntries 1 acc"

definition createSignerWithSponsorship ::
    "nat \<Rightarrow> LedgerEntry \<Rightarrow> LedgerEntry \<Rightarrow> (LedgerEntry \<times> LedgerEntry) tx" where
  "createSignerWithSponsorship n sponsoringAcc sponsoredAcc =
     bindE (createSignerWithoutSponsorship sponsoredAcc) (\<lambda>acc1.
     establishSignerSponsorship n sponsoringAcc acc1)"

definition eraseAt :: "nat \<Rightarrow> 'a list \<Rightarrow> 'a list" where
  "eraseAt n xs = take n xs @ drop (Suc n) xs"

definition removeSignerWithoutSponsorship :: "nat \<Rightarrow> LedgerEntry \<Rightarrow> LedgerEntry tx" where
  "removeSignerWithoutSponsorship n = onAccount (\<lambda>ae.
     let ae1 = ae\<lparr>numSubEntries := numSubEntries ae - 1\<rparr>;
         ae2 = (if hasAccountEntryExtV2 ae1 then
                  (let v2 = prepareAccountEntryExtensionV2 ae1
                   in setAccountEntryExtensionV2
                        (v2\<lparr>signerSponsoringIDs := eraseAt n (signerSponsoringIDs v2)\<rparr>) ae1)
                else ae1)
     in Inr (ae2\<lparr>signers := eraseAt n (signers ae2)\<rparr>))"

definition removeSignerWithSponsorship ::
    "nat \<Rightarrow> LedgerEntry \<Rightarrow> LedgerEntry \<Rightarrow> (LedgerEntry \<times> LedgerEntry) tx" where
  "removeSignerWithSponsorship n sponsoringAcc sponsoredAcc =
     bindE (removeSignerSponsorship n sponsoringAcc sponsoredAcc) (\<lambda>(ing, ed).
     bindE (removeSignerWithoutSponsorship n ed) (\<lambda>ed'. Inr (ing, ed')))"

section \<open>With a possible sponsor\<close>

text \<open>
  The functions below read the state for the sponsor and return the entry and the account with the
  state in which the sponsoring account is written; the caller writes the entry and the account.
\<close>

definition loadSponsorship :: "LedgerState \<Rightarrow> AccountID \<Rightarrow> AccountID option" where
  "loadSponsorship ls sponsoredID = map_of (lsSponsorships ls) sponsoredID"

definition accountAfter :: "LedgerEntry \<Rightarrow> LedgerEntry \<Rightarrow> Sponsored \<Rightarrow> LedgerEntry" where
  "accountAfter acc le sponsored =
     (case sponsored of NoSponsored \<Rightarrow> acc | SponsoredAccount acc' \<Rightarrow> acc' | SponsoredSelf \<Rightarrow> acc)"

definition createEntryWithPossibleSponsorship ::
    "LedgerState \<Rightarrow> LedgerEntry \<Rightarrow> LedgerEntry
     \<Rightarrow> (SponsorshipResult \<times> LedgerEntry \<times> LedgerEntry \<times> LedgerState) tx" where
  "createEntryWithPossibleSponsorship ls le acc =
     bindE (accountOf (if isAccount le then le else acc)) (\<lambda>sponsoredAe.
     let sponsored = (if isClaimableBalance le then NoSponsored
                      else if isAccount le then SponsoredSelf else SponsoredAccount acc)
     in case loadSponsorship ls (accountID sponsoredAe) of
       Some sponsoringID \<Rightarrow>
         bindE (current (loadEntry ls (AccountKey sponsoringID))) (\<lambda>sponsoringAcc.
         bindE (canCreateEntryWithSponsorship (lsHeader ls) le sponsoringAcc (sponsoredEntry le sponsored))
           (\<lambda>res.
         if res = SUCCESS then
           bindE (createEntryWithSponsorship le sponsoringAcc sponsored) (\<lambda>(le', sponsoringAcc', sponsored').
           Inr (res, le', accountAfter acc le' sponsored', storeEntry sponsoringAcc' ls))
         else Inr (res, le, acc, ls)))
     | None \<Rightarrow>
         if isClaimableBalance le then
           bindE (canCreateEntryWithSponsorship (lsHeader ls) le acc None) (\<lambda>res.
           if res = SUCCESS then
             bindE (createEntryWithSponsorship le acc NoSponsored) (\<lambda>(le', acc', _). Inr (res, le', acc', ls))
           else Inr (res, le, acc, ls))
         else
           bindE (canCreateEntryWithoutSponsorship (lsHeader ls) le (if isAccount le then le else acc))
             (\<lambda>res.
           if res = SUCCESS then
             (if isAccount le then Inr (res, le, acc, ls)
              else bindE (createEntryWithoutSponsorship le acc) (\<lambda>acc'. Inr (res, le, acc', ls)))
           else Inr (res, le, acc, ls)))"

definition removeEntryWithPossibleSponsorship ::
    "LedgerState \<Rightarrow> LedgerEntry \<Rightarrow> LedgerEntry \<Rightarrow> (LedgerEntry \<times> LedgerEntry \<times> LedgerState) tx" where
  "removeEntryWithPossibleSponsorship ls le acc =
     (case entrySponsor le of
        Some sponsoringID \<Rightarrow>
          let sponsored = (if isClaimableBalance le then NoSponsored
                           else if isAccount le then SponsoredSelf else SponsoredAccount acc)
          in bindE (accountOf acc) (\<lambda>ae.
             if accountID ae = sponsoringID then
               (if \<not> isClaimableBalance le then
                  Inl (TxRuntimeError ''sponsoringID == sourceAccount for non-CLAIMABLE_BALANCE entry'')
                else bindE (canRemoveEntryWithSponsorship (lsHeader ls) le acc (sponsoredEntry le sponsored))
                       (\<lambda>_.
                     bindE (removeEntryWithSponsorship le acc sponsored) (\<lambda>(le', acc', _).
                     Inr (le', acc', ls))))
             else
               bindE (current (loadEntry ls (AccountKey sponsoringID))) (\<lambda>sponsoringAcc.
               bindE (canRemoveEntryWithSponsorship (lsHeader ls) le sponsoringAcc
                        (sponsoredEntry le sponsored)) (\<lambda>_.
               bindE (removeEntryWithSponsorship le sponsoringAcc sponsored) (\<lambda>(le', sponsoringAcc', sponsored').
               Inr (le', accountAfter acc le' sponsored', storeEntry sponsoringAcc' ls)))))
      | None \<Rightarrow>
          bindE (canRemoveEntryWithoutSponsorship le acc) (\<lambda>_.
          bindE (removeEntryWithoutSponsorship le acc) (\<lambda>acc'. Inr (le, acc', ls))))"

definition createSignerWithPossibleSponsorship ::
    "LedgerState \<Rightarrow> nat \<Rightarrow> LedgerEntry \<Rightarrow> (SponsorshipResult \<times> LedgerEntry \<times> LedgerState) tx" where
  "createSignerWithPossibleSponsorship ls n acc =
     bindE (accountOf acc) (\<lambda>ae.
     case loadSponsorship ls (accountID ae) of
       Some sponsoringID \<Rightarrow>
         bindE (current (loadEntry ls (AccountKey sponsoringID))) (\<lambda>sponsoringAcc.
         bindE (canCreateSignerWithSponsorship (lsHeader ls) n sponsoringAcc acc) (\<lambda>res.
         if res = SUCCESS then
           bindE (createSignerWithSponsorship n sponsoringAcc acc) (\<lambda>(ing, acc').
           Inr (res, acc', storeEntry ing ls))
         else Inr (res, acc, ls)))
     | None \<Rightarrow>
         bindE (canCreateSignerWithoutSponsorship (lsHeader ls) acc) (\<lambda>res.
         if res = SUCCESS then
           bindE (createSignerWithoutSponsorship acc) (\<lambda>acc'. Inr (res, acc', ls))
         else Inr (res, acc, ls)))"

definition removeSignerWithPossibleSponsorship ::
    "LedgerState \<Rightarrow> nat \<Rightarrow> LedgerEntry \<Rightarrow> (LedgerEntry \<times> LedgerState) tx" where
  "removeSignerWithPossibleSponsorship ls n acc =
     bindE (accountOf acc) (\<lambda>ae.
     bindE (if hasAccountEntryExtV2 ae then
              (let ids = signerSponsoringIDs (prepareAccountEntryExtensionV2 ae)
               in if n \<ge> length ids then Inl OutOfRange else Inr (ids ! n))
            else Inr None) (\<lambda>sponsoringID.
     case sponsoringID of
       Some i \<Rightarrow>
         bindE (current (loadEntry ls (AccountKey i))) (\<lambda>sponsoringAcc.
         bindE (canRemoveSignerWithSponsorship (lsHeader ls) sponsoringAcc acc) (\<lambda>_.
         bindE (removeSignerWithSponsorship n sponsoringAcc acc) (\<lambda>(ing, acc').
         Inr (acc', storeEntry ing ls))))
     | None \<Rightarrow>
         bindE (canRemoveSignerWithoutSponsorship acc) (\<lambda>_.
         bindE (removeSignerWithoutSponsorship n acc) (\<lambda>acc'. Inr (acc', ls)))))"

end
