(* ===== verification/OrderBook.thy ===== *)
theory OrderBook
  imports LedgerEntries
begin

text \<open>
  The order of the offers of a book, \<^verbatim>\<open>isBetterOffer\<close> of \<^verbatim>\<open>ledger/LedgerTxnOfferSQL.cpp\<close>. The code compares
  prices as quotients of \<^verbatim>\<open>double\<close>s: the quotient of two positive 32-bit integers rounded to 53 significant
  bits, ties to even. \<open>doublePrice\<close> is that double as an integer, in units of \<open>2 ^ - 84\<close>.
\<close>

section \<open>Definitions\<close>

fun bitLength :: "nat \<Rightarrow> nat" where
  "bitLength n = (if n = 0 then 0 else Suc (bitLength (n div 2)))"

declare bitLength.simps [simp del]

definition doublePrice :: "Price \<Rightarrow> int" where
  "doublePrice p =
     (let x = priceN p * 2 ^ 84; q = x div priceD p; r = x mod priceD p;
          k = bitLength (nat q) - 53; m = q div 2 ^ k; low = q mod 2 ^ k; half = 2 ^ k div 2;
          up = (low > half \<or> low = half \<and> (r > 0 \<or> odd m))
      in (m + (if up then 1 else 0)) * 2 ^ k)"

record OfferDescriptor =
  descPrice :: Price
  descOfferID :: int

definition isBetterOffer :: "OfferDescriptor \<Rightarrow> OfferDescriptor \<Rightarrow> bool" where
  "isBetterOffer lhs rhs =
     (let lhsPrice = doublePrice (descPrice lhs); rhsPrice = doublePrice (descPrice rhs)
      in if lhsPrice < rhsPrice then True
         else if lhsPrice = rhsPrice then descOfferID lhs < descOfferID rhs
         else False)"

definition offerDescriptor :: "OfferEntry \<Rightarrow> OfferDescriptor" where
  "offerDescriptor oe = \<lparr>descPrice = offerPrice oe, descOfferID = offerID oe\<rparr>"

section \<open>Rounding to a double is monotone\<close>

lemma bitLength_bounds:
  assumes "0 < n"
  shows "2 ^ (bitLength n - 1) \<le> n" "n < 2 ^ bitLength n" "0 < bitLength n"
proof -
  have "2 ^ (bitLength n - 1) \<le> n \<and> n < 2 ^ bitLength n \<and> 0 < bitLength n"
    using assms
  proof (induction n rule: bitLength.induct)
    case (1 n)
    show ?case
    proof (cases "n div 2 = 0")
      case True
      then have "n = 1" using 1(2) by (cases n; cases "n - 1"; auto)
      moreover have "bitLength (Suc 0) = 1"
        by (simp add: bitLength.simps [of "Suc 0"] bitLength.simps [of 0])
      ultimately show ?thesis by simp
    next
      case False
      then have IH: "2 ^ (bitLength (n div 2) - 1) \<le> n div 2 \<and> n div 2 < 2 ^ bitLength (n div 2)
          \<and> 0 < bitLength (n div 2)" using 1 by auto
      have e: "bitLength n = Suc (bitLength (n div 2))" using 1(2) by (simp add: bitLength.simps [of n])
      obtain b where b: "bitLength (n div 2) = Suc b" using IH by (cases "bitLength (n div 2)") auto
      show ?thesis using IH e b by auto
    qed
  qed
  then show "2 ^ (bitLength n - 1) \<le> n" "n < 2 ^ bitLength n" "0 < bitLength n" by auto
qed

lemma bitLength_mono: "m \<le> n \<Longrightarrow> bitLength m \<le> bitLength n"
proof (induction m arbitrary: n rule: bitLength.induct)
  case (1 m)
  show ?case
  proof (cases "m = 0")
    case True
    then show ?thesis by (simp add: bitLength.simps [of 0])
  next
    case False
    then show ?thesis using 1 by (simp add: bitLength.simps [of m] bitLength.simps [of n] div_le_mono)
  qed
qed

text \<open>
  \<open>roundTo k q r\<close> rounds \<open>q\<close>, with a fraction that is not zero exactly if \<open>r\<close>, to a multiple of \<open>2 ^ k\<close>.
\<close>

definition roundTo :: "nat \<Rightarrow> int \<Rightarrow> bool \<Rightarrow> int" where
  "roundTo k q r =
     (let m = q div 2 ^ k; low = q mod 2 ^ k; half = 2 ^ k div 2
      in (m + (if low > half \<or> low = half \<and> (r \<or> odd m) then 1 else 0)) * 2 ^ k)"

lemma doublePrice_roundTo:
  "doublePrice p = roundTo (bitLength (nat (priceN p * 2 ^ 84 div priceD p)) - 53)
     (priceN p * 2 ^ 84 div priceD p) (priceN p * 2 ^ 84 mod priceD p > 0)"
  by (simp add: doublePrice_def roundTo_def Let_def)

lemma roundTo_mono:
  assumes "q < q' \<or> q = q' \<and> (r \<longrightarrow> r')"
  shows "roundTo k q r \<le> roundTo k q' r'"
proof -
  let ?up = "\<lambda>q r. (if q mod 2 ^ k > 2 ^ k div 2 \<or> q mod 2 ^ k = 2 ^ k div 2 \<and> (r \<or> odd (q div 2 ^ k))
    then 1 else 0 :: int)"
  have le: "q div 2 ^ k \<le> q' div 2 ^ k" using assms by (intro zdiv_mono1) auto
  have "q div 2 ^ k + ?up q r \<le> q' div 2 ^ k + ?up q' r'"
  proof (cases "q div 2 ^ k = q' div 2 ^ k")
    case False
    with le show ?thesis by auto
  next
    case True
    have "q mod 2 ^ k = q - q div 2 ^ k * 2 ^ k" "q' mod 2 ^ k = q' - q' div 2 ^ k * 2 ^ k"
      by (simp_all add: minus_div_mult_eq_mod)
    then have "q mod 2 ^ k < q' mod 2 ^ k \<or> q = q' \<and> (r \<longrightarrow> r')"
      using assms True by auto
    then show ?thesis using True by auto
  qed
  then show ?thesis unfolding roundTo_def Let_def by (intro mult_right_mono) auto
qed

lemma roundTo_le_power:
  assumes "q < 2 ^ (k + j)"
  shows "roundTo k q r \<le> 2 ^ (k + j)"
proof -
  have "q div 2 ^ k < 2 ^ j"
    using assms mult_le_of_le_div [of "2 ^ k" "2 ^ j" q]
    by (auto simp: power_add mult.commute not_less [symmetric])
  then have "(q div 2 ^ k + (if b then 1 else 0)) * 2 ^ k \<le> 2 ^ j * 2 ^ k" for b
    by (intro mult_right_mono) auto
  then show ?thesis unfolding roundTo_def Let_def power_add by (simp add: mult.commute)
qed

lemma power_le_roundTo:
  assumes "2 ^ (k + j) \<le> q"
  shows "2 ^ (k + j) \<le> roundTo k q r"
proof -
  have "2 ^ j \<le> q div 2 ^ k"
    using zdiv_mono1 [OF assms, of "2 ^ k"] by (simp add: power_add)
  then have "2 ^ j * 2 ^ k \<le> (q div 2 ^ k + (if b then 1 else 0)) * 2 ^ k" for b
    by (intro mult_right_mono) auto
  then show ?thesis unfolding roundTo_def Let_def power_add by (simp add: mult.commute)
qed


lemma quotient_mono:
  assumes d: "0 < d" "0 < d'" and le: "x * d' \<le> x' * (d :: int)"
  shows "x div d < x' div d' \<or> x div d = x' div d' \<and> (x mod d > 0 \<longrightarrow> x' mod d' > 0)"
proof -
  let ?q = "x div d" and ?q' = "x' div d'"
  have x: "x = ?q * d + x mod d" and x': "x' = ?q' * d' + x' mod d'" by simp_all
  have "?q * d * d' \<le> x * d'" using d by (intro mult_right_mono) (simp_all add: div_mult_le)
  with le have "?q * d' * d \<le> x' * d" by (simp add: mult.commute mult.left_commute)
  then have "?q * d' \<le> x'" using d by simp
  then have q: "?q \<le> ?q'" using zdiv_mono1 [of "?q * d'" x' d'] d by simp
  show ?thesis
  proof (cases "?q = ?q'")
    case True
    have "x mod d * d' \<le> x' mod d' * d"
    proof -
      have "x * d' = ?q * d * d' + x mod d * d'" using x by (metis distrib_right)
      moreover have "x' * d = ?q * d * d' + x' mod d' * d"
        using x' True by (metis distrib_right mult.assoc mult.commute)
      ultimately show ?thesis using le by simp
    qed
    then have "0 < x' mod d'" if "0 < x mod d"
      using that d by (metis mult_pos_pos mult_zero_left order_less_le_trans pos_mod_sign order_le_less not_less)
    with True show ?thesis by blast
  qed (use q in simp)
qed

lemma roundTo_double_mono:
  assumes q: "q < q' \<or> q = q' \<and> (r \<longrightarrow> r')" and q0: "0 \<le> q" "0 \<le> q'"
  defines "k \<equiv> bitLength (nat q) - 53" and "k' \<equiv> bitLength (nat q') - 53"
  shows "roundTo k q r \<le> roundTo k' q' r'"
proof (cases "k = k'")
  case True
  then show ?thesis using roundTo_mono [OF q] by simp
next
  case False
  have "bitLength (nat q) \<le> bitLength (nat q')" using q by (intro bitLength_mono) auto
  with False have k: "k < k'" "bitLength (nat q) \<le> k' + 52" "bitLength (nat q') = k' + 53"
    unfolding k_def k'_def by linarith+
  have pos': "0 < nat q'" using k(3) by (cases "nat q' = 0") (auto simp: bitLength.simps [of 0])
  have "2 ^ (k' + 52) \<le> nat q'" using bitLength_bounds(1) [OF pos'] k(3) by (simp add: add.commute)
  then have 1: "2 ^ (k' + 52) \<le> q'" using pos' by (simp add: le_nat_iff)
  have "nat q < 2 ^ (k' + 52)"
  proof (cases "nat q = 0")
    case False
    then have "nat q < 2 ^ bitLength (nat q)" by (intro bitLength_bounds(2)) blast
    also have "2 ^ bitLength (nat q) \<le> (2 :: nat) ^ (k' + 52)" using k(2) by (intro power_increasing) auto
    finally show ?thesis .
  qed simp
  then have "q < 2 ^ (k + (k' + 52 - k))" using q0(1) k(1) by (simp add: nat_less_iff)
  from roundTo_le_power [OF this] have "roundTo k q r \<le> 2 ^ (k' + 52)" using k(1) by simp
  also have "\<dots> \<le> roundTo k' q' r'" by (rule power_le_roundTo [OF 1])
  finally show ?thesis .
qed

lemma doublePrice_mono:
  assumes p: "validPrice p" "validPrice p'" and le: "priceN p * priceD p' \<le> priceN p' * priceD p"
  shows "doublePrice p \<le> doublePrice p'"
proof -
  note pd = validPriceD(1,2) [OF p(1)] validPriceD(1,2) [OF p(2)]
  have "priceN p * 2 ^ 84 * priceD p' \<le> priceN p' * 2 ^ 84 * priceD p" using le by simp
  note q = quotient_mono [OF pd(2,4) this]
  have "0 \<le> priceN p * 2 ^ 84 div priceD p" "0 \<le> priceN p' * 2 ^ 84 div priceD p'"
    using pd by (simp_all add: pos_imp_zdiv_nonneg_iff)
  then show ?thesis unfolding doublePrice_roundTo by (rule roundTo_double_mono [OF q])
qed

section \<open>The order of offers\<close>

lemma isBetterOffer_iff:
  "isBetterOffer a b \<longleftrightarrow> doublePrice (descPrice a) < doublePrice (descPrice b)
     \<or> doublePrice (descPrice a) = doublePrice (descPrice b) \<and> descOfferID a < descOfferID b"
  by (simp add: isBetterOffer_def Let_def)

lemma isBetterOffer_irrefl: "\<not> isBetterOffer a a"
  by (simp add: isBetterOffer_iff)

lemma isBetterOffer_trans: "isBetterOffer a b \<Longrightarrow> isBetterOffer b c \<Longrightarrow> isBetterOffer a c"
  by (auto simp: isBetterOffer_iff)

lemma isBetterOffer_linear: "descOfferID a \<noteq> descOfferID b \<Longrightarrow> isBetterOffer a b \<or> isBetterOffer b a"
  by (auto simp: isBetterOffer_iff)

lemma isBetterOffer_price:
  assumes "isBetterOffer a b" "validPrice (descPrice a)" "validPrice (descPrice b)"
    and "priceN (descPrice b) * priceD (descPrice a) < priceN (descPrice a) * priceD (descPrice b)"
  shows "doublePrice (descPrice a) = doublePrice (descPrice b)"
  using doublePrice_mono [OF assms(3,2)] assms(1,4) by (auto simp: isBetterOffer_iff)


section \<open>The best offer of a book\<close>

text \<open>
  What \<^verbatim>\<open>LedgerTxn::loadBestOffer\<close> promises: the best offer that buys \<open>buying\<close> for \<open>selling\<close> among the
  entries of the state.
\<close>

definition inBook :: "Asset \<Rightarrow> Asset \<Rightarrow> LedgerEntry \<Rightarrow> bool" where
  "inBook b s le = (case ledgerData le of OFFER oe \<Rightarrow> buying oe = b \<and> selling oe = s | _ \<Rightarrow> False)"

definition entryDescriptor :: "LedgerEntry \<Rightarrow> OfferDescriptor" where
  "entryDescriptor le =
     (case ledgerData le of OFFER oe \<Rightarrow> offerDescriptor oe | _ \<Rightarrow> \<lparr>descPrice = \<lparr>priceN = 0, priceD = 0\<rparr>, descOfferID = 0\<rparr>)"

fun bestOf :: "LedgerEntry list \<Rightarrow> LedgerEntry option" where
  "bestOf [] = None"
| "bestOf (le # les) =
     (case bestOf les of
        None \<Rightarrow> Some le
      | Some b \<Rightarrow> if isBetterOffer (entryDescriptor b) (entryDescriptor le) then Some b else Some le)"

definition bestOffer :: "LedgerState \<Rightarrow> Asset \<Rightarrow> Asset \<Rightarrow> LedgerEntry option" where
  "bestOffer ls b s = bestOf (filter (inBook b s) (map snd (lsEntries ls)))"

lemma bestOf_None_iff: "bestOf les = None \<longleftrightarrow> les = []"
  by (cases les) (auto split: option.splits)

lemma bestOf_in: "bestOf les = Some le \<Longrightarrow> le \<in> set les"
  by (induction les arbitrary: le) (auto split: option.splits if_splits)

lemma bestOf_best:
  "bestOf les = Some le \<Longrightarrow> le' \<in> set les \<Longrightarrow> \<not> isBetterOffer (entryDescriptor le') (entryDescriptor le)"
proof (induction les arbitrary: le)
  case (Cons x les)
  show ?case
  proof (cases "bestOf les")
    case None
    then have "les = []" by (simp add: bestOf_None_iff)
    then show ?thesis using Cons.prems by (auto simp: isBetterOffer_irrefl)
  next
    case (Some b)
    show ?thesis
    proof (cases "isBetterOffer (entryDescriptor b) (entryDescriptor x)")
      case True
      then have "le = b" using Some Cons.prems by simp
      then show ?thesis using Cons.prems(2) Cons.IH [OF Some] True
        by (auto dest: isBetterOffer_trans simp: isBetterOffer_irrefl)
    next
      case False
      then have le: "le = x" using Some Cons.prems by simp
      show ?thesis
      proof
        assume a: "isBetterOffer (entryDescriptor le') (entryDescriptor le)"
        with le have "le' \<in> set les" using Cons.prems(2) by (auto simp: isBetterOffer_irrefl)
        then have "\<not> isBetterOffer (entryDescriptor le') (entryDescriptor b)" using Cons.IH [OF Some] by blast
        with a le False show False by (auto simp: isBetterOffer_iff)
      qed
    qed
  qed
qed simp

lemma bestOffer_Some:
  assumes "stateWf ls" "bestOffer ls b s = Some le"
  shows "\<exists>oe. ledgerData le = OFFER oe \<and> buying oe = b \<and> selling oe = s
    \<and> loadEntry ls (OfferKey (sellerID oe) (offerID oe)) = Some le"
proof -
  have "le \<in> snd ` set (lsEntries ls)" "inBook b s le"
    using bestOf_in [OF assms(2) [unfolded bestOffer_def]] by auto
  then obtain k where k: "(k, le) \<in> set (lsEntries ls)" by auto
  obtain oe where oe: "ledgerData le = OFFER oe" "buying oe = b" "selling oe = s"
    using \<open>inBook b s le\<close> by (auto simp: inBook_def split: LedgerEntryData.splits)
  have "k = OfferKey (sellerID oe) (offerID oe)"
    using k oe assms(1) by (auto simp: stateWf_def LedgerEntryKey_def)
  then show ?thesis using k oe assms(1) by (auto simp: stateWf_def loadEntry_def)
qed

end
