(* ===== verification/OfferCrossing.thy ===== *)
theory OfferCrossing
  imports OfferLiabilities Sponsorship OrderBook
begin

text \<open>
  \<^verbatim>\<open>transactions/OfferExchange.cpp\<close>, crossing the offers of a book: one offer before and since version 10 of
  the protocol, and the loop that buys wheat with sheep from the best offers on. Each iteration of the
  loop runs in a nested \<^verbatim>\<open>LedgerTxn\<close> that is committed or dropped; with explicit states that is the
  choice of the state to go on with.
\<close>

section \<open>Definitions\<close>

datatype CrossOfferResult = eOfferPartial | eOfferTaken | eOfferCantConvert

datatype ConvertResult = eOK | ePartial | eFilterStop | eCrossedTooMany

datatype OfferFilterResult = eKeep | eStop

record ClaimOfferAtom =
  claimSellerID :: AccountID
  claimOfferID :: int
  assetSold :: Asset
  amountSold :: int
  assetBought :: Asset
  amountBought :: int

text \<open>What crossing one offer yields: the result, the two amounts, whether the wheat offer stays, the state.\<close>

record Crossing =
  crossResult :: CrossOfferResult
  crossWheat :: int
  crossSheep :: int
  crossStays :: bool
  crossState :: LedgerState

text \<open>\<^verbatim>\<open>assert\<close> and the balance change of the account or the trust line that holds an asset.\<close>

definition assertTx :: "bool \<Rightarrow> unit tx" where
  "assertTx c = (if c then Inr () else Inl AssertFailed)"

definition changeHolding ::
    "LedgerHeader \<Rightarrow> Asset \<Rightarrow> LedgerEntry option \<Rightarrow> TrustLineWrapper option \<Rightarrow> int
     \<Rightarrow> (LedgerEntry option \<times> TrustLineWrapper option) option tx" where
  "changeHolding header asset account line delta =
     (if asset = ASSET_TYPE_NATIVE then
        bindE (current account) (\<lambda>acc.
        bindE (addBalance header acc delta) (\<lambda>r.
        Inr (map_option (\<lambda>acc'. (Some acc', line)) r)))
      else case line of
        None \<Rightarrow> Inl (TxRuntimeError ''TrustLineWrapper not active'')
      | Some w \<Rightarrow>
          bindE (lineAddBalance header w delta) (\<lambda>r.
          Inr (map_option (\<lambda>w'. (account, Some w')) r)))"

definition changeHoldingOrThrow ::
    "string \<Rightarrow> LedgerHeader \<Rightarrow> Asset \<Rightarrow> LedgerEntry option \<Rightarrow> TrustLineWrapper option \<Rightarrow> int
     \<Rightarrow> (LedgerEntry option \<times> TrustLineWrapper option) tx" where
  "changeHoldingOrThrow msg header asset account line delta =
     (if delta = 0 then Inr (account, line)
      else bindE (changeHolding header asset account line delta) (\<lambda>r.
        case r of None \<Rightarrow> Inl (TxRuntimeError msg) | Some h \<Rightarrow> Inr h))"

definition storeOptional :: "LedgerEntry option \<Rightarrow> LedgerState \<Rightarrow> LedgerState" where
  "storeOptional h ls = (case h of None \<Rightarrow> ls | Some le \<Rightarrow> storeEntry le ls)"

definition storeOptionalLine :: "TrustLineWrapper option \<Rightarrow> LedgerState \<Rightarrow> LedgerState" where
  "storeOptionalLine h ls = (case h of None \<Rightarrow> ls | Some w \<Rightarrow> storeTrustLine w ls)"

definition removeOffer :: "LedgerState \<Rightarrow> LedgerEntry \<Rightarrow> AccountID \<Rightarrow> LedgerState tx" where
  "removeOffer ls le seller =
     bindE (current (loadEntry ls (AccountKey seller))) (\<lambda>account.
     bindE (removeEntryWithPossibleSponsorship ls le account) (\<lambda>(le', account', ls').
     Inr (eraseEntry (LedgerEntryKey le) (storeEntry account' ls'))))"

subsection \<open>Since version 10\<close>

definition crossOfferV10 ::
    "LedgerState \<Rightarrow> LedgerEntry \<Rightarrow> int \<Rightarrow> int \<Rightarrow> RoundingType \<Rightarrow> Crossing tx" where
  "crossOfferV10 ls le maxWheatReceived maxSheepSend round =
     bindE (assertTx (maxWheatReceived > 0)) (\<lambda>_.
     bindE (assertTx (maxSheepSend > 0)) (\<lambda>_.
     bindE (offerOf le) (\<lambda>offer.
     let header = lsHeader ls; sheep = buying offer; wheat = selling offer; seller = sellerID offer
     in if loadEntry ls (AccountKey seller) = None then
          Inl (TxRuntimeError ''invalid database state: offer must have matching account'')
        else
     bindE (releaseLiabilities ls offer) (\<lambda>ls1.
     let accountB = (if wheat = ASSET_TYPE_NATIVE \<or> sheep = ASSET_TYPE_NATIVE
                     then loadEntry ls1 (AccountKey seller) else None)
     in
     bindE (loadTrustLineIfNotNative ls1 seller sheep) (\<lambda>sheepLine.
     bindE (loadTrustLineIfNotNative ls1 seller wheat) (\<lambda>wheatLine.
     bindE (adjustOffer header offer accountB wheat wheatLine sheep sheepLine) (\<lambda>offer1.
     bindE (canSellAtMost header accountB wheat wheatLine) (\<lambda>sell.
     bindE (canBuyAtMost header accountB sheep sheepLine) (\<lambda>maxSheepReceive.
     bindE (exchangeV10 (offerPrice offer1) (min (offerAmount offer1) sell) maxWheatReceived
              maxSheepSend maxSheepReceive round) (\<lambda>res.
     bindE (changeHoldingOrThrow ''overflowed sheep balance'' header sheep accountB sheepLine
              (sheepSend10 res)) (\<lambda>(accountB1, sheepLine1).
     bindE (changeHoldingOrThrow ''overflowed wheat balance'' header wheat accountB1 wheatLine
              (- wheatReceived10 res)) (\<lambda>(accountB2, wheatLine1).
     bindE (if wheatStays res then
              adjustOffer header (offer1\<lparr>offerAmount := offerAmount offer1 - wheatReceived10 res\<rparr>)
                accountB2 wheat wheatLine1 sheep sheepLine1
            else Inr (offer1\<lparr>offerAmount := 0\<rparr>)) (\<lambda>offer2.
     let le2 = le\<lparr>ledgerData := OFFER offer2\<rparr>;
         ls2 = storeEntry le2 (storeOptionalLine wheatLine1 (storeOptionalLine sheepLine1
                 (storeOptional accountB2 ls1)));
         result = (if offerAmount offer2 = 0 then eOfferTaken else eOfferPartial)
     in
     bindE (if result = eOfferTaken then removeOffer ls2 le2 seller else acquireLiabilities ls2 offer2)
       (\<lambda>ls3.
     Inr \<lparr>crossResult = result, crossWheat = wheatReceived10 res, crossSheep = sheepSend10 res,
          crossStays = wheatStays res, crossState = ls3\<rparr>))))))))))))))"

subsection \<open>Before version 10\<close>

text \<open>
  \<^verbatim>\<open>performExchange\<close> returns its type and assigns \<^verbatim>\<open>numWheatReceived\<close>, \<^verbatim>\<open>numSheepSend\<close> and \<^verbatim>\<open>newAmount\<close>.
\<close>

definition performExchange ::
    "LedgerHeader \<Rightarrow> OfferEntry \<Rightarrow> LedgerEntry option \<Rightarrow> TrustLineWrapper option
     \<Rightarrow> TrustLineWrapper option \<Rightarrow> int \<Rightarrow> int \<Rightarrow> (ExchangeResultType \<times> int \<times> int \<times> int) tx" where
  "performExchange header offer accountB wheatLine sheepLine maxWheatReceived maxSheepSend =
     bindE (canSellAtMostBasedOnSheep header (buying offer) sheepLine (offerPrice offer)) (\<lambda>bySheep.
     bindE (canSellAtMost header accountB (selling offer) wheatLine) (\<lambda>sell.
     let wheat0 = min (min bySheep sell) (offerAmount offer)
     in
     bindE (assertTx (wheat0 \<ge> 0)) (\<lambda>_.
     bindE (if ledgerVersion header < 3
            then exchangeV2 wheat0 (offerPrice offer) maxWheatReceived maxSheepSend
            else exchangeV3 wheat0 (offerPrice offer) maxWheatReceived maxSheepSend) (\<lambda>res.
     let type = exchangeResultType res
     in if type = REDUCED_TO_ZERO then
          Inr (REDUCED_TO_ZERO, numWheatReceived res, numSheepSend res, wheat0)
        else
          let bogus = (type = BOGUS);
              wheat = (if bogus then 0 else numWheatReceived res);
              sheep = (if bogus then 0 else numSheepSend res);
              offerTaken = (bogus \<or> offerAmount offer \<le> wheat)
          in Inr (EXCHANGE_NORMAL, wheat, sheep, if offerTaken then 0 else wheat0 - wheat)))))"

text \<open>
  The change of a balance of the seller inside its own \<^verbatim>\<open>LedgerTxn\<close>: \<open>None\<close> if it cannot be made.
\<close>

definition adjustSellerBalance :: "LedgerState \<Rightarrow> AccountID \<Rightarrow> Asset \<Rightarrow> int \<Rightarrow> LedgerState option tx" where
  "adjustSellerBalance ls seller asset delta =
     (if delta = 0 then Inr (Some ls)
      else bindE (loadTrustLineIfNotNative ls seller asset) (\<lambda>line.
      bindE (changeHolding (lsHeader ls) asset (loadEntry ls (AccountKey seller)) line delta) (\<lambda>r.
      Inr (map_option (\<lambda>(account', line').
        if asset = ASSET_TYPE_NATIVE then storeOptional account' ls
        else storeOptionalLine line' ls) r))))"

definition crossOffer :: "LedgerState \<Rightarrow> LedgerEntry \<Rightarrow> int \<Rightarrow> int \<Rightarrow> Crossing tx" where
  "crossOffer ls le maxWheatReceived maxSheepSend =
     bindE (assertTx (maxWheatReceived > 0)) (\<lambda>_.
     bindE (assertTx (maxSheepSend > 0)) (\<lambda>_.
     bindE (offerOf le) (\<lambda>offer.
     let sheep = buying offer; wheat = selling offer; seller = sellerID offer
     in if loadEntry ls (AccountKey seller) = None then
          Inl (TxRuntimeError ''invalid database state: offer must have matching account'')
        else
     bindE (loadTrustLineIfNotNative ls seller sheep) (\<lambda>sheepLine.
     bindE (loadTrustLineIfNotNative ls seller wheat) (\<lambda>wheatLine.
     bindE (performExchange (lsHeader ls) offer (loadEntry ls (AccountKey seller)) wheatLine sheepLine
              maxWheatReceived maxSheepSend) (\<lambda>(type, numWheat, numSheep, newAmount).
     let cant = Inr \<lparr>crossResult = eOfferCantConvert, crossWheat = numWheat, crossSheep = numSheep,
                     crossStays = False, crossState = ls\<rparr>
     in if type = REDUCED_TO_ZERO then cant
        else
     bindE (if newAmount = 0 then removeOffer ls le seller
            else Inr (storeEntry (le\<lparr>ledgerData := OFFER (offer\<lparr>offerAmount := newAmount\<rparr>)\<rparr>) ls)) (\<lambda>ls1.
     bindE (adjustSellerBalance ls1 seller sheep numSheep) (\<lambda>r1.
     case r1 of
       None \<Rightarrow> cant
     | Some ls2 \<Rightarrow>
     bindE (adjustSellerBalance ls2 seller wheat (- numWheat)) (\<lambda>r2.
     case r2 of
       None \<Rightarrow> cant
     | Some ls3 \<Rightarrow>
         Inr \<lparr>crossResult = (if newAmount = 0 then eOfferTaken else eOfferPartial),
              crossWheat = numWheat, crossSheep = numSheep, crossStays = False,
              crossState = ls3\<rparr>)))))))))"

subsection \<open>The loop\<close>

record Conversion =
  convResult :: ConvertResult
  convSheepSend :: int
  convWheatReceived :: int
  convTrail :: "ClaimOfferAtom list"
  convState :: LedgerState

definition claimAtom :: "OfferEntry \<Rightarrow> Crossing \<Rightarrow> ClaimOfferAtom" where
  "claimAtom offer c = \<lparr>claimSellerID = sellerID offer, claimOfferID = offerID offer,
     assetSold = selling offer, amountSold = crossWheat c,
     assetBought = buying offer, amountBought = crossSheep c\<rparr>"

text \<open>
  One round of the loop crosses the offer that \<^verbatim>\<open>loadBestOffer\<close> found; \<open>needMore\<close> holds on entry.
  \<^verbatim>\<open>maxOffersToCross\<close> is compared as \<^verbatim>\<open>uint64_t\<close>, so a negative bound is no bound.
\<close>

definition crossBest ::
    "LedgerState \<Rightarrow> LedgerEntry \<Rightarrow> int \<Rightarrow> int \<Rightarrow> RoundingType \<Rightarrow> Crossing tx" where
  "crossBest ls le maxWheatReceive maxSheepSend round =
     bindE (if ledgerVersion (lsHeader ls) \<ge> 10
            then crossOfferV10 ls le maxWheatReceive maxSheepSend round
            else crossOffer ls le maxWheatReceive maxSheepSend) (\<lambda>c.
     bindE (assertTx (crossSheep c \<ge> 0 \<and> crossSheep c \<le> maxSheepSend
              \<and> crossWheat c \<ge> 0 \<and> crossWheat c \<le> maxWheatReceive)) (\<lambda>_.
     Inr c))"

fun convertLoop ::
    "nat \<Rightarrow> LedgerState \<Rightarrow> Asset \<Rightarrow> int \<Rightarrow> int \<Rightarrow> Asset \<Rightarrow> int \<Rightarrow> int \<Rightarrow> RoundingType
     \<Rightarrow> (LedgerEntry \<Rightarrow> OfferFilterResult) option \<Rightarrow> ClaimOfferAtom list \<Rightarrow> int \<Rightarrow> Conversion tx" where
  "convertLoop 0 ls sheep maxSheepSend sheepSend wheat maxWheatReceive wheatReceived round offerFilter trail
       maxOffersToCross = Inl TxOutOfFuel"
| "convertLoop (Suc fuel) ls sheep maxSheepSend sheepSend wheat maxWheatReceive wheatReceived round
       offerFilter trail maxOffersToCross =
     (let finish = (\<lambda>result. Inr \<lparr>convResult = result, convSheepSend = sheepSend,
            convWheatReceived = wheatReceived, convTrail = trail, convState = ls\<rparr>)
      in case bestOffer ls sheep wheat of
        None \<Rightarrow> finish (if ledgerVersion (lsHeader ls) < 10 then eOK else ePartial)
      | Some le \<Rightarrow>
          if (case offerFilter of None \<Rightarrow> False | Some f \<Rightarrow> f le = eStop) then finish eFilterStop
          else if word_of_nat (length trail) \<ge> (word_of_int maxOffersToCross :: uint64) then
            finish eCrossedTooMany
          else
            bindE (offerOf le) (\<lambda>offer.
            bindE (crossBest ls le maxWheatReceive maxSheepSend round) (\<lambda>c.
            if crossResult c = eOfferCantConvert then finish ePartial
            else
              let trail' = trail @ [claimAtom offer c];
                  sheepSend' = sheepSend + crossSheep c; maxSheepSend' = maxSheepSend - crossSheep c;
                  wheatReceived' = wheatReceived + crossWheat c;
                  maxWheatReceive' = maxWheatReceive - crossWheat c;
                  needMore = ((ledgerVersion (lsHeader ls) \<ge> 10 \<longrightarrow> \<not> crossStays c)
                              \<and> maxWheatReceive' > 0 \<and> maxSheepSend' > 0);
                  finish' = (\<lambda>result. Inr \<lparr>convResult = result, convSheepSend = sheepSend',
                    convWheatReceived = wheatReceived', convTrail = trail', convState = crossState c\<rparr>)
              in if \<not> needMore then finish' eOK
                 else if crossResult c = eOfferPartial then finish' ePartial
                 else convertLoop fuel (crossState c) sheep maxSheepSend' sheepSend' wheat
                        maxWheatReceive' wheatReceived' round offerFilter trail' maxOffersToCross)))"

definition numOffers :: "LedgerState \<Rightarrow> nat" where
  "numOffers ls = length (filter (\<lambda>e. case fst e of OfferKey _ _ \<Rightarrow> True | _ \<Rightarrow> False) (lsEntries ls))"

definition convertWithOffers ::
    "LedgerState \<Rightarrow> Asset \<Rightarrow> int \<Rightarrow> Asset \<Rightarrow> int \<Rightarrow> RoundingType
     \<Rightarrow> (LedgerEntry \<Rightarrow> OfferFilterResult) option \<Rightarrow> int \<Rightarrow> Conversion tx" where
  "convertWithOffers ls sheep maxSheepSend wheat maxWheatReceive round offerFilter maxOffersToCross =
     (if maxWheatReceive > 0 \<and> maxSheepSend > 0 then
        convertLoop (Suc (numOffers ls)) ls sheep maxSheepSend 0 wheat maxWheatReceive 0 round offerFilter []
          maxOffersToCross
      else Inr \<lparr>convResult = eOK, convSheepSend = 0, convWheatReceived = 0, convTrail = [],
                convState = ls\<rparr>)"

end
