(* ===== verification/CrossingRules.thy ===== *)
theory CrossingRules
  imports BalanceRules OfferCrossing
begin

text \<open>
  What the steps of crossing an offer do, in terms of the two holdings of its seller: the account for the
  native asset, the trust line for another, or no limit at all for the issuer.
\<close>

section \<open>The holding of an asset\<close>

definition isIssuerOf :: "AccountID \<Rightarrow> Asset \<Rightarrow> bool" where
  "isIssuerOf A X = (case getIssuer X of Inl _ \<Rightarrow> False | Inr i \<Rightarrow> i = A)"

definition holderKey :: "AccountID \<Rightarrow> Asset \<Rightarrow> LedgerKey" where
  "holderKey A X = (if X = ASSET_TYPE_NATIVE then AccountKey A else TrustLineKey A X)"

definition holder :: "LedgerState \<Rightarrow> AccountID \<Rightarrow> Asset \<Rightarrow> LedgerEntry option" where
  "holder ls A X = (if isIssuerOf A X then None else loadEntry ls (holderKey A X))"

text \<open>The holding is there unless it is the issuer's, and the operations on it do not throw.\<close>

definition holderReady :: "LedgerState \<Rightarrow> AccountID \<Rightarrow> Asset \<Rightarrow> bool" where
  "holderReady ls A X \<longleftrightarrow> isIssuerOf A X
     \<or> (\<exists>e. loadEntry ls (holderKey A X) = Some e \<and> usable (lsHeader ls) e \<and> holdingOk e
          \<and> LedgerEntryKey e = holderKey A X)"

definition sellCap :: "LedgerHeader \<Rightarrow> LedgerEntry option \<Rightarrow> int" where
  "sellCap h ho =
     (case ho of None \<Rightarrow> INT64_MAX | Some e \<Rightarrow> max 0 (balanceOf e - reserveOf h e - sellingOf e))"

definition buyCap :: "LedgerEntry option \<Rightarrow> int" where
  "buyCap ho = (case ho of None \<Rightarrow> INT64_MAX | Some e \<Rightarrow> max 0 (capOf e - balanceOf e - buyingOf e))"

definition holderOk :: "LedgerHeader \<Rightarrow> AccountID \<Rightarrow> Asset \<Rightarrow> LedgerEntry option \<Rightarrow> bool" where
  "holderOk h A X ho =
     (case ho of
        None \<Rightarrow> isIssuerOf A X
      | Some e \<Rightarrow> usable h e \<and> holdingOk e \<and> \<not> isIssuerOf A X \<and> LedgerEntryKey e = holderKey A X)"

definition storeHolder :: "LedgerEntry option \<Rightarrow> LedgerState \<Rightarrow> LedgerState" where
  "storeHolder ho ls = (case ho of None \<Rightarrow> ls | Some e \<Rightarrow> storeEntry e ls)"

text \<open>The account and the trust line handles that stand for a holding.\<close>

definition handles :: "AccountID \<Rightarrow> Asset \<Rightarrow> LedgerEntry option \<Rightarrow> LedgerEntry option \<Rightarrow> TrustLineWrapper option \<Rightarrow> bool" where
  "handles A X ho acc line =
     (if X = ASSET_TYPE_NATIVE then acc = ho \<and> ho \<noteq> None \<and> line = None
      else line = Some (case ho of None \<Rightarrow> IssuerImpl A X | Some e \<Rightarrow> NonIssuerImpl e))"

lemma isIssuerOf_native [simp]: "\<not> isIssuerOf A ASSET_TYPE_NATIVE"
  by (simp add: isIssuerOf_def getIssuer_def)

lemma holderReady_ok: "holderReady ls A X \<Longrightarrow> holderOk (lsHeader ls) A X (holder ls A X)"
  by (auto simp: holderReady_def holderOk_def holder_def)

lemma holderKey_native_iff: "holderKey A X = AccountKey B \<longleftrightarrow> X = ASSET_TYPE_NATIVE \<and> A = B"
  by (simp add: holderKey_def)

lemma holderKey_eq_iff [simp]: "holderKey A X = holderKey B Y \<longleftrightarrow> A = B \<and> X = Y"
  by (auto simp: holderKey_def)

lemma holderKey_not_offer [simp]: "holderKey A X \<noteq> OfferKey B i" "OfferKey B i \<noteq> holderKey A X"
  by (auto simp: holderKey_def)

lemma getIssuer_non_native: "X \<noteq> ASSET_TYPE_NATIVE \<Longrightarrow> \<exists>i. getIssuer X = Inr i"
  by (cases X) (auto simp: getIssuer_def)

lemma entry_key_cases:
  "LedgerEntryKey e = AccountKey A \<Longrightarrow> \<exists>a. ledgerData e = ACCOUNT a \<and> accountID a = A"
  "LedgerEntryKey e = TrustLineKey A X \<Longrightarrow> \<exists>t. ledgerData e = TRUSTLINE t \<and> tlAccountID t = A \<and> tlAsset t = X"
  "LedgerEntryKey e = OfferKey A i \<Longrightarrow> \<exists>oe. ledgerData e = OFFER oe \<and> sellerID oe = A \<and> offerID oe = i"
  by (cases "ledgerData e"; simp add: LedgerEntryKey_def)+

lemma loadTrustLine_holder:
  assumes "X \<noteq> ASSET_TYPE_NATIVE"
  shows "loadTrustLine ls A X =
    Inr (if isIssuerOf A X then Some (IssuerImpl A X) else map_option NonIssuerImpl (holder ls A X))"
  using getIssuer_non_native [OF assms] assms
  by (auto simp: loadTrustLine_def isIssuerOf_def holder_def holderKey_def)

lemma handles_load:
  assumes ok: "holderOk h A X (holder ls A X)"
    and acc: "X = ASSET_TYPE_NATIVE \<Longrightarrow> acc = loadEntry ls (AccountKey A)"
  shows "\<exists>line. loadTrustLineIfNotNative ls A X = Inr line \<and> handles A X (holder ls A X) acc line"
proof (cases "X = ASSET_TYPE_NATIVE")
  case True
  then show ?thesis using ok acc
    by (auto simp: loadTrustLineIfNotNative_def handles_def holder_def holderKey_def holderOk_def
        split: option.splits)
next
  case False
  then show ?thesis using ok
    by (cases "holder ls A X")
      (auto simp: loadTrustLineIfNotNative_def loadTrustLine_holder handles_def holderOk_def)
qed

lemma reserve_trust_zero: "ledgerData e = TRUSTLINE t \<Longrightarrow> reserveOf h e = 0"
  by (simp add: reserveOf_def)

lemma canSellAtMost_holder:
  assumes "10 \<le> ledgerVersion h" "holderOk h A X ho" "handles A X ho acc line"
  shows "canSellAtMost h acc X line = Inr (sellCap h ho)"
proof (cases "X = ASSET_TYPE_NATIVE")
  case True
  then obtain e where e: "ho = Some e" "acc = Some e" "usable h e"
    using assms(2,3) by (auto simp: handles_def holderOk_def split: option.splits)
  then show ?thesis using True assms(1)
    by (simp add: canSellAtMost_def current_def getAvailableBalance_holding sellCap_def max.commute)
next
  case False
  show ?thesis
  proof (cases ho)
    case None
    then show ?thesis using False assms
      by (simp add: canSellAtMost_def handles_def lineIsAuthorizedToMaintainLiabilities_def
          lineGetAvailableBalance_def sellCap_def INT64_MAX_def)
  next
    case (Some e)
    then have k: "usable h e" "LedgerEntryKey e = TrustLineKey A X"
      using False assms(2) by (auto simp: holderOk_def holderKey_def)
    then obtain t where t: "ledgerData e = TRUSTLINE t" using entry_key_cases(2) by blast
    then show ?thesis using False assms k Some
      by (simp add: canSellAtMost_def handles_def lineIsAuthorizedToMaintainLiabilities_def usable_def
          trustLineOf_def lineGetAvailableBalance_def getAvailableBalance_holding sellCap_def max.commute)
  qed
qed

lemma canBuyAtMost_holder:
  assumes "10 \<le> ledgerVersion h" "holderOk h A X ho" "handles A X ho acc line"
  shows "canBuyAtMost h acc X line = Inr (buyCap ho)"
proof (cases "X = ASSET_TYPE_NATIVE")
  case True
  then obtain e where e: "ho = Some e" "acc = Some e" "usable h e"
    using assms(2,3) by (auto simp: handles_def holderOk_def split: option.splits)
  then show ?thesis using True assms(1)
    by (simp add: canBuyAtMost_def current_def getMaxAmountReceive_holding buyCap_def max.commute)
next
  case False
  then show ?thesis using assms
    by (cases ho) (auto simp: canBuyAtMost_def handles_def lineGetMaxAmountReceive_def holderOk_def
        getMaxAmountReceive_holding buyCap_def max.commute INT64_MAX_def)
qed

text \<open>A change of a balance through the handles.\<close>

definition creditHolder :: "int \<Rightarrow> LedgerEntry option \<Rightarrow> LedgerEntry option" where
  "creditHolder d ho = map_option (\<lambda>e. setBalance (balanceOf e + d) e) ho"

definition creditable :: "LedgerHeader \<Rightarrow> int \<Rightarrow> LedgerEntry option \<Rightarrow> bool" where
  "creditable h d ho =
     (case ho of
        None \<Rightarrow> True
      | Some e \<Rightarrow> (d < 0 \<longrightarrow> reserveOf h e + sellingOf e \<le> balanceOf e + d)
                  \<and> (0 < d \<longrightarrow> balanceOf e + d + buyingOf e \<le> capOf e))"

lemma creditHolder_0 [simp]: "creditHolder 0 ho = ho"
  by (cases ho) (simp_all add: creditHolder_def setBalance_same)

lemma handles_credit:
  assumes v: "10 \<le> ledgerVersion h" and ok: "holderOk h A X ho" and hd: "handles A X ho acc line"
    and c: "creditable h d ho"
  shows "\<exists>acc' line'. changeHoldingOrThrow msg h X acc line d = Inr (acc', line')
    \<and> handles A X (creditHolder d ho) acc' line'
    \<and> (X \<noteq> ASSET_TYPE_NATIVE \<longrightarrow> acc' = acc) \<and> (X = ASSET_TYPE_NATIVE \<longrightarrow> line' = line)"
proof (cases "d = 0")
  case True
  then show ?thesis using hd by (simp add: changeHoldingOrThrow_def)
next
  case False
  show ?thesis
  proof (cases ho)
    case None
    then have "X \<noteq> ASSET_TYPE_NATIVE" using hd by (auto simp: handles_def)
    then show ?thesis using None hd
      by (simp add: changeHoldingOrThrow_def changeHolding_def handles_def creditHolder_def lineAddBalance_def)
  next
    case (Some e)
    then have e: "usable h e" "holdingOk e" using ok by (auto simp: holderOk_def)
    have "addBalance h e d = Inr (Some (setBalance (balanceOf e + d) e))"
      using addBalance_holding [OF v e] c Some by (simp add: creditable_def)
    then show ?thesis using Some hd False
      by (cases "X = ASSET_TYPE_NATIVE")
        (auto simp: changeHoldingOrThrow_def changeHolding_def handles_def creditHolder_def
          lineAddBalance_def current_def)
  qed
qed

lemma holderOk_credit:
  assumes "holderOk h A X ho" "creditable h d ho"
  shows "holderOk h A X (creditHolder d ho)"
proof (cases ho)
  case (Some e)
  have e: "usable h e" "holdingOk e" "0 \<le> reserveOf h e" "isHolding e"
    using assms Some by (auto simp: holderOk_def reserveOf_nonneg usable_isHolding)
  have "holdingOk (setBalance (balanceOf e + d) e)"
    using e assms(2) Some unfolding holdingOk_def creditable_def
    by (cases "d < 0"; cases "d = 0") auto
  then show ?thesis using assms(1) Some by (simp add: holderOk_def creditHolder_def)
qed (use assms in \<open>simp add: holderOk_def creditHolder_def\<close>)

lemma adjustOffer_holder:
  assumes "10 \<le> ledgerVersion h" "holderOk h A W hW" "handles A W hW acc wline"
    "holderOk h A S hS" "handles A S hS acc sline"
  shows "adjustOffer h oe acc W wline S sline =
    bindE (adjustOfferAmount (offerPrice oe) (min (offerAmount oe) (sellCap h hW)) (buyCap hS)) (\<lambda>a.
      Inr (oe\<lparr>offerAmount := a\<rparr>))"
  using assms by (simp add: adjustOffer_def canSellAtMost_holder canBuyAtMost_holder)

lemma caps_amount:
  assumes "holderOk h A X ho"
  shows "isAmount (sellCap h ho)" "isAmount (buyCap ho)"
proof -
  have "isAmount INT64_MAX" by (simp add: isAmount_def INT64_MAX_def)
  then show "isAmount (sellCap h ho)" "isAmount (buyCap ho)"
    using assms reserveOf_nonneg [of h]
    by (cases ho; force simp: sellCap_def buyCap_def holderOk_def holdingOk_def isAmount_def)+
qed

section \<open>Liabilities\<close>

definition offerOk :: "OfferEntry \<Rightarrow> bool" where
  "offerOk oe \<longleftrightarrow> validPrice (offerPrice oe) \<and> isAmount (offerAmount oe) \<and> buying oe \<noteq> selling oe"

definition offerBuy :: "OfferEntry \<Rightarrow> int" where
  "offerBuy oe =
     snd (takeWheatOffer (offerPrice oe) (wheatOfferValue (offerPrice oe) (offerAmount oe) INT64_MAX))"

definition offerSell :: "OfferEntry \<Rightarrow> int" where
  "offerSell oe =
     fst (takeWheatOffer (offerPrice oe) (wheatOfferValue (offerPrice oe) (offerAmount oe) INT64_MAX))"

lemma INT64_MAX_amount [simp]: "isAmount INT64_MAX"
  by (simp add: isAmount_def INT64_MAX_def)

lemma wheatOfferValue_le_unlimited:
  assumes p: "validPrice p" and a: "isAmount ws" "isAmount sr"
  shows "wheatOfferValue p ws sr \<le> sheepOfferValue p INT64_MAX INT64_MAX"
proof -
  note pd = validPriceD [OF p]
  have "ws * priceN p \<le> INT64_MAX * priceN p" "sr * priceD p \<le> INT64_MAX * priceD p"
    using a pd by (auto simp: isAmount_def intro: mult_right_mono)
  then show ?thesis by (auto simp: wheatOfferValue_def sheepOfferValue_def)
qed

lemma offer_exchange:
  assumes "offerOk oe"
  shows "exchangeV10WithoutPriceErrorThresholds (offerPrice oe) (offerAmount oe) INT64_MAX INT64_MAX
      INT64_MAX NORMAL =
    Inr \<lparr>wheatReceived10 = offerSell oe, sheepSend10 = offerBuy oe, wheatStays = False\<rparr>"
proof -
  have o: "validPrice (offerPrice oe)" "isAmount (offerAmount oe)" using assms by (auto simp: offerOk_def)
  have l: "exchangeLimits (offerAmount oe) INT64_MAX INT64_MAX INT64_MAX"
    using o(2) by (simp add: exchangeLimits_def)
  show ?thesis
    unfolding exchangeV10Without_exact [OF o(1) l]
    using wheatOfferValue_le_unlimited [OF o INT64_MAX_amount]
    by (simp add: exchangeExact_def offerSell_def offerBuy_def Let_def split: prod.splits)
qed

lemma offer_liabilities:
  assumes "10 \<le> ledgerVersion h" "offerOk oe"
  shows "getOfferBuyingLiabilities h oe = Inr (offerBuy oe)"
    "getOfferSellingLiabilities h oe = Inr (offerSell oe)"
  using assms by (simp_all add: getOfferBuyingLiabilities_def getOfferSellingLiabilities_def
      offer_exchange linorder_not_less)

lemma offer_liabilities_bounds:
  assumes "offerOk oe"
  shows "0 \<le> offerBuy oe" "0 \<le> offerSell oe" "offerSell oe \<le> offerAmount oe"
proof -
  have o: "validPrice (offerPrice oe)" "isAmount (offerAmount oe)" using assms by (auto simp: offerOk_def)
  obtain w s where t: "takeWheatOffer (offerPrice oe)
      (wheatOfferValue (offerPrice oe) (offerAmount oe) INT64_MAX) = (w, s)" by fastforce
  note b = takeWheatOffer_bounds [OF o(1) offerValue_nonneg(1) [OF o INT64_MAX_amount]
      offerValue_le(1,2) [OF o(1)] t]
  show "0 \<le> offerBuy oe" "0 \<le> offerSell oe" "offerSell oe \<le> offerAmount oe"
    using b t by (simp_all add: offerBuy_def offerSell_def)
qed

lemma offer_liabilities_0:
  assumes "validPrice (offerPrice oe)" "offerAmount oe = 0"
  shows "offerBuy oe = 0" "offerSell oe = 0"
proof -
  have "wheatOfferValue (offerPrice oe) 0 INT64_MAX = 0"
    using validPriceD [OF assms(1)] by (simp add: wheatOfferValue_def INT64_MAX_def)
  then show "offerBuy oe = 0" "offerSell oe = 0"
    using assms takeWheatOffer_0 [OF assms(1)] by (simp_all add: offerBuy_def offerSell_def)
qed

text \<open>
  The liabilities of an adjusted offer are its amount and at most what its seller can receive, although
  they are computed without that limit.
\<close>

lemma takeWheatOffer_unlimited:
  assumes p: "validPrice p" and a: "isAmount ws" "isAmount sr"
    and t: "takeWheatOffer p (wheatOfferValue p ws sr) = (w, s)"
  shows "takeWheatOffer p (wheatOfferValue p w INT64_MAX) = (w, s)"
proof -
  note pd = validPriceD [OF p]
  note b = takeWheatOffer_bounds [OF p offerValue_nonneg(1) [OF p a] offerValue_le(1,2) [OF p] t]
  have wM: "isAmount w" using b a by (auto simp: isAmount_def)
  show ?thesis
  proof (cases "priceN p > priceD p")
    case True
    have s: "s = w * priceN p div priceD p" and w: "w = wheatOfferValue p ws sr div priceN p"
      using t True by (auto simp: takeWheatOffer_def Let_def)
    have "w * priceN p \<le> wheatOfferValue p ws sr" using w pd by (simp add: div_mult_le)
    also have "\<dots> \<le> sr * priceD p" by (rule offerValue_le(2) [OF p])
    also have "\<dots> \<le> INT64_MAX * priceD p" using a(2) pd by (intro mult_right_mono) (auto simp: isAmount_def)
    finally have "wheatOfferValue p w INT64_MAX = w * priceN p" by (simp add: wheatOfferValue_def)
    then show ?thesis using True s pd by (simp add: takeWheatOffer_def Let_def)
  next
    case False
    have w: "w = div_rounded (s * priceD p) (priceN p) ROUND_UP"
      using t False by (auto simp: takeWheatOffer_def Let_def)
    have lo: "s * priceD p \<le> w * priceN p" by (rule b(5))
    have "(w - 1) * priceN p < s * priceD p" unfolding w by (rule div_rounded_up_bounds(2) [OF pd(1)])
    then have hi: "w * priceN p < (s + 1) * priceD p" using False by (simp add: algebra_simps)
    let ?v = "wheatOfferValue p w INT64_MAX"
    have "s * priceD p \<le> INT64_MAX * priceD p"
      using b(4) a(2) pd by (intro mult_right_mono) (auto simp: isAmount_def)
    then have "s * priceD p \<le> ?v" "?v < (s + 1) * priceD p"
      using lo hi by (auto simp: wheatOfferValue_def)
    then have "?v div priceD p = s"
      using pd by (intro int_div_pos_eq [of _ _ _ "?v - priceD p * s"]) (auto simp: algebra_simps)
    then show ?thesis using False w by (simp add: takeWheatOffer_def Let_def)
  qed
qed

lemma adjusted_liabilities:
  assumes p: "validPrice (offerPrice oe)" and a: "isAmount ws" "isAmount sr"
    and x: "adjustOfferAmount (offerPrice oe) ws sr = Inr (offerAmount oe)"
  shows "offerSell oe = offerAmount oe" "offerBuy oe \<le> sr"
proof -
  obtain w s where t: "takeWheatOffer (offerPrice oe) (wheatOfferValue (offerPrice oe) ws sr) = (w, s)"
    and s: "s \<le> sr" and e: "offerAmount oe = (if 0 < w \<and> 0 < s \<and> withinOnePercent (offerPrice oe) w s then w else 0)"
    by (rule adjustOfferAmount_cases [OF p a]) (use x in auto)
  have "offerSell oe = offerAmount oe \<and> offerBuy oe \<le> sr"
  proof (cases "0 < w \<and> 0 < s \<and> withinOnePercent (offerPrice oe) w s")
    case True
    then show ?thesis using takeWheatOffer_unlimited [OF p a t] e s by (simp add: offerSell_def offerBuy_def)
  next
    case False
    then have "offerAmount oe = 0" using e by auto
    then show ?thesis using offer_liabilities_0 [OF p] a by (simp add: isAmount_def)
  qed
  then show "offerSell oe = offerAmount oe" "offerBuy oe \<le> sr" by auto
qed

definition shiftBuying :: "int \<Rightarrow> LedgerEntry \<Rightarrow> LedgerEntry" where
  "shiftBuying d e = (if d = 0 then e else setBuying (buyingOf e + d) e)"

definition shiftSelling :: "int \<Rightarrow> LedgerEntry \<Rightarrow> LedgerEntry" where
  "shiftSelling d e = (if d = 0 then e else setSelling (sellingOf e + d) e)"

lemma shiftBuying_simps [simp]:
  "isHolding e \<Longrightarrow> buyingOf (shiftBuying d e) = buyingOf e + d" "balanceOf (shiftBuying d e) = balanceOf e"
  "sellingOf (shiftBuying d e) = sellingOf e" "capOf (shiftBuying d e) = capOf e"
  "reserveOf h (shiftBuying d e) = reserveOf h e" "isHolding (shiftBuying d e) = isHolding e"
  "isTrustLine (shiftBuying d e) = isTrustLine e" "usable h (shiftBuying d e) = usable h e"
  "LedgerEntryKey (shiftBuying d e) = LedgerEntryKey e"
  by (simp_all add: shiftBuying_def)

lemma shiftSelling_simps [simp]:
  "isHolding e \<Longrightarrow> sellingOf (shiftSelling d e) = sellingOf e + d" "balanceOf (shiftSelling d e) = balanceOf e"
  "buyingOf (shiftSelling d e) = buyingOf e" "capOf (shiftSelling d e) = capOf e"
  "reserveOf h (shiftSelling d e) = reserveOf h e" "isHolding (shiftSelling d e) = isHolding e"
  "isTrustLine (shiftSelling d e) = isTrustLine e" "usable h (shiftSelling d e) = usable h e"
  "LedgerEntryKey (shiftSelling d e) = LedgerEntryKey e"
  by (simp_all add: shiftSelling_def)

definition canShiftBuying :: "int \<Rightarrow> LedgerEntry option \<Rightarrow> bool" where
  "canShiftBuying d ho =
     (case ho of None \<Rightarrow> True | Some e \<Rightarrow> 0 \<le> buyingOf e + d \<and> balanceOf e + buyingOf e + d \<le> capOf e)"

definition canShiftSelling :: "LedgerHeader \<Rightarrow> int \<Rightarrow> LedgerEntry option \<Rightarrow> bool" where
  "canShiftSelling h d ho =
     (case ho of
        None \<Rightarrow> True
      | Some e \<Rightarrow> d = 0 \<or> reserveOf h e + sellingOf e \<le> balanceOf e
                    \<and> 0 \<le> sellingOf e + d \<and> reserveOf h e + sellingOf e + d \<le> balanceOf e)"

lemma holderOk_shiftBuying:
  assumes "holderOk h A X ho" "canShiftBuying d ho"
  shows "holderOk h A X (map_option (shiftBuying d) ho)"
  using assms usable_isHolding [of h]
  by (cases ho) (auto simp: holderOk_def canShiftBuying_def holdingOk_def)

lemma holderOk_shiftSelling:
  assumes "holderOk h A X ho" "canShiftSelling h d ho"
  shows "holderOk h A X (map_option (shiftSelling d) ho)"
  using assms usable_isHolding [of h] reserveOf_nonneg [of h]
  by (cases ho; cases "d = 0") (fastforce simp: holderOk_def canShiftSelling_def holdingOk_def shiftSelling_def)+

lemma addBuying_shift:
  assumes "10 \<le> ledgerVersion h" "holderOk h A X (Some e)" "canShiftBuying d (Some e)"
  shows "addBuyingLiabilities h e d = Inr (Some (shiftBuying d e))"
  using assms addBuyingLiabilities_holding [of h e d]
  by (simp add: holderOk_def canShiftBuying_def shiftBuying_def)

lemma addSelling_shift:
  assumes "10 \<le> ledgerVersion h" "holderOk h A X (Some e)" "canShiftSelling h d (Some e)"
  shows "addSellingLiabilities h e d = Inr (Some (shiftSelling d e))"
proof (cases "d = 0")
  case True
  then show ?thesis using assms
    by (auto simp: holderOk_def addSellingLiabilities_def getSellingLiabilities_def usable_def
        shiftSelling_def split: LedgerEntryData.splits)
next
  case False
  then show ?thesis using assms addSellingLiabilities_holding [of h e d]
    by (simp add: holderOk_def canShiftSelling_def shiftSelling_def)
qed

lemma putAssoc_same: "map_of m k = Some v \<Longrightarrow> putAssoc k v m = m"
  by (induction k v m rule: putAssoc.induct) (auto split: if_splits)

lemma storeHolder_None [simp]: "storeHolder None ls = ls"
  by (simp add: storeHolder_def)

lemma storeHolder_Some [simp]: "storeHolder (Some e) ls = storeEntry e ls"
  by (simp add: storeHolder_def)

lemma lsHeader_storeHolder [simp]: "lsHeader (storeHolder ho ls) = lsHeader ls"
  by (cases ho) simp_all

lemma changeLiabilities_holder:
  assumes ok: "holderOk (lsHeader ls) A X (holder ls A X)"
    and acc: "\<And>e. holder ls A X = Some e \<Longrightarrow> addL (lsHeader ls) e d = Inr (Some (f e))"
    and line: "\<And>w. lineL (lsHeader ls) w d =
      (case w of NonIssuerImpl le \<Rightarrow> bindE (addL (lsHeader ls) le d) (\<lambda>r. Inr (map_option NonIssuerImpl r))
       | IssuerImpl acct asset \<Rightarrow> Inr (Some w))"
  shows "changeLiabilities addL lineL msg ls A X d = Inr (storeHolder (map_option f (holder ls A X)) ls)"
proof (cases "X = ASSET_TYPE_NATIVE")
  case True
  then obtain e where "holder ls A X = Some e" using ok by (auto simp: holderOk_def split: option.splits)
  then show ?thesis using True acc by (simp add: changeLiabilities_def holder_def holderKey_def)
next
  case False
  then show ?thesis using ok acc line
    by (cases "holder ls A X")
      (auto simp: changeLiabilities_def loadTrustLine_holder holderOk_def storeTrustLine_def)
qed

lemma changeBuying_holder:
  assumes v: "10 \<le> ledgerVersion (lsHeader ls)" and ok: "holderOk (lsHeader ls) A X (holder ls A X)"
    and c: "canShiftBuying d (holder ls A X)"
  shows "changeLiabilities addBuyingLiabilities lineAddBuyingLiabilities msg ls A X d =
    Inr (storeHolder (map_option (shiftBuying d) (holder ls A X)) ls)"
proof (rule changeLiabilities_holder [OF ok])
  show "addBuyingLiabilities (lsHeader ls) e d = Inr (Some (shiftBuying d e))" if "holder ls A X = Some e" for e
    using addBuying_shift [OF v] ok c that by simp
qed (simp add: lineAddBuyingLiabilities_def)

lemma changeSelling_holder:
  assumes v: "10 \<le> ledgerVersion (lsHeader ls)" and ok: "holderOk (lsHeader ls) A X (holder ls A X)"
    and c: "canShiftSelling (lsHeader ls) d (holder ls A X)"
  shows "changeLiabilities addSellingLiabilities lineAddSellingLiabilities msg ls A X d =
    Inr (storeHolder (map_option (shiftSelling d) (holder ls A X)) ls)"
proof (rule changeLiabilities_holder [OF ok])
  show "addSellingLiabilities (lsHeader ls) e d = Inr (Some (shiftSelling d e))" if "holder ls A X = Some e" for e
    using addSelling_shift [OF v] ok c that by simp
qed (simp add: lineAddSellingLiabilities_def)

lemma holder_storeHolder:
  assumes "holderOk h A X ho"
  shows "holder (storeHolder ho ls) B Y = (if A = B \<and> X = Y then ho else holder ls B Y)"
  using assms by (cases ho) (auto simp: holder_def lst.get_put holderOk_def)

lemma acquireOrRelease_holders:
  fixes acq :: bool
  assumes v: "10 \<le> ledgerVersion (lsHeader ls)" and oe: "offerOk oe"
  defines "A \<equiv> sellerID oe" and "S \<equiv> buying oe" and "W \<equiv> selling oe"
  defines "b \<equiv> (if acq then offerBuy oe else - offerBuy oe)" and "s \<equiv> (if acq then offerSell oe else - offerSell oe)"
  assumes okS: "holderOk (lsHeader ls) A S (holder ls A S)" and okW: "holderOk (lsHeader ls) A W (holder ls A W)"
    and cb: "canShiftBuying b (holder ls A S)" and cs: "canShiftSelling (lsHeader ls) s (holder ls A W)"
  shows "acquireOrReleaseLiabilities ls oe acq =
    Inr (storeHolder (map_option (shiftSelling s) (holder ls A W))
          (storeHolder (map_option (shiftBuying b) (holder ls A S)) ls))"
proof -
  let ?ls1 = "storeHolder (map_option (shiftBuying b) (holder ls A S)) ls"
  have ne: "S \<noteq> W" using oe by (simp add: offerOk_def S_def W_def)
  have W: "holder ?ls1 A W = holder ls A W"
    using holder_storeHolder [OF holderOk_shiftBuying [OF okS cb]] ne by simp
  have 1: "changeLiabilities addBuyingLiabilities lineAddBuyingLiabilities msg ls A S b = Inr ?ls1" for msg
    by (rule changeBuying_holder [OF v okS cb])
  have 2: "changeLiabilities addSellingLiabilities lineAddSellingLiabilities msg ?ls1 A W s =
      Inr (storeHolder (map_option (shiftSelling s) (holder ls A W)) ?ls1)" for msg
    using changeSelling_holder [of ?ls1 A W s] v okW cs by (simp add: W)
  show ?thesis
    using 1 2 ne v offer_liabilities [OF _ oe] unfolding b_def s_def A_def S_def W_def
    by (simp add: acquireOrReleaseLiabilities_def)
qed

end
