(* ===== verification/CrossingSteps.thy ===== *)
theory CrossingSteps
  imports CrossingRules
begin

text \<open>
  The run of \<^verbatim>\<open>crossOfferV10\<close> up to the point where the offer is removed or its new liabilities are
  acquired, as a function of the holdings of the seller.
\<close>

text \<open>When the exchange of an adjusted offer cannot throw.\<close>

definition exchangeable :: "RoundingType \<Rightarrow> int \<Rightarrow> int \<Rightarrow> bool" where
  "exchangeable round amount maxSheepReceive \<longleftrightarrow>
     round \<noteq> PATH_PAYMENT_STRICT_SEND \<or> 0 < amount \<and> 0 < maxSheepReceive"

lemma exchangeV10_adjusted:
  assumes p: "validPrice p" and a: "isAmount ws" "isAmount sr" "isAmount wr" "isAmount ss"
    and pos: "0 < ss" and adj: "adjustOfferAmount p ws sr = Inr ws" and ex: "exchangeable round ws sr"
  obtains r where "exchangeV10 p ws wr ss sr round = Inr r"
    "0 \<le> wheatReceived10 r" "wheatReceived10 r \<le> wr" "wheatReceived10 r \<le> ws"
    "0 \<le> sheepSend10 r" "sheepSend10 r \<le> sr" "sheepSend10 r \<le> ss" "favorsStayer p r"
proof -
  have l: "exchangeLimits ws wr ss sr" using a by (simp add: exchangeLimits_def)
  let ?r = "exchangeExact p ws wr ss sr round"
  let ?none = "?r\<lparr>wheatReceived10 := 0, sheepSend10 := 0\<rparr>"
  note pd = validPriceD [OF p]
  note b = exchangeExact_bounds [OF p l refl, of round]
    and z = exchangeExact_zero_iff [OF p l refl, of round]
    and f = exchangeExact_amounts(3) [OF p l refl, of round]
    and e = exchangeV10_exact [OF p l refl, of round]
  have s: "0 < sheepSend10 ?r" if send: "round = PATH_PAYMENT_STRICT_SEND"
  proof (cases "wheatStays ?r")
    case True
    then have "sheepSend10 ?r = min ss sr"
      using send by (auto simp: exchangeExact_def takeSheepOffer_def Let_def split: prod.splits if_splits)
    then show ?thesis using pos ex send by (simp add: exchangeable_def)
  next
    case False
    then show ?thesis using exchangeExact_adjusted(2) [OF p l _ adj refl] ex send
      by (simp add: exchangeable_def)
  qed
  have err: "withinOnePercent p (wheatReceived10 ?r) (sheepSend10 ?r)
      \<or> wheatReceived10 ?r * priceN p < sheepSend10 ?r * priceD p"
    if "0 < wheatReceived10 ?r"
  proof (cases "wheatStays ?r")
    case True
    then have "wheatReceived10 ?r * priceN p \<le> sheepSend10 ?r * priceD p" using f by (simp add: favorsStayer_def)
    moreover have "0 \<le> wheatReceived10 ?r * priceN p" using b(1) pd by simp
    ultimately show ?thesis
      by (cases "wheatReceived10 ?r * priceN p = sheepSend10 ?r * priceD p") (auto simp: withinOnePercent_def)
  next
    case False
    have "0 < ws" using that b(2) by simp
    from exchangeExact_adjusted(1,3) [OF p l this adj refl False] show ?thesis by simp
  qed
  have "exchangeV10 p ws wr ss sr round = Inr ?r \<or> exchangeV10 p ws wr ss sr round = Inr ?none"
    using e s err by (auto simp: Let_def)
  then consider (r) "exchangeV10 p ws wr ss sr round = Inr ?r" | (none) "exchangeV10 p ws wr ss sr round = Inr ?none"
    by blast
  then show ?thesis
  proof cases
    case r
    from that [OF this b(1) _ _ b(3) _ _ f] b(2,4) show ?thesis by simp
  next
    case none
    from that [OF this] show ?thesis using a by (simp add: isAmount_def favorsStayer_def)
  qed
qed

text \<open>
  The two holdings of the seller are written in the order in which the code keeps its handles.
\<close>

definition holdersStored :: "LedgerState \<Rightarrow> LedgerEntry option \<Rightarrow> LedgerEntry option \<Rightarrow> LedgerState \<Rightarrow> bool" where
  "holdersStored ls hS hW ls' \<longleftrightarrow>
     ls' = storeHolder hS (storeHolder hW ls) \<or> ls' = storeHolder hW (storeHolder hS ls)"

lemma handles_stored:
  assumes "handles A S hS acc sline" "handles A W hW acc wline" "S \<noteq> W"
    and "W \<noteq> ASSET_TYPE_NATIVE \<Longrightarrow> S \<noteq> ASSET_TYPE_NATIVE \<Longrightarrow> acc = None"
  shows "holdersStored ls hS hW (storeOptionalLine wline (storeOptionalLine sline (storeOptional acc ls)))"
proof -
  have st: "storeOptionalLine (Some (case h of None \<Rightarrow> IssuerImpl A X | Some e \<Rightarrow> NonIssuerImpl e)) ls' =
      storeHolder h ls'" for h X ls'
    by (cases h) (simp_all add: storeOptionalLine_def storeTrustLine_def)
  have acc: "storeOptional h ls' = storeHolder h ls'" for h ls'
    by (cases h) (simp_all add: storeOptional_def)
  have none: "storeOptionalLine None ls' = ls'" for ls' by (simp add: storeOptionalLine_def)
  show ?thesis
    using assms by (auto simp: handles_def holdersStored_def st acc none split: if_splits)
qed

text \<open>What crossing an offer decides: the amounts, the side that stays and what is left of the offer.\<close>

record Decision =
  decWheat :: int
  decSheep :: int
  decStays :: bool
  decLeft :: int

definition decisionOk ::
    "LedgerHeader \<Rightarrow> OfferEntry \<Rightarrow> LedgerEntry option \<Rightarrow> LedgerEntry option \<Rightarrow> int \<Rightarrow> int \<Rightarrow> Decision \<Rightarrow> bool" where
  "decisionOk h oe hS hW maxWheat maxSheep d \<longleftrightarrow>
     0 \<le> decWheat d \<and> decWheat d \<le> maxWheat \<and> decWheat d \<le> offerAmount oe
     \<and> 0 \<le> decSheep d \<and> decSheep d \<le> maxSheep
     \<and> 0 \<le> decLeft d \<and> decLeft d \<le> offerAmount oe - decWheat d \<and> (\<not> decStays d \<longrightarrow> decLeft d = 0)
     \<and> creditable h (decSheep d) hS \<and> creditable h (- decWheat d) hW
     \<and> (if decStays d then decWheat d * priceN (offerPrice oe) \<le> decSheep d * priceD (offerPrice oe)
        else decSheep d * priceD (offerPrice oe) \<le> decWheat d * priceN (offerPrice oe))
     \<and> offerSell (oe\<lparr>offerAmount := decLeft d\<rparr>) = decLeft d
     \<and> canShiftBuying (offerBuy (oe\<lparr>offerAmount := decLeft d\<rparr>)) (creditHolder (decSheep d) hS)
     \<and> canShiftSelling h (decLeft d) (creditHolder (- decWheat d) hW)"

lemma creditable_buy:
  assumes "0 \<le> d" "d \<le> buyCap ho"
  shows "creditable h d ho"
  using assms by (cases ho) (auto simp: creditable_def buyCap_def)

lemma creditable_sell:
  assumes "0 \<le> d" "d \<le> sellCap h ho"
  shows "creditable h (- d) ho"
  using assms by (cases ho) (auto simp: creditable_def sellCap_def)

lemma canShiftBuying_cap:
  assumes "holderOk h A X ho" "0 \<le> b" "b \<le> buyCap ho"
  shows "canShiftBuying b ho"
  using assms by (cases ho) (auto simp: canShiftBuying_def buyCap_def holderOk_def holdingOk_def)

lemma canShiftSelling_cap:
  assumes "holderOk h A X ho" "0 \<le> s" "s \<le> sellCap h ho"
  shows "canShiftSelling h s ho"
  using assms by (cases ho) (auto simp: canShiftSelling_def sellCap_def holderOk_def holdingOk_def)

text \<open>The exchange and the second adjustment, on the holdings without the liabilities of the offer.\<close>

lemma crossing_decision:
  assumes v: "10 \<le> ledgerVersion h" and oe: "offerOk oe"
    and okS: "holderOk h A S hS" and okW: "holderOk h A W hW"
    and m: "isAmount maxWheat" "isAmount maxSheep" "0 < maxSheep"
    and adj: "adjustOfferAmount (offerPrice oe) (min (offerAmount oe) (sellCap h hW)) (buyCap hS) = Inr a"
    and ex: "exchangeable round a (buyCap hS)"
  obtains r left where
    "exchangeV10 (offerPrice oe) (min a (sellCap h hW)) maxWheat maxSheep (buyCap hS) round = Inr r"
    "\<not> wheatStays r \<Longrightarrow> left = 0"
    "wheatStays r \<Longrightarrow>
      adjustOfferAmount (offerPrice oe)
        (min (a - wheatReceived10 r) (sellCap h (creditHolder (- wheatReceived10 r) hW)))
        (buyCap (creditHolder (sheepSend10 r) hS)) = Inr left"
    "decisionOk h oe hS hW maxWheat maxSheep
      \<lparr>decWheat = wheatReceived10 r, decSheep = sheepSend10 r, decStays = wheatStays r, decLeft = left\<rparr>"
proof -
  let ?p = "offerPrice oe"
  have p: "validPrice ?p" and am: "isAmount (offerAmount oe)" using oe by (auto simp: offerOk_def)
  note caps = caps_amount [OF okS] caps_amount [OF okW]
  have ms: "isAmount (min (offerAmount oe) (sellCap h hW))" using am caps(3) by (auto simp: isAmount_def)
  note i = adjustOfferAmount_idem [OF p ms caps(2) adj]
  have a: "isAmount a" "a \<le> offerAmount oe" "a \<le> sellCap h hW" "min a (sellCap h hW) = a" using i by auto
  have adj': "adjustOfferAmount ?p (min a (sellCap h hW)) (buyCap hS) = Inr (min a (sellCap h hW))"
    using i(3) a(4) by simp
  obtain r where r: "exchangeV10 ?p (min a (sellCap h hW)) maxWheat maxSheep (buyCap hS) round = Inr r"
    and b: "0 \<le> wheatReceived10 r" "wheatReceived10 r \<le> maxWheat" "wheatReceived10 r \<le> min a (sellCap h hW)"
      "0 \<le> sheepSend10 r" "sheepSend10 r \<le> buyCap hS" "sheepSend10 r \<le> maxSheep" and f: "favorsStayer ?p r"
    by (rule exchangeV10_adjusted [OF p _ caps(2) m(1,2,3) adj']) (use a ex in auto)
  let ?hS = "creditHolder (sheepSend10 r) hS" and ?hW = "creditHolder (- wheatReceived10 r) hW"
  have cS: "creditable h (sheepSend10 r) hS" using b by (intro creditable_buy) auto
  have cW: "creditable h (- wheatReceived10 r) hW" using b by (intro creditable_sell) auto
  note okS' = holderOk_credit [OF okS cS] and okW' = holderOk_credit [OF okW cW]
  note caps' = caps_amount [OF okS'] caps_amount [OF okW']
  have rest: "isAmount (min (a - wheatReceived10 r) (sellCap h ?hW))"
    using a b caps'(3) by (auto simp: isAmount_def)
  obtain left where left: "\<not> wheatStays r \<Longrightarrow> left = 0"
    "wheatStays r \<Longrightarrow> adjustOfferAmount ?p (min (a - wheatReceived10 r) (sellCap h ?hW)) (buyCap ?hS) = Inr left"
    by (metis adjustOfferAmount_cases [OF p rest caps'(2)])
  let ?oe2 = "oe\<lparr>offerAmount := left\<rparr>"
  have l: "0 \<le> left \<and> left \<le> a - wheatReceived10 r \<and> left \<le> sellCap h ?hW
      \<and> offerSell ?oe2 = left \<and> offerBuy ?oe2 \<le> buyCap ?hS \<and> 0 \<le> offerBuy ?oe2"
  proof (cases "wheatStays r")
    case True
    note adj2 = left(2) [OF True]
    have "isAmount left" "left \<le> min (a - wheatReceived10 r) (sellCap h ?hW)"
      using adjustOfferAmount_idem(1,2) [OF p rest caps'(2) adj2] by auto
    moreover from this have "offerOk ?oe2" using oe by (simp add: offerOk_def)
    ultimately show ?thesis
      using adjusted_liabilities [of ?oe2 _ "buyCap ?hS", OF _ rest caps'(2)] adj2 p
        offer_liabilities_bounds(1) [of ?oe2] by (auto simp: isAmount_def)
  next
    case False
    then show ?thesis using left(1) offer_liabilities_0 [of ?oe2] p b a caps' by (auto simp: isAmount_def)
  qed
  have "canShiftBuying (offerBuy ?oe2) ?hS" using l by (intro canShiftBuying_cap [OF okS']) auto
  moreover have "canShiftSelling h left ?hW" using l by (intro canShiftSelling_cap [OF okW']) auto
  ultimately have "decisionOk h oe hS hW maxWheat maxSheep
      \<lparr>decWheat = wheatReceived10 r, decSheep = sheepSend10 r, decStays = wheatStays r, decLeft = left\<rparr>"
    using b l a cS cW f left(1) by (auto simp: decisionOk_def favorsStayer_def)
  with that r left show ?thesis by blast
qed

lemma crossOfferV10_run:
  assumes v: "10 \<le> ledgerVersion (lsHeader ls)" and le: "ledgerData le = OFFER oe" and oe: "offerOk oe"
    and acct: "loadEntry ls (AccountKey (sellerID oe)) \<noteq> None"
  defines "A \<equiv> sellerID oe" and "S \<equiv> buying oe" and "W \<equiv> selling oe" and "h \<equiv> lsHeader ls"
  assumes okS: "holderOk h A S (holder ls A S)" and okW: "holderOk h A W (holder ls A W)"
    and cb: "canShiftBuying (- offerBuy oe) (holder ls A S)"
    and cs: "canShiftSelling h (- offerSell oe) (holder ls A W)"
    and m: "isAmount maxWheat" "isAmount maxSheep" "0 < maxWheat" "0 < maxSheep"
  defines "hS \<equiv> map_option (shiftBuying (- offerBuy oe)) (holder ls A S)"
    and "hW \<equiv> map_option (shiftSelling (- offerSell oe)) (holder ls A W)"
  assumes ex: "\<And>a. adjustOfferAmount (offerPrice oe) (min (offerAmount oe) (sellCap h hW)) (buyCap hS) = Inr a
      \<Longrightarrow> exchangeable round a (buyCap hS)"
  obtains d ls2 where "decisionOk h oe hS hW maxWheat maxSheep d"
    "holdersStored (storeHolder hW (storeHolder hS ls)) (creditHolder (decSheep d) hS)
       (creditHolder (- decWheat d) hW) ls2"
    "crossOfferV10 ls le maxWheat maxSheep round =
      (let oe2 = oe\<lparr>offerAmount := decLeft d\<rparr>; le2 = le\<lparr>ledgerData := OFFER oe2\<rparr>
       in bindE (if decLeft d = 0 then removeOffer (storeEntry le2 ls2) le2 A
                 else acquireLiabilities (storeEntry le2 ls2) oe2) (\<lambda>ls3.
          Inr \<lparr>crossResult = (if decLeft d = 0 then eOfferTaken else eOfferPartial),
               crossWheat = decWheat d, crossSheep = decSheep d, crossStays = decStays d,
               crossState = ls3\<rparr>))"
proof -
  let ?ls1 = "storeHolder hW (storeHolder hS ls)"
  have ne: "S \<noteq> W" using oe by (simp add: offerOk_def S_def W_def)
  have okS1: "holderOk h A S hS" unfolding hS_def by (rule holderOk_shiftBuying [OF okS cb])
  have okW1: "holderOk h A W hW" unfolding hW_def by (rule holderOk_shiftSelling [OF okW cs])
  have hd: "lsHeader ?ls1 = h" by (simp add: h_def)
  have rel: "releaseLiabilities ls oe = Inr ?ls1"
    using acquireOrRelease_holders [OF v oe, of False] okS okW cb cs
    by (simp add: releaseLiabilities_def hS_def hW_def A_def S_def W_def h_def)
  have hs: "holder ?ls1 A S = hS" "holder ?ls1 A W = hW"
    using ne holder_storeHolder [OF okW1] holder_storeHolder [OF okS1] by auto
  define acc where "acc = (if W = ASSET_TYPE_NATIVE \<or> S = ASSET_TYPE_NATIVE
    then loadEntry ?ls1 (AccountKey A) else None)"
  obtain sline where sl: "loadTrustLineIfNotNative ?ls1 A S = Inr sline" "handles A S hS acc sline"
    using handles_load [of h A S ?ls1 acc] okS1 hs by (auto simp: acc_def)
  obtain wline where wl: "loadTrustLineIfNotNative ?ls1 A W = Inr wline" "handles A W hW acc wline"
    using handles_load [of h A W ?ls1 acc] okW1 hs by (auto simp: acc_def)
  have v': "10 \<le> ledgerVersion h" using v by (simp add: h_def)
  have p: "validPrice (offerPrice oe)" "isAmount (min (offerAmount oe) (sellCap h hW))"
    using oe caps_amount(1) [OF okW1] by (auto simp: offerOk_def isAmount_def)
  obtain a where a: "adjustOfferAmount (offerPrice oe) (min (offerAmount oe) (sellCap h hW)) (buyCap hS) = Inr a"
    by (rule adjustOfferAmount_cases [OF p caps_amount(2) [OF okS1]])
  obtain r left where r: "exchangeV10 (offerPrice oe) (min a (sellCap h hW)) maxWheat maxSheep (buyCap hS) round = Inr r"
    and l0: "\<not> wheatStays r \<Longrightarrow> left = 0"
    and l1: "wheatStays r \<Longrightarrow> adjustOfferAmount (offerPrice oe)
        (min (a - wheatReceived10 r) (sellCap h (creditHolder (- wheatReceived10 r) hW)))
        (buyCap (creditHolder (sheepSend10 r) hS)) = Inr left"
    and d: "decisionOk h oe hS hW maxWheat maxSheep
      \<lparr>decWheat = wheatReceived10 r, decSheep = sheepSend10 r, decStays = wheatStays r, decLeft = left\<rparr>"
    by (rule crossing_decision [OF v' oe okS1 okW1 m(1,2,4) a ex [OF a]]) blast
  let ?hS = "creditHolder (sheepSend10 r) hS" and ?hW = "creditHolder (- wheatReceived10 r) hW"
  have cS: "creditable h (sheepSend10 r) hS" and cW: "creditable h (- wheatReceived10 r) hW"
    using d by (auto simp: decisionOk_def)
  obtain acc1 sline1 where s1: "changeHoldingOrThrow ''overflowed sheep balance'' h S acc sline (sheepSend10 r)
      = Inr (acc1, sline1)" "handles A S ?hS acc1 sline1" "S \<noteq> ASSET_TYPE_NATIVE \<longrightarrow> acc1 = acc"
    using handles_credit [OF v' okS1 sl(2) cS] by blast
  have wl1: "handles A W hW acc1 wline" using wl(2) s1(3) ne by (auto simp: handles_def)
  obtain acc2 wline1 where w1: "changeHoldingOrThrow ''overflowed wheat balance'' h W acc1 wline (- wheatReceived10 r)
      = Inr (acc2, wline1)" "handles A W ?hW acc2 wline1" "W \<noteq> ASSET_TYPE_NATIVE \<longrightarrow> acc2 = acc1"
    using handles_credit [OF v' okW1 wl1 cW] by blast
  have s2: "handles A S ?hS acc2 sline1" using s1(2) w1(3) ne by (auto simp: handles_def)
  note okS2 = holderOk_credit [OF okS1 cS] and okW2 = holderOk_credit [OF okW1 cW]
  have adj2: "adjustOffer h (oe\<lparr>offerAmount := a - wheatReceived10 r\<rparr>) acc2 W wline1 S sline1
      = Inr (oe\<lparr>offerAmount := left\<rparr>)" if "wheatStays r"
    using l1 [OF that] adjustOffer_holder [OF v' okW2 w1(2) okS2 s2] by simp
  let ?ls2 = "storeOptionalLine wline1 (storeOptionalLine sline1 (storeOptional acc2 ?ls1))"
  have st: "holdersStored ?ls1 ?hS ?hW ?ls2"
    by (rule handles_stored [OF s2 w1(2) ne]) (use s1(3) w1(3) in \<open>auto simp: acc_def\<close>)
  have run: "crossOfferV10 ls le maxWheat maxSheep round =
      (let oe2 = oe\<lparr>offerAmount := left\<rparr>; le2 = le\<lparr>ledgerData := OFFER oe2\<rparr>
       in bindE (if left = 0 then removeOffer (storeEntry le2 ?ls2) le2 A
                 else acquireLiabilities (storeEntry le2 ?ls2) oe2) (\<lambda>ls3.
          Inr \<lparr>crossResult = (if left = 0 then eOfferTaken else eOfferPartial),
               crossWheat = wheatReceived10 r, crossSheep = sheepSend10 r, crossStays = wheatStays r,
               crossState = ls3\<rparr>))"
  proof -
    have sub: "sellerID oe = A" "buying oe = S" "selling oe = W" "lsHeader ls = h"
      by (simp_all add: A_def S_def W_def h_def)
    have 1: "adjustOffer h oe acc W wline S sline = Inr (oe\<lparr>offerAmount := a\<rparr>)"
      using adjustOffer_holder [OF v' okW1 wl(2) okS1 sl(2), of oe] a by simp
    have 2: "canSellAtMost h acc W wline = Inr (sellCap h hW)" "canBuyAtMost h acc S sline = Inr (buyCap hS)"
      using canSellAtMost_holder [OF v' okW1 wl(2)] canBuyAtMost_holder [OF v' okS1 sl(2)] by auto
    have acctA: "(loadEntry ls (AccountKey A) = None) = False" using acct by (simp add: A_def)
    have start: "offerOf le = Inr oe" "assertTx (0 < maxWheat) = Inr ()" "assertTx (0 < maxSheep) = Inr ()"
      using m(3,4) le by (simp_all add: offerOf_def assertTx_def)
    show ?thesis
      unfolding crossOfferV10_def start bindE_simps Let_def sub acctA if_False rel sl(1) wl(1)
        acc_def [symmetric] 1 2
      by (cases "wheatStays r") (simp_all add: r s1(1) w1(1) adj2 l0)
  qed
  from that [OF d] st run show ?thesis by simp
qed

end
