(* ===== verification/LedgerInvariant.thy ===== *)
theory LedgerInvariant
  imports CrossingSteps
begin

text \<open>
  The invariant of a ledger since version 10: every account and trust line is within its bounds and
  covers what its offers sell, its recorded liabilities are the sums of the liabilities of its offers,
  every offer has its holdings, and the counts of sub-entries and sponsorships cover the offers. It is what
  \<^verbatim>\<open>invariant/LiabilitiesMatchOffers.cpp\<close> and \<^verbatim>\<open>invariant/LedgerEntryIsValid.cpp\<close> check of the offers.
\<close>

section \<open>Sums over the offers\<close>

definition offerWeight :: "(LedgerEntry \<Rightarrow> OfferEntry \<Rightarrow> int) \<Rightarrow> LedgerEntry \<Rightarrow> int" where
  "offerWeight g e = (case ledgerData e of OFFER oe \<Rightarrow> g e oe | _ \<Rightarrow> 0)"

definition offerSum :: "(LedgerEntry \<Rightarrow> OfferEntry \<Rightarrow> int) \<Rightarrow> LedgerState \<Rightarrow> int" where
  "offerSum g ls = totalOver (\<lambda>k e. offerWeight g e) ls"

definition buyLiab :: "LedgerState \<Rightarrow> AccountID \<Rightarrow> Asset \<Rightarrow> int" where
  "buyLiab ls A X = offerSum (\<lambda>e oe. if sellerID oe = A \<and> buying oe = X then offerBuy oe else 0) ls"

definition sellLiab :: "LedgerState \<Rightarrow> AccountID \<Rightarrow> Asset \<Rightarrow> int" where
  "sellLiab ls A X = offerSum (\<lambda>e oe. if sellerID oe = A \<and> selling oe = X then offerSell oe else 0) ls"

definition offersOf :: "LedgerState \<Rightarrow> AccountID \<Rightarrow> int" where
  "offersOf ls A = offerSum (\<lambda>e oe. if sellerID oe = A then 1 else 0) ls"

definition sponsoredOffersOf :: "LedgerState \<Rightarrow> AccountID \<Rightarrow> int" where
  "sponsoredOffersOf ls A = offerSum (\<lambda>e oe. if sellerID oe = A \<and> entrySponsor e \<noteq> None then 1 else 0) ls"

definition offersSponsoredBy :: "LedgerState \<Rightarrow> AccountID \<Rightarrow> int" where
  "offersSponsoredBy ls A = offerSum (\<lambda>e oe. if entrySponsor e = Some A then 1 else 0) ls"

lemma offerSum_store:
  "offerSum g (storeEntry e ls) =
    offerSum g ls + offerWeight g e - weightAt (\<lambda>k e. offerWeight g e) (LedgerEntryKey e) (loadEntry ls (LedgerEntryKey e))"
  by (simp add: offerSum_def lst.total_put)

lemma offerSum_store_holding:
  assumes "loadEntry ls (LedgerEntryKey e') = Some e" "isHolding e" "isHolding e'"
  shows "offerSum g (storeEntry e' ls) = offerSum g ls"
  using assms by (auto simp: offerSum_store offerWeight_def isHolding_def split: LedgerEntryData.splits)

lemma offerSum_erase:
  assumes "stateWf ls" "loadEntry ls k = Some e"
  shows "offerSum g (eraseEntry k ls) = offerSum g ls - offerWeight g e"
  using assms by (simp add: offerSum_def lst.total_erase)

lemma sumAssoc_nonneg: "(\<And>k v. (k, v) \<in> set m \<Longrightarrow> 0 \<le> f k v) \<Longrightarrow> 0 \<le> sumAssoc f m"
  by (auto simp: sumAssoc_def intro!: sum_list_nonneg)

lemma offerSum_ge:
  assumes wf: "stateWf ls" and l: "loadEntry ls k = Some e"
    and nn: "\<And>k' e' oe. loadEntry ls k' = Some e' \<Longrightarrow> ledgerData e' = OFFER oe \<Longrightarrow> 0 \<le> g e' oe"
  shows "offerWeight g e \<le> offerSum g ls"
proof -
  have "0 \<le> offerSum g (eraseEntry k ls)"
    unfolding offerSum_def totalOver_def
  proof (rule sumAssoc_nonneg)
    fix k' e' assume "(k', e') \<in> set (lsEntries (eraseEntry k ls))"
    then have "(k', e') \<in> set (lsEntries ls)" by (auto simp: eraseEntry_def eraseAssoc_def)
    then have "loadEntry ls k' = Some e'" using wf by (auto simp: stateWf_def loadEntry_def)
    then show "0 \<le> offerWeight g e'" using nn by (auto simp: offerWeight_def split: LedgerEntryData.splits)
  qed
  then show ?thesis using offerSum_erase [OF wf l, of g] by simp
qed

section \<open>Counts of an account\<close>

definition subsOf :: "LedgerEntry \<Rightarrow> int" where
  "subsOf e = (case ledgerData e of ACCOUNT a \<Rightarrow> uint (numSubEntries a) | _ \<Rightarrow> 0)"

definition sponsoringOf :: "LedgerEntry \<Rightarrow> int" where
  "sponsoringOf e =
     (case ledgerData e of
        ACCOUNT a \<Rightarrow> if hasAccountEntryExtV2 a then uint (numSponsoring (prepareAccountEntryExtensionV2 a)) else 0
      | _ \<Rightarrow> 0)"

definition sponsoredOf :: "LedgerEntry \<Rightarrow> int" where
  "sponsoredOf e =
     (case ledgerData e of
        ACCOUNT a \<Rightarrow> if hasAccountEntryExtV2 a then uint (numSponsored (prepareAccountEntryExtensionV2 a)) else 0
      | _ \<Rightarrow> 0)"

lemmas count_defs = subsOf_def sponsoringOf_def sponsoredOf_def

lemma extV2_set [simp]:
  "hasAccountEntryExtV2 (setAccBuying x a) = hasAccountEntryExtV2 a"
  "hasAccountEntryExtV2 (setAccSelling x a) = hasAccountEntryExtV2 a"
  "hasAccountEntryExtV2 (a\<lparr>accBalance := x\<rparr>) = hasAccountEntryExtV2 a"
  "hasAccountEntryExtV2 a \<Longrightarrow> prepareAccountEntryExtensionV2 (setAccBuying x a) = prepareAccountEntryExtensionV2 a"
  "hasAccountEntryExtV2 a \<Longrightarrow> prepareAccountEntryExtensionV2 (setAccSelling x a) = prepareAccountEntryExtensionV2 a"
  "prepareAccountEntryExtensionV2 (a\<lparr>accBalance := x\<rparr>) = prepareAccountEntryExtensionV2 a"
  "numSubEntries (setAccBuying x a) = numSubEntries a" "numSubEntries (setAccSelling x a) = numSubEntries a"
  by (simp_all add: setAccBuying_def setAccSelling_def hasAccountEntryExtV2_def Let_def
      prepareAccountEntryExtensionV1_def prepareAccountEntryExtensionV2_def split: option.splits)

lemma counts_set [simp]:
  "subsOf (setBalance x e) = subsOf e" "subsOf (setBuying x e) = subsOf e" "subsOf (setSelling x e) = subsOf e"
  "sponsoringOf (setBalance x e) = sponsoringOf e" "sponsoringOf (setBuying x e) = sponsoringOf e"
  "sponsoringOf (setSelling x e) = sponsoringOf e"
  "sponsoredOf (setBalance x e) = sponsoredOf e" "sponsoredOf (setBuying x e) = sponsoredOf e"
  "sponsoredOf (setSelling x e) = sponsoredOf e"
  by (auto simp: count_defs setBalance_def setBuying_def setSelling_def split: LedgerEntryData.splits)

lemma getMinBalanceFor_eq:
  assumes v: "9 \<le> ledgerVersion h" and z: "ledgerVersion h < 14 \<Longrightarrow> ing = 0 \<and> ed = 0"
    and le: "uint ed \<le> uint n + 2"
  shows "getMinBalanceFor h n ing ed = Inr ((2 + uint n + uint ing - uint ed) * uint (baseReserve h))"
proof -
  have 1: "(ledgerVersion h \<le> 8) = False" using v by (simp add: word_le_def)
  have "\<not> 2 + uint n + uint ing - uint ed < 0"
    using le uint_ge_0 [of ing] by linarith
  then have 2: "(2 + uint n + uint ing - uint ed < 0) = False" by blast
  show ?thesis unfolding getMinBalanceFor_def Let_def 1 2 using z by auto
qed

lemma getMinBalance_counts:
  assumes v: "9 \<le> ledgerVersion h" and a: "ledgerData e = ACCOUNT a" and le: "sponsoredOf e \<le> subsOf e + 2"
  shows "getMinBalance h a =
    Inr ((2 + subsOf e + (if 14 \<le> ledgerVersion h then sponsoringOf e - sponsoredOf e else 0)) * uint (baseReserve h))"
proof (cases "14 \<le> ledgerVersion h \<and> hasAccountEntryExtV2 a")
  case True
  then show ?thesis
    using getMinBalanceFor_eq [OF v, of "numSponsoring (prepareAccountEntryExtensionV2 a)"
        "numSponsored (prepareAccountEntryExtensionV2 a)" "numSubEntries a"] a le
    by (simp add: getMinBalance_def count_defs linorder_not_less [symmetric])
next
  case False
  then show ?thesis using getMinBalanceFor_eq [OF v, of 0 0 "numSubEntries a"] a
    by (auto simp: getMinBalance_def count_defs)
qed

section \<open>The invariant\<close>

text \<open>
  \<open>P\<close> and \<open>Q\<close> are the liabilities that an offer already has and its seller's holdings do not yet
  record, or record no more; they are zero between operations.
\<close>

definition coversSelling :: "LedgerHeader \<Rightarrow> LedgerEntry \<Rightarrow> bool" where
  "coversSelling h e \<longleftrightarrow> (0 < sellingOf e \<longrightarrow> reserveOf h e + sellingOf e \<le> balanceOf e)"

definition lineReady :: "LedgerState \<Rightarrow> AccountID \<Rightarrow> Asset \<Rightarrow> bool" where
  "lineReady ls A X \<longleftrightarrow> X = ASSET_TYPE_NATIVE \<or> isIssuerOf A X
     \<or> (\<exists>e. loadEntry ls (TrustLineKey A X) = Some e \<and> usable (lsHeader ls) e)"

definition offerPlaced :: "LedgerState \<Rightarrow> LedgerEntry \<Rightarrow> OfferEntry \<Rightarrow> bool" where
  "offerPlaced ls e oe \<longleftrightarrow> offerOk oe \<and> loadEntry ls (AccountKey (sellerID oe)) \<noteq> None
     \<and> lineReady ls (sellerID oe) (buying oe) \<and> lineReady ls (sellerID oe) (selling oe)
     \<and> (\<forall>B. entrySponsor e = Some B \<longrightarrow> 14 \<le> ledgerVersion (lsHeader ls) \<and> B \<noteq> sellerID oe
          \<and> loadEntry ls (AccountKey B) \<noteq> None)"

definition countsOk :: "LedgerState \<Rightarrow> AccountID \<Rightarrow> LedgerEntry \<Rightarrow> bool" where
  "countsOk ls A e \<longleftrightarrow> offersOf ls A \<le> subsOf e \<and> offersSponsoredBy ls A \<le> sponsoringOf e
     \<and> sponsoredOffersOf ls A \<le> sponsoredOf e
     \<and> sponsoredOf e + (offersOf ls A - sponsoredOffersOf ls A) \<le> subsOf e + 2"

definition liabilitiesMatch ::
    "(AccountID \<Rightarrow> Asset \<Rightarrow> int) \<Rightarrow> (AccountID \<Rightarrow> Asset \<Rightarrow> int) \<Rightarrow> LedgerState \<Rightarrow> bool" where
  "liabilitiesMatch P Q ls \<longleftrightarrow> (\<forall>A X e. \<not> isIssuerOf A X \<longrightarrow> loadEntry ls (holderKey A X) = Some e \<longrightarrow>
     buyingOf e + P A X = buyLiab ls A X \<and> sellingOf e + Q A X = sellLiab ls A X)"

definition ledgerInv ::
    "(AccountID \<Rightarrow> Asset \<Rightarrow> int) \<Rightarrow> (AccountID \<Rightarrow> Asset \<Rightarrow> int) \<Rightarrow> LedgerState \<Rightarrow> bool" where
  "ledgerInv P Q ls \<longleftrightarrow> 10 \<le> ledgerVersion (lsHeader ls) \<and> stateWf ls
     \<and> (\<forall>k e. loadEntry ls k = Some e \<longrightarrow> isHolding e \<longrightarrow> holdingOk e \<and> coversSelling (lsHeader ls) e)
     \<and> (\<forall>k e oe. loadEntry ls k = Some e \<longrightarrow> ledgerData e = OFFER oe \<longrightarrow> offerPlaced ls e oe)
     \<and> liabilitiesMatch P Q ls
     \<and> (\<forall>A e. loadEntry ls (AccountKey A) = Some e \<longrightarrow> countsOk ls A e)"

definition ledgerOk :: "LedgerState \<Rightarrow> bool" where
  "ledgerOk ls \<longleftrightarrow> ledgerInv (\<lambda>_ _. 0) (\<lambda>_ _. 0) ls
     \<and> (\<forall>k e oe. loadEntry ls k = Some e \<longrightarrow> ledgerData e = OFFER oe \<longrightarrow> 0 < offerAmount oe)"

lemma ledgerInv_cong:
  assumes "ledgerInv P Q ls" "\<And>A X. \<not> isIssuerOf A X \<Longrightarrow> P' A X = P A X" "\<And>A X. \<not> isIssuerOf A X \<Longrightarrow> Q' A X = Q A X"
  shows "ledgerInv P' Q' ls"
  using assms by (simp add: ledgerInv_def liabilitiesMatch_def)

lemma ledgerInvD:
  assumes "ledgerInv P Q ls"
  shows "10 \<le> ledgerVersion (lsHeader ls)" "9 \<le> ledgerVersion (lsHeader ls)" "stateWf ls"
    "loadEntry ls k = Some e \<Longrightarrow> isHolding e \<Longrightarrow> holdingOk e"
    "loadEntry ls k = Some e \<Longrightarrow> isHolding e \<Longrightarrow> coversSelling (lsHeader ls) e"
    "loadEntry ls k = Some e \<Longrightarrow> ledgerData e = OFFER oe \<Longrightarrow> offerPlaced ls e oe"
    "loadEntry ls (AccountKey A) = Some e \<Longrightarrow> countsOk ls A e"
  using assms by (auto simp: ledgerInv_def word_le_def)

lemma account_key_data: "stateWf ls \<Longrightarrow> loadEntry ls (AccountKey A) = Some e \<Longrightarrow> \<exists>a. ledgerData e = ACCOUNT a \<and> accountID a = A"
  by (drule loadEntry_key) (auto dest: entry_key_cases)

lemma offerSum_nonneg:
  assumes wf: "stateWf ls"
    and nn: "\<And>k' e' oe. loadEntry ls k' = Some e' \<Longrightarrow> ledgerData e' = OFFER oe \<Longrightarrow> 0 \<le> g e' oe"
  shows "0 \<le> offerSum g ls"
  unfolding offerSum_def totalOver_def
proof (rule sumAssoc_nonneg)
  fix k' e' assume "(k', e') \<in> set (lsEntries ls)"
  then have "loadEntry ls k' = Some e'" using wf by (auto simp: stateWf_def loadEntry_def)
  then show "0 \<le> offerWeight g e'" using nn by (auto simp: offerWeight_def split: LedgerEntryData.splits)
qed

lemma sumAssoc_mono:
  "(\<And>k v. (k, v) \<in> set m \<Longrightarrow> f k v \<le> g k v) \<Longrightarrow> sumAssoc f m \<le> sumAssoc g m"
  by (auto simp: sumAssoc_def intro!: sum_list_mono)

lemma offer_count_bounds:
  assumes "stateWf ls"
  shows "0 \<le> offersOf ls A" "0 \<le> sponsoredOffersOf ls A" "0 \<le> offersSponsoredBy ls A"
    "sponsoredOffersOf ls A \<le> offersOf ls A"
  using offerSum_nonneg [OF assms]
  by (auto simp: offersOf_def sponsoredOffersOf_def offersSponsoredBy_def offerSum_def totalOver_def
      offerWeight_def intro!: sumAssoc_mono sumAssoc_nonneg split: LedgerEntryData.splits)

text \<open>Every holding of the seller of an offer can be used.\<close>

lemma account_usable:
  assumes inv: "ledgerInv P Q ls" and l: "loadEntry ls (AccountKey A) = Some e"
  shows "usable (lsHeader ls) e" "isHolding e"
proof -
  obtain a where a: "ledgerData e = ACCOUNT a" using account_key_data [OF ledgerInvD(3) [OF inv] l] by blast
  have c: "countsOk ls A e" by (rule ledgerInvD(7) [OF inv l])
  have le: "sponsoredOf e \<le> subsOf e + 2"
    using c offer_count_bounds(4) [OF ledgerInvD(3) [OF inv], of A] by (auto simp: countsOk_def)
  have nn: "0 \<le> subsOf e" "0 \<le> sponsoringOf e" by (auto simp: count_defs split: LedgerEntryData.splits)
  have "0 \<le> (2 + subsOf e + (if 14 \<le> ledgerVersion (lsHeader ls) then sponsoringOf e - sponsoredOf e else 0))
      * uint (baseReserve (lsHeader ls))"
    using le nn by (intro mult_nonneg_nonneg) auto
  then show "usable (lsHeader ls) e" "isHolding e"
    using getMinBalance_counts [OF ledgerInvD(2) [OF inv] a le] a by (simp_all add: usable_def isHolding_def)
qed

lemma seller_holderOk:
  assumes inv: "ledgerInv P Q ls" and acct: "loadEntry ls (AccountKey A) \<noteq> None" and r: "lineReady ls A X"
  shows "holderOk (lsHeader ls) A X (holder ls A X)"
proof (cases "isIssuerOf A X")
  case True
  then show ?thesis by (simp add: holderOk_def holder_def)
next
  case False
  obtain e where e: "loadEntry ls (holderKey A X) = Some e" "usable (lsHeader ls) e"
  proof (cases "X = ASSET_TYPE_NATIVE")
    case True
    then show ?thesis using acct account_usable(1) [OF inv] that by (auto simp: holderKey_def)
  next
    case False
    then show ?thesis using r \<open>\<not> isIssuerOf A X\<close> that by (auto simp: lineReady_def holderKey_def)
  qed
  then show ?thesis
    using False ledgerInvD(3,4) [OF inv] loadEntry_key [of ls] usable_isHolding
    by (auto simp: holderOk_def holder_def)
qed

lemma offer_release_ok:
  assumes inv: "ledgerInv (\<lambda>_ _. 0) (\<lambda>_ _. 0) ls" and l: "loadEntry ls k = Some le" and oe: "ledgerData le = OFFER oe"
  shows "canShiftBuying (- offerBuy oe) (holder ls (sellerID oe) (buying oe))"
    "canShiftSelling (lsHeader ls) (- offerSell oe) (holder ls (sellerID oe) (selling oe))"
proof -
  let ?A = "sellerID oe"
  note wf = ledgerInvD(3) [OF inv]
  have pl: "offerPlaced ls le oe" by (rule ledgerInvD(6) [OF inv l oe])
  have ok: "offerOk oe" using pl by (simp add: offerPlaced_def)
  note nn = offer_liabilities_bounds [OF ok]
  have all: "0 \<le> offerBuy oe' \<and> 0 \<le> offerSell oe'" if "loadEntry ls k' = Some e'" "ledgerData e' = OFFER oe'" for k' e' oe'
    using ledgerInvD(6) [OF inv that] offer_liabilities_bounds by (auto simp: offerPlaced_def)
  have b: "offerBuy oe \<le> buyLiab ls ?A (buying oe)"
    using offerSum_ge [OF wf l, of "\<lambda>e oe'. if sellerID oe' = ?A \<and> buying oe' = buying oe then offerBuy oe' else 0"]
      all oe by (auto simp: buyLiab_def offerWeight_def)
  have s: "offerSell oe \<le> sellLiab ls ?A (selling oe)"
    using offerSum_ge [OF wf l, of "\<lambda>e oe'. if sellerID oe' = ?A \<and> selling oe' = selling oe then offerSell oe' else 0"]
      all oe by (auto simp: sellLiab_def offerWeight_def)
  have m: "buyingOf e = buyLiab ls A X \<and> sellingOf e = sellLiab ls A X" if "holder ls A X = Some e" for A X e
    using inv that by (auto simp: ledgerInv_def liabilitiesMatch_def holder_def split: if_splits)
  have h: "holdingOk e \<and> coversSelling (lsHeader ls) e" if "holder ls ?A X = Some e" "lineReady ls ?A X" for X e
  proof -
    have "loadEntry ls (AccountKey ?A) \<noteq> None" using pl by (simp add: offerPlaced_def)
    from seller_holderOk [OF inv this that(2)] have "isHolding e"
      using that(1) usable_isHolding by (auto simp: holderOk_def)
    then show ?thesis using that(1) ledgerInvD(4,5) [OF inv] by (auto simp: holder_def split: if_splits)
  qed
  show "canShiftBuying (- offerBuy oe) (holder ls ?A (buying oe))"
  proof (cases "holder ls ?A (buying oe)")
    case (Some e)
    then show ?thesis using h [OF Some] m [OF Some] b nn pl
      by (auto simp: canShiftBuying_def holdingOk_def offerPlaced_def)
  qed (simp add: canShiftBuying_def)
  show "canShiftSelling (lsHeader ls) (- offerSell oe) (holder ls ?A (selling oe))"
  proof (cases "holder ls ?A (selling oe)")
    case (Some e)
    then show ?thesis using h [OF Some] m [OF Some] s nn pl
      by (auto simp: canShiftSelling_def coversSelling_def offerPlaced_def)
  qed (simp add: canShiftSelling_def)
qed


section \<open>Steps that keep the invariant\<close>

lemma sums_store_holding:
  assumes "loadEntry ls (LedgerEntryKey e') = Some e" "isHolding e" "isHolding e'"
  shows "buyLiab (storeEntry e' ls) A X = buyLiab ls A X" "sellLiab (storeEntry e' ls) A X = sellLiab ls A X"
    "offersOf (storeEntry e' ls) A = offersOf ls A" "sponsoredOffersOf (storeEntry e' ls) A = sponsoredOffersOf ls A"
    "offersSponsoredBy (storeEntry e' ls) A = offersSponsoredBy ls A"
  using offerSum_store_holding [OF assms]
  by (simp_all add: buyLiab_def sellLiab_def offersOf_def sponsoredOffersOf_def offersSponsoredBy_def)

lemma offerPlaced_store:
  assumes "offerPlaced ls e'' oe" "isHolding e' \<Longrightarrow> usable (lsHeader ls) e'"
    and "\<not> isHolding e' \<Longrightarrow> \<exists>B i. LedgerEntryKey e' = OfferKey B i"
  shows "offerPlaced (storeEntry e' ls) e'' oe"
proof -
  have r: "lineReady (storeEntry e' ls) A X" if "lineReady ls A X" for A X
    using that assms(2,3) by (cases "isHolding e'") (auto simp: lineReady_def lst.get_put)
  show ?thesis using assms(1) r by (auto simp: offerPlaced_def lst.get_put)
qed

lemma holderKey_isHolding: "LedgerEntryKey e = holderKey A X \<Longrightarrow> isHolding e"
  by (auto simp: holderKey_def isHolding_def dest!: entry_key_cases split: if_splits)

lemma ledgerInv_store_holding:
  assumes inv: "ledgerInv P Q ls" and l: "holder ls A X = Some e"
    and key: "LedgerEntryKey e' = holderKey A X" and ok: "holdingOk e'" "coversSelling (lsHeader ls) e'"
    and u: "usable (lsHeader ls) e'"
    and c: "subsOf e' = subsOf e" "sponsoringOf e' = sponsoringOf e" "sponsoredOf e' = sponsoredOf e"
  shows "ledgerInv (\<lambda>B Y. P B Y + (if B = A \<and> Y = X then buyingOf e - buyingOf e' else 0))
    (\<lambda>B Y. Q B Y + (if B = A \<and> Y = X then sellingOf e - sellingOf e' else 0)) (storeEntry e' ls)"
proof -
  have le: "loadEntry ls (LedgerEntryKey e') = Some e" "\<not> isIssuerOf A X"
    using l key by (auto simp: holder_def split: if_splits)
  have k: "LedgerEntryKey e = holderKey A X" using loadEntry_key [OF ledgerInvD(3) [OF inv] le(1)] key by simp
  have hol: "isHolding e'" "isHolding e" using holderKey_isHolding key k by auto
  note sums = sums_store_holding [OF le(1) hol(2,1)]
  have load: "loadEntry (storeEntry e' ls) k' = (if k' = holderKey A X then Some e' else loadEntry ls k')" for k'
    using key by (simp add: lst.get_put)
  show ?thesis
    unfolding ledgerInv_def
  proof (intro conjI allI impI)
    show "10 \<le> ledgerVersion (lsHeader (storeEntry e' ls))" using ledgerInvD(1) [OF inv] by simp
    show "stateWf (storeEntry e' ls)" using ledgerInvD(3) [OF inv] by (rule lst.wf_put)
    show "holdingOk e''" "coversSelling (lsHeader (storeEntry e' ls)) e''"
      if "loadEntry (storeEntry e' ls) k' = Some e''" "isHolding e''" for k' e''
      using that load ok ledgerInvD(4,5) [OF inv] by (auto split: if_splits)
    show "offerPlaced (storeEntry e' ls) e'' oe"
      if "loadEntry (storeEntry e' ls) k' = Some e''" "ledgerData e'' = OFFER oe" for k' e'' oe
    proof (rule offerPlaced_store)
      show "offerPlaced ls e'' oe"
        using that load hol(1) ledgerInvD(6) [OF inv] by (auto simp: isHolding_def split: if_splits)
    qed (use u hol in auto)
    show "countsOk (storeEntry e' ls) B e''" if "loadEntry (storeEntry e' ls) (AccountKey B) = Some e''" for B e''
    proof (cases "AccountKey B = holderKey A X")
      case True
      then have "countsOk ls B e" using ledgerInvD(7) [OF inv, of B e] le(1) key by simp
      then show ?thesis using that load True c sums by (simp add: countsOk_def)
    next
      case False
      then have "countsOk ls B e''" using ledgerInvD(7) [OF inv] that load by simp
      then show ?thesis using sums by (simp add: countsOk_def)
    qed
    show "liabilitiesMatch (\<lambda>B Y. P B Y + (if B = A \<and> Y = X then buyingOf e - buyingOf e' else 0))
        (\<lambda>B Y. Q B Y + (if B = A \<and> Y = X then sellingOf e - sellingOf e' else 0)) (storeEntry e' ls)"
      unfolding liabilitiesMatch_def
    proof (intro allI impI)
      fix B Y e''
      assume nb: "\<not> isIssuerOf B Y" and l'': "loadEntry (storeEntry e' ls) (holderKey B Y) = Some e''"
      have m: "buyingOf e0 + P B Y = buyLiab ls B Y \<and> sellingOf e0 + Q B Y = sellLiab ls B Y"
        if "loadEntry ls (holderKey B Y) = Some e0" for e0
        using inv that nb by (auto simp: ledgerInv_def liabilitiesMatch_def)
      show "buyingOf e'' + (P B Y + (if B = A \<and> Y = X then buyingOf e - buyingOf e' else 0)) = buyLiab (storeEntry e' ls) B Y
        \<and> sellingOf e'' + (Q B Y + (if B = A \<and> Y = X then sellingOf e - sellingOf e' else 0)) = sellLiab (storeEntry e' ls) B Y"
        using l'' load m le key sums by (cases "B = A \<and> Y = X") auto
    qed
  qed
qed

lemma ledgerInv_storeHolder:
  assumes inv: "ledgerInv P Q ls" and ho: "holder ls A X = ho"
    and ok: "holderOk (lsHeader ls) A X (map_option f ho)"
    and cov: "\<And>e. ho = Some e \<Longrightarrow> coversSelling (lsHeader ls) (f e)"
    and cnt: "\<And>e. subsOf (f e) = subsOf e" "\<And>e. sponsoringOf (f e) = sponsoringOf e" "\<And>e. sponsoredOf (f e) = sponsoredOf e"
    and d: "\<And>e. ho = Some e \<Longrightarrow> buyingOf (f e) = buyingOf e + b" "\<And>e. ho = Some e \<Longrightarrow> sellingOf (f e) = sellingOf e + s"
  shows "ledgerInv (\<lambda>B Y. P B Y - (if B = A \<and> Y = X then b else 0))
    (\<lambda>B Y. Q B Y - (if B = A \<and> Y = X then s else 0)) (storeHolder (map_option f ho) ls)"
proof (cases ho)
  case None
  then have "isIssuerOf A X" using ok by (simp add: holderOk_def)
  then have "ledgerInv (\<lambda>B Y. P B Y - (if B = A \<and> Y = X then b else 0))
      (\<lambda>B Y. Q B Y - (if B = A \<and> Y = X then s else 0)) ls"
    by (intro ledgerInv_cong [OF inv]) auto
  then show ?thesis using None by simp
next
  case (Some e)
  have "ledgerInv (\<lambda>B Y. P B Y + (if B = A \<and> Y = X then buyingOf e - buyingOf (f e) else 0))
    (\<lambda>B Y. Q B Y + (if B = A \<and> Y = X then sellingOf e - sellingOf (f e) else 0)) (storeEntry (f e) ls)"
    by (rule ledgerInv_store_holding [OF inv]) (use ho ok cov [OF Some] cnt Some in \<open>auto simp: holderOk_def\<close>)
  then show ?thesis using Some d [OF Some]
    by (auto elim!: ledgerInv_cong)
qed


lemma ledgerInv_store_offer:
  assumes inv: "ledgerInv P Q ls" and l: "loadEntry ls k = Some le" and oe: "ledgerData le = OFFER oe"
    and x: "isAmount x"
  defines "oe2 \<equiv> oe\<lparr>offerAmount := x\<rparr>"
  defines "le2 \<equiv> le\<lparr>ledgerData := OFFER oe2\<rparr>"
  shows "ledgerInv (\<lambda>B Y. P B Y + (if B = sellerID oe \<and> Y = buying oe then offerBuy oe2 - offerBuy oe else 0))
    (\<lambda>B Y. Q B Y + (if B = sellerID oe \<and> Y = selling oe then offerSell oe2 - offerSell oe else 0)) (storeEntry le2 ls)"
proof -
  have key: "LedgerEntryKey le2 = k" "k = OfferKey (sellerID oe) (offerID oe)"
    using loadEntry_key [OF ledgerInvD(3) [OF inv] l] oe by (simp_all add: LedgerEntryKey_def le2_def oe2_def)
  have d2: "ledgerData le2 = OFFER oe2" "entrySponsor le2 = entrySponsor le"
    by (simp_all add: le2_def entrySponsor_def)
  have nh: "\<not> isHolding le2" by (simp add: isHolding_def d2)
  have load: "loadEntry (storeEntry le2 ls) k' = (if k' = k then Some le2 else loadEntry ls k')" for k'
    using key(1) by (simp add: lst.get_put)
  have sum: "offerSum g (storeEntry le2 ls) = offerSum g ls + g le2 oe2 - g le oe" for g
    using l key(1) oe d2 by (simp add: offerSum_store offerWeight_def)
  have cnt: "offersOf (storeEntry le2 ls) B = offersOf ls B" "sponsoredOffersOf (storeEntry le2 ls) B = sponsoredOffersOf ls B"
    "offersSponsoredBy (storeEntry le2 ls) B = offersSponsoredBy ls B" for B
    using d2(2) by (simp_all add: offersOf_def sponsoredOffersOf_def offersSponsoredBy_def sum oe2_def)
  have pl: "offerPlaced ls le2 oe2"
    using ledgerInvD(6) [OF inv l oe] x d2(2) by (simp add: offerPlaced_def offerOk_def oe2_def)
  show ?thesis
    unfolding ledgerInv_def
  proof (intro conjI allI impI)
    show "10 \<le> ledgerVersion (lsHeader (storeEntry le2 ls))" using ledgerInvD(1) [OF inv] by simp
    show "stateWf (storeEntry le2 ls)" using ledgerInvD(3) [OF inv] by (rule lst.wf_put)
    show "holdingOk e''" "coversSelling (lsHeader (storeEntry le2 ls)) e''"
      if "loadEntry (storeEntry le2 ls) k' = Some e''" "isHolding e''" for k' e''
      using that load nh ledgerInvD(4,5) [OF inv] by (auto split: if_splits)
    show "offerPlaced (storeEntry le2 ls) e'' oe''"
      if "loadEntry (storeEntry le2 ls) k' = Some e''" "ledgerData e'' = OFFER oe''" for k' e'' oe''
    proof (rule offerPlaced_store)
      show "offerPlaced ls e'' oe''"
        using that load pl d2 ledgerInvD(6) [OF inv] by (auto split: if_splits)
    qed (use nh key in auto)
    show "countsOk (storeEntry le2 ls) B e''" if "loadEntry (storeEntry le2 ls) (AccountKey B) = Some e''" for B e''
      using ledgerInvD(7) [OF inv] that load key(2) cnt by (simp add: countsOk_def)
    show "liabilitiesMatch (\<lambda>B Y. P B Y + (if B = sellerID oe \<and> Y = buying oe then offerBuy oe2 - offerBuy oe else 0))
      (\<lambda>B Y. Q B Y + (if B = sellerID oe \<and> Y = selling oe then offerSell oe2 - offerSell oe else 0)) (storeEntry le2 ls)"
      unfolding liabilitiesMatch_def
    proof (intro allI impI)
      fix B Y e''
      assume nb: "\<not> isIssuerOf B Y" and l'': "loadEntry (storeEntry le2 ls) (holderKey B Y) = Some e''"
      then have "loadEntry ls (holderKey B Y) = Some e''" using load key(2) by simp
      then have m: "buyingOf e'' + P B Y = buyLiab ls B Y \<and> sellingOf e'' + Q B Y = sellLiab ls B Y"
        using inv nb by (auto simp: ledgerInv_def liabilitiesMatch_def)
      have "buyLiab (storeEntry le2 ls) B Y = buyLiab ls B Y
            + (if B = sellerID oe \<and> Y = buying oe then offerBuy oe2 - offerBuy oe else 0)"
        "sellLiab (storeEntry le2 ls) B Y = sellLiab ls B Y
            + (if B = sellerID oe \<and> Y = selling oe then offerSell oe2 - offerSell oe else 0)"
        by (auto simp: buyLiab_def sellLiab_def sum oe2_def)
      with m show "buyingOf e'' + (P B Y + (if B = sellerID oe \<and> Y = buying oe then offerBuy oe2 - offerBuy oe else 0))
          = buyLiab (storeEntry le2 ls) B Y
        \<and> sellingOf e'' + (Q B Y + (if B = sellerID oe \<and> Y = selling oe then offerSell oe2 - offerSell oe else 0))
          = sellLiab (storeEntry le2 ls) B Y" by simp
    qed
  qed
qed

text \<open>Removing an offer takes it off the counts of its seller and of its sponsor.\<close>

definition sameHolding :: "LedgerEntry \<Rightarrow> LedgerEntry \<Rightarrow> bool" where
  "sameHolding e e' \<longleftrightarrow> LedgerEntryKey e' = LedgerEntryKey e \<and> isHolding e' = isHolding e
     \<and> isTrustLine e' = isTrustLine e
     \<and> balanceOf e' = balanceOf e \<and> buyingOf e' = buyingOf e \<and> sellingOf e' = sellingOf e \<and> capOf e' = capOf e"

definition offerDropped :: "LedgerEntry \<Rightarrow> OfferEntry \<Rightarrow> AccountID \<Rightarrow> LedgerEntry \<Rightarrow> LedgerEntry \<Rightarrow> bool" where
  "offerDropped le oe B e e' \<longleftrightarrow> sameHolding e e'
     \<and> subsOf e' = subsOf e - (if B = sellerID oe then 1 else 0)
     \<and> sponsoringOf e' = sponsoringOf e - (if entrySponsor le = Some B then 1 else 0)
     \<and> sponsoredOf e' = sponsoredOf e - (if B = sellerID oe \<and> entrySponsor le \<noteq> None then 1 else 0)"

lemma countsOk_reserve:
  assumes wf: "stateWf ls" and v: "9 \<le> ledgerVersion h" and l: "ledgerData e = ACCOUNT a" and c: "countsOk ls A e"
  shows "reserveOf h e =
    (2 + subsOf e + (if 14 \<le> ledgerVersion h then sponsoringOf e - sponsoredOf e else 0)) * uint (baseReserve h)"
proof -
  have "sponsoredOf e \<le> subsOf e + 2"
    using c offer_count_bounds(4) [OF wf, of A] by (auto simp: countsOk_def)
  then show ?thesis using getMinBalance_counts [OF v l] l by (simp add: reserveOf_def)
qed

lemma ledgerInv_remove:
  assumes inv: "ledgerInv P Q ls" and l: "loadEntry ls k = Some le" and oe: "ledgerData le = OFFER oe"
    and z: "offerBuy oe = 0" "offerSell oe = 0"
    and load: "\<And>k'. loadEntry ls3 k' = (if k' = k then None else
      case k' of AccountKey B \<Rightarrow> map_option (f B) (loadEntry ls k') | _ \<Rightarrow> loadEntry ls k')"
    and f: "\<And>B e. loadEntry ls (AccountKey B) = Some e \<Longrightarrow> offerDropped le oe B e (f B e)"
    and hd: "lsHeader ls3 = lsHeader ls" and wf: "stateWf ls3"
    and sum: "\<And>g. offerSum g ls3 = offerSum g ls - g le oe"
  shows "ledgerInv P Q ls3"
proof -
  note wf0 = ledgerInvD(3) [OF inv]
  have key: "k = OfferKey (sellerID oe) (offerID oe)"
    using loadEntry_key [OF wf0 l] oe by (simp add: LedgerEntryKey_def)
  have cnt: "offersOf ls3 B = offersOf ls B - (if B = sellerID oe then 1 else 0)"
    "sponsoredOffersOf ls3 B = sponsoredOffersOf ls B - (if B = sellerID oe \<and> entrySponsor le \<noteq> None then 1 else 0)"
    "offersSponsoredBy ls3 B = offersSponsoredBy ls B - (if entrySponsor le = Some B then 1 else 0)" for B
    by (auto simp: offersOf_def sponsoredOffersOf_def offersSponsoredBy_def sum)
  have liab: "buyLiab ls3 B Y = buyLiab ls B Y" "sellLiab ls3 B Y = sellLiab ls B Y" for B Y
    using z by (simp_all add: buyLiab_def sellLiab_def sum)
  have acc: "\<exists>e0. loadEntry ls (AccountKey B) = Some e0 \<and> e = f B e0 \<and> offerDropped le oe B e0 e"
    if "loadEntry ls3 (AccountKey B) = Some e" for B e
    using that load key f by auto
  have counts: "countsOk ls3 B e" if l3: "loadEntry ls3 (AccountKey B) = Some e" for B e
  proof -
    obtain e0 where e0: "loadEntry ls (AccountKey B) = Some e0" "offerDropped le oe B e0 e" using acc [OF l3] by blast
    have "countsOk ls B e0" by (rule ledgerInvD(7) [OF inv e0(1)])
    then show ?thesis using e0(2) cnt [of B] by (auto simp: countsOk_def offerDropped_def)
  qed
  have old: "\<exists>e0. loadEntry ls k' = Some e0 \<and> sameHolding e0 e \<and> (\<not> isTrustLine e \<longrightarrow> isHolding e \<longrightarrow>
      (\<exists>B. k' = AccountKey B \<and> offerDropped le oe B e0 e)) \<and> (isTrustLine e \<longrightarrow> e0 = e) \<and> (\<not> isHolding e \<longrightarrow> e0 = e)"
    if l3: "loadEntry ls3 k' = Some e" for k' e
  proof (cases "\<exists>B. k' = AccountKey B")
    case True
    then obtain B e0 where B: "k' = AccountKey B" "loadEntry ls (AccountKey B) = Some e0" "offerDropped le oe B e0 e"
      using acc l3 by blast
    then have "isHolding e0" "\<not> isTrustLine e0"
      using account_key_data [OF wf0 B(2)] by (auto simp: isHolding_def isTrustLine_def)
    then show ?thesis using B by (auto simp: offerDropped_def sameHolding_def)
  next
    case False
    then have same: "loadEntry ls k' = Some e" using l3 load [of k'] by (auto split: LedgerKey.splits if_splits)
    moreover have "\<not> isHolding e \<or> isTrustLine e"
      using False loadEntry_key [OF wf0 same] by (auto simp: isHolding_def isTrustLine_def LedgerEntryKey_def split: LedgerEntryData.splits)
    ultimately show ?thesis by (auto simp: sameHolding_def)
  qed
  have reserve: "reserveOf (lsHeader ls) e \<le> reserveOf (lsHeader ls) e0"
    if l0: "loadEntry ls (AccountKey B) = Some e0" and l3: "loadEntry ls3 (AccountKey B) = Some e" and dr: "offerDropped le oe B e0 e" for B e e0
  proof -
    obtain a0 where a0: "ledgerData e0 = ACCOUNT a0" using account_key_data [OF wf0 l0] by blast
    obtain a where a: "ledgerData e = ACCOUNT a" using account_key_data [OF wf l3] by blast
    have "subsOf e + (if c then sponsoringOf e - sponsoredOf e else 0)
        \<le> subsOf e0 + (if c then sponsoringOf e0 - sponsoredOf e0 else 0)" for c
      using dr by (auto simp: offerDropped_def)
    then show ?thesis
      unfolding countsOk_reserve [OF wf0 ledgerInvD(2) [OF inv] a0 ledgerInvD(7) [OF inv l0]]
        countsOk_reserve [OF wf ledgerInvD(2) [OF inv] a counts [OF l3]]
      by (intro mult_right_mono) (simp_all add: add.assoc)
  qed
  show ?thesis
    unfolding ledgerInv_def hd
  proof (intro conjI allI impI)
    show "10 \<le> ledgerVersion (lsHeader ls)" by (rule ledgerInvD(1) [OF inv])
    show "stateWf ls3" by (rule wf)
    show "countsOk ls3 B e" if "loadEntry ls3 (AccountKey B) = Some e" for B e by (rule counts [OF that])
    show "holdingOk e" if l3: "loadEntry ls3 k' = Some e" "isHolding e" for k' e
    proof -
      obtain e0 where e0: "loadEntry ls k' = Some e0" "sameHolding e0 e" using old [OF l3(1)] by blast
      then have "holdingOk e0" using ledgerInvD(4) [OF inv e0(1)] l3(2) by (simp add: sameHolding_def)
      then show ?thesis using e0(2) by (simp add: holdingOk_def sameHolding_def)
    qed
    show "coversSelling (lsHeader ls) e" if l3: "loadEntry ls3 k' = Some e" "isHolding e" for k' e
    proof -
      obtain e0 where e0: "loadEntry ls k' = Some e0" "sameHolding e0 e"
        "\<not> isTrustLine e \<longrightarrow> (\<exists>B. k' = AccountKey B \<and> offerDropped le oe B e0 e)" "isTrustLine e \<longrightarrow> e0 = e"
        using old [OF l3(1)] l3(2) by blast
      have c0: "coversSelling (lsHeader ls) e0" using ledgerInvD(5) [OF inv e0(1)] l3(2) e0(2) by (simp add: sameHolding_def)
      show ?thesis
      proof (cases "isTrustLine e")
        case True
        then show ?thesis using e0(4) c0 by simp
      next
        case False
        then obtain B where "k' = AccountKey B" "offerDropped le oe B e0 e" using e0(3) by blast
        then have "reserveOf (lsHeader ls) e \<le> reserveOf (lsHeader ls) e0" using reserve e0(1) l3(1) by blast
        then show ?thesis using c0 e0(2) by (auto simp: coversSelling_def sameHolding_def)
      qed
    qed
    show "offerPlaced ls3 e oe'" if l3: "loadEntry ls3 k' = Some e" "ledgerData e = OFFER oe'" for k' e oe'
    proof -
      have "loadEntry ls k' = Some e" using old [OF l3(1)] l3(2) by (auto simp: isHolding_def)
      then have pl: "offerPlaced ls e oe'" using ledgerInvD(6) [OF inv] l3(2) by blast
      have a: "loadEntry ls3 (AccountKey B) \<noteq> None" if "loadEntry ls (AccountKey B) \<noteq> None" for B
        using that load key by auto
      have r: "lineReady ls3 B X" if "lineReady ls B X" for B X
        using that load key hd by (auto simp: lineReady_def)
      show ?thesis using pl a r hd by (auto simp: offerPlaced_def)
    qed
    show "liabilitiesMatch P Q ls3"
      unfolding liabilitiesMatch_def
    proof (intro allI impI)
      fix B Y e
      assume nb: "\<not> isIssuerOf B Y" and l3: "loadEntry ls3 (holderKey B Y) = Some e"
      obtain e0 where e0: "loadEntry ls (holderKey B Y) = Some e0" "sameHolding e0 e" using old [OF l3] by blast
      have "buyingOf e0 + P B Y = buyLiab ls B Y \<and> sellingOf e0 + Q B Y = sellLiab ls B Y"
        using inv nb e0(1) by (auto simp: ledgerInv_def liabilitiesMatch_def)
      then show "buyingOf e + P B Y = buyLiab ls3 B Y \<and> sellingOf e + Q B Y = sellLiab ls3 B Y"
        using e0(2) liab by (simp add: sameHolding_def)
    qed
  qed
qed


lemma setExtV2_simps [simp]:
  "hasAccountEntryExtV2 (setAccountEntryExtensionV2 v2 a)"
  "prepareAccountEntryExtensionV2 (setAccountEntryExtensionV2 v2 a) = v2"
  "accLiabilities (setAccountEntryExtensionV2 v2 a) = accLiabilities a"
  "accBalance (setAccountEntryExtensionV2 v2 a) = accBalance a"
  "numSubEntries (setAccountEntryExtensionV2 v2 a) = numSubEntries a"
  "accountID (setAccountEntryExtensionV2 v2 a) = accountID a"
  by (simp_all add: setAccountEntryExtensionV2_def hasAccountEntryExtV2_def prepareAccountEntryExtensionV2_def
      prepareAccountEntryExtensionV1_def accLiabilities_def split: option.splits)

lemma getExtV2: "hasAccountEntryExtV2 a \<Longrightarrow> getAccountEntryExtensionV2 a = Inr (prepareAccountEntryExtensionV2 a)"
  by (auto simp: hasAccountEntryExtV2_def getAccountEntryExtensionV2_def prepareAccountEntryExtensionV2_def
      prepareAccountEntryExtensionV1_def split: option.splits)

lemma numSubEntries_upd_simps [simp]:
  "hasAccountEntryExtV2 (a\<lparr>numSubEntries := n\<rparr>) = hasAccountEntryExtV2 a"
  "prepareAccountEntryExtensionV2 (a\<lparr>numSubEntries := n\<rparr>) = prepareAccountEntryExtensionV2 a"
  "accLiabilities (a\<lparr>numSubEntries := n\<rparr>) = accLiabilities a"
  by (simp_all add: hasAccountEntryExtV2_def prepareAccountEntryExtensionV2_def
      prepareAccountEntryExtensionV1_def accLiabilities_def split: option.splits)

lemma uint_dec: "1 \<le> uint (n :: uint32) \<Longrightarrow> uint (n - 1) = uint n - 1"
  using uint_sub_lem [of 1 n] by simp

lemma dropSub:
  assumes "ledgerData e = ACCOUNT a" "1 \<le> subsOf e"
  obtains e' where "addSubEntries (- 1) e = Inr e'" "sameHolding e e'" "subsOf e' = subsOf e - 1"
    "sponsoringOf e' = sponsoringOf e" "sponsoredOf e' = sponsoredOf e"
    "\<exists>a'. ledgerData e' = ACCOUNT a' \<and> accountID a' = accountID a"
proof
  let ?e = "e\<lparr>ledgerData := ACCOUNT (a\<lparr>numSubEntries := numSubEntries a - 1\<rparr>)\<rparr>"
  show "addSubEntries (- 1) e = Inr ?e"
    using assms(1) by (simp add: addSubEntries_def onAccount_def accountOf_def)
  show "sameHolding e ?e" using assms(1) by (simp add: sameHolding_def holding_defs LedgerEntryKey_def)
  show "subsOf ?e = subsOf e - 1" "sponsoringOf ?e = sponsoringOf e" "sponsoredOf ?e = sponsoredOf e"
    using assms by (simp_all add: count_defs uint_dec)
qed simp

lemma dropSponsoring:
  assumes "ledgerData e = ACCOUNT a" "1 \<le> sponsoringOf e"
  obtains e' where "subNumSponsoring 1 e = Inr e'" "sameHolding e e'" "subsOf e' = subsOf e"
    "sponsoringOf e' = sponsoringOf e - 1" "sponsoredOf e' = sponsoredOf e"
proof
  have x: "hasAccountEntryExtV2 a" using assms by (auto simp: count_defs split: if_splits)
  let ?v2 = "prepareAccountEntryExtensionV2 a"
  let ?e = "e\<lparr>ledgerData := ACCOUNT (setAccountEntryExtensionV2 (?v2\<lparr>numSponsoring := numSponsoring ?v2 - 1\<rparr>) a)\<rparr>"
  show "subNumSponsoring 1 e = Inr ?e"
    using assms(1) getExtV2 [OF x] by (simp add: subNumSponsoring_def onAccount_def accountOf_def)
  show "sameHolding e ?e" using assms(1) by (simp add: sameHolding_def holding_defs LedgerEntryKey_def)
  show "subsOf ?e = subsOf e" "sponsoringOf ?e = sponsoringOf e - 1" "sponsoredOf ?e = sponsoredOf e"
    using assms x by (simp_all add: count_defs uint_dec)
qed

lemma dropSponsored:
  assumes "ledgerData e = ACCOUNT a" "1 \<le> sponsoredOf e"
  obtains e' where "subNumSponsored 1 e = Inr e'" "sameHolding e e'" "subsOf e' = subsOf e"
    "sponsoringOf e' = sponsoringOf e" "sponsoredOf e' = sponsoredOf e - 1"
proof
  have x: "hasAccountEntryExtV2 a" using assms by (auto simp: count_defs split: if_splits)
  let ?v2 = "prepareAccountEntryExtensionV2 a"
  let ?e = "e\<lparr>ledgerData := ACCOUNT (setAccountEntryExtensionV2 (?v2\<lparr>numSponsored := numSponsored ?v2 - 1\<rparr>) a)\<rparr>"
  show "subNumSponsored 1 e = Inr ?e"
    using assms(1) getExtV2 [OF x] by (simp add: subNumSponsored_def onAccount_def accountOf_def)
  show "sameHolding e ?e" using assms(1) by (simp add: sameHolding_def holding_defs LedgerEntryKey_def)
  show "subsOf ?e = subsOf e" "sponsoringOf ?e = sponsoringOf e" "sponsoredOf ?e = sponsoredOf e - 1"
    using assms x by (simp_all add: count_defs uint_dec)
qed

lemma sameHolding_trans: "sameHolding e e' \<Longrightarrow> sameHolding e' e'' \<Longrightarrow> sameHolding e e''"
  by (simp add: sameHolding_def)

lemma sameHolding_refl [simp]: "sameHolding e e"
  by (simp add: sameHolding_def)

text \<open>The run of \<^verbatim>\<open>removeEntryWithPossibleSponsorship\<close> on an offer.\<close>

lemma offer_simps:
  assumes "ledgerData le = OFFER oe"
  shows "computeMultiplier le = 1" "isAccount le = False" "isClaimableBalance le = False"
  using assms by (simp_all add: computeMultiplier_def isAccount_def isClaimableBalance_def)

lemma removeOffer_unsponsored:
  assumes oe: "ledgerData le = OFFER oe" and sp: "entrySponsor le = None"
    and l: "loadEntry ls (AccountKey A) = Some e" "ledgerData e = ACCOUNT a" and s: "1 \<le> subsOf e"
  obtains e' where "removeOffer ls le A = Inr (eraseEntry (LedgerEntryKey le) (storeEntry e' ls))"
    "sameHolding e e'" "subsOf e' = subsOf e - 1" "sponsoringOf e' = sponsoringOf e" "sponsoredOf e' = sponsoredOf e"
proof -
  obtain e' where e': "addSubEntries (- 1) e = Inr e'" "sameHolding e e'" "subsOf e' = subsOf e - 1"
    "sponsoringOf e' = sponsoringOf e" "sponsoredOf e' = sponsoredOf e"
    by (rule dropSub [OF l(2) s])
  have "\<not> numSubEntries a < 1" using s l(2) by (simp add: subsOf_def word_less_def)
  then have "removeEntryWithPossibleSponsorship ls le e = Inr (le, e', ls)"
    using e'(1) sp l(2) by (simp add: removeEntryWithPossibleSponsorship_def canRemoveEntryWithoutSponsorship_def
        removeEntryWithoutSponsorship_def offer_simps [OF oe] accountOf_def)
  then have "removeOffer ls le A = Inr (eraseEntry (LedgerEntryKey le) (storeEntry e' ls))"
    using l(1) by (simp add: removeOffer_def current_def)
  from that [OF this e'(2-5)] show ?thesis .
qed

lemma removeOffer_sponsored:
  assumes oe: "ledgerData le = OFFER oe" and sp: "entrySponsor le = Some B" and v: "14 \<le> ledgerVersion (lsHeader ls)"
    and l: "loadEntry ls (AccountKey A) = Some e" "ledgerData e = ACCOUNT a" "accountID a = A"
    and lB: "loadEntry ls (AccountKey B) = Some eB" "ledgerData eB = ACCOUNT aB" "accountID aB = B" and ne: "B \<noteq> A"
    and s: "1 \<le> subsOf e" "1 \<le> sponsoredOf e" "1 \<le> sponsoringOf eB"
  obtains e' eB' where
    "removeOffer ls le A = Inr (eraseEntry (LedgerEntryKey le) (storeEntry e' (storeEntry eB' ls)))"
    "sameHolding e e'" "subsOf e' = subsOf e - 1" "sponsoringOf e' = sponsoringOf e" "sponsoredOf e' = sponsoredOf e - 1"
    "sameHolding eB eB'" "subsOf eB' = subsOf eB" "sponsoringOf eB' = sponsoringOf eB - 1" "sponsoredOf eB' = sponsoredOf eB"
proof -
  obtain e1 a1 where e1: "addSubEntries (- 1) e = Inr e1" "sameHolding e e1" "subsOf e1 = subsOf e - 1"
    "sponsoringOf e1 = sponsoringOf e" "sponsoredOf e1 = sponsoredOf e" "ledgerData e1 = ACCOUNT a1"
    by (rule dropSub [OF l(2) s(1)]) blast
  obtain e' where e': "subNumSponsored 1 e1 = Inr e'" "sameHolding e1 e'" "subsOf e' = subsOf e1"
    "sponsoringOf e' = sponsoringOf e1" "sponsoredOf e' = sponsoredOf e1 - 1"
    by (rule dropSponsored [OF e1(6)]) (use s(2) e1(5) in auto)
  obtain eB' where eB': "subNumSponsoring 1 eB = Inr eB'" "sameHolding eB eB'" "subsOf eB' = subsOf eB"
    "sponsoringOf eB' = sponsoringOf eB - 1" "sponsoredOf eB' = sponsoredOf eB"
    by (rule dropSponsoring [OF lB(2) s(3)])
  have ing: "getNumSponsoring eB = Inr n \<Longrightarrow> \<not> n < 1" for n
    using s(3) lB(2) by (auto simp: getNumSponsoring_def accountOf_def sponsoringOf_def word_less_def split: if_splits)
  obtain n where n: "getNumSponsoring eB = Inr n" "\<not> n < 1"
    using ing lB(2) by (auto simp: getNumSponsoring_def accountOf_def)
  have ed: "getNumSponsored e = Inr n \<Longrightarrow> \<not> n < 1" for n
    using s(2) l(2) by (auto simp: getNumSponsored_def accountOf_def sponsoredOf_def word_less_def split: if_splits)
  obtain m where m: "getNumSponsored e = Inr m" "\<not> m < 1"
    using ed l(2) by (auto simp: getNumSponsored_def accountOf_def)
  have sub: "\<not> numSubEntries a < 1" using s(1) l(2) by (simp add: subsOf_def word_less_def)
  have can: "canRemoveEntryWithSponsorship (lsHeader ls) le eB (Some e) = Inr ()"
    using v n m sub l(2)
    by (simp add: canRemoveEntryWithSponsorship_def requireV14_def linorder_not_less offer_simps [OF oe]
        accountOf_def Let_def)
  have ext: "ledgerExt le = Some (Some B)" using sp by (auto simp: entrySponsor_def split: option.splits)
  have rem: "removeEntryWithSponsorship le eB (SponsoredAccount e) =
      Inr (le\<lparr>ledgerExt := Some None\<rparr>, eB', SponsoredAccount e')"
    using e1(1) e'(1) eB'(1) ext lB
    by (simp add: removeEntryWithSponsorship_def onSponsored_def removeEntryWithoutSponsorship_def
        offer_simps [OF oe] removeEntrySponsorship_def getLedgerEntryExtensionV1_def accountIsSponsor_def
        accountOf_def Let_def)
  have "removeEntryWithPossibleSponsorship ls le e = Inr (le\<lparr>ledgerExt := Some None\<rparr>, e', storeEntry eB' ls)"
    using sp l ne lB(1) can rem
    by (simp add: removeEntryWithPossibleSponsorship_def offer_simps [OF oe] accountOf_def current_def
        sponsoredEntry_def accountAfter_def Let_def)
  then have run: "removeOffer ls le A = Inr (eraseEntry (LedgerEntryKey le) (storeEntry e' (storeEntry eB' ls)))"
    using l(1) by (simp add: removeOffer_def current_def)
  show ?thesis
    using that [OF run sameHolding_trans [OF e1(2) e'(2)] _ _ _ eB'(2-5)] e1(3-5) e'(3-5) by simp
qed

end
