(* ===== verification/CrossingInvariant.thy ===== *)
theory CrossingInvariant
  imports LedgerInvariant
begin

text \<open>
  Crossing an offer keeps the invariant of the ledger: the steps of \<^verbatim>\<open>crossOfferV10\<close> (release the
  liabilities, move the balances, store the offer, acquire the liabilities again or remove the offer)
  one by one, with what each moves between the holdings.
\<close>

section \<open>What a step moves\<close>

definition flow :: "AccountID \<Rightarrow> Asset \<Rightarrow> int \<Rightarrow> AccountID \<Rightarrow> Asset \<Rightarrow> int" where
  "flow A X d B Y = (if B = A \<and> Y = X then d else 0)"

definition moved :: "LedgerState \<Rightarrow> LedgerState \<Rightarrow> (AccountID \<Rightarrow> Asset \<Rightarrow> int) \<Rightarrow> bool" where
  "moved ls ls' \<delta> \<longleftrightarrow> lsHeader ls' = lsHeader ls \<and>
     (\<forall>B Y. map_option balanceOf (holder ls' B Y) = map_option (\<lambda>e. balanceOf e + \<delta> B Y) (holder ls B Y))"

definition sameOffers :: "LedgerState \<Rightarrow> LedgerState \<Rightarrow> bool" where
  "sameOffers ls ls' \<longleftrightarrow> (\<forall>B i. loadEntry ls' (OfferKey B i) = loadEntry ls (OfferKey B i))
     \<and> (\<forall>g. offerSum g ls' = offerSum g ls)"

lemma flow_0 [simp]: "flow A X 0 = (\<lambda>_ _. 0)"
  by (auto simp: flow_def fun_eq_iff)

lemma moved_trans:
  assumes "moved ls ls1 \<delta>" "moved ls1 ls2 \<epsilon>"
  shows "moved ls ls2 (\<lambda>B Y. \<delta> B Y + \<epsilon> B Y)"
  unfolding moved_def
proof (intro conjI allI)
  show "lsHeader ls2 = lsHeader ls" using assms by (simp add: moved_def)
  fix B Y
  have 1: "map_option balanceOf (holder ls1 B Y) = map_option (\<lambda>e. balanceOf e + \<delta> B Y) (holder ls B Y)"
    "map_option balanceOf (holder ls2 B Y) = map_option (\<lambda>e. balanceOf e + \<epsilon> B Y) (holder ls1 B Y)"
    using assms by (auto simp: moved_def)
  then show "map_option balanceOf (holder ls2 B Y) = map_option (\<lambda>e. balanceOf e + (\<delta> B Y + \<epsilon> B Y)) (holder ls B Y)"
    by (cases "holder ls B Y"; cases "holder ls1 B Y"; cases "holder ls2 B Y") auto
qed

lemma moved_refl: "moved ls ls (\<lambda>_ _. 0)"
  by (simp add: moved_def)

lemma moved_cong: "moved ls ls' \<delta> \<Longrightarrow> (\<And>B Y. \<delta>' B Y = \<delta> B Y) \<Longrightarrow> moved ls ls' \<delta>'"
  by (simp add: moved_def)

lemma sameOffers_trans: "sameOffers ls ls1 \<Longrightarrow> sameOffers ls1 ls2 \<Longrightarrow> sameOffers ls ls2"
  by (simp add: sameOffers_def)

text \<open>The steps that store a holding.\<close>

lemma moved_storeHolder:
  assumes ho: "holder ls A X = ho" and ok: "holderOk h A X (map_option f ho)"
    and b: "\<And>e. ho = Some e \<Longrightarrow> balanceOf (f e) = balanceOf e + d"
  shows "moved ls (storeHolder (map_option f ho) ls) (flow A X d)"
  using holder_storeHolder [OF ok, of ls] ho b by (cases ho) (auto simp: moved_def flow_def)

lemma sameOffers_storeHolder:
  assumes inv: "ledgerInv P Q ls" and ho: "holder ls A X = ho" and ok: "holderOk h A X (map_option f ho)"
  shows "sameOffers ls (storeHolder (map_option f ho) ls)"
proof (cases ho)
  case None
  then show ?thesis by (simp add: sameOffers_def storeHolder_def)
next
  case (Some e)
  have k: "LedgerEntryKey (f e) = holderKey A X" using ok Some by (simp add: holderOk_def)
  have l: "loadEntry ls (holderKey A X) = Some e" using ho Some by (auto simp: holder_def split: if_splits)
  have h: "isHolding e" "isHolding (f e)"
    using loadEntry_key [OF ledgerInvD(3) [OF inv] l] k by (auto dest: holderKey_isHolding)
  show ?thesis
    using Some k offerSum_store_holding [of ls "f e" e] l h
    by (auto simp: sameOffers_def storeHolder_def lst.get_put holderKey_def)
qed

text \<open>A holding of a state that satisfies the invariant.\<close>

lemma holder_covers:
  assumes inv: "ledgerInv P Q ls" and l: "holder ls A X = Some e"
  shows "coversSelling (lsHeader ls) e" "isHolding e" "holdingOk e"
proof -
  have l': "loadEntry ls (holderKey A X) = Some e" using l by (auto simp: holder_def split: if_splits)
  show h: "isHolding e" using loadEntry_key [OF ledgerInvD(3) [OF inv] l'] by (auto dest: holderKey_isHolding)
  show "coversSelling (lsHeader ls) e" "holdingOk e" using ledgerInvD(4,5) [OF inv l' h] by auto
qed

definition holderStep ::
    "(AccountID \<Rightarrow> Asset \<Rightarrow> int) \<Rightarrow> (AccountID \<Rightarrow> Asset \<Rightarrow> int) \<Rightarrow> (AccountID \<Rightarrow> Asset \<Rightarrow> int)
     \<Rightarrow> LedgerState \<Rightarrow> LedgerState \<Rightarrow> bool" where
  "holderStep P Q \<delta> ls ls' \<longleftrightarrow> ledgerInv P Q ls' \<and> moved ls ls' \<delta> \<and> sameOffers ls ls'"

lemma credit_step:
  assumes inv: "ledgerInv P Q ls" and ho: "holder ls A X = ho"
    and ok: "holderOk (lsHeader ls) A X ho" and c: "creditable (lsHeader ls) d ho"
  shows "holderStep P Q (flow A X d) ls (storeHolder (creditHolder d ho) ls)"
proof -
  let ?f = "\<lambda>e. setBalance (balanceOf e + d) e"
  have ok': "holderOk (lsHeader ls) A X (map_option ?f ho)" using holderOk_credit [OF ok c] by (simp add: creditHolder_def)
  have hol: "isHolding e" if "ho = Some e" for e using holder_covers [OF inv] ho that by auto
  have "ledgerInv (\<lambda>B Y. P B Y - (if B = A \<and> Y = X then 0 else 0)) (\<lambda>B Y. Q B Y - (if B = A \<and> Y = X then 0 else 0))
      (storeHolder (map_option ?f ho) ls)"
  proof (rule ledgerInv_storeHolder [OF inv ho ok'])
    fix e assume e: "ho = Some e"
    have "coversSelling (lsHeader ls) e" using holder_covers [OF inv] ho e by auto
    then show "coversSelling (lsHeader ls) (?f e)"
      using c e hol [OF e] by (auto simp: coversSelling_def creditable_def)
  qed (auto dest: hol)
  then show ?thesis
    using moved_storeHolder [OF ho ok'] sameOffers_storeHolder [OF inv ho ok'] hol
    by (simp add: holderStep_def creditHolder_def)
qed

lemma shiftBuying_step:
  assumes inv: "ledgerInv P Q ls" and ho: "holder ls A X = ho"
    and ok: "holderOk (lsHeader ls) A X ho" and c: "canShiftBuying d ho"
  shows "holderStep (\<lambda>B Y. P B Y - flow A X d B Y) Q (\<lambda>_ _. 0) ls (storeHolder (map_option (shiftBuying d) ho) ls)"
proof -
  note ok' = holderOk_shiftBuying [OF ok c]
  have hol: "isHolding e" if "ho = Some e" for e using holder_covers [OF inv] ho that by auto
  have "ledgerInv (\<lambda>B Y. P B Y - (if B = A \<and> Y = X then d else 0)) (\<lambda>B Y. Q B Y - (if B = A \<and> Y = X then 0 else 0))
      (storeHolder (map_option (shiftBuying d) ho) ls)"
  proof (rule ledgerInv_storeHolder [OF inv ho ok'])
    fix e assume e: "ho = Some e"
    have "coversSelling (lsHeader ls) e" using holder_covers [OF inv] ho e by auto
    then show "coversSelling (lsHeader ls) (shiftBuying d e)" by (simp add: coversSelling_def)
  qed (auto dest: hol simp: shiftBuying_def)
  then show ?thesis
    using moved_storeHolder [OF ho ok', of 0] sameOffers_storeHolder [OF inv ho ok']
    by (simp add: holderStep_def flow_def)
qed

lemma shiftSelling_step:
  assumes inv: "ledgerInv P Q ls" and ho: "holder ls A X = ho"
    and ok: "holderOk (lsHeader ls) A X ho" and c: "canShiftSelling (lsHeader ls) d ho"
  shows "holderStep P (\<lambda>B Y. Q B Y - flow A X d B Y) (\<lambda>_ _. 0) ls (storeHolder (map_option (shiftSelling d) ho) ls)"
proof -
  note ok' = holderOk_shiftSelling [OF ok c]
  have hol: "isHolding e" if "ho = Some e" for e using holder_covers [OF inv] ho that by auto
  have "ledgerInv (\<lambda>B Y. P B Y - (if B = A \<and> Y = X then 0 else 0)) (\<lambda>B Y. Q B Y - (if B = A \<and> Y = X then d else 0))
      (storeHolder (map_option (shiftSelling d) ho) ls)"
  proof (rule ledgerInv_storeHolder [OF inv ho ok'])
    fix e assume e: "ho = Some e"
    have "coversSelling (lsHeader ls) e" using holder_covers [OF inv] ho e by auto
    then show "coversSelling (lsHeader ls) (shiftSelling d e)"
      using c e hol [OF e] by (cases "d = 0") (auto simp: coversSelling_def canShiftSelling_def shiftSelling_def)
  qed (auto dest: hol simp: shiftSelling_def)
  then show ?thesis
    using moved_storeHolder [OF ho ok', of 0] sameOffers_storeHolder [OF inv ho ok']
    by (simp add: holderStep_def flow_def)
qed

lemma holderStep_trans:
  assumes "holderStep P Q \<delta> ls ls1" "holderStep P' Q' \<epsilon> ls1 ls2"
  shows "holderStep P' Q' (\<lambda>B Y. \<delta> B Y + \<epsilon> B Y) ls ls2"
  using assms by (auto simp: holderStep_def intro: moved_trans sameOffers_trans)

text \<open>The steps on the offer itself.\<close>

lemma holder_storeOffer: "ledgerData e = OFFER oe \<Longrightarrow> holder (storeEntry e ls) B Y = holder ls B Y"
  by (simp add: holder_def lst.get_put LedgerEntryKey_def holderKey_def)

lemma moved_storeOffer: "ledgerData e = OFFER oe \<Longrightarrow> moved ls (storeEntry e ls) (\<lambda>_ _. 0)"
  by (simp add: moved_def holder_storeOffer)

lemma offer_counted:
  assumes inv: "ledgerInv P Q ls" and l: "loadEntry ls k = Some le" and oe: "ledgerData le = OFFER oe"
  shows "1 \<le> offersOf ls (sellerID oe)" "entrySponsor le \<noteq> None \<Longrightarrow> 1 \<le> sponsoredOffersOf ls (sellerID oe)"
    "entrySponsor le = Some B \<Longrightarrow> 1 \<le> offersSponsoredBy ls B"
  using offerSum_ge [OF ledgerInvD(3) [OF inv] l, of "\<lambda>e oe'. if sellerID oe' = sellerID oe then 1 else 0"]
    offerSum_ge [OF ledgerInvD(3) [OF inv] l,
      of "\<lambda>e oe'. if sellerID oe' = sellerID oe \<and> entrySponsor e \<noteq> None then 1 else 0"]
    offerSum_ge [OF ledgerInvD(3) [OF inv] l, of "\<lambda>e oe'. if entrySponsor e = Some B then 1 else 0"] oe
  by (simp_all add: offersOf_def sponsoredOffersOf_def offersSponsoredBy_def offerWeight_def)

text \<open>What the removal of an offer leaves of the accounts.\<close>

definition offerRemoved :: "LedgerState \<Rightarrow> LedgerKey \<Rightarrow> LedgerEntry \<Rightarrow> OfferEntry \<Rightarrow> LedgerState \<Rightarrow> bool" where
  "offerRemoved ls k le oe ls3 \<longleftrightarrow> lsHeader ls3 = lsHeader ls \<and> stateWf ls3
     \<and> (\<exists>f. (\<forall>k'. loadEntry ls3 k' = (if k' = k then None else
          case k' of AccountKey B \<Rightarrow> map_option (f B) (loadEntry ls k') | _ \<Rightarrow> loadEntry ls k'))
        \<and> (\<forall>B e. loadEntry ls (AccountKey B) = Some e \<longrightarrow> offerDropped le oe B e (f B e)))
     \<and> (\<forall>g. offerSum g ls3 = offerSum g ls - g le oe)"

lemma removeOffer_offerRemoved:
  assumes inv: "ledgerInv P Q ls" and l: "loadEntry ls k = Some le" and oe: "ledgerData le = OFFER oe"
  obtains ls3 where "removeOffer ls le (sellerID oe) = Inr ls3" "offerRemoved ls k le oe ls3"
proof -
  note wf = ledgerInvD(3) [OF inv]
  let ?A = "sellerID oe"
  have key: "LedgerEntryKey le = k" "k = OfferKey ?A (offerID oe)"
    using loadEntry_key [OF wf l] oe by (simp_all add: LedgerEntryKey_def)
  note pl = ledgerInvD(6) [OF inv l oe]
  obtain e where e: "loadEntry ls (AccountKey ?A) = Some e" using pl by (auto simp: offerPlaced_def)
  obtain a where a: "ledgerData e = ACCOUNT a" "accountID a = ?A" using account_key_data [OF wf e] by blast
  have c: "1 \<le> subsOf e" "entrySponsor le \<noteq> None \<Longrightarrow> 1 \<le> sponsoredOf e"
    using offer_counted [OF inv l oe] ledgerInvD(7) [OF inv e] by (auto simp: countsOk_def)
  have ke: "LedgerEntryKey e = AccountKey ?A" using a by (simp add: LedgerEntryKey_def)
  have keyh: "LedgerEntryKey e' = AccountKey B" "isHolding e'"
    if "sameHolding e0 e'" "loadEntry ls (AccountKey B) = Some e0" for e0 e' B
    using that loadEntry_key [OF wf that(2)] account_usable(2) [OF inv that(2)] by (auto simp: sameHolding_def)
  have hol: "isHolding e0" if "loadEntry ls (AccountKey B) = Some e0" for e0 B
    using account_usable(2) [OF inv that] .
  have wt: "offerWeight g le = g le oe" for g using oe by (simp add: offerWeight_def)
  show ?thesis
  proof (cases "entrySponsor le")
    case None
    obtain e' where r: "removeOffer ls le ?A = Inr (eraseEntry (LedgerEntryKey le) (storeEntry e' ls))"
      and e': "sameHolding e e'" "subsOf e' = subsOf e - 1" "sponsoringOf e' = sponsoringOf e" "sponsoredOf e' = sponsoredOf e"
      by (rule removeOffer_unsponsored [OF oe None e a(1) c(1)])
    note k' = keyh [OF e'(1) e]
    let ?ls3 = "eraseEntry k (storeEntry e' ls)"
    let ?f = "\<lambda>B e0. if B = ?A then e' else e0"
    have "offerDropped le oe B e0 (?f B e0)" if "loadEntry ls (AccountKey B) = Some e0" for B e0
      using that e e' None by (auto simp: offerDropped_def)
    moreover have "loadEntry ?ls3 k' = (if k' = k then None else
          case k' of AccountKey B \<Rightarrow> map_option (?f B) (loadEntry ls k') | _ \<Rightarrow> loadEntry ls k')" for k'
      using e k'(1) by (cases k'; cases "loadEntry ls k'") (auto simp: lst.get_put lst.get_erase option.map_ident)
    moreover have "offerSum g ?ls3 = offerSum g ls - g le oe" for g
      using offerSum_erase [of "storeEntry e' ls" k le g] offerSum_store_holding [of ls e' e g] wf l e k' hol [OF e] key wt
      by (simp add: lst.wf_put lst.get_put)
    ultimately have "offerRemoved ls k le oe ?ls3"
      unfolding offerRemoved_def using wf by (intro conjI exI [of _ ?f]) (auto intro: lst.wf_put lst.wf_erase)
    with r key(1) that show ?thesis by simp
  next
    case (Some B)
    have B: "14 \<le> ledgerVersion (lsHeader ls)" "B \<noteq> ?A" "loadEntry ls (AccountKey B) \<noteq> None"
      using pl Some by (auto simp: offerPlaced_def)
    obtain eB where eB: "loadEntry ls (AccountKey B) = Some eB" using B(3) by auto
    obtain aB where aB: "ledgerData eB = ACCOUNT aB" "accountID aB = B" using account_key_data [OF wf eB] by blast
    have cB: "1 \<le> sponsoringOf eB" using offer_counted(3) [OF inv l oe Some] ledgerInvD(7) [OF inv eB] by (auto simp: countsOk_def)
    obtain e' eB' where r: "removeOffer ls le ?A = Inr (eraseEntry (LedgerEntryKey le) (storeEntry e' (storeEntry eB' ls)))"
      and e': "sameHolding e e'" "subsOf e' = subsOf e - 1" "sponsoringOf e' = sponsoringOf e" "sponsoredOf e' = sponsoredOf e - 1"
      and eB': "sameHolding eB eB'" "subsOf eB' = subsOf eB" "sponsoringOf eB' = sponsoringOf eB - 1" "sponsoredOf eB' = sponsoredOf eB"
      using removeOffer_sponsored [OF oe Some B(1) e a eB aB B(2) c(1) _ cB] c(2) Some by blast
    note k' = keyh [OF e'(1) e] keyh [OF eB'(1) eB]
    let ?ls3 = "eraseEntry k (storeEntry e' (storeEntry eB' ls))"
    let ?f = "\<lambda>C e0. if C = ?A then e' else if C = B then eB' else e0"
    have "offerDropped le oe C e0 (?f C e0)" if "loadEntry ls (AccountKey C) = Some e0" for C e0
      using that e e' eB eB' Some B(2) by (auto simp: offerDropped_def)
    moreover have "loadEntry ?ls3 k' = (if k' = k then None else
          case k' of AccountKey C \<Rightarrow> map_option (?f C) (loadEntry ls k') | _ \<Rightarrow> loadEntry ls k')" for k'
      using e eB k'(1,3) by (cases k'; cases "loadEntry ls k'") (auto simp: lst.get_put lst.get_erase option.map_ident)
    moreover have "offerSum g ?ls3 = offerSum g ls - g le oe" for g
      using offerSum_erase [of "storeEntry e' (storeEntry eB' ls)" k le g] offerSum_store_holding [of "storeEntry eB' ls" e' e g]
        offerSum_store_holding [of ls eB' eB g] wf l e eB k' hol [OF e] hol [OF eB] key wt B(2)
      by (simp add: lst.wf_put lst.get_put)
    ultimately have "offerRemoved ls k le oe ?ls3"
      unfolding offerRemoved_def using wf by (intro conjI exI [of _ ?f]) (auto intro: lst.wf_put lst.wf_erase)
    with r key(1) that show ?thesis by simp
  qed
qed

lemma offerRemoved_inv:
  assumes inv: "ledgerInv P Q ls" and l: "loadEntry ls k = Some le" and oe: "ledgerData le = OFFER oe"
    and z: "offerBuy oe = 0" "offerSell oe = 0" and r: "offerRemoved ls k le oe ls3"
  shows "ledgerInv P Q ls3" "moved ls ls3 (\<lambda>_ _. 0)"
    "loadEntry ls3 (OfferKey B i) = (if OfferKey B i = k then None else loadEntry ls (OfferKey B i))"
    "offerSum g ls3 = offerSum g ls - g le oe"
proof -
  obtain f where load: "\<And>k'. loadEntry ls3 k' = (if k' = k then None else
          case k' of AccountKey B \<Rightarrow> map_option (f B) (loadEntry ls k') | _ \<Rightarrow> loadEntry ls k')"
    and f: "\<And>B e. loadEntry ls (AccountKey B) = Some e \<Longrightarrow> offerDropped le oe B e (f B e)"
    and hd: "lsHeader ls3 = lsHeader ls" and wf: "stateWf ls3"
    and sum: "\<And>g. offerSum g ls3 = offerSum g ls - g le oe"
    using r by (auto simp: offerRemoved_def)
  show "ledgerInv P Q ls3" by (rule ledgerInv_remove [OF inv l oe z load f hd wf sum])
  have key: "k = OfferKey (sellerID oe) (offerID oe)"
    using loadEntry_key [OF ledgerInvD(3) [OF inv] l] oe by (simp add: LedgerEntryKey_def)
  have "map_option balanceOf (holder ls3 B Y) = map_option (\<lambda>e. balanceOf e + 0) (holder ls B Y)" for B Y
    using load [of "holderKey B Y"] key f [of B]
    by (cases "loadEntry ls (AccountKey B)") (auto simp: holder_def holderKey_def offerDropped_def sameHolding_def)
  then show "moved ls ls3 (\<lambda>_ _. 0)" using hd by (simp add: moved_def)
  show "loadEntry ls3 (OfferKey B i) = (if OfferKey B i = k then None else loadEntry ls (OfferKey B i))"
    using load [of "OfferKey B i"] by simp
  show "offerSum g ls3 = offerSum g ls - g le oe" by (rule sum)
qed

section \<open>Crossing an offer\<close>

text \<open>
  What crossing the offer \<open>oe\<close> promises: the amounts are within the limits and in favour of the side
  that stays, the seller is paid the sheep and gives the wheat and no other holding changes, the offer is
  removed or reduced and no other offer changes, and the ledger is as good as before.
\<close>

definition crossingOk ::
    "LedgerState \<Rightarrow> LedgerEntry \<Rightarrow> OfferEntry \<Rightarrow> int \<Rightarrow> int \<Rightarrow> Crossing \<Rightarrow> bool" where
  "crossingOk ls le oe maxWheat maxSheep c \<longleftrightarrow> ledgerOk (crossState c)
     \<and> 0 \<le> crossWheat c \<and> crossWheat c \<le> maxWheat \<and> crossWheat c \<le> offerAmount oe
     \<and> 0 \<le> crossSheep c \<and> crossSheep c \<le> maxSheep
     \<and> (if crossStays c then crossWheat c * priceN (offerPrice oe) \<le> crossSheep c * priceD (offerPrice oe)
        else crossSheep c * priceD (offerPrice oe) \<le> crossWheat c * priceN (offerPrice oe))
     \<and> moved ls (crossState c) (\<lambda>B Y. flow (sellerID oe) (buying oe) (crossSheep c) B Y
                                      - flow (sellerID oe) (selling oe) (crossWheat c) B Y)
     \<and> (crossResult c = eOfferTaken \<or> crossResult c = eOfferPartial \<and> crossStays c)
     \<and> (\<forall>B i. OfferKey B i \<noteq> LedgerEntryKey le \<longrightarrow>
          loadEntry (crossState c) (OfferKey B i) = loadEntry ls (OfferKey B i))
     \<and> (crossResult c = eOfferTaken \<longrightarrow> loadEntry (crossState c) (LedgerEntryKey le) = None)
     \<and> (crossResult c = eOfferPartial \<longrightarrow> (\<exists>x. 0 < x \<and> x \<le> offerAmount oe - crossWheat c \<and>
          loadEntry (crossState c) (LedgerEntryKey le) = Some (le\<lparr>ledgerData := OFFER (oe\<lparr>offerAmount := x\<rparr>)\<rparr>)))
     \<and> offerSum (\<lambda>_ _. 1) (crossState c) = offerSum (\<lambda>_ _. 1) ls - (if crossResult c = eOfferTaken then 1 else 0)"

lemma released_step:
  assumes inv: "ledgerInv (\<lambda>_ _. 0) (\<lambda>_ _. 0) ls" and l: "loadEntry ls k = Some le" and oe: "ledgerData le = OFFER oe"
  defines "A \<equiv> sellerID oe" and "S \<equiv> buying oe" and "W \<equiv> selling oe" and "h \<equiv> lsHeader ls"
  defines "hS \<equiv> map_option (shiftBuying (- offerBuy oe)) (holder ls A S)"
    and "hW \<equiv> map_option (shiftSelling (- offerSell oe)) (holder ls A W)"
  defines "ls1 \<equiv> storeHolder hW (storeHolder hS ls)"
  shows "holderOk h A S (holder ls A S)" "holderOk h A W (holder ls A W)"
    "holderOk h A S hS" "holderOk h A W hW" "holder ls1 A S = hS" "holder ls1 A W = hW"
    "holderStep (flow A S (offerBuy oe)) (flow A W (offerSell oe)) (\<lambda>_ _. 0) ls ls1"
proof -
  note pl = ledgerInvD(6) [OF inv l oe]
  have ne: "S \<noteq> W" using pl by (simp add: offerPlaced_def offerOk_def S_def W_def)
  show okS: "holderOk h A S (holder ls A S)" and okW: "holderOk h A W (holder ls A W)"
    using pl seller_holderOk [OF inv] by (auto simp: offerPlaced_def A_def S_def W_def h_def)
  note rel = offer_release_ok [OF inv l oe, folded A_def S_def W_def h_def]
  show okS1: "holderOk h A S hS" and okW1: "holderOk h A W hW"
    using holderOk_shiftBuying [OF okS rel(1)] holderOk_shiftSelling [OF okW rel(2)] by (simp_all add: hS_def hW_def)
  have hW0: "holder (storeHolder hS ls) A W = holder ls A W" using holder_storeHolder [OF okS1] ne by simp
  show "holder ls1 A S = hS" "holder ls1 A W = hW"
    using holder_storeHolder [OF okS1] holder_storeHolder [OF okW1] ne by (simp_all add: ls1_def)
  have 1: "holderStep (\<lambda>B Y. 0 - flow A S (- offerBuy oe) B Y) (\<lambda>_ _. 0) (\<lambda>_ _. 0) ls (storeHolder hS ls)"
    using shiftBuying_step [OF inv refl okS [unfolded h_def] rel(1)] by (simp add: hS_def)
  have 2: "holderStep (\<lambda>B Y. 0 - flow A S (- offerBuy oe) B Y) (\<lambda>B Y. 0 - flow A W (- offerSell oe) B Y) (\<lambda>_ _. 0)
      (storeHolder hS ls) ls1"
    unfolding ls1_def hW_def
    by (rule shiftSelling_step) (use 1 hW0 okW rel(2) in \<open>auto simp: holderStep_def h_def\<close>)
  have "(\<lambda>B Y. 0 - flow C X (- d) B Y) = flow C X d" for C X d by (auto simp: flow_def fun_eq_iff)
  then show "holderStep (flow A S (offerBuy oe)) (flow A W (offerSell oe)) (\<lambda>_ _. 0) ls ls1"
    using holderStep_trans [OF 1 2] by simp
qed

lemma credited_step:
  assumes inv: "ledgerInv P Q ls" and ne: "S \<noteq> W" and h: "lsHeader ls = h"
    and hS: "holder ls A S = hS" "holderOk h A S hS" "creditable h s hS"
    and hW: "holder ls A W = hW" "holderOk h A W hW" "creditable h (- w) hW"
    and st: "holdersStored ls (creditHolder s hS) (creditHolder (- w) hW) ls2"
  shows "holder ls2 A S = creditHolder s hS" "holder ls2 A W = creditHolder (- w) hW"
    "holderStep P Q (\<lambda>B Y. flow A S s B Y - flow A W w B Y) ls ls2"
proof -
  note okS = holderOk_credit [OF hS(2,3)] and okW = holderOk_credit [OF hW(2,3)]
  show "holder ls2 A S = creditHolder s hS" "holder ls2 A W = creditHolder (- w) hW"
    using st ne holder_storeHolder [OF okS] holder_storeHolder [OF okW] by (auto simp: holdersStored_def)
  have neg: "flow A W (- w) B Y = - flow A W w B Y" for B Y by (simp add: flow_def)
  from st consider (sheep) "ls2 = storeHolder (creditHolder s hS) (storeHolder (creditHolder (- w) hW) ls)"
    | (wheat) "ls2 = storeHolder (creditHolder (- w) hW) (storeHolder (creditHolder s hS) ls)"
    by (auto simp: holdersStored_def)
  then show "holderStep P Q (\<lambda>B Y. flow A S s B Y - flow A W w B Y) ls ls2"
  proof cases
    case sheep
    have 1: "holderStep P Q (flow A W (- w)) ls (storeHolder (creditHolder (- w) hW) ls)"
      by (rule credit_step [OF inv hW(1)]) (use h hW in simp_all)
    moreover have "holderStep P Q (flow A S s) (storeHolder (creditHolder (- w) hW) ls) ls2"
      unfolding sheep by (rule credit_step) (use 1 h hS holder_storeHolder [OF okW] ne in \<open>auto simp: holderStep_def\<close>)
    ultimately show ?thesis using holderStep_trans by (fastforce simp: neg algebra_simps)
  next
    case wheat
    have 1: "holderStep P Q (flow A S s) ls (storeHolder (creditHolder s hS) ls)"
      by (rule credit_step [OF inv hS(1)]) (use h hS in simp_all)
    moreover have "holderStep P Q (flow A W (- w)) (storeHolder (creditHolder s hS) ls) ls2"
      unfolding wheat by (rule credit_step) (use 1 h hW holder_storeHolder [OF okS] ne in \<open>auto simp: holderStep_def\<close>)
    ultimately show ?thesis using holderStep_trans by (fastforce simp: neg algebra_simps)
  qed
qed

lemma rewritten_step:
  assumes inv: "ledgerInv (flow A S (offerBuy oe)) (flow A W (offerSell oe)) ls" and l: "loadEntry ls k = Some le"
    and oe: "ledgerData le = OFFER oe" "sellerID oe = A" "buying oe = S" "selling oe = W" and x: "isAmount x"
  defines "oe2 \<equiv> oe\<lparr>offerAmount := x\<rparr>"
  defines "le2 \<equiv> le\<lparr>ledgerData := OFFER oe2\<rparr>"
  shows "ledgerInv (flow A S (offerBuy oe2)) (flow A W (offerSell oe2)) (storeEntry le2 ls)"
    "moved ls (storeEntry le2 ls) (\<lambda>_ _. 0)"
    "loadEntry (storeEntry le2 ls) (OfferKey B i) = (if OfferKey B i = k then Some le2 else loadEntry ls (OfferKey B i))"
    "offerSum (\<lambda>_ _. 1) (storeEntry le2 ls) = offerSum (\<lambda>_ _. 1) ls"
proof -
  have key: "LedgerEntryKey le2 = k"
    using loadEntry_key [OF ledgerInvD(3) [OF inv] l] oe(1) by (simp add: LedgerEntryKey_def le2_def oe2_def)
  have d2: "ledgerData le2 = OFFER oe2" by (simp add: le2_def)
  have "ledgerInv (\<lambda>B Y. flow A S (offerBuy oe) B Y + (if B = sellerID oe \<and> Y = buying oe then offerBuy oe2 - offerBuy oe else 0))
     (\<lambda>B Y. flow A W (offerSell oe) B Y + (if B = sellerID oe \<and> Y = selling oe then offerSell oe2 - offerSell oe else 0))
     (storeEntry le2 ls)"
    unfolding le2_def oe2_def by (rule ledgerInv_store_offer [OF inv l oe(1) x])
  then show "ledgerInv (flow A S (offerBuy oe2)) (flow A W (offerSell oe2)) (storeEntry le2 ls)"
    by (rule ledgerInv_cong) (simp_all add: flow_def oe)
  show "moved ls (storeEntry le2 ls) (\<lambda>_ _. 0)" by (rule moved_storeOffer) (simp add: le2_def)
  show "loadEntry (storeEntry le2 ls) (OfferKey B i) = (if OfferKey B i = k then Some le2 else loadEntry ls (OfferKey B i))"
    by (simp add: lst.get_put key)
  show "offerSum (\<lambda>_ _. 1) (storeEntry le2 ls) = offerSum (\<lambda>_ _. 1) ls"
    using l oe(1) d2 by (simp add: offerSum_store key offerWeight_def)
qed

lemma acquired_step:
  assumes inv: "ledgerInv (flow A S (offerBuy oe)) (flow A W (offerSell oe)) ls" and h: "lsHeader ls = h"
    and oe: "offerOk oe" "sellerID oe = A" "buying oe = S" "selling oe = W"
    and hS: "holder ls A S = hS" "holderOk h A S hS" "canShiftBuying (offerBuy oe) hS"
    and hW: "holder ls A W = hW" "holderOk h A W hW" "canShiftSelling h (offerSell oe) hW"
  obtains ls3 where "acquireLiabilities ls oe = Inr ls3" "holderStep (\<lambda>_ _. 0) (\<lambda>_ _. 0) (\<lambda>_ _. 0) ls ls3"
proof
  let ?ls1 = "storeHolder (map_option (shiftBuying (offerBuy oe)) hS) ls"
  let ?ls3 = "storeHolder (map_option (shiftSelling (offerSell oe)) hW) ?ls1"
  show "acquireLiabilities ls oe = Inr ?ls3"
    using acquireOrRelease_holders [OF ledgerInvD(1) [OF inv] oe(1), of True] oe h hS hW by (simp add: acquireLiabilities_def)
  have ne: "S \<noteq> W" using oe by (auto simp: offerOk_def)
  have hW1: "holder ?ls1 A W = hW" using holder_storeHolder [OF holderOk_shiftBuying [OF hS(2,3)]] hW(1) ne by simp
  have 1: "holderStep (\<lambda>B Y. flow A S (offerBuy oe) B Y - flow A S (offerBuy oe) B Y) (flow A W (offerSell oe)) (\<lambda>_ _. 0) ls ?ls1"
    by (rule shiftBuying_step [OF inv hS(1)]) (use h hS in auto)
  have 2: "holderStep (\<lambda>B Y. flow A S (offerBuy oe) B Y - flow A S (offerBuy oe) B Y)
      (\<lambda>B Y. flow A W (offerSell oe) B Y - flow A W (offerSell oe) B Y) (\<lambda>_ _. 0) ?ls1 ?ls3"
    by (rule shiftSelling_step [OF _ hW1]) (use 1 h hW in \<open>auto simp: holderStep_def\<close>)
  show "holderStep (\<lambda>_ _. 0) (\<lambda>_ _. 0) (\<lambda>_ _. 0) ls ?ls3" using holderStep_trans [OF 1 2] by simp
qed

lemma crossOfferV10_general:
  assumes ok: "ledgerOk ls" and l: "loadEntry ls k = Some le" and le: "ledgerData le = OFFER oe"
    and m: "isAmount maxWheat" "isAmount maxSheep" "0 < maxWheat" "0 < maxSheep"
  defines "A \<equiv> sellerID oe" and "S \<equiv> buying oe" and "W \<equiv> selling oe" and "h \<equiv> lsHeader ls"
  defines "hS \<equiv> map_option (shiftBuying (- offerBuy oe)) (holder ls A S)"
    and "hW \<equiv> map_option (shiftSelling (- offerSell oe)) (holder ls A W)"
  assumes ex: "\<And>a. adjustOfferAmount (offerPrice oe) (min (offerAmount oe) (sellCap h hW)) (buyCap hS) = Inr a
      \<Longrightarrow> exchangeable round a (buyCap hS)"
  obtains c where "crossOfferV10 ls le maxWheat maxSheep round = Inr c" "crossingOk ls le oe maxWheat maxSheep c"
proof -
  have inv: "ledgerInv (\<lambda>_ _. 0) (\<lambda>_ _. 0) ls" using ok by (simp add: ledgerOk_def)
  note pl = ledgerInvD(6) [OF inv l le]
  have oe: "offerOk oe" "loadEntry ls (AccountKey (sellerID oe)) \<noteq> None" using pl by (auto simp: offerPlaced_def)
  have ne: "S \<noteq> W" using oe by (simp add: offerOk_def S_def W_def)
  note rel = offer_release_ok [OF inv l le]
  note r = released_step [OF inv l le, folded A_def S_def W_def h_def, folded hS_def hW_def]
  let ?ls1 = "storeHolder hW (storeHolder hS ls)"
  obtain d ls2 where d: "decisionOk h oe hS hW maxWheat maxSheep d"
    and st: "holdersStored ?ls1 (creditHolder (decSheep d) hS) (creditHolder (- decWheat d) hW) ls2"
    and run: "crossOfferV10 ls le maxWheat maxSheep round =
      (let oe2 = oe\<lparr>offerAmount := decLeft d\<rparr>; le2 = le\<lparr>ledgerData := OFFER oe2\<rparr>
       in bindE (if decLeft d = 0 then removeOffer (storeEntry le2 ls2) le2 A
                 else acquireLiabilities (storeEntry le2 ls2) oe2) (\<lambda>ls3.
          Inr \<lparr>crossResult = (if decLeft d = 0 then eOfferTaken else eOfferPartial),
               crossWheat = decWheat d, crossSheep = decSheep d, crossStays = decStays d,
               crossState = ls3\<rparr>))"
    using crossOfferV10_run [OF ledgerInvD(1) [OF inv] le oe, folded A_def S_def W_def h_def,
        folded hS_def hW_def, OF r(1,2) rel [folded A_def S_def W_def h_def] m ex] by blast
  have cr: "creditable h (decSheep d) hS" "creditable h (- decWheat d) hW" using d by (auto simp: decisionOk_def)
  have s1: "ledgerInv (flow A S (offerBuy oe)) (flow A W (offerSell oe)) ?ls1" using r(7) by (simp add: holderStep_def)
  have hd1: "lsHeader ?ls1 = h" by (simp add: h_def)
  note c = credited_step [OF s1 ne hd1 r(5,3) cr(1) r(6,4) cr(2) st]
  have s2: "holderStep (flow A S (offerBuy oe)) (flow A W (offerSell oe))
      (\<lambda>B Y. 0 + (flow A S (decSheep d) B Y - flow A W (decWheat d) B Y)) ls ls2"
    by (rule holderStep_trans [OF r(7) c(3)])
  have key: "LedgerEntryKey le = k" "k = OfferKey A (offerID oe)"
    using loadEntry_key [OF ledgerInvD(3) [OF inv] l] le by (simp_all add: LedgerEntryKey_def A_def)
  have inv2: "ledgerInv (flow A S (offerBuy oe)) (flow A W (offerSell oe)) ls2"
    and l2: "loadEntry ls2 k = Some le" using s2 l key by (auto simp: holderStep_def sameOffers_def)
  have x: "isAmount (decLeft d)" using d oe(1) by (auto simp: decisionOk_def offerOk_def isAmount_def)
  let ?oe2 = "oe\<lparr>offerAmount := decLeft d\<rparr>"
  let ?le2 = "le\<lparr>ledgerData := OFFER ?oe2\<rparr>"
  let ?ls3 = "storeEntry ?le2 ls2"
  have sub: "sellerID oe = A" "buying oe = S" "selling oe = W" by (simp_all add: A_def S_def W_def)
  note w = rewritten_step [OF inv2 l2 le sub x]
  have mv: "moved ls ?ls3 (\<lambda>B Y. flow A S (decSheep d) B Y - flow A W (decWheat d) B Y)"
    using moved_trans [OF _ w(2)] s2 by (fastforce simp: holderStep_def)
  have of3: "loadEntry ?ls3 (OfferKey B i) = (if OfferKey B i = k then Some ?le2 else loadEntry ls (OfferKey B i))" for B i
    using w(3) s2 by (simp add: holderStep_def sameOffers_def)
  have sum3: "offerSum (\<lambda>_ _. 1) ?ls3 = offerSum (\<lambda>_ _. 1) ls"
    using w(4) s2 by (simp add: holderStep_def sameOffers_def)
  have hd: "lsHeader ?ls3 = h" using mv by (simp add: moved_def h_def)
  show ?thesis
  proof (cases "decLeft d = 0")
    case True
    have z: "offerBuy ?oe2 = 0" "offerSell ?oe2 = 0" using offer_liabilities_0 [of ?oe2] oe(1) True by (auto simp: offerOk_def)
    have i3: "ledgerInv (\<lambda>_ _. 0) (\<lambda>_ _. 0) ?ls3" using w(1) z by simp
    have l3: "loadEntry ?ls3 k = Some ?le2" "ledgerData ?le2 = OFFER ?oe2" using of3 key by auto
    obtain ls4 where r4: "removeOffer ?ls3 ?le2 (sellerID ?oe2) = Inr ls4" "offerRemoved ?ls3 k ?le2 ?oe2 ls4"
      by (rule removeOffer_offerRemoved [OF i3 l3])
    note i4 = offerRemoved_inv [OF i3 l3 z r4(2)]
    have of4: "loadEntry ls4 (OfferKey B i) = (if OfferKey B i = k then None else loadEntry ls (OfferKey B i))" for B i
      using i4(3) of3 by simp
    have "ledgerOk ls4" unfolding ledgerOk_def
    proof (intro conjI allI impI)
      fix k' e' oe' assume e': "loadEntry ls4 k' = Some e'" "ledgerData e' = OFFER oe'"
      have "k' = OfferKey (sellerID oe') (offerID oe')"
        using loadEntry_key [OF ledgerInvD(3) [OF i4(1)] e'(1)] e'(2) by (simp add: LedgerEntryKey_def)
      then show "0 < offerAmount oe'" using e' of4 ok by (auto simp: ledgerOk_def split: if_splits)
    qed (rule i4(1))
    moreover have "moved ls ls4 (\<lambda>B Y. flow A S (decSheep d) B Y - flow A W (decWheat d) B Y)"
      using moved_trans [OF mv i4(2)] by simp
    ultimately show ?thesis
      using that run r4(1) True d of4 i4(4) sum3 key
      by (simp add: crossingOk_def A_def S_def W_def decisionOk_def Let_def)
  next
    case False
    have oe2: "offerOk ?oe2" using oe(1) x by (simp add: offerOk_def)
    obtain ls4 where r4: "acquireLiabilities ?ls3 ?oe2 = Inr ls4" "holderStep (\<lambda>_ _. 0) (\<lambda>_ _. 0) (\<lambda>_ _. 0) ?ls3 ls4"
    proof (rule acquired_step [OF w(1) hd oe2])
      show "holderOk h A S (creditHolder (decSheep d) hS)" "holderOk h A W (creditHolder (- decWheat d) hW)"
        using holderOk_credit [OF r(3) cr(1)] holderOk_credit [OF r(4) cr(2)] by auto
      show "holder ?ls3 A S = creditHolder (decSheep d) hS" "holder ?ls3 A W = creditHolder (- decWheat d) hW"
        using c(1,2) holder_storeOffer [of ?le2 ?oe2 ls2] by auto
    qed (use d in \<open>auto simp: decisionOk_def A_def S_def W_def\<close>)
    have of4: "loadEntry ls4 (OfferKey B i) = (if OfferKey B i = k then Some ?le2 else loadEntry ls (OfferKey B i))" for B i
      using r4(2) of3 by (simp add: holderStep_def sameOffers_def)
    have "ledgerOk ls4" unfolding ledgerOk_def
    proof (intro conjI allI impI)
      show i4: "ledgerInv (\<lambda>_ _. 0) (\<lambda>_ _. 0) ls4" using r4(2) by (simp add: holderStep_def)
      fix k' e' oe' assume e': "loadEntry ls4 k' = Some e'" "ledgerData e' = OFFER oe'"
      have "k' = OfferKey (sellerID oe') (offerID oe')"
        using loadEntry_key [OF ledgerInvD(3) [OF i4] e'(1)] e'(2) by (simp add: LedgerEntryKey_def)
      then show "0 < offerAmount oe'" using e' of4 ok False d by (auto simp: ledgerOk_def decisionOk_def split: if_splits)
    qed
    moreover have "moved ls ls4 (\<lambda>B Y. flow A S (decSheep d) B Y - flow A W (decWheat d) B Y)"
      using moved_trans [OF mv] r4(2) by (fastforce simp: holderStep_def)
    moreover have sum4: "offerSum (\<lambda>_ _. 1) ls4 = offerSum (\<lambda>_ _. 1) ls"
      using sum3 r4(2) by (simp add: holderStep_def sameOffers_def)
    moreover have "0 < decLeft d" "decStays d" using False d by (auto simp: decisionOk_def)
    ultimately have "crossingOk ls le oe maxWheat maxSheep
        \<lparr>crossResult = eOfferPartial, crossWheat = decWheat d, crossSheep = decSheep d, crossStays = decStays d, crossState = ls4\<rparr>"
      using d of4 key by (auto simp: crossingOk_def A_def S_def W_def decisionOk_def)
    then show ?thesis using that run r4(1) False by (simp add: Let_def)
  qed
qed

end
