(* ===== verification/ConversionRules.thy ===== *)
theory ConversionRules
  imports CrossingInvariant
begin

text \<open>
  \<^verbatim>\<open>convertWithOffers\<close> since version 10: the loop ends without throwing, its trail accounts for every
  balance it moves, and the ledger keeps its invariant.
\<close>

section \<open>What a conversion promises\<close>

definition atomFlow :: "ClaimOfferAtom \<Rightarrow> AccountID \<Rightarrow> Asset \<Rightarrow> int" where
  "atomFlow a B Y = flow (claimSellerID a) (assetBought a) (amountBought a) B Y
     - flow (claimSellerID a) (assetSold a) (amountSold a) B Y"

definition trailFlow :: "ClaimOfferAtom list \<Rightarrow> AccountID \<Rightarrow> Asset \<Rightarrow> int" where
  "trailFlow trail B Y = sum_list (map (\<lambda>a. atomFlow a B Y) trail)"

definition totalBought :: "ClaimOfferAtom list \<Rightarrow> int" where
  "totalBought trail = sum_list (map amountBought trail)"

definition totalSold :: "ClaimOfferAtom list \<Rightarrow> int" where
  "totalSold trail = sum_list (map amountSold trail)"

definition atomOk :: "Asset \<Rightarrow> Asset \<Rightarrow> ClaimOfferAtom \<Rightarrow> bool" where
  "atomOk sheep wheat a \<longleftrightarrow> assetBought a = sheep \<and> assetSold a = wheat \<and> 0 \<le> amountBought a \<and> 0 \<le> amountSold a"

text \<open>
  The trail of the loop extends the trail it started with by the atoms \<open>new\<close> of the offers it crossed.
\<close>

definition conversionFrom ::
    "LedgerState \<Rightarrow> Asset \<Rightarrow> int \<Rightarrow> int \<Rightarrow> Asset \<Rightarrow> int \<Rightarrow> int \<Rightarrow> (LedgerEntry \<Rightarrow> OfferFilterResult) option
     \<Rightarrow> ClaimOfferAtom list \<Rightarrow> int \<Rightarrow> ClaimOfferAtom list \<Rightarrow> Conversion \<Rightarrow> bool" where
  "conversionFrom ls sheep maxSheep sheepSend wheat maxWheat wheatReceived flt trail maxOffers new c \<longleftrightarrow>
     convTrail c = trail @ new
     \<and> convSheepSend c = sheepSend + totalBought new \<and> totalBought new \<le> maxSheep
     \<and> convWheatReceived c = wheatReceived + totalSold new \<and> totalSold new \<le> maxWheat
     \<and> list_all (atomOk sheep wheat) new
     \<and> ledgerOk (convState c) \<and> moved ls (convState c) (trailFlow new)
     \<and> (convResult c = ePartial \<longrightarrow> bestOffer (convState c) sheep wheat = None)
     \<and> (convResult c = eFilterStop \<longrightarrow>
          (\<exists>f le. flt = Some f \<and> bestOffer (convState c) sheep wheat = Some le \<and> f le = eStop))
     \<and> (convResult c = eCrossedTooMany \<longrightarrow>
          word_of_nat (length (convTrail c)) \<ge> (word_of_int maxOffers :: uint64))"

lemma trailFlow_simps [simp]:
  "trailFlow [] = (\<lambda>_ _. 0)" "trailFlow (a # as) = (\<lambda>B Y. atomFlow a B Y + trailFlow as B Y)"
  by (simp_all add: trailFlow_def fun_eq_iff)

lemma total_simps [simp]:
  "totalBought [] = 0" "totalBought (a # as) = amountBought a + totalBought as"
  "totalSold [] = 0" "totalSold (a # as) = amountSold a + totalSold as"
  by (simp_all add: totalBought_def totalSold_def)

section \<open>The loop\<close>

lemma numOffers_sum: "stateWf ls \<Longrightarrow> int (numOffers ls) = offerSum (\<lambda>_ _. 1) ls"
proof -
  have "\<forall>(k, e) \<in> set m. LedgerEntryKey e = k \<Longrightarrow>
      int (length (filter (\<lambda>e. case fst e of OfferKey _ _ \<Rightarrow> True | _ \<Rightarrow> False) m)) =
      sumAssoc (\<lambda>k e. offerWeight (\<lambda>_ _. 1) e) m" for m
    by (induction m) (auto simp: sumAssoc_def offerWeight_def LedgerEntryKey_def split: LedgerKey.splits LedgerEntryData.splits)
  then show "stateWf ls \<Longrightarrow> ?thesis"
    by (fastforce simp: numOffers_def offerSum_def totalOver_def stateWf_def)
qed

lemma exchangeable_round: "round \<noteq> PATH_PAYMENT_STRICT_SEND \<Longrightarrow> exchangeable round a m"
  by (simp add: exchangeable_def)

lemma crossBest_correct:
  assumes ok: "ledgerOk ls" and b: "bestOffer ls sheep wheat = Some le"
    and m: "isAmount maxWheat" "isAmount maxSheep" "0 < maxWheat" "0 < maxSheep"
    and rd: "round \<noteq> PATH_PAYMENT_STRICT_SEND"
  obtains oe c where "ledgerData le = OFFER oe" "offerOf le = Inr oe" "buying oe = sheep" "selling oe = wheat"
    "crossBest ls le maxWheat maxSheep round = Inr c" "crossingOk ls le oe maxWheat maxSheep c"
proof -
  have inv: "ledgerInv (\<lambda>_ _. 0) (\<lambda>_ _. 0) ls" using ok by (simp add: ledgerOk_def)
  obtain oe where oe: "ledgerData le = OFFER oe" "buying oe = sheep" "selling oe = wheat"
    and l: "loadEntry ls (OfferKey (sellerID oe) (offerID oe)) = Some le"
    using bestOffer_Some [OF ledgerInvD(3) [OF inv] b] by blast
  obtain c where c: "crossOfferV10 ls le maxWheat maxSheep round = Inr c" "crossingOk ls le oe maxWheat maxSheep c"
    by (rule crossOfferV10_general [OF ok l oe(1) m]) (use rd in \<open>auto intro: exchangeable_round\<close>)
  then have "crossBest ls le maxWheat maxSheep round = Inr c"
    using ledgerInvD(1) [OF inv] by (simp add: crossBest_def assertTx_def crossingOk_def)
  with that oe c(2) show ?thesis by (simp add: offerOf_def)
qed

lemma conversionFrom_cons:
  assumes "conversionFrom (crossState x) sheep (maxSheep - crossSheep x) (sheepSend + crossSheep x) wheat
      (maxWheat - crossWheat x) (wheatReceived + crossWheat x) flt (trail @ [claimAtom oe x]) maxOffers new c"
    and x: "crossingOk ls le oe maxWheat maxSheep x" and oe: "buying oe = sheep" "selling oe = wheat"
  shows "conversionFrom ls sheep maxSheep sheepSend wheat maxWheat wheatReceived flt trail maxOffers
    (claimAtom oe x # new) c"
proof -
  have "moved ls (convState c) (trailFlow (claimAtom oe x # new))"
    using assms moved_trans [of ls "crossState x" _ "convState c"]
    by (fastforce simp: conversionFrom_def crossingOk_def atomFlow_def claimAtom_def)
  then show ?thesis
    using assms by (auto simp: conversionFrom_def crossingOk_def atomOk_def claimAtom_def)
qed

lemma conversionFrom_nil:
  assumes "ledgerOk ls" "0 \<le> maxSheep" "0 \<le> maxWheat"
    and "res = ePartial \<longrightarrow> bestOffer ls sheep wheat = None"
    and "res = eFilterStop \<longrightarrow> (\<exists>f le. flt = Some f \<and> bestOffer ls sheep wheat = Some le \<and> f le = eStop)"
    and "res = eCrossedTooMany \<longrightarrow> word_of_nat (length trail) \<ge> (word_of_int maxOffers :: uint64)"
  shows "conversionFrom ls sheep maxSheep sheepSend wheat maxWheat wheatReceived flt trail maxOffers []
    \<lparr>convResult = res, convSheepSend = sheepSend, convWheatReceived = wheatReceived, convTrail = trail, convState = ls\<rparr>"
  using assms moved_refl by (simp add: conversionFrom_def)

lemma convertLoop_correct:
  assumes "ledgerOk ls" "isAmount maxWheat" "isAmount maxSheep" "0 < maxWheat" "0 < maxSheep"
    and rd: "round \<noteq> PATH_PAYMENT_STRICT_SEND" and "offerSum (\<lambda>_ _. 1) ls < int fuel"
  shows "\<exists>c new. convertLoop fuel ls sheep maxSheep sheepSend wheat maxWheat wheatReceived round flt trail maxOffers = Inr c
    \<and> conversionFrom ls sheep maxSheep sheepSend wheat maxWheat wheatReceived flt trail maxOffers new c"
  using assms(1-5,7)
proof (induction fuel arbitrary: ls maxSheep sheepSend maxWheat wheatReceived trail)
  case 0
  then have "0 \<le> offerSum (\<lambda>_ _. 1) ls" by (intro offerSum_nonneg) (auto simp: ledgerOk_def dest: ledgerInvD(3))
  with 0 show ?case by simp
next
  case (Suc fuel)
  note prems = Suc.prems
  have v: "\<not> ledgerVersion (lsHeader ls) < 10" "10 \<le> ledgerVersion (lsHeader ls)"
    using ledgerInvD(1) [of _ _ ls] prems(1) by (auto simp: ledgerOk_def linorder_not_less)
  note nil = conversionFrom_nil [OF prems(1), of maxSheep maxWheat]
  show ?case
  proof (cases "bestOffer ls sheep wheat")
    case None
    then show ?thesis using prems v by (auto simp: Let_def intro!: exI [of _ "[]"] nil)
  next
    case (Some le)
    obtain oe x where x: "offerOf le = Inr oe" "buying oe = sheep" "selling oe = wheat"
      "crossBest ls le maxWheat maxSheep round = Inr x" "crossingOk ls le oe maxWheat maxSheep x"
      by (rule crossBest_correct [OF prems(1) Some prems(2-5) rd])
    consider (stop) "case flt of None \<Rightarrow> False | Some f \<Rightarrow> f le = eStop"
      | (many) "\<not> (case flt of None \<Rightarrow> False | Some f \<Rightarrow> f le = eStop)"
          "word_of_nat (length trail) \<ge> (word_of_int maxOffers :: uint64)"
      | (cross) "\<not> (case flt of None \<Rightarrow> False | Some f \<Rightarrow> f le = eStop)"
          "\<not> word_of_nat (length trail) \<ge> (word_of_int maxOffers :: uint64)"
      by blast
    then show ?thesis
    proof cases
      case stop
      then show ?thesis using prems Some by (auto simp: Let_def intro!: exI [of _ "[]"] nil split: option.splits)
    next
      case many
      then show ?thesis using prems Some by (auto simp: Let_def intro!: exI [of _ "[]"] nil)
    next
      case cross
      let ?t = "trail @ [claimAtom oe x]"
      let ?s = "sheepSend + crossSheep x" and ?ms = "maxSheep - crossSheep x"
      let ?w = "wheatReceived + crossWheat x" and ?mw = "maxWheat - crossWheat x"
      note cons = conversionFrom_cons [OF _ x(5,2,3)]
      have b: "ledgerOk (crossState x)" "0 \<le> ?ms" "0 \<le> ?mw" "isAmount ?ms" "isAmount ?mw" "crossResult x \<noteq> eOfferCantConvert"
        "crossResult x = eOfferPartial \<Longrightarrow> crossStays x"
        using x(5) prems(2,3) by (auto simp: crossingOk_def isAmount_def)
      show ?thesis
      proof (cases "\<not> crossStays x \<and> ?mw > 0 \<and> ?ms > 0")
        case False
        then have "convertLoop (Suc fuel) ls sheep maxSheep sheepSend wheat maxWheat wheatReceived round flt trail maxOffers =
            Inr \<lparr>convResult = eOK, convSheepSend = ?s, convWheatReceived = ?w, convTrail = ?t, convState = crossState x\<rparr>"
          using Some cross x(1,4) b v by (simp add: Let_def)
        moreover have "conversionFrom ls sheep maxSheep sheepSend wheat maxWheat wheatReceived flt trail maxOffers [claimAtom oe x]
            \<lparr>convResult = eOK, convSheepSend = ?s, convWheatReceived = ?w, convTrail = ?t, convState = crossState x\<rparr>"
          by (rule cons, rule conversionFrom_nil) (use b in auto)
        ultimately show ?thesis by blast
      next
        case True
        then have t: "crossResult x = eOfferTaken" using b(6,7) by (cases "crossResult x") auto
        then have "offerSum (\<lambda>_ _. 1) (crossState x) < int fuel" using x(5) prems(6) by (simp add: crossingOk_def)
        from Suc.IH [OF b(1,5,4) _ _ this, of ?s ?w ?t] True obtain c new where
          c: "convertLoop fuel (crossState x) sheep ?ms ?s wheat ?mw ?w round flt ?t maxOffers = Inr c"
          "conversionFrom (crossState x) sheep ?ms ?s wheat ?mw ?w flt ?t maxOffers new c" by blast
        have "convertLoop (Suc fuel) ls sheep maxSheep sheepSend wheat maxWheat wheatReceived round flt trail maxOffers = Inr c"
          using c(1) Some cross x(1,4) v t True by (simp add: Let_def)
        with cons [OF c(2)] show ?thesis by blast
      qed
    qed
  qed
qed

lemma convertWithOffers_run:
  assumes ok: "ledgerOk ls" and m: "isAmount maxWheat" "isAmount maxSheep" and rd: "round \<noteq> PATH_PAYMENT_STRICT_SEND"
  obtains c where "convertWithOffers ls sheep maxSheep wheat maxWheat round flt maxOffers = Inr c"
    "conversionFrom ls sheep maxSheep 0 wheat maxWheat 0 flt [] maxOffers (convTrail c) c"
proof (cases "0 < maxWheat \<and> 0 < maxSheep")
  case True
  have wf: "stateWf ls" using ok by (auto simp: ledgerOk_def dest: ledgerInvD(3))
  obtain c new where c: "convertLoop (Suc (numOffers ls)) ls sheep maxSheep 0 wheat maxWheat 0 round flt [] maxOffers = Inr c"
    "conversionFrom ls sheep maxSheep 0 wheat maxWheat 0 flt [] maxOffers new c"
    using convertLoop_correct [OF ok m _ _ rd, of "Suc (numOffers ls)" sheep 0 wheat 0 flt "[]" maxOffers] True numOffers_sum [OF wf]
    by auto
  moreover have "new = convTrail c" using c(2) by (simp add: conversionFrom_def)
  ultimately show ?thesis using that True by (simp add: convertWithOffers_def)
next
  case False
  then show ?thesis
    using that conversionFrom_nil [OF ok, of maxSheep maxWheat eOK] m by (auto simp: convertWithOffers_def isAmount_def)
qed

end
