(* ===== verification/CrossingProperties.thy ===== *)
theory CrossingProperties
  imports ConversionRules
begin

text \<open>
  The properties of crossing offers, with a small ledger on which they are exercised: account 1 sells
  200 units of a credit of issuer 9 for the native asset at 3/2, next to a worse offer of account 2.
\<close>

section \<open>A small ledger\<close>

definition demoHeader :: LedgerHeader where
  "demoHeader = \<lparr>ledgerVersion = 13, previousLedgerHash = 0, closeTime = 0, ledgerSeq = 100, totalCoins = 1000000,
     feePool = 0, inflationSeq = 0, idPool = 10, baseFee = 100, baseReserve = 10, maxTxSetSize = 100\<rparr>"

definition demoCredit :: Asset where
  "demoCredit = ASSET_TYPE_CREDIT_ALPHANUM4 [85, 83, 68, 0] 9"

definition demoAccount :: "AccountID \<Rightarrow> int \<Rightarrow> uint32 \<Rightarrow> int \<Rightarrow> LedgerEntry" where
  "demoAccount A balance subs liab = \<lparr>lastModifiedLedgerSeq = 1,
     ledgerData = ACCOUNT \<lparr>accountID = A, accBalance = balance, seqNum = 0, numSubEntries = subs,
       inflationDest = None, accFlags = 0, homeDomain = '''', thresholds = [1, 0, 0, 0], signers = [],
       accExt = Some \<lparr>v1Liabilities = \<lparr>liabBuying = liab, liabSelling = 0\<rparr>, v1Ext = None\<rparr>\<rparr>,
     ledgerExt = None\<rparr>"

definition demoLine :: "AccountID \<Rightarrow> int \<Rightarrow> int \<Rightarrow> LedgerEntry" where
  "demoLine A balance liab = \<lparr>lastModifiedLedgerSeq = 1,
     ledgerData = TRUSTLINE \<lparr>tlAccountID = A, tlAsset = demoCredit, tlBalance = balance, tlLimit = 1000,
       tlFlags = 1, tlExt = Some \<lparr>liabBuying = 0, liabSelling = liab\<rparr>\<rparr>, ledgerExt = None\<rparr>"

definition demoOffer :: "AccountID \<Rightarrow> int \<Rightarrow> int \<Rightarrow> Price \<Rightarrow> OfferEntry" where
  "demoOffer A i amount p = \<lparr>sellerID = A, offerID = i, selling = demoCredit, buying = ASSET_TYPE_NATIVE,
     offerAmount = amount, offerPrice = p, offerFlags = 0\<rparr>"

definition demoOfferEntry :: "OfferEntry \<Rightarrow> LedgerEntry" where
  "demoOfferEntry oe = \<lparr>lastModifiedLedgerSeq = 1, ledgerData = OFFER oe, ledgerExt = None\<rparr>"

definition demoBest :: OfferEntry where
  "demoBest = demoOffer 1 7 200 \<lparr>priceN = 3, priceD = 2\<rparr>"

definition demoNext :: OfferEntry where
  "demoNext = demoOffer 2 5 100 \<lparr>priceN = 2, priceD = 1\<rparr>"

definition demoLedger :: LedgerState where
  "demoLedger = \<lparr>lsHeader = demoHeader,
     lsEntries = [(AccountKey 1, demoAccount 1 1000 2 300), (TrustLineKey 1 demoCredit, demoLine 1 500 200),
       (OfferKey 1 7, demoOfferEntry demoBest),
       (AccountKey 2, demoAccount 2 1000 2 200), (TrustLineKey 2 demoCredit, demoLine 2 300 100),
       (OfferKey 2 5, demoOfferEntry demoNext), (AccountKey 9, demoAccount 9 5000 0 0)],
     lsSponsorships = [], lsCounters = []\<rparr>"

lemmas demo_defs = demoHeader_def demoCredit_def demoAccount_def demoLine_def demoOffer_def demoOfferEntry_def
  demoBest_def demoNext_def

lemma demo_offers:
  "offerBuy demoBest = 300" "offerSell demoBest = 200" "offerBuy demoNext = 200" "offerSell demoNext = 100"
  "offerOk demoBest" "offerOk demoNext"
  by (simp_all add: offerBuy_def offerSell_def demo_defs takeWheatOffer_def wheatOfferValue_def offerOk_def
      validPrice_def isAmount_def INT64_MAX_def INT32_MAX_def)

text \<open>The invariant of a ledger, entry by entry.\<close>

lemma all_entries:
  "stateWf ls \<Longrightarrow> (\<forall>k e. loadEntry ls k = Some e \<longrightarrow> P k e) \<longleftrightarrow> list_all (\<lambda>(k, e). P k e) (lsEntries ls)"
  by (auto simp: list_all_iff loadEntry_def stateWf_def dest: map_of_SomeD)

lemma demo_wf: "stateWf demoLedger"
  by (simp add: stateWf_def demoLedger_def demo_defs LedgerEntryKey_def)

lemma demo_load:
  "loadEntry demoLedger (AccountKey A) =
    (if A = 1 then Some (demoAccount 1 1000 2 300) else if A = 2 then Some (demoAccount 2 1000 2 200)
     else if A = 9 then Some (demoAccount 9 5000 0 0) else None)"
  "loadEntry demoLedger (TrustLineKey A X) =
    (if X = demoCredit \<and> A = 1 then Some (demoLine 1 500 200)
     else if X = demoCredit \<and> A = 2 then Some (demoLine 2 300 100) else None)"
  "loadEntry demoLedger (OfferKey A i) =
    (if A = 1 \<and> i = 7 then Some (demoOfferEntry demoBest)
     else if A = 2 \<and> i = 5 then Some (demoOfferEntry demoNext) else None)"
  by (auto simp: loadEntry_def demoLedger_def)

lemma demo_sums:
  "buyLiab demoLedger A X = (if X = ASSET_TYPE_NATIVE then if A = 1 then 300 else if A = 2 then 200 else 0 else 0)"
  "sellLiab demoLedger A X = (if X = demoCredit then if A = 1 then 200 else if A = 2 then 100 else 0 else 0)"
  "offersOf demoLedger A = (if A = 1 \<or> A = 2 then 1 else 0)"
  "sponsoredOffersOf demoLedger A = 0" "offersSponsoredBy demoLedger A = 0"
  using demo_offers
  by (auto simp: buyLiab_def sellLiab_def offersOf_def sponsoredOffersOf_def offersSponsoredBy_def offerSum_def totalOver_def
      sumAssoc_def offerWeight_def demoLedger_def demo_defs entrySponsor_def)

lemma demo_usable: "usable h (demoLine A b l)"
  by (simp add: demoLine_def usable_def isAuthorizedToMaintainLiabilities_def isAuthorized_def AUTHORIZED_FLAG_def
      AUTHORIZED_TO_MAINTAIN_LIABILITIES_FLAG_def)

lemma demo_fields [simp]:
  "sellerID demoBest = 1" "sellerID demoNext = 2" "buying demoBest = ASSET_TYPE_NATIVE" "buying demoNext = ASSET_TYPE_NATIVE"
  "selling demoBest = demoCredit" "selling demoNext = demoCredit" "offerAmount demoBest = 200" "offerAmount demoNext = 100"
  by (simp_all add: demoBest_def demoNext_def demoOffer_def)

lemma demo_entries: "lsEntries demoLedger = [(AccountKey 1, demoAccount 1 1000 2 300), (TrustLineKey 1 demoCredit, demoLine 1 500 200),
       (OfferKey 1 7, demoOfferEntry demoBest),
       (AccountKey 2, demoAccount 2 1000 2 200), (TrustLineKey 2 demoCredit, demoLine 2 300 100),
       (OfferKey 2 5, demoOfferEntry demoNext), (AccountKey 9, demoAccount 9 5000 0 0)]"
  by (simp add: demoLedger_def)

lemma demo_data:
  "ledgerData (demoAccount A b n l) \<noteq> OFFER oe" "ledgerData (demoLine A b l) \<noteq> OFFER oe"
  "ledgerData (demoOfferEntry oe) = OFFER oe"
  by (simp_all add: demoAccount_def demoLine_def demoOfferEntry_def)

lemma demo_ok: "ledgerOk demoLedger"
proof -
  have placed: "offerPlaced demoLedger (demoOfferEntry demoBest) demoBest" "offerPlaced demoLedger (demoOfferEntry demoNext) demoNext"
    by (simp_all add: offerPlaced_def lineReady_def demo_load demo_offers demo_usable demoOfferEntry_def entrySponsor_def)
  have h: "\<forall>k e. loadEntry demoLedger k = Some e \<longrightarrow> (isHolding e \<longrightarrow> holdingOk e \<and> coversSelling (lsHeader demoLedger) e)"
    unfolding all_entries [OF demo_wf]
    by (simp add: demoLedger_def demo_defs holding_defs holdingOk_def coversSelling_def INT64_MAX_def
        accLiabilities_def tlLiabilities_def)
  have o: "\<forall>k e. loadEntry demoLedger k = Some e \<longrightarrow>
      (\<forall>oe. ledgerData e = OFFER oe \<longrightarrow> offerPlaced demoLedger e oe \<and> 0 < offerAmount oe)"
    unfolding all_entries [OF demo_wf] demo_entries using placed by (simp add: demo_data)
  have m: "liabilitiesMatch (\<lambda>_ _. 0) (\<lambda>_ _. 0) demoLedger"
    unfolding liabilitiesMatch_def by (simp add: demo_sums holderKey_def demo_load) (simp add: demo_defs holding_defs accLiabilities_def tlLiabilities_def isIssuerOf_def getIssuer_def)
  have c: "\<forall>A e. loadEntry demoLedger (AccountKey A) = Some e \<longrightarrow> countsOk demoLedger A e"
    by (simp add: demo_load countsOk_def demo_sums) (simp add: demo_defs count_defs hasAccountEntryExtV2_def)
  show ?thesis
    using h o m c demo_wf by (auto simp: ledgerOk_def ledgerInv_def demoLedger_def demoHeader_def)
qed

section \<open>Properties\<close>

text \<open>
  C16. Since version 10 crossing any offer of a consistent ledger succeeds (except under the rounding of a
  strict-send path payment): the amounts stay within the limits of the taker and the offer and favour the
  side that stays, exactly the seller's two holdings move by these amounts, the offer is removed or reduced
  and no other offer changes, and the ledger is consistent again: every balance within its bounds, recorded
  liabilities equal to the sums over the offers, reserves covered.
\<close>
theorem crossOfferV10_correct:
  assumes "ledgerOk ls" "loadEntry ls k = Some le" "ledgerData le = OFFER oe"
    and "isAmount maxWheat" "isAmount maxSheep" "0 < maxWheat" "0 < maxSheep" "round \<noteq> PATH_PAYMENT_STRICT_SEND"
  shows "\<exists>c. crossOfferV10 ls le maxWheat maxSheep round = Inr c \<and> crossingOk ls le oe maxWheat maxSheep c"
  using crossOfferV10_general [OF assms(1-7)] exchangeable_round [OF assms(8)] by blast

theorem crossOfferV10_correct_witness:
  "\<exists>c. crossOfferV10 demoLedger (demoOfferEntry demoBest) 60 1000 NORMAL = Inr c
     \<and> crossingOk demoLedger (demoOfferEntry demoBest) demoBest 60 1000 c"
  by (rule crossOfferV10_correct [OF demo_ok, of "OfferKey 1 7"])
    (simp_all add: demo_load demoOfferEntry_def isAmount_def INT64_MAX_def)

text \<open>
  C17. Since version 10 the conversion loop of a consistent ledger ends without throwing whatever the filter
  and the limit of offers, except under the rounding of a strict-send path payment, under which crossing an
  offer may throw: what is sent and received is the sum over the trail and within the limits, the trail accounts
  for every balance that moved, the ledger stays consistent, and the conversion is only partial if the
  book is empty, stopped by the filter at an offer the filter stops, and cut off at the limit.
\<close>
theorem convertWithOffers_correct:
  assumes "ledgerOk ls" "isAmount maxWheat" "isAmount maxSheep" "round \<noteq> PATH_PAYMENT_STRICT_SEND"
  shows "\<exists>c. convertWithOffers ls sheep maxSheep wheat maxWheat round flt maxOffers = Inr c
    \<and> conversionFrom ls sheep maxSheep 0 wheat maxWheat 0 flt [] maxOffers (convTrail c) c"
  using convertWithOffers_run [OF assms] by blast

theorem convertWithOffers_correct_witness:
  "\<exists>c. convertWithOffers demoLedger ASSET_TYPE_NATIVE 10000 demoCredit 250 NORMAL None INT64_MAX = Inr c
     \<and> conversionFrom demoLedger ASSET_TYPE_NATIVE 10000 0 demoCredit 250 0 None [] INT64_MAX (convTrail c) c"
  by (rule convertWithOffers_correct [OF demo_ok]) (simp_all add: isAmount_def INT64_MAX_def)

end
