(* ===== verification/StaleOffers.thy ===== *)
theory StaleOffers
  imports CrossingProperties
begin

text \<open>
  An offer whose remaining capacity is exactly its recorded liabilities, as after \<^verbatim>\<open>ChangeTrust\<close> lowered
  the limit of the trust line to the least it accepts: the amount that was adjusted with unlimited
  capacity is no longer an adjusted amount.
\<close>

definition staleOffer :: OfferEntry where
  "staleOffer = \<lparr>sellerID = 3, offerID = 4, selling = ASSET_TYPE_NATIVE, buying = demoCredit,
     offerAmount = 20, offerPrice = \<lparr>priceN = 5, priceD = 3\<rparr>, offerFlags = 0\<rparr>"

definition staleAccount :: LedgerEntry where
  "staleAccount = \<lparr>lastModifiedLedgerSeq = 1,
     ledgerData = ACCOUNT \<lparr>accountID = 3, accBalance = 1000, seqNum = 0, numSubEntries = 2,
       inflationDest = None, accFlags = 0, homeDomain = '''', thresholds = [1, 0, 0, 0], signers = [],
       accExt = Some \<lparr>v1Liabilities = \<lparr>liabBuying = 0, liabSelling = 20\<rparr>, v1Ext = None\<rparr>\<rparr>,
     ledgerExt = None\<rparr>"

definition staleLine :: LedgerEntry where
  "staleLine = \<lparr>lastModifiedLedgerSeq = 1,
     ledgerData = TRUSTLINE \<lparr>tlAccountID = 3, tlAsset = demoCredit, tlBalance = 0, tlLimit = 33,
       tlFlags = 1, tlExt = Some \<lparr>liabBuying = 33, liabSelling = 0\<rparr>\<rparr>, ledgerExt = None\<rparr>"

definition staleLedger :: LedgerState where
  "staleLedger = \<lparr>lsHeader = demoHeader,
     lsEntries = [(AccountKey 3, staleAccount), (TrustLineKey 3 demoCredit, staleLine),
       (OfferKey 3 4, demoOfferEntry staleOffer)],
     lsSponsorships = [], lsCounters = []\<rparr>"

lemmas stale_defs = staleAccount_def staleLine_def staleOffer_def demoOfferEntry_def demoCredit_def

lemma stale_offer: "offerBuy staleOffer = 33" "offerSell staleOffer = 20" "offerOk staleOffer"
  by (simp_all add: offerBuy_def offerSell_def stale_defs takeWheatOffer_def wheatOfferValue_def offerOk_def
      validPrice_def isAmount_def INT64_MAX_def INT32_MAX_def)

lemma stale_wf: "stateWf staleLedger"
  by (simp add: stateWf_def staleLedger_def stale_defs LedgerEntryKey_def)

lemma stale_load:
  "loadEntry staleLedger (AccountKey A) = (if A = 3 then Some staleAccount else None)"
  "loadEntry staleLedger (TrustLineKey A X) = (if A = 3 \<and> X = demoCredit then Some staleLine else None)"
  by (auto simp: loadEntry_def staleLedger_def)

lemma stale_sums:
  "buyLiab staleLedger A X = (if A = 3 \<and> X = demoCredit then 33 else 0)"
  "sellLiab staleLedger A X = (if A = 3 \<and> X = ASSET_TYPE_NATIVE then 20 else 0)"
  "offersOf staleLedger A = (if A = 3 then 1 else 0)"
  "sponsoredOffersOf staleLedger A = 0" "offersSponsoredBy staleLedger A = 0"
  using stale_offer
  by (auto simp: buyLiab_def sellLiab_def offersOf_def sponsoredOffersOf_def offersSponsoredBy_def offerSum_def totalOver_def
      sumAssoc_def offerWeight_def staleLedger_def stale_defs entrySponsor_def)

lemma stale_entries: "lsEntries staleLedger = [(AccountKey 3, staleAccount), (TrustLineKey 3 demoCredit, staleLine),
    (OfferKey 3 4, demoOfferEntry staleOffer)]"
  by (simp add: staleLedger_def)

lemma stale_ok: "ledgerOk staleLedger"
proof -
  have h: "\<forall>k e. loadEntry staleLedger k = Some e \<longrightarrow> (isHolding e \<longrightarrow> holdingOk e \<and> coversSelling (lsHeader staleLedger) e)"
    unfolding all_entries [OF stale_wf] by code_simp
  have "usable h staleLine" for h
    by (simp add: staleLine_def usable_def isAuthorizedToMaintainLiabilities_def isAuthorized_def AUTHORIZED_FLAG_def)
  then have placed: "offerPlaced staleLedger (demoOfferEntry staleOffer) staleOffer"
    using stale_offer by (simp add: offerPlaced_def lineReady_def stale_load)
      (simp add: demoOfferEntry_def entrySponsor_def staleOffer_def)
  have o: "\<forall>k e. loadEntry staleLedger k = Some e \<longrightarrow>
      (\<forall>oe. ledgerData e = OFFER oe \<longrightarrow> offerPlaced staleLedger e oe \<and> 0 < offerAmount oe)"
    unfolding all_entries [OF stale_wf] stale_entries using placed
    by (auto simp: demo_data) (simp_all add: staleAccount_def staleLine_def staleOffer_def)
  have m: "liabilitiesMatch (\<lambda>_ _. 0) (\<lambda>_ _. 0) staleLedger"
    unfolding liabilitiesMatch_def by (simp add: stale_sums holderKey_def stale_load)
      (simp add: staleAccount_def staleLine_def holding_defs accLiabilities_def tlLiabilities_def demoCredit_def)
  have c: "\<forall>A e. loadEntry staleLedger (AccountKey A) = Some e \<longrightarrow> countsOk staleLedger A e"
    by (simp add: stale_load countsOk_def stale_sums) (simp add: staleAccount_def count_defs hasAccountEntryExtV2_def)
  show ?thesis
    using h o m c stale_wf by (auto simp: ledgerOk_def ledgerInv_def staleLedger_def demoHeader_def)
qed

text \<open>
  C35. The exception to the previous two: there is a consistent ledger with an offer that was adjusted
  when it was made (its trust line has the least limit \<^verbatim>\<open>ChangeTrust\<close> accepts), such that adjusting it
  while crossing reduces it from 20 to 0 although that adjustment is meant to have no effect since
  version 10, and a strict-send path payment that meets it throws \<^verbatim>\<open>std::runtime_error\<close> instead of
  skipping it.
\<close>
theorem strict_send_throws:
  "ledgerOk staleLedger
   \<and> adjustOfferAmount (offerPrice staleOffer) (offerAmount staleOffer) INT64_MAX = Inr (offerAmount staleOffer)
   \<and> getMinimumLimit (lsHeader staleLedger) staleLine = Inr 33
   \<and> adjustOfferAmount (offerPrice staleOffer) (offerAmount staleOffer) 33 = Inr 0
   \<and> convertWithOffers staleLedger demoCredit 10 ASSET_TYPE_NATIVE 100 PATH_PAYMENT_STRICT_SEND None INT64_MAX =
       Inl (TxRuntimeError ''invalid amount of sheep sent'')"
proof (intro conjI)
  show "ledgerOk staleLedger" by (rule stale_ok)
qed code_simp+

end
