(* ===== verification/Operations.thy ===== *)
theory Operations
  imports OfferCrossing
begin

text \<open>
  The operations of \<^verbatim>\<open>transactions/*OpFrame.cpp\<close> that do not trade: the checks of \<^verbatim>\<open>doCheckValid\<close> and the
  effect of \<^verbatim>\<open>doApply\<close>. An operation throws (\<open>tx_error\<close>), fails with a result code, or succeeds with the new
  ledger state. The state that a failed operation leaves behind is not part of its result: the
  transaction it belongs to is rolled back. The account cache of versions before 8 is not modelled.
\<close>

section \<open>Results\<close>

datatype 'c OpFailure =
    opBAD_AUTH
  | opNO_ACCOUNT
  | opNOT_SUPPORTED
  | opTOO_MANY_SUBENTRIES
  | opEXCEEDED_WORK_LIMIT
  | opTOO_MANY_SPONSORING
  | opINNER 'c

type_synonym ('c, 'r) op = "('c OpFailure + 'r) tx"

definition bindO :: "('c, 'r) op \<Rightarrow> ('r \<Rightarrow> ('c, 's) op) \<Rightarrow> ('c, 's) op" where
  "bindO m f = bindE m (\<lambda>r. case r of Inl e \<Rightarrow> Inr (Inl e) | Inr x \<Rightarrow> f x)"

definition okO :: "'r \<Rightarrow> ('c, 'r) op" where
  "okO x = Inr (Inr x)"

definition failWith :: "'c OpFailure \<Rightarrow> ('c, 'r) op" where
  "failWith e = Inr (Inl e)"

definition failO :: "'c \<Rightarrow> ('c, 'r) op" where
  "failO c = failWith (opINNER c)"

definition liftO :: "'r tx \<Rightarrow> ('c, 'r) op" where
  "liftO m = bindE m okO"

definition checkO :: "bool \<Rightarrow> 'c \<Rightarrow> ('c, unit) op" where
  "checkO b c = (if b then okO () else failO c)"

section \<open>Shared helpers\<close>

text \<open>Letters and digits of the classic locale, and its control characters.\<close>

definition isAlnum :: "8 word \<Rightarrow> bool" where
  "isAlnum b \<longleftrightarrow> 48 \<le> b \<and> b \<le> 57 \<or> 65 \<le> b \<and> b \<le> 90 \<or> 97 \<le> b \<and> b \<le> 122"

definition isString32Valid :: "string \<Rightarrow> bool" where
  "isString32Valid str = list_all (\<lambda>c. let n = of_char c :: nat in \<not> (n \<ge> 128 \<or> n < 32 \<or> n = 127)) str"

text \<open>The scan of an asset code: whether a zero was seen, the characters so far; \<open>None\<close> is the early \<^verbatim>\<open>return\<close>.\<close>

fun scanCode :: "bool \<Rightarrow> nat \<Rightarrow> bytes \<Rightarrow> nat option" where
  "scanCode zeros n [] = Some n"
| "scanCode zeros n (b # code) =
     (if b = 0 then scanCode True n code
      else if zeros then None
      else if b > 0x7F \<or> \<not> isAlnum b then None
      else scanCode zeros (Suc n) code)"

definition isAssetValid :: "Asset \<Rightarrow> bool" where
  "isAssetValid cur =
     (case cur of
        ASSET_TYPE_NATIVE \<Rightarrow> True
      | ASSET_TYPE_CREDIT_ALPHANUM4 code _ \<Rightarrow> (case scanCode False 0 code of None \<Rightarrow> False | Some n \<Rightarrow> n \<ge> 1)
      | ASSET_TYPE_CREDIT_ALPHANUM12 code _ \<Rightarrow> (case scanCode False 0 code of None \<Rightarrow> False | Some n \<Rightarrow> n > 4))"

definition compareAsset :: "Asset \<Rightarrow> Asset \<Rightarrow> bool" where
  "compareAsset first second =
     (case (first, second) of
        (ASSET_TYPE_NATIVE, ASSET_TYPE_NATIVE) \<Rightarrow> True
      | (ASSET_TYPE_CREDIT_ALPHANUM4 c i, ASSET_TYPE_CREDIT_ALPHANUM4 c' i') \<Rightarrow> i = i' \<and> c = c'
      | (ASSET_TYPE_CREDIT_ALPHANUM12 c i, ASSET_TYPE_CREDIT_ALPHANUM12 c' i') \<Rightarrow> i = i' \<and> c = c'
      | _ \<Rightarrow> False)"

text \<open>\<^verbatim>\<open>ltx.create\<close> refuses a key that exists, \<^verbatim>\<open>erase\<close> one that does not.\<close>

definition createEntry :: "LedgerEntry \<Rightarrow> LedgerState \<Rightarrow> LedgerState tx" where
  "createEntry le ls =
     (if loadEntry ls (LedgerEntryKey le) \<noteq> None then Inl (TxRuntimeError ''Key already exists'')
      else Inr (storeEntry le ls))"

definition removeEntry :: "LedgerKey \<Rightarrow> LedgerState \<Rightarrow> LedgerState tx" where
  "removeEntry k ls =
     (if loadEntry ls k = None then Inl (TxRuntimeError ''Key does not exist'')
      else Inr (eraseEntry k ls))"

definition newLedgerEntry :: "LedgerEntryData \<Rightarrow> LedgerEntry" where
  "newLedgerEntry d = \<lparr>lastModifiedLedgerSeq = 0, ledgerData = d, ledgerExt = None\<rparr>"

definition AUTH_REQUIRED_FLAG :: uint32 where "AUTH_REQUIRED_FLAG = 1"
definition AUTH_REVOCABLE_FLAG :: uint32 where "AUTH_REVOCABLE_FLAG = 2"
definition AUTH_IMMUTABLE_FLAG :: uint32 where "AUTH_IMMUTABLE_FLAG = 4"

definition isAuthRequired :: "AccountEntry \<Rightarrow> bool" where
  "isAuthRequired acc \<longleftrightarrow> accFlags acc AND AUTH_REQUIRED_FLAG \<noteq> 0"

definition isImmutableAuth :: "AccountEntry \<Rightarrow> bool" where
  "isImmutableAuth acc \<longleftrightarrow> accFlags acc AND AUTH_IMMUTABLE_FLAG \<noteq> 0"

text \<open>The \<^verbatim>\<open>switch\<close> over the result of \<^verbatim>\<open>createEntryWithPossibleSponsorship\<close>.\<close>

definition sponsorshipOutcome :: "'c \<Rightarrow> SponsorshipResult \<Rightarrow> ('c, unit) op" where
  "sponsorshipOutcome lowReserve res =
     (case res of
        SUCCESS \<Rightarrow> okO ()
      | LOW_RESERVE \<Rightarrow> failO lowReserve
      | TOO_MANY_SUBENTRIES \<Rightarrow> failWith opTOO_MANY_SUBENTRIES
      | TOO_MANY_SPONSORING \<Rightarrow> failWith opTOO_MANY_SPONSORING
      | TOO_MANY_SPONSORED \<Rightarrow>
          Inl (TxRuntimeError ''Unexpected result from createEntryWithPossibleSponsorship''))"

text \<open>
  A new entry of the source account: the reserve is charged to the account or its sponsor, then the
  entry is created.
\<close>

definition createOwnedEntry :: "'c \<Rightarrow> AccountID \<Rightarrow> LedgerEntry \<Rightarrow> LedgerState \<Rightarrow> ('c, LedgerState) op" where
  "createOwnedEntry lowReserve source le ls =
     bindO (liftO (current (loadEntry ls (AccountKey source)))) (\<lambda>acc.
     bindO (liftO (createEntryWithPossibleSponsorship ls le acc)) (\<lambda>(res, le', acc', ls').
     bindO (sponsorshipOutcome lowReserve res) (\<lambda>_.
     liftO (createEntry le' (storeEntry acc' ls')))))"

definition removeOwnedEntry :: "AccountID \<Rightarrow> LedgerEntry \<Rightarrow> LedgerState \<Rightarrow> ('c, LedgerState) op" where
  "removeOwnedEntry source le ls =
     bindO (liftO (current (loadEntry ls (AccountKey source)))) (\<lambda>acc.
     bindO (liftO (removeEntryWithPossibleSponsorship ls le acc)) (\<lambda>(le', acc', ls').
     liftO (removeEntry (LedgerEntryKey le) (storeEntry acc' ls'))))"

section \<open>Create account\<close>

datatype CreateAccountResultCode =
    CREATE_ACCOUNT_MALFORMED
  | CREATE_ACCOUNT_UNDERFUNDED
  | CREATE_ACCOUNT_LOW_RESERVE
  | CREATE_ACCOUNT_ALREADY_EXIST

definition newAccount :: "AccountID \<Rightarrow> int \<Rightarrow> LedgerHeader \<Rightarrow> LedgerEntry" where
  "newAccount dest balance header = newLedgerEntry (ACCOUNT \<lparr>accountID = dest, accBalance = balance,
     seqNum = sint (getStartingSequenceNumber (ledgerSeq header)), numSubEntries = 0, inflationDest = None,
     accFlags = 0, homeDomain = '''', thresholds = [1, 0, 0, 0], signers = [], accExt = None\<rparr>)"

text \<open>What is taken from the source account: fails unless available, then must succeed.\<close>

definition payFrom :: "'c \<Rightarrow> AccountID \<Rightarrow> int \<Rightarrow> LedgerState \<Rightarrow> ('c, LedgerState) op" where
  "payFrom underfunded source amount ls =
     bindO (liftO (current (loadEntry ls (AccountKey source)))) (\<lambda>acc.
     bindO (liftO (getAvailableBalance (lsHeader ls) acc)) (\<lambda>available.
     if available < amount then failO underfunded
     else bindO (liftO (addBalance (lsHeader ls) acc (- amount))) (\<lambda>r.
       case r of None \<Rightarrow> Inl AssertFailed | Some acc' \<Rightarrow> okO (storeEntry acc' ls))))"

definition createAccountBeforeV14 :: "AccountID \<Rightarrow> AccountID \<Rightarrow> int \<Rightarrow> LedgerState \<Rightarrow> (CreateAccountResultCode, LedgerState) op" where
  "createAccountBeforeV14 source dest startingBalance ls =
     bindO (liftO (getMinBalanceFor (lsHeader ls) 0 0 0)) (\<lambda>minBalance.
     if startingBalance < minBalance then failO CREATE_ACCOUNT_LOW_RESERVE
     else bindO (payFrom CREATE_ACCOUNT_UNDERFUNDED source startingBalance ls) (\<lambda>ls'.
       liftO (createEntry (newAccount dest startingBalance (lsHeader ls)) ls')))"

definition createAccountFromV14 :: "AccountID \<Rightarrow> AccountID \<Rightarrow> int \<Rightarrow> LedgerState \<Rightarrow> (CreateAccountResultCode, LedgerState) op" where
  "createAccountFromV14 source dest startingBalance ls =
     (let le = newAccount dest startingBalance (lsHeader ls)
      in bindO (liftO (createEntryWithPossibleSponsorship ls le le)) (\<lambda>(res, le', _, ls').
         bindO (sponsorshipOutcome CREATE_ACCOUNT_LOW_RESERVE res) (\<lambda>_.
         bindO (payFrom CREATE_ACCOUNT_UNDERFUNDED source startingBalance ls') (\<lambda>ls''.
         liftO (createEntry le' ls'')))))"

definition createAccountApply :: "AccountID \<Rightarrow> AccountID \<Rightarrow> int \<Rightarrow> LedgerState \<Rightarrow> (CreateAccountResultCode, LedgerState) op" where
  "createAccountApply source dest startingBalance ls =
     (if loadEntry ls (AccountKey dest) \<noteq> None then failO CREATE_ACCOUNT_ALREADY_EXIST
      else if ledgerVersion (lsHeader ls) < 14 then createAccountBeforeV14 source dest startingBalance ls
      else createAccountFromV14 source dest startingBalance ls)"

definition createAccountCheck :: "uint32 \<Rightarrow> AccountID \<Rightarrow> AccountID \<Rightarrow> int \<Rightarrow> (CreateAccountResultCode, unit) op" where
  "createAccountCheck version source dest startingBalance =
     bindO (checkO (startingBalance \<ge> (if version \<ge> 14 then 0 else 1)) CREATE_ACCOUNT_MALFORMED) (\<lambda>_.
     checkO (dest \<noteq> source) CREATE_ACCOUNT_MALFORMED)"

section \<open>Bump sequence\<close>

datatype BumpSequenceResultCode = BUMP_SEQUENCE_BAD_SEQ

definition bumpSequenceApply :: "AccountID \<Rightarrow> int \<Rightarrow> LedgerState \<Rightarrow> (BumpSequenceResultCode, LedgerState) op" where
  "bumpSequenceApply source bumpTo ls =
     bindO (liftO (current (loadEntry ls (AccountKey source)))) (\<lambda>le.
     bindO (liftO (accountOf le)) (\<lambda>acc.
     if bumpTo > seqNum acc then okO (storeEntry (le\<lparr>ledgerData := ACCOUNT (acc\<lparr>seqNum := bumpTo\<rparr>)\<rparr>) ls)
     else okO ls))"

definition bumpSequenceCheck :: "int \<Rightarrow> (BumpSequenceResultCode, unit) op" where
  "bumpSequenceCheck bumpTo = checkO (bumpTo \<ge> 0) BUMP_SEQUENCE_BAD_SEQ"

section \<open>Manage data\<close>

datatype ManageDataResultCode =
    MANAGE_DATA_NOT_SUPPORTED_YET
  | MANAGE_DATA_NAME_NOT_FOUND
  | MANAGE_DATA_LOW_RESERVE
  | MANAGE_DATA_INVALID_NAME

definition manageDataApply ::
    "AccountID \<Rightarrow> string \<Rightarrow> bytes option \<Rightarrow> LedgerState \<Rightarrow> (ManageDataResultCode, LedgerState) op" where
  "manageDataApply source name value ls =
     (if ledgerVersion (lsHeader ls) = 3 then
        Inl (TxRuntimeError ''MANAGE_DATA not supported on ledger version 3'')
      else case (value, loadEntry ls (DataKey source name)) of
        (Some v, None) \<Rightarrow>
          createOwnedEntry MANAGE_DATA_LOW_RESERVE source
            (newLedgerEntry (DATA \<lparr>dataAccountID = source, dataName = name, dataValue = v\<rparr>)) ls
      | (Some v, Some le) \<Rightarrow>
          (case ledgerData le of
             DATA d \<Rightarrow> okO (storeEntry (le\<lparr>ledgerData := DATA (d\<lparr>dataValue := v\<rparr>)\<rparr>) ls)
           | _ \<Rightarrow> Inl WrongUnion)
      | (None, None) \<Rightarrow> failO MANAGE_DATA_NAME_NOT_FOUND
      | (None, Some le) \<Rightarrow> removeOwnedEntry source le ls)"

definition manageDataCheck :: "uint32 \<Rightarrow> string \<Rightarrow> (ManageDataResultCode, unit) op" where
  "manageDataCheck version name =
     bindO (checkO (version \<ge> 2) MANAGE_DATA_NOT_SUPPORTED_YET) (\<lambda>_.
     checkO (length name \<ge> 1 \<and> isString32Valid name) MANAGE_DATA_INVALID_NAME)"

end
