(* ===== verification/TrustOperations.thy ===== *)
theory TrustOperations
  imports Operations
begin

text \<open>
  \<^verbatim>\<open>ChangeTrustOpFrame.cpp\<close> and \<^verbatim>\<open>AllowTrustOpFrame.cpp\<close>: the limit and the authorization of a trust line.
\<close>

section \<open>Change trust\<close>

datatype ChangeTrustResultCode =
    CHANGE_TRUST_MALFORMED
  | CHANGE_TRUST_NO_ISSUER
  | CHANGE_TRUST_INVALID_LIMIT
  | CHANGE_TRUST_LOW_RESERVE
  | CHANGE_TRUST_SELF_NOT_ALLOWED

definition newTrustLine :: "AccountID \<Rightarrow> Asset \<Rightarrow> int \<Rightarrow> bool \<Rightarrow> LedgerEntry" where
  "newTrustLine source line limit authRequired = newLedgerEntry (TRUSTLINE \<lparr>tlAccountID = source, tlAsset = line,
     tlBalance = 0, tlLimit = limit, tlFlags = (if authRequired then 0 else AUTHORIZED_FLAG), tlExt = None\<rparr>)"

definition changeTrustLine ::
    "AccountID \<Rightarrow> Asset \<Rightarrow> int \<Rightarrow> AccountID \<Rightarrow> LedgerState \<Rightarrow> (ChangeTrustResultCode, LedgerState) op" where
  "changeTrustLine source line limit issuer ls =
     (case loadEntry ls (TrustLineKey source line) of
        Some le \<Rightarrow>
          bindO (liftO (getMinimumLimit (lsHeader ls) le)) (\<lambda>minimum.
          if limit < minimum then failO CHANGE_TRUST_INVALID_LIMIT
          else if limit = 0 then removeOwnedEntry source le ls
          else if loadEntry ls (AccountKey issuer) = None then failO CHANGE_TRUST_NO_ISSUER
          else bindO (liftO (trustLineOf le)) (\<lambda>tl.
            okO (storeEntry (le\<lparr>ledgerData := TRUSTLINE (tl\<lparr>tlLimit := limit\<rparr>)\<rparr>) ls)))
      | None \<Rightarrow>
          if limit = 0 then failO CHANGE_TRUST_INVALID_LIMIT
          else case loadEntry ls (AccountKey issuer) of
            None \<Rightarrow> failO CHANGE_TRUST_NO_ISSUER
          | Some issuerEntry \<Rightarrow>
              bindO (liftO (accountOf issuerEntry)) (\<lambda>issuerAcc.
              createOwnedEntry CHANGE_TRUST_LOW_RESERVE source
                (newTrustLine source line limit (isAuthRequired issuerAcc)) ls))"

definition changeTrustApply ::
    "AccountID \<Rightarrow> Asset \<Rightarrow> int \<Rightarrow> LedgerState \<Rightarrow> (ChangeTrustResultCode, LedgerState) op" where
  "changeTrustApply source line limit ls =
     bindO (liftO (getIssuer line)) (\<lambda>issuer.
     if ledgerVersion (lsHeader ls) > 2 then
       (if issuer = source then failO CHANGE_TRUST_SELF_NOT_ALLOWED
        else changeTrustLine source line limit issuer ls)
     else if issuer = source then
       (if limit < INT64_MAX then failO CHANGE_TRUST_INVALID_LIMIT
        else if loadEntry ls (AccountKey issuer) = None then failO CHANGE_TRUST_NO_ISSUER
        else okO ls)
     else changeTrustLine source line limit issuer ls)"

definition changeTrustCheck :: "uint32 \<Rightarrow> Asset \<Rightarrow> int \<Rightarrow> (ChangeTrustResultCode, unit) op" where
  "changeTrustCheck version line limit =
     bindO (checkO (limit \<ge> 0) CHANGE_TRUST_MALFORMED) (\<lambda>_.
     bindO (checkO (isAssetValid line) CHANGE_TRUST_MALFORMED) (\<lambda>_.
     checkO (\<not> (version > 9 \<and> line = ASSET_TYPE_NATIVE)) CHANGE_TRUST_MALFORMED))"

section \<open>Allow trust\<close>

datatype AssetCode = ASSET_CODE_NATIVE | ASSET_CODE4 bytes | ASSET_CODE12 bytes

datatype AllowTrustResultCode =
    ALLOW_TRUST_MALFORMED
  | ALLOW_TRUST_NO_TRUST_LINE
  | ALLOW_TRUST_TRUST_NOT_REQUIRED
  | ALLOW_TRUST_CANT_REVOKE
  | ALLOW_TRUST_SELF_NOT_ALLOWED

definition assetOfCode :: "AccountID \<Rightarrow> AssetCode \<Rightarrow> Asset" where
  "assetOfCode issuer code =
     (case code of
        ASSET_CODE_NATIVE \<Rightarrow> ASSET_TYPE_NATIVE
      | ASSET_CODE4 c \<Rightarrow> ASSET_TYPE_CREDIT_ALPHANUM4 c issuer
      | ASSET_CODE12 c \<Rightarrow> ASSET_TYPE_CREDIT_ALPHANUM12 c issuer)"

definition offersByAccountAndAsset :: "LedgerState \<Rightarrow> AccountID \<Rightarrow> Asset \<Rightarrow> LedgerEntry list" where
  "offersByAccountAndAsset ls account asset =
     filter (\<lambda>le. case ledgerData le of
                    OFFER oe \<Rightarrow> sellerID oe = account \<and> (selling oe = asset \<or> buying oe = asset)
                  | _ \<Rightarrow> False) (map snd (lsEntries ls))"

fun removeOffers :: "AccountID \<Rightarrow> Asset \<Rightarrow> LedgerEntry list \<Rightarrow> LedgerState \<Rightarrow> LedgerState tx" where
  "removeOffers trustor ci [] ls = Inr ls"
| "removeOffers trustor ci (le # les) ls =
     bindE (offerOf le) (\<lambda>oe.
     if sellerID oe \<noteq> trustor then Inl (TxRuntimeError ''Offer not owned by expected account'')
     else if \<not> (buying oe = ci \<or> selling oe = ci) then
       Inl (TxRuntimeError ''Offer not buying or selling expected asset'')
     else
       bindE (releaseLiabilities ls oe) (\<lambda>ls1.
       bindE (removeOffer ls1 le trustor) (\<lambda>ls2.
       removeOffers trustor ci les ls2)))"

definition allowTrustLine ::
    "AccountID \<Rightarrow> Asset \<Rightarrow> uint32 \<Rightarrow> bool \<Rightarrow> LedgerState \<Rightarrow> (AllowTrustResultCode, LedgerState) op" where
  "allowTrustLine trustor ci authorize authNotRevocable ls =
     (case loadEntry ls (TrustLineKey trustor ci) of
        None \<Rightarrow> failO ALLOW_TRUST_NO_TRUST_LINE
      | Some trust \<Rightarrow>
          bindO (liftO (trustLineOf trust)) (\<lambda>tl.
          if authNotRevocable \<and> isAuthorized tl
             \<and> authorize AND AUTHORIZED_TO_MAINTAIN_LIABILITIES_FLAG \<noteq> 0 then
            failO ALLOW_TRUST_CANT_REVOKE
          else
            let shouldRemoveOffers = (isAuthorizedToMaintainLiabilities tl \<and> authorize = 0)
            in bindO (liftO (if ledgerVersion (lsHeader ls) \<ge> 10 \<and> shouldRemoveOffers
                             then removeOffers trustor ci (offersByAccountAndAsset ls trustor ci) ls
                             else Inr ls)) (\<lambda>ls1.
               bindO (liftO (current (loadEntry ls1 (TrustLineKey trustor ci)))) (\<lambda>le.
               bindO (liftO (trustLineOf le)) (\<lambda>tl1.
               bindO (liftO (setAuthorized (lsHeader ls1) authorize tl1)) (\<lambda>tl2.
               okO (storeEntry (le\<lparr>ledgerData := TRUSTLINE tl2\<rparr>) ls1)))))))"

definition allowTrustApply ::
    "AccountID \<Rightarrow> AccountID \<Rightarrow> AssetCode \<Rightarrow> uint32 \<Rightarrow> LedgerState \<Rightarrow> (AllowTrustResultCode, LedgerState) op" where
  "allowTrustApply source trustor code authorize ls =
     (if ledgerVersion (lsHeader ls) > 2 \<and> trustor = source then failO ALLOW_TRUST_SELF_NOT_ALLOWED
      else
        bindO (liftO (current (loadEntry ls (AccountKey source)))) (\<lambda>le.
        bindO (liftO (accountOf le)) (\<lambda>acc.
        if \<not> isAuthRequired acc then failO ALLOW_TRUST_TRUST_NOT_REQUIRED
        else
          let authNotRevocable = (accFlags acc AND AUTH_REVOCABLE_FLAG = 0)
          in if authNotRevocable \<and> authorize = 0 then failO ALLOW_TRUST_CANT_REVOKE
             else if trustor = source then okO ls
             else allowTrustLine trustor (assetOfCode source code) authorize authNotRevocable ls)))"

definition allowTrustCheck ::
    "uint32 \<Rightarrow> AccountID \<Rightarrow> AssetCode \<Rightarrow> uint32 \<Rightarrow> (AllowTrustResultCode, unit) op" where
  "allowTrustCheck version source code authorize =
     bindO (checkO (code \<noteq> ASSET_CODE_NATIVE) ALLOW_TRUST_MALFORMED) (\<lambda>_.
     bindO (checkO (trustLineFlagIsValid authorize version) ALLOW_TRUST_MALFORMED) (\<lambda>_.
     checkO (isAssetValid (assetOfCode source code)) ALLOW_TRUST_MALFORMED))"

end
