(* ===== verification/AccountOperations.thy ===== *)
theory AccountOperations
  imports TrustOperations
begin

text \<open>
  \<^verbatim>\<open>SetOptionsOpFrame.cpp\<close> and \<^verbatim>\<open>MergeOpFrame.cpp\<close>: the options and signers of an account and its end.
\<close>

section \<open>Signers\<close>

text \<open>The order that XDR gives a union: first the discriminant, then the value.\<close>

definition signerKeyRank :: "SignerKey \<Rightarrow> nat \<times> nat" where
  "signerKeyRank k =
     (case k of
        SIGNER_KEY_TYPE_ED25519 v \<Rightarrow> (0, v)
      | SIGNER_KEY_TYPE_PRE_AUTH_TX v \<Rightarrow> (1, v)
      | SIGNER_KEY_TYPE_HASH_X v \<Rightarrow> (2, v))"

definition signerKeyLess :: "SignerKey \<Rightarrow> SignerKey \<Rightarrow> bool" where
  "signerKeyLess k k' \<longleftrightarrow>
     (let (t, v) = signerKeyRank k; (t', v') = signerKeyRank k' in t < t' \<or> t = t' \<and> v < v')"

text \<open>The position of the first signer that is not below the key, and whether it is the key's.\<close>

definition findSignerByKey :: "Signer list \<Rightarrow> SignerKey \<Rightarrow> nat \<times> bool" where
  "findSignerByKey ss key =
     (let it = length (takeWhile (\<lambda>x. signerKeyLess (signerKey x) key) ss)
      in (it, it < length ss \<and> signerKey (ss ! it) = key))"

definition insertAt :: "nat \<Rightarrow> 'a \<Rightarrow> 'a list \<Rightarrow> 'a list" where
  "insertAt n x xs = take n xs @ x # drop n xs"

definition MAX_SIGNERS :: nat where "MAX_SIGNERS = 20"

section \<open>Set options\<close>

record SetOptionsOp =
  soInflationDest :: "AccountID option"
  soClearFlags :: "uint32 option"
  soSetFlags :: "uint32 option"
  soMasterWeight :: "uint32 option"
  soLowThreshold :: "uint32 option"
  soMedThreshold :: "uint32 option"
  soHighThreshold :: "uint32 option"
  soHomeDomain :: "string option"
  soSigner :: "Signer option"

datatype SetOptionsResultCode =
    SET_OPTIONS_LOW_RESERVE
  | SET_OPTIONS_TOO_MANY_SIGNERS
  | SET_OPTIONS_BAD_FLAGS
  | SET_OPTIONS_INVALID_INFLATION
  | SET_OPTIONS_CANT_CHANGE
  | SET_OPTIONS_UNKNOWN_FLAG
  | SET_OPTIONS_THRESHOLD_OUT_OF_RANGE
  | SET_OPTIONS_BAD_SIGNER
  | SET_OPTIONS_INVALID_HOME_DOMAIN

definition allAccountFlags :: uint32 where
  "allAccountFlags = AUTH_REQUIRED_FLAG OR AUTH_REVOCABLE_FLAG OR AUTH_IMMUTABLE_FLAG"

definition allAccountAuthFlags :: uint32 where
  "allAccountAuthFlags = AUTH_REQUIRED_FLAG OR AUTH_REVOCABLE_FLAG OR AUTH_IMMUTABLE_FLAG"

definition insertSigner :: "nat \<Rightarrow> Signer \<Rightarrow> AccountEntry \<Rightarrow> AccountEntry" where
  "insertSigner n signer acc =
     (let acc1 = acc\<lparr>signers := insertAt n signer (signers acc)\<rparr>
      in if hasAccountEntryExtV2 acc1 then
           (let v2 = prepareAccountEntryExtensionV2 acc1
            in setAccountEntryExtensionV2
                 (v2\<lparr>signerSponsoringIDs := insertAt n None (signerSponsoringIDs v2)\<rparr>) acc1)
         else acc1)"

definition signerOutcome :: "SponsorshipResult \<Rightarrow> (SetOptionsResultCode, unit) op" where
  "signerOutcome res =
     (case res of
        SUCCESS \<Rightarrow> okO ()
      | LOW_RESERVE \<Rightarrow> failO SET_OPTIONS_LOW_RESERVE
      | TOO_MANY_SUBENTRIES \<Rightarrow> failWith opTOO_MANY_SUBENTRIES
      | TOO_MANY_SPONSORING \<Rightarrow> failWith opTOO_MANY_SPONSORING
      | TOO_MANY_SPONSORED \<Rightarrow>
          Inl (TxRuntimeError ''Unexpected result from createSignerWithPossibleSponsorship''))"

definition addOrChangeSigner ::
    "AccountID \<Rightarrow> Signer \<Rightarrow> LedgerState \<Rightarrow> (SetOptionsResultCode, LedgerState) op" where
  "addOrChangeSigner source signer ls =
     bindO (liftO (current (loadEntry ls (AccountKey source)))) (\<lambda>le.
     bindO (liftO (accountOf le)) (\<lambda>acc.
     let (n, found) = findSignerByKey (signers acc) (signerKey signer)
     in if found then
          okO (storeEntry (le\<lparr>ledgerData := ACCOUNT (acc\<lparr>signers :=
            (signers acc)[n := (signers acc ! n)\<lparr>signerWeight := signerWeight signer\<rparr>]\<rparr>)\<rparr>) ls)
        else if length (signers acc) = MAX_SIGNERS then failO SET_OPTIONS_TOO_MANY_SIGNERS
        else
          bindO (liftO (createSignerWithPossibleSponsorship ls n
                   (le\<lparr>ledgerData := ACCOUNT (insertSigner n signer acc)\<rparr>))) (\<lambda>(res, le', ls').
          bindO (signerOutcome res) (\<lambda>_. okO (storeEntry le' ls')))))"

definition deleteSigner ::
    "LedgerEntry \<Rightarrow> SignerKey \<Rightarrow> LedgerState \<Rightarrow> (SetOptionsResultCode, LedgerState) op" where
  "deleteSigner le key ls =
     bindO (liftO (accountOf le)) (\<lambda>acc.
     let (n, found) = findSignerByKey (signers acc) key
     in if found then
          bindO (liftO (removeSignerWithPossibleSponsorship ls n le)) (\<lambda>(le', ls').
          okO (storeEntry le' ls'))
        else okO (storeEntry le ls))"

definition changeFlags ::
    "uint32 option \<Rightarrow> (uint32 \<Rightarrow> uint32 \<Rightarrow> uint32) \<Rightarrow> AccountEntry \<Rightarrow> (SetOptionsResultCode, AccountEntry) op" where
  "changeFlags flags f acc =
     (case flags of
        None \<Rightarrow> okO acc
      | Some fl \<Rightarrow>
          if fl AND allAccountAuthFlags \<noteq> 0 \<and> isImmutableAuth acc then failO SET_OPTIONS_CANT_CHANGE
          else okO (acc\<lparr>accFlags := f (accFlags acc) fl\<rparr>))"

definition setThreshold :: "nat \<Rightarrow> uint32 option \<Rightarrow> AccountEntry \<Rightarrow> AccountEntry" where
  "setThreshold i w acc =
     (case w of None \<Rightarrow> acc | Some v \<Rightarrow> acc\<lparr>thresholds := (thresholds acc)[i := ucast (v AND 0xFF)]\<rparr>)"

definition setInflationDest ::
    "AccountID \<Rightarrow> AccountID option \<Rightarrow> LedgerState \<Rightarrow> AccountEntry \<Rightarrow> (SetOptionsResultCode, AccountEntry) op" where
  "setInflationDest source dest ls acc =
     (case dest of
        None \<Rightarrow> okO acc
      | Some i \<Rightarrow>
          if i \<noteq> source \<and> loadEntry ls (AccountKey i) = None then failO SET_OPTIONS_INVALID_INFLATION
          else okO (acc\<lparr>inflationDest := Some i\<rparr>))"

definition setHomeDomain :: "string option \<Rightarrow> AccountEntry \<Rightarrow> AccountEntry" where
  "setHomeDomain d acc = (case d of None \<Rightarrow> acc | Some h \<Rightarrow> acc\<lparr>homeDomain := h\<rparr>)"

definition setOptionsApply ::
    "AccountID \<Rightarrow> SetOptionsOp \<Rightarrow> LedgerState \<Rightarrow> (SetOptionsResultCode, LedgerState) op" where
  "setOptionsApply source op ls =
     bindO (liftO (current (loadEntry ls (AccountKey source)))) (\<lambda>le.
     bindO (liftO (accountOf le)) (\<lambda>acc0.
     bindO (setInflationDest source (soInflationDest op) ls acc0) (\<lambda>acc1.
     bindO (changeFlags (soClearFlags op) (\<lambda>f c. f AND NOT c) acc1) (\<lambda>acc2.
     bindO (changeFlags (soSetFlags op) (\<lambda>f s. f OR s) acc2) (\<lambda>acc3.
     let acc4 = setHomeDomain (soHomeDomain op) acc3;
         acc5 = setThreshold 3 (soHighThreshold op) (setThreshold 2 (soMedThreshold op)
                  (setThreshold 1 (soLowThreshold op) (setThreshold 0 (soMasterWeight op) acc4)));
         le1 = le\<lparr>ledgerData := ACCOUNT acc5\<rparr>
     in case soSigner op of
          None \<Rightarrow> okO (storeEntry le1 ls)
        | Some signer \<Rightarrow>
            if signerWeight signer \<noteq> 0 then addOrChangeSigner source signer (storeEntry le1 ls)
            else deleteSigner le1 (signerKey signer) ls)))))"

definition flagsKnown :: "uint32 option \<Rightarrow> bool" where
  "flagsKnown flags = (case flags of None \<Rightarrow> True | Some f \<Rightarrow> f AND NOT allAccountFlags = 0)"

definition byteSized :: "uint32 option \<Rightarrow> bool" where
  "byteSized w = (case w of None \<Rightarrow> True | Some v \<Rightarrow> v \<le> 0xFF)"

definition signerValid :: "uint32 \<Rightarrow> AccountID \<Rightarrow> Signer \<Rightarrow> bool" where
  "signerValid version source signer \<longleftrightarrow>
     (let isSelf = (signerKey signer = SIGNER_KEY_TYPE_ED25519 source);
          isPublicKey = (case signerKey signer of SIGNER_KEY_TYPE_ED25519 _ \<Rightarrow> True | _ \<Rightarrow> False)
      in \<not> (isSelf \<or> \<not> isPublicKey \<and> version < 3) \<and> \<not> (signerWeight signer > 0xFF \<and> version > 9))"

definition setOptionsCheck :: "uint32 \<Rightarrow> AccountID \<Rightarrow> SetOptionsOp \<Rightarrow> (SetOptionsResultCode, unit) op" where
  "setOptionsCheck version source op =
     bindO (checkO (flagsKnown (soSetFlags op)) SET_OPTIONS_UNKNOWN_FLAG) (\<lambda>_.
     bindO (checkO (flagsKnown (soClearFlags op)) SET_OPTIONS_UNKNOWN_FLAG) (\<lambda>_.
     bindO (checkO (case (soSetFlags op, soClearFlags op) of (Some s, Some c) \<Rightarrow> s AND c = 0 | _ \<Rightarrow> True)
              SET_OPTIONS_BAD_FLAGS) (\<lambda>_.
     bindO (checkO (byteSized (soMasterWeight op)) SET_OPTIONS_THRESHOLD_OUT_OF_RANGE) (\<lambda>_.
     bindO (checkO (byteSized (soLowThreshold op)) SET_OPTIONS_THRESHOLD_OUT_OF_RANGE) (\<lambda>_.
     bindO (checkO (byteSized (soMedThreshold op)) SET_OPTIONS_THRESHOLD_OUT_OF_RANGE) (\<lambda>_.
     bindO (checkO (byteSized (soHighThreshold op)) SET_OPTIONS_THRESHOLD_OUT_OF_RANGE) (\<lambda>_.
     bindO (checkO (case soSigner op of None \<Rightarrow> True | Some s \<Rightarrow> signerValid version source s)
              SET_OPTIONS_BAD_SIGNER) (\<lambda>_.
     checkO (case soHomeDomain op of None \<Rightarrow> True | Some d \<Rightarrow> isString32Valid d)
       SET_OPTIONS_INVALID_HOME_DOMAIN))))))))"

section \<open>Merge\<close>

datatype AccountMergeResultCode =
    ACCOUNT_MERGE_MALFORMED
  | ACCOUNT_MERGE_NO_ACCOUNT
  | ACCOUNT_MERGE_IMMUTABLE_SET
  | ACCOUNT_MERGE_HAS_SUB_ENTRIES
  | ACCOUNT_MERGE_SEQNUM_TOO_FAR
  | ACCOUNT_MERGE_DEST_FULL
  | ACCOUNT_MERGE_IS_SPONSOR

text \<open>
  An account that a live handle already refers to cannot be loaded again: \<^verbatim>\<open>LedgerTxn::load\<close> throws.
\<close>

definition loadable :: "AccountID list \<Rightarrow> AccountID option \<Rightarrow> unit tx" where
  "loadable active i =
     (case i of
        None \<Rightarrow> Inr ()
      | Some a \<Rightarrow> if a \<in> set active then Inl (TxRuntimeError ''Key is active'') else Inr ())"

definition signerSponsor :: "nat \<Rightarrow> LedgerEntry \<Rightarrow> AccountID option tx" where
  "signerSponsor n le =
     bindE (accountOf le) (\<lambda>ae.
     if hasAccountEntryExtV2 ae then
       (let ids = signerSponsoringIDs (prepareAccountEntryExtensionV2 ae)
        in if n \<ge> length ids then Inl OutOfRange else Inr (ids ! n))
     else Inr None)"

text \<open>The \<^verbatim>\<open>while\<close> over the signers, of which there are as many as the first argument says.\<close>

primrec removeSigners :: "nat \<Rightarrow> AccountID list \<Rightarrow> LedgerState \<Rightarrow> LedgerEntry \<Rightarrow> (LedgerEntry \<times> LedgerState) tx" where
  "removeSigners 0 active ls le = Inr (le, ls)"
| "removeSigners (Suc n) active ls le =
     bindE (signerSponsor n le) (\<lambda>sponsor.
     bindE (loadable active sponsor) (\<lambda>_.
     bindE (removeSignerWithPossibleSponsorship ls n le) (\<lambda>(le', ls').
     removeSigners n active ls' le')))"

definition isSeqnumTooFar :: "LedgerHeader \<Rightarrow> AccountEntry \<Rightarrow> bool" where
  "isSeqnumTooFar header acc \<longleftrightarrow> seqNum acc \<ge> sint (getStartingSequenceNumber (ledgerSeq header))"

definition mergeSponsorChecks ::
    "AccountID \<Rightarrow> AccountID \<Rightarrow> LedgerState \<Rightarrow> LedgerEntry \<Rightarrow> (AccountMergeResultCode, LedgerEntry \<times> LedgerState) op" where
  "mergeSponsorChecks source dest ls src =
     (if ledgerVersion (lsHeader ls) \<ge> 14 then
        (if map_of (lsCounters ls) source \<noteq> None then failO ACCOUNT_MERGE_IS_SPONSOR
         else bindO (liftO (getNumSponsoring src)) (\<lambda>ing.
           if ing > 0 then failO ACCOUNT_MERGE_IS_SPONSOR
           else bindO (liftO (accountOf src)) (\<lambda>acc.
             liftO (removeSigners (length (signers acc)) [source, dest] ls src))))
      else okO (src, ls))"

definition mergeInto ::
    "AccountID \<Rightarrow> AccountID \<Rightarrow> int \<Rightarrow> LedgerEntry \<Rightarrow> LedgerEntry \<Rightarrow> LedgerState
     \<Rightarrow> (AccountMergeResultCode, int \<times> LedgerState) op" where
  "mergeInto source dest sourceBalance other src ls =
     bindO (liftO (addBalance (lsHeader ls) other sourceBalance)) (\<lambda>r.
     case r of
       None \<Rightarrow> failO ACCOUNT_MERGE_DEST_FULL
     | Some other' \<Rightarrow>
         bindO (liftO (loadable [dest] (entrySponsor src))) (\<lambda>_.
         bindO (liftO (removeEntryWithPossibleSponsorship ls src src)) (\<lambda>(_, _, ls').
         okO (sourceBalance, eraseEntry (AccountKey source) (storeEntry other' ls')))))"

definition mergeApply ::
    "AccountID \<Rightarrow> AccountID \<Rightarrow> LedgerState \<Rightarrow> (AccountMergeResultCode, int \<times> LedgerState) op" where
  "mergeApply source dest ls =
     (case loadEntry ls (AccountKey dest) of
        None \<Rightarrow> failO ACCOUNT_MERGE_NO_ACCOUNT
      | Some other \<Rightarrow>
          bindO (liftO (loadable [dest] (Some source))) (\<lambda>_.
          let version = ledgerVersion (lsHeader ls)
          in if version > 4 \<and> version < 8 \<and> loadEntry ls (AccountKey source) = None then
               failO ACCOUNT_MERGE_NO_ACCOUNT
             else
               bindO (liftO (current (loadEntry ls (AccountKey source)))) (\<lambda>src.
               bindO (liftO (accountOf src)) (\<lambda>acc.
               if isImmutableAuth acc then failO ACCOUNT_MERGE_IMMUTABLE_SET
               else if unat (numSubEntries acc) \<noteq> length (signers acc) then failO ACCOUNT_MERGE_HAS_SUB_ENTRIES
               else if version \<ge> 10 \<and> isSeqnumTooFar (lsHeader ls) acc then failO ACCOUNT_MERGE_SEQNUM_TOO_FAR
               else bindO (mergeSponsorChecks source dest ls src) (\<lambda>(src', ls').
                    mergeInto source dest (accBalance acc) other src' ls')))))"

definition mergeCheck :: "AccountID \<Rightarrow> AccountID \<Rightarrow> (AccountMergeResultCode, unit) op" where
  "mergeCheck source dest = checkO (source \<noteq> dest) ACCOUNT_MERGE_MALFORMED"

end
