(* ===== verification/ClaimableBalances.thy ===== *)
theory ClaimableBalances
  imports AccountOperations
begin

text \<open>
  \<^verbatim>\<open>CreateClaimableBalanceOpFrame.cpp\<close> and \<^verbatim>\<open>ClaimClaimableBalanceOpFrame.cpp\<close>: a balance set aside for the
  claimants whose predicates will hold. The identifier of a balance, a hash, is an argument.
\<close>

section \<open>Predicates\<close>

definition relativeToAbsolute :: "uint64 \<Rightarrow> int \<Rightarrow> int" where
  "relativeToAbsolute now relative =
     (if now > word_of_int (INT64_MAX - relative) then INT64_MAX
      else sint (now + word_of_int relative))"

text \<open>
  \<^verbatim>\<open>at\<close> throws where a list of predicates is too short; an absent negated predicate is a null pointer.
\<close>

fun updatePredicatesForApply :: "uint64 \<Rightarrow> ClaimPredicate \<Rightarrow> ClaimPredicate tx" where
  "updatePredicatesForApply now (CLAIM_PREDICATE_AND (p # q # ps)) =
     bindE (updatePredicatesForApply now p) (\<lambda>p'.
     bindE (updatePredicatesForApply now q) (\<lambda>q'.
     Inr (CLAIM_PREDICATE_AND (p' # q' # ps))))"
| "updatePredicatesForApply now (CLAIM_PREDICATE_AND _) = Inl OutOfRange"
| "updatePredicatesForApply now (CLAIM_PREDICATE_OR (p # q # ps)) =
     bindE (updatePredicatesForApply now p) (\<lambda>p'.
     bindE (updatePredicatesForApply now q) (\<lambda>q'.
     Inr (CLAIM_PREDICATE_OR (p' # q' # ps))))"
| "updatePredicatesForApply now (CLAIM_PREDICATE_OR _) = Inl OutOfRange"
| "updatePredicatesForApply now (CLAIM_PREDICATE_NOT (Some p)) =
     bindE (updatePredicatesForApply now p) (\<lambda>p'. Inr (CLAIM_PREDICATE_NOT (Some p')))"
| "updatePredicatesForApply now (CLAIM_PREDICATE_NOT None) = Inl AssertFailed"
| "updatePredicatesForApply now (CLAIM_PREDICATE_BEFORE_RELATIVE_TIME rel) =
     Inr (CLAIM_PREDICATE_BEFORE_ABSOLUTE_TIME (relativeToAbsolute now rel))"
| "updatePredicatesForApply now (CLAIM_PREDICATE_BEFORE_ABSOLUTE_TIME t) =
     Inr (CLAIM_PREDICATE_BEFORE_ABSOLUTE_TIME t)"
| "updatePredicatesForApply now CLAIM_PREDICATE_UNCONDITIONAL = Inr CLAIM_PREDICATE_UNCONDITIONAL"

text \<open>The check of a new predicate: two operands everywhere, no negative time and at most four levels.\<close>

fun validatePredicate :: "uint32 \<Rightarrow> ClaimPredicate \<Rightarrow> bool" where
  "validatePredicate depth CLAIM_PREDICATE_UNCONDITIONAL = (\<not> depth > 4)"
| "validatePredicate depth (CLAIM_PREDICATE_AND [p, q]) =
     (\<not> depth > 4 \<and> validatePredicate (depth + 1) p \<and> validatePredicate (depth + 1) q)"
| "validatePredicate depth (CLAIM_PREDICATE_AND _) = False"
| "validatePredicate depth (CLAIM_PREDICATE_OR [p, q]) =
     (\<not> depth > 4 \<and> validatePredicate (depth + 1) p \<and> validatePredicate (depth + 1) q)"
| "validatePredicate depth (CLAIM_PREDICATE_OR _) = False"
| "validatePredicate depth (CLAIM_PREDICATE_NOT (Some p)) = (\<not> depth > 4 \<and> validatePredicate (depth + 1) p)"
| "validatePredicate depth (CLAIM_PREDICATE_NOT None) = False"
| "validatePredicate depth (CLAIM_PREDICATE_BEFORE_ABSOLUTE_TIME t) = (\<not> depth > 4 \<and> t \<ge> 0)"
| "validatePredicate depth (CLAIM_PREDICATE_BEFORE_RELATIVE_TIME t) = (\<not> depth > 4 \<and> t \<ge> 0)"

text \<open>
  The check of a claim against the close time. The second operand of a conjunction or disjunction is
  looked up only when the first does not decide it.
\<close>

fun predicateHolds :: "uint64 \<Rightarrow> ClaimPredicate \<Rightarrow> bool tx" where
  "predicateHolds now CLAIM_PREDICATE_UNCONDITIONAL = Inr True"
| "predicateHolds now (CLAIM_PREDICATE_AND []) = Inl OutOfRange"
| "predicateHolds now (CLAIM_PREDICATE_AND [p]) =
     bindE (predicateHolds now p) (\<lambda>b. if b then Inl OutOfRange else Inr False)"
| "predicateHolds now (CLAIM_PREDICATE_AND (p # q # _)) =
     bindE (predicateHolds now p) (\<lambda>b. if b then predicateHolds now q else Inr False)"
| "predicateHolds now (CLAIM_PREDICATE_OR []) = Inl OutOfRange"
| "predicateHolds now (CLAIM_PREDICATE_OR [p]) =
     bindE (predicateHolds now p) (\<lambda>b. if b then Inr True else Inl OutOfRange)"
| "predicateHolds now (CLAIM_PREDICATE_OR (p # q # _)) =
     bindE (predicateHolds now p) (\<lambda>b. if b then Inr True else predicateHolds now q)"
| "predicateHolds now (CLAIM_PREDICATE_NOT (Some p)) =
     bindE (predicateHolds now p) (\<lambda>b. Inr (\<not> b))"
| "predicateHolds now (CLAIM_PREDICATE_NOT None) = Inl AssertFailed"
| "predicateHolds now (CLAIM_PREDICATE_BEFORE_ABSOLUTE_TIME t) = Inr (word_of_int t > now)"
| "predicateHolds now (CLAIM_PREDICATE_BEFORE_RELATIVE_TIME t) =
     Inl (TxRuntimeError ''Invalid ClaimPredicate'')"

section \<open>Creating a claimable balance\<close>

datatype CreateClaimableBalanceResultCode =
    CREATE_CLAIMABLE_BALANCE_MALFORMED
  | CREATE_CLAIMABLE_BALANCE_LOW_RESERVE
  | CREATE_CLAIMABLE_BALANCE_NO_TRUST
  | CREATE_CLAIMABLE_BALANCE_NOT_AUTHORIZED
  | CREATE_CLAIMABLE_BALANCE_UNDERFUNDED

text \<open>A change of a trust line, with the codes for a missing, an unauthorized and a full or empty line.\<close>

definition changeTrustLineBalance ::
    "'c \<Rightarrow> 'c \<Rightarrow> 'c \<Rightarrow> AccountID \<Rightarrow> Asset \<Rightarrow> int \<Rightarrow> LedgerState \<Rightarrow> ('c, LedgerState) op" where
  "changeTrustLineBalance noTrust notAuthorized outOfBounds account asset delta ls =
     bindO (liftO (loadTrustLine ls account asset)) (\<lambda>trustline.
     case trustline of
       None \<Rightarrow> failO noTrust
     | Some w \<Rightarrow>
         bindO (liftO (lineIsAuthorized w)) (\<lambda>auth.
         if \<not> auth then failO notAuthorized
         else bindO (liftO (lineAddBalance (lsHeader ls) w delta)) (\<lambda>r.
           case r of None \<Rightarrow> failO outOfBounds | Some w' \<Rightarrow> okO (storeTrustLine w' ls))))"

definition deductForClaim :: "AccountID \<Rightarrow> Asset \<Rightarrow> int \<Rightarrow> LedgerState \<Rightarrow> (CreateClaimableBalanceResultCode, LedgerState) op" where
  "deductForClaim source asset amount ls =
     (if asset = ASSET_TYPE_NATIVE then payFrom CREATE_CLAIMABLE_BALANCE_UNDERFUNDED source amount ls
      else changeTrustLineBalance CREATE_CLAIMABLE_BALANCE_NO_TRUST CREATE_CLAIMABLE_BALANCE_NOT_AUTHORIZED
             CREATE_CLAIMABLE_BALANCE_UNDERFUNDED source asset (- amount) ls)"

fun updateClaimants :: "uint64 \<Rightarrow> Claimant list \<Rightarrow> Claimant list tx" where
  "updateClaimants now [] = Inr []"
| "updateClaimants now (c # cs) =
     bindE (updatePredicatesForApply now (predicate c)) (\<lambda>p.
     bindE (updateClaimants now cs) (\<lambda>cs'.
     Inr (c\<lparr>predicate := p\<rparr> # cs')))"

definition claimOutcome :: "SponsorshipResult \<Rightarrow> (CreateClaimableBalanceResultCode, unit) op" where
  "claimOutcome res =
     (case res of
        SUCCESS \<Rightarrow> okO ()
      | LOW_RESERVE \<Rightarrow> failO CREATE_CLAIMABLE_BALANCE_LOW_RESERVE
      | TOO_MANY_SPONSORING \<Rightarrow> failWith opTOO_MANY_SPONSORING
      | _ \<Rightarrow> Inl (TxRuntimeError ''Unexpected result from canEstablishEntrySponsorship''))"

definition createClaimableBalanceApply ::
    "Hash \<Rightarrow> AccountID \<Rightarrow> Asset \<Rightarrow> int \<Rightarrow> Claimant list \<Rightarrow> LedgerState
     \<Rightarrow> (CreateClaimableBalanceResultCode, LedgerState) op" where
  "createClaimableBalanceApply newID source asset amount cs ls =
     bindO (deductForClaim source asset amount ls) (\<lambda>ls1.
     bindO (liftO (updateClaimants (closeTime (lsHeader ls1)) cs)) (\<lambda>cs'.
     bindO (liftO (current (loadEntry ls1 (AccountKey source)))) (\<lambda>acc.
     bindO (liftO (createEntryWithPossibleSponsorship ls1
              (newLedgerEntry (CLAIMABLE_BALANCE \<lparr>balanceID = newID, claimants = cs', cbAsset = asset,
                 cbAmount = amount\<rparr>)) acc)) (\<lambda>(res, le', acc', ls2).
     bindO (claimOutcome res) (\<lambda>_.
     liftO (createEntry le' (storeEntry acc' ls2)))))))"

definition createClaimableBalanceCheck ::
    "Asset \<Rightarrow> int \<Rightarrow> Claimant list \<Rightarrow> (CreateClaimableBalanceResultCode, unit) op" where
  "createClaimableBalanceCheck asset amount cs =
     bindO (checkO (\<not> (\<not> isAssetValid asset \<or> amount \<le> 0 \<or> cs = [])) CREATE_CLAIMABLE_BALANCE_MALFORMED) (\<lambda>_.
     bindO (checkO (distinct (map destination cs)) CREATE_CLAIMABLE_BALANCE_MALFORMED) (\<lambda>_.
     checkO (list_all (\<lambda>c. validatePredicate 1 (predicate c)) cs) CREATE_CLAIMABLE_BALANCE_MALFORMED))"

section \<open>Claiming\<close>

datatype ClaimClaimableBalanceResultCode =
    CLAIM_CLAIMABLE_BALANCE_DOES_NOT_EXIST
  | CLAIM_CLAIMABLE_BALANCE_CANNOT_CLAIM
  | CLAIM_CLAIMABLE_BALANCE_LINE_FULL
  | CLAIM_CLAIMABLE_BALANCE_NO_TRUST
  | CLAIM_CLAIMABLE_BALANCE_NOT_AUTHORIZED

definition claimableBalanceOf :: "LedgerEntry \<Rightarrow> ClaimableBalanceEntry tx" where
  "claimableBalanceOf le = (case ledgerData le of CLAIMABLE_BALANCE cb \<Rightarrow> Inr cb | _ \<Rightarrow> Inl WrongUnion)"

definition canClaim :: "uint64 \<Rightarrow> AccountID \<Rightarrow> ClaimableBalanceEntry \<Rightarrow> bool tx" where
  "canClaim now source cb =
     (case find (\<lambda>c. destination c = source) (claimants cb) of
        None \<Rightarrow> Inr False
      | Some c \<Rightarrow> predicateHolds now (predicate c))"

definition creditClaim ::
    "AccountID \<Rightarrow> Asset \<Rightarrow> int \<Rightarrow> LedgerState \<Rightarrow> (ClaimClaimableBalanceResultCode, LedgerState) op" where
  "creditClaim source asset amount ls =
     (if asset = ASSET_TYPE_NATIVE then
        bindO (liftO (current (loadEntry ls (AccountKey source)))) (\<lambda>acc.
        bindO (liftO (addBalance (lsHeader ls) acc amount)) (\<lambda>r.
        case r of None \<Rightarrow> failO CLAIM_CLAIMABLE_BALANCE_LINE_FULL | Some acc' \<Rightarrow> okO (storeEntry acc' ls)))
      else changeTrustLineBalance CLAIM_CLAIMABLE_BALANCE_NO_TRUST CLAIM_CLAIMABLE_BALANCE_NOT_AUTHORIZED
             CLAIM_CLAIMABLE_BALANCE_LINE_FULL source asset amount ls)"

definition claimClaimableBalanceApply ::
    "AccountID \<Rightarrow> Hash \<Rightarrow> LedgerState \<Rightarrow> (ClaimClaimableBalanceResultCode, LedgerState) op" where
  "claimClaimableBalanceApply source b ls =
     (case loadEntry ls (ClaimableBalanceKey b) of
        None \<Rightarrow> failO CLAIM_CLAIMABLE_BALANCE_DOES_NOT_EXIST
      | Some le \<Rightarrow>
          bindO (liftO (claimableBalanceOf le)) (\<lambda>cb.
          bindO (liftO (canClaim (closeTime (lsHeader ls)) source cb)) (\<lambda>ok.
          if \<not> ok then failO CLAIM_CLAIMABLE_BALANCE_CANNOT_CLAIM
          else bindO (creditClaim source (cbAsset cb) (cbAmount cb) ls) (\<lambda>ls1.
               removeOwnedEntry source le ls1))))"

section \<open>Sponsoring future reserves\<close>

text \<open>
  \<^verbatim>\<open>BeginSponsoringFutureReservesOpFrame.cpp\<close> and \<^verbatim>\<open>EndSponsoringFutureReservesOpFrame.cpp\<close>.
\<close>

datatype BeginSponsoringResultCode =
    BEGIN_SPONSORING_FUTURE_RESERVES_MALFORMED
  | BEGIN_SPONSORING_FUTURE_RESERVES_ALREADY_SPONSORED
  | BEGIN_SPONSORING_FUTURE_RESERVES_RECURSIVE

datatype EndSponsoringResultCode = END_SPONSORING_FUTURE_RESERVES_NOT_SPONSORED

definition loadSponsorshipCounter :: "LedgerState \<Rightarrow> AccountID \<Rightarrow> int option" where
  "loadSponsorshipCounter ls sponsoringID = map_of (lsCounters ls) sponsoringID"

definition createSponsorship :: "AccountID \<Rightarrow> AccountID \<Rightarrow> LedgerState \<Rightarrow> LedgerState" where
  "createSponsorship sponsored source ls =
     ls\<lparr>lsSponsorships := putAssoc sponsored source (lsSponsorships ls)\<rparr>"

definition createSponsorshipCounter :: "AccountID \<Rightarrow> LedgerState \<Rightarrow> LedgerState" where
  "createSponsorshipCounter source ls = ls\<lparr>lsCounters := putAssoc source 1 (lsCounters ls)\<rparr>"

definition beginSponsoringApply ::
    "AccountID \<Rightarrow> AccountID \<Rightarrow> LedgerState \<Rightarrow> (BeginSponsoringResultCode, LedgerState) op" where
  "beginSponsoringApply source sponsored ls =
     (if loadSponsorship ls sponsored \<noteq> None then failO BEGIN_SPONSORING_FUTURE_RESERVES_ALREADY_SPONSORED
      else if loadSponsorship ls source \<noteq> None then failO BEGIN_SPONSORING_FUTURE_RESERVES_RECURSIVE
      else if loadSponsorshipCounter ls sponsored \<noteq> None then failO BEGIN_SPONSORING_FUTURE_RESERVES_RECURSIVE
      else
        let ls1 = createSponsorship sponsored source ls
        in case loadSponsorshipCounter ls1 source of
             Some n \<Rightarrow> okO (ls1\<lparr>lsCounters := putAssoc source (n + 1) (lsCounters ls1)\<rparr>)
           | None \<Rightarrow> okO (createSponsorshipCounter source ls1))"

definition beginSponsoringCheck :: "AccountID \<Rightarrow> AccountID \<Rightarrow> (BeginSponsoringResultCode, unit) op" where
  "beginSponsoringCheck source sponsored =
     checkO (sponsored \<noteq> source) BEGIN_SPONSORING_FUTURE_RESERVES_MALFORMED"

definition endSponsoringApply :: "AccountID \<Rightarrow> LedgerState \<Rightarrow> (EndSponsoringResultCode, LedgerState) op" where
  "endSponsoringApply source ls =
     (case loadSponsorship ls source of
        None \<Rightarrow> failO END_SPONSORING_FUTURE_RESERVES_NOT_SPONSORED
      | Some sponsoringID \<Rightarrow>
          (case loadSponsorshipCounter ls sponsoringID of
             None \<Rightarrow> Inl (TxRuntimeError ''no sponsorship counter'')
           | Some n \<Rightarrow>
               if n = 0 then Inl (TxRuntimeError ''bad sponsorship counter'')
               else okO (ls\<lparr>lsCounters := (if n - 1 = 0 then eraseAssoc sponsoringID (lsCounters ls)
                                          else putAssoc sponsoringID (n - 1) (lsCounters ls)),
                            lsSponsorships := eraseAssoc source (lsSponsorships ls)\<rparr>)))"

end
