(* ===== verification/PathPayments.thy ===== *)
theory PathPayments
  imports ClaimableBalances
begin

text \<open>
  \<^verbatim>\<open>PathPaymentOpFrameBase.cpp\<close>, the two path payments built on it and \<^verbatim>\<open>PaymentOpFrame.cpp\<close>. The result
  codes of the two path payments differ in name only: a code here is the virtual setter of the base
  class that sets it, \<open>PATH_PAYMENT_CONSTRAINT_NOT_MET\<close> is \<^verbatim>\<open>OVER_SENDMAX\<close> or \<^verbatim>\<open>UNDER_DESTMIN\<close>.
\<close>

section \<open>The base class\<close>

datatype PathPaymentResultCode =
    PATH_PAYMENT_MALFORMED
  | PATH_PAYMENT_UNDERFUNDED
  | PATH_PAYMENT_SRC_NO_TRUST
  | PATH_PAYMENT_SRC_NOT_AUTHORIZED
  | PATH_PAYMENT_NO_DESTINATION
  | PATH_PAYMENT_NO_TRUST
  | PATH_PAYMENT_NOT_AUTHORIZED
  | PATH_PAYMENT_LINE_FULL
  | PATH_PAYMENT_NO_ISSUER Asset
  | PATH_PAYMENT_TOO_FEW_OFFERS
  | PATH_PAYMENT_OFFER_CROSS_SELF
  | PATH_PAYMENT_CONSTRAINT_NOT_MET

definition MAX_OFFERS_TO_CROSS :: int where "MAX_OFFERS_TO_CROSS = 1000"

definition checkIssuer :: "LedgerState \<Rightarrow> Asset \<Rightarrow> (PathPaymentResultCode, unit) op" where
  "checkIssuer ls asset =
     (if asset \<noteq> ASSET_TYPE_NATIVE \<and> ledgerVersion (lsHeader ls) < 13 then
        bindO (liftO (getIssuer asset)) (\<lambda>issuer.
        checkO (loadEntry ls (AccountKey issuer) \<noteq> None) (PATH_PAYMENT_NO_ISSUER asset))
      else okO ())"

text \<open>The filter of \<^verbatim>\<open>convertWithOffers\<close>: stop at an offer of the source account.\<close>

definition crossSelfFilter :: "AccountID \<Rightarrow> LedgerEntry \<Rightarrow> OfferFilterResult" where
  "crossSelfFilter source le =
     (case ledgerData le of OFFER oe \<Rightarrow> if sellerID oe = source then eStop else eKeep | _ \<Rightarrow> eKeep)"

text \<open>\<open>checkTransfer\<close> is the virtual method of the two kinds of payment.\<close>

definition convert ::
    "(int \<Rightarrow> int \<Rightarrow> int \<Rightarrow> int \<Rightarrow> bool) \<Rightarrow> AccountID \<Rightarrow> LedgerState \<Rightarrow> int \<Rightarrow> Asset \<Rightarrow> int \<Rightarrow> Asset \<Rightarrow> int
     \<Rightarrow> RoundingType \<Rightarrow> (PathPaymentResultCode, Conversion) op" where
  "convert checkTransfer source ls maxOffersToCross sendAsset maxSend recvAsset maxRecv round =
     bindO (liftO (assertTx (sendAsset \<noteq> recvAsset))) (\<lambda>_.
     bindO (liftO (convertWithOffers ls sendAsset maxSend recvAsset maxRecv round
                     (Some (crossSelfFilter source)) maxOffersToCross)) (\<lambda>c.
     if convSheepSend c < 0 \<or> convWheatReceived c < 0 then
       Inl (TxRuntimeError ''amount transferred out of bounds'')
     else case convResult c of
       eFilterStop \<Rightarrow> failO PATH_PAYMENT_OFFER_CROSS_SELF
     | eOK \<Rightarrow>
         if checkTransfer maxSend (convSheepSend c) maxRecv (convWheatReceived c) then okO c
         else failO PATH_PAYMENT_TOO_FEW_OFFERS
     | ePartial \<Rightarrow> failO PATH_PAYMENT_TOO_FEW_OFFERS
     | eCrossedTooMany \<Rightarrow> failWith opEXCEEDED_WORK_LIMIT))"

definition shouldBypassIssuerCheck :: "Asset list \<Rightarrow> Asset \<Rightarrow> Asset \<Rightarrow> AccountID \<Rightarrow> bool" where
  "shouldBypassIssuerCheck path sourceAsset destAsset dest \<longleftrightarrow>
     destAsset \<noteq> ASSET_TYPE_NATIVE \<and> path = [] \<and> sourceAsset = destAsset \<and> getIssuer destAsset = Inr dest"

definition updateSourceBalance ::
    "AccountID \<Rightarrow> Asset \<Rightarrow> LedgerState \<Rightarrow> int \<Rightarrow> bool \<Rightarrow> bool \<Rightarrow> (PathPaymentResultCode, LedgerState) op" where
  "updateSourceBalance source asset ls amount bypassIssuerCheck doesSourceAccountExist =
     (if asset = ASSET_TYPE_NATIVE then
        (if ledgerVersion (lsHeader ls) > 7 \<and> loadEntry ls (AccountKey source) = None then
           failO PATH_PAYMENT_MALFORMED
         else
           bindO (liftO (current (loadEntry ls (AccountKey source)))) (\<lambda>acc.
           bindO (liftO (getAvailableBalance (lsHeader ls) acc)) (\<lambda>available.
           if amount > available then failO PATH_PAYMENT_UNDERFUNDED
           else if \<not> doesSourceAccountExist then
             Inl (TxRuntimeError ''modifying account that does not exist'')
           else bindO (liftO (addBalance (lsHeader ls) acc (- amount))) (\<lambda>r.
             case r of None \<Rightarrow> Inl AssertFailed | Some acc' \<Rightarrow> okO (storeEntry acc' ls)))))
      else
        bindO (if bypassIssuerCheck then okO () else checkIssuer ls asset) (\<lambda>_.
        changeTrustLineBalance PATH_PAYMENT_SRC_NO_TRUST PATH_PAYMENT_SRC_NOT_AUTHORIZED
          PATH_PAYMENT_UNDERFUNDED source asset (- amount) ls))"

definition updateDestBalance ::
    "AccountID \<Rightarrow> Asset \<Rightarrow> LedgerState \<Rightarrow> int \<Rightarrow> bool \<Rightarrow> (PathPaymentResultCode, LedgerState) op" where
  "updateDestBalance dest asset ls amount bypassIssuerCheck =
     (if asset = ASSET_TYPE_NATIVE then
        bindO (liftO (current (loadEntry ls (AccountKey dest)))) (\<lambda>acc.
        bindO (liftO (addBalance (lsHeader ls) acc amount)) (\<lambda>r.
        case r of
          None \<Rightarrow> if ledgerVersion (lsHeader ls) \<ge> 11 then failO PATH_PAYMENT_LINE_FULL
                  else failO PATH_PAYMENT_MALFORMED
        | Some acc' \<Rightarrow> okO (storeEntry acc' ls)))
      else
        bindO (if bypassIssuerCheck then okO () else checkIssuer ls asset) (\<lambda>_.
        changeTrustLineBalance PATH_PAYMENT_NO_TRUST PATH_PAYMENT_NOT_AUTHORIZED
          PATH_PAYMENT_LINE_FULL dest asset amount ls))"

text \<open>What a successful path payment reports: the offers taken and the amount delivered.\<close>

record PathPaymentSuccess =
  ppOffers :: "ClaimOfferAtom list"
  ppLast :: int
  ppState :: LedgerState

section \<open>Strict receive\<close>

record PathPaymentStrictReceiveOp =
  sendAsset :: Asset
  sendMax :: int
  ppDestination :: AccountID
  destAsset :: Asset
  destAmount :: int
  receivePath :: "Asset list"

definition checkTransferReceive :: "int \<Rightarrow> int \<Rightarrow> int \<Rightarrow> int \<Rightarrow> bool" where
  "checkTransferReceive maxSend amountSend maxRecv amountRecv \<longleftrightarrow> maxRecv = amountRecv"

text \<open>The walk from the destination to the source: what remains of the path, the asset and amount needed.\<close>

fun walkReceive ::
    "AccountID \<Rightarrow> Asset list \<Rightarrow> Asset \<Rightarrow> int \<Rightarrow> ClaimOfferAtom list \<Rightarrow> LedgerState
     \<Rightarrow> (PathPaymentResultCode, int \<times> ClaimOfferAtom list \<times> LedgerState) op" where
  "walkReceive source [] recvAsset maxAmountRecv offers ls = okO (maxAmountRecv, offers, ls)"
| "walkReceive source (send # path) recvAsset maxAmountRecv offers ls =
     (if recvAsset = send then walkReceive source path recvAsset maxAmountRecv offers ls
      else
        bindO (checkIssuer ls send) (\<lambda>_.
        let maxOffersToCross =
              (if ledgerVersion (lsHeader ls) \<ge> FIRST_PROTOCOL_SUPPORTING_OPERATION_LIMITS
               then MAX_OFFERS_TO_CROSS - int (length offers) else INT64_MAX)
        in bindO (convert checkTransferReceive source ls maxOffersToCross send INT64_MAX recvAsset maxAmountRecv
                    PATH_PAYMENT_STRICT_RECEIVE) (\<lambda>c.
           walkReceive source path send (convSheepSend c) (convTrail c @ offers) (convState c))))"

definition pathPaymentStrictReceiveApply ::
    "AccountID \<Rightarrow> PathPaymentStrictReceiveOp \<Rightarrow> LedgerState \<Rightarrow> (PathPaymentResultCode, PathPaymentSuccess) op" where
  "pathPaymentStrictReceiveApply source op ls =
     (let doesSourceAccountExist =
            (ledgerVersion (lsHeader ls) < 8 \<longrightarrow> loadEntry ls (AccountKey source) \<noteq> None);
          bypassIssuerCheck =
            shouldBypassIssuerCheck (receivePath op) (sendAsset op) (destAsset op) (ppDestination op)
      in if \<not> bypassIssuerCheck \<and> loadEntry ls (AccountKey (ppDestination op)) = None then
           failO PATH_PAYMENT_NO_DESTINATION
         else
           bindO (updateDestBalance (ppDestination op) (destAsset op) ls (destAmount op) bypassIssuerCheck) (\<lambda>ls1.
           bindO (walkReceive source (rev (receivePath op) @ [sendAsset op]) (destAsset op) (destAmount op) [] ls1)
             (\<lambda>(amount, offers, ls2).
           if amount > sendMax op then failO PATH_PAYMENT_CONSTRAINT_NOT_MET
           else bindO (updateSourceBalance source (sendAsset op) ls2 amount bypassIssuerCheck
                         doesSourceAccountExist) (\<lambda>ls3.
                okO \<lparr>ppOffers = offers, ppLast = destAmount op, ppState = ls3\<rparr>))))"

definition pathPaymentStrictReceiveCheck ::
    "PathPaymentStrictReceiveOp \<Rightarrow> (PathPaymentResultCode, unit) op" where
  "pathPaymentStrictReceiveCheck op =
     bindO (checkO (\<not> (destAmount op \<le> 0 \<or> sendMax op \<le> 0)) PATH_PAYMENT_MALFORMED) (\<lambda>_.
     bindO (checkO (isAssetValid (sendAsset op) \<and> isAssetValid (destAsset op)) PATH_PAYMENT_MALFORMED) (\<lambda>_.
     checkO (list_all isAssetValid (receivePath op)) PATH_PAYMENT_MALFORMED))"

section \<open>Strict send\<close>

record PathPaymentStrictSendOp =
  ssSendAsset :: Asset
  ssSendAmount :: int
  ssDestination :: AccountID
  ssDestAsset :: Asset
  ssDestMin :: int
  ssPath :: "Asset list"

definition checkTransferSend :: "int \<Rightarrow> int \<Rightarrow> int \<Rightarrow> int \<Rightarrow> bool" where
  "checkTransferSend maxSend amountSend maxRecv amountRecv \<longleftrightarrow> maxSend = amountSend"

fun walkSend ::
    "AccountID \<Rightarrow> Asset list \<Rightarrow> Asset \<Rightarrow> int \<Rightarrow> ClaimOfferAtom list \<Rightarrow> LedgerState
     \<Rightarrow> (PathPaymentResultCode, int \<times> ClaimOfferAtom list \<times> LedgerState) op" where
  "walkSend source [] send maxAmountSend offers ls = okO (maxAmountSend, offers, ls)"
| "walkSend source (recvAsset # path) send maxAmountSend offers ls =
     (if recvAsset = send then walkSend source path send maxAmountSend offers ls
      else
        bindO (checkIssuer ls recvAsset) (\<lambda>_.
        bindO (convert checkTransferSend source ls (MAX_OFFERS_TO_CROSS - int (length offers)) send maxAmountSend
                 recvAsset INT64_MAX PATH_PAYMENT_STRICT_SEND) (\<lambda>c.
        walkSend source path recvAsset (convWheatReceived c) (offers @ convTrail c) (convState c))))"

definition pathPaymentStrictSendApply ::
    "AccountID \<Rightarrow> PathPaymentStrictSendOp \<Rightarrow> LedgerState \<Rightarrow> (PathPaymentResultCode, PathPaymentSuccess) op" where
  "pathPaymentStrictSendApply source op ls =
     (let bypassIssuerCheck =
            shouldBypassIssuerCheck (ssPath op) (ssSendAsset op) (ssDestAsset op) (ssDestination op)
      in if \<not> bypassIssuerCheck \<and> loadEntry ls (AccountKey (ssDestination op)) = None then
           failO PATH_PAYMENT_NO_DESTINATION
         else
           bindO (updateSourceBalance source (ssSendAsset op) ls (ssSendAmount op) bypassIssuerCheck True) (\<lambda>ls1.
           bindO (walkSend source (ssPath op @ [ssDestAsset op]) (ssSendAsset op) (ssSendAmount op) [] ls1)
             (\<lambda>(amount, offers, ls2).
           if amount < ssDestMin op then failO PATH_PAYMENT_CONSTRAINT_NOT_MET
           else bindO (updateDestBalance (ssDestination op) (ssDestAsset op) ls2 amount bypassIssuerCheck) (\<lambda>ls3.
                okO \<lparr>ppOffers = offers, ppLast = amount, ppState = ls3\<rparr>))))"

definition pathPaymentStrictSendCheck ::
    "PathPaymentStrictSendOp \<Rightarrow> (PathPaymentResultCode, unit) op" where
  "pathPaymentStrictSendCheck op =
     bindO (checkO (\<not> (ssSendAmount op \<le> 0 \<or> ssDestMin op \<le> 0)) PATH_PAYMENT_MALFORMED) (\<lambda>_.
     bindO (checkO (isAssetValid (ssSendAsset op) \<and> isAssetValid (ssDestAsset op)) PATH_PAYMENT_MALFORMED) (\<lambda>_.
     checkO (list_all isAssetValid (ssPath op)) PATH_PAYMENT_MALFORMED))"

section \<open>Payment\<close>

datatype PaymentResultCode =
    PAYMENT_MALFORMED
  | PAYMENT_UNDERFUNDED
  | PAYMENT_SRC_NO_TRUST
  | PAYMENT_SRC_NOT_AUTHORIZED
  | PAYMENT_NO_DESTINATION
  | PAYMENT_NO_TRUST
  | PAYMENT_NOT_AUTHORIZED
  | PAYMENT_LINE_FULL
  | PAYMENT_NO_ISSUER

definition paymentCode :: "PathPaymentResultCode OpFailure \<Rightarrow> PaymentResultCode tx" where
  "paymentCode e =
     (case e of
        opINNER PATH_PAYMENT_UNDERFUNDED \<Rightarrow> Inr PAYMENT_UNDERFUNDED
      | opINNER PATH_PAYMENT_SRC_NOT_AUTHORIZED \<Rightarrow> Inr PAYMENT_SRC_NOT_AUTHORIZED
      | opINNER PATH_PAYMENT_SRC_NO_TRUST \<Rightarrow> Inr PAYMENT_SRC_NO_TRUST
      | opINNER PATH_PAYMENT_NO_DESTINATION \<Rightarrow> Inr PAYMENT_NO_DESTINATION
      | opINNER PATH_PAYMENT_NO_TRUST \<Rightarrow> Inr PAYMENT_NO_TRUST
      | opINNER PATH_PAYMENT_NOT_AUTHORIZED \<Rightarrow> Inr PAYMENT_NOT_AUTHORIZED
      | opINNER PATH_PAYMENT_LINE_FULL \<Rightarrow> Inr PAYMENT_LINE_FULL
      | opINNER (PATH_PAYMENT_NO_ISSUER _) \<Rightarrow> Inr PAYMENT_NO_ISSUER
      | _ \<Rightarrow> Inl (TxRuntimeError ''Unexpected error code from pathPaymentStrictReceive''))"

definition paymentAsPath :: "AccountID \<Rightarrow> Asset \<Rightarrow> int \<Rightarrow> PathPaymentStrictReceiveOp" where
  "paymentAsPath dest asset amount = \<lparr>sendAsset = asset, sendMax = amount, ppDestination = dest,
     destAsset = asset, destAmount = amount, receivePath = []\<rparr>"

definition paymentApply ::
    "AccountID \<Rightarrow> AccountID \<Rightarrow> Asset \<Rightarrow> int \<Rightarrow> LedgerState \<Rightarrow> (PaymentResultCode, LedgerState) op" where
  "paymentApply source dest asset amount ls =
     (if dest = source \<and> (ledgerVersion (lsHeader ls) > 2 \<longrightarrow> asset = ASSET_TYPE_NATIVE) then okO ls
      else
        let pp = paymentAsPath dest asset amount
        in bindE (bindO (pathPaymentStrictReceiveCheck pp) (\<lambda>_. pathPaymentStrictReceiveApply source pp ls)) (\<lambda>r.
           case r of
             Inl e \<Rightarrow> bindE (paymentCode e) failO
           | Inr s \<Rightarrow> okO (ppState s)))"

definition paymentCheck :: "Asset \<Rightarrow> int \<Rightarrow> (PaymentResultCode, unit) op" where
  "paymentCheck asset amount =
     bindO (checkO (\<not> amount \<le> 0) PAYMENT_MALFORMED) (\<lambda>_. checkO (isAssetValid asset) PAYMENT_MALFORMED)"

end
