(* ===== verification/ManageOffers.thy ===== *)
theory ManageOffers
  imports PathPayments
begin

text \<open>
  \<^verbatim>\<open>ManageOfferOpFrameBase.cpp\<close> with the three operations built on it: selling, buying and the passive offer.
  The result codes of the two families differ in name only: a code here is the virtual setter of the
  base class that sets it. The filter's assertion that an offer met is not the one being modified, which
  has been erased, is left out.
\<close>

section \<open>Prices\<close>

text \<open>\<^verbatim>\<open>operator>=\<close> and \<^verbatim>\<open>operator>\<close> on prices, by cross multiplication in 128 bits.\<close>

definition priceGe :: "Price \<Rightarrow> Price \<Rightarrow> bool" where
  "priceGe a b \<longleftrightarrow>
     (word_of_int (priceN a) * word_of_int (priceD b) :: uint128) \<ge> word_of_int (priceD a) * word_of_int (priceN b)"

definition priceGreater :: "Price \<Rightarrow> Price \<Rightarrow> bool" where
  "priceGreater a b \<longleftrightarrow>
     (word_of_int (priceN a) * word_of_int (priceD b) :: uint128) > word_of_int (priceD a) * word_of_int (priceN b)"

definition getInversePrice :: "Price \<Rightarrow> Price" where
  "getInversePrice p = \<lparr>priceN = priceD p, priceD = priceN p\<rparr>"

section \<open>The operation and its virtual methods\<close>

datatype OfferLimit = SellAmount int | BuyAmount int

record ManageOfferOp =
  moSheep :: Asset
  moWheat :: Asset
  moOfferID :: int
  moPrice :: Price
  moPassive :: bool
  moLimit :: OfferLimit

datatype ManageOfferResultCode =
    MANAGE_OFFER_MALFORMED
  | MANAGE_OFFER_SELL_NO_TRUST
  | MANAGE_OFFER_BUY_NO_TRUST
  | MANAGE_OFFER_SELL_NOT_AUTHORIZED
  | MANAGE_OFFER_BUY_NOT_AUTHORIZED
  | MANAGE_OFFER_LINE_FULL
  | MANAGE_OFFER_UNDERFUNDED
  | MANAGE_OFFER_CROSS_SELF
  | MANAGE_OFFER_SELL_NO_ISSUER
  | MANAGE_OFFER_BUY_NO_ISSUER
  | MANAGE_OFFER_NOT_FOUND
  | MANAGE_OFFER_LOW_RESERVE

datatype OfferEffect = MANAGE_OFFER_CREATED OfferEntry | MANAGE_OFFER_UPDATED OfferEntry | MANAGE_OFFER_DELETED

record ManageOfferSuccess =
  offersClaimed :: "ClaimOfferAtom list"
  offerEffect :: OfferEffect
  moState :: LedgerState

definition manageSellOffer :: "Asset \<Rightarrow> Asset \<Rightarrow> int \<Rightarrow> Price \<Rightarrow> int \<Rightarrow> ManageOfferOp" where
  "manageSellOffer sell buy amount price off = \<lparr>moSheep = sell, moWheat = buy, moOfferID = off,
     moPrice = price, moPassive = False, moLimit = SellAmount amount\<rparr>"

definition manageBuyOffer :: "Asset \<Rightarrow> Asset \<Rightarrow> int \<Rightarrow> Price \<Rightarrow> int \<Rightarrow> ManageOfferOp" where
  "manageBuyOffer sell buy amount price off = \<lparr>moSheep = sell, moWheat = buy, moOfferID = off,
     moPrice = getInversePrice price, moPassive = False, moLimit = BuyAmount amount\<rparr>"

definition createPassiveSellOffer :: "Asset \<Rightarrow> Asset \<Rightarrow> int \<Rightarrow> Price \<Rightarrow> ManageOfferOp" where
  "createPassiveSellOffer sell buy amount price = \<lparr>moSheep = sell, moWheat = buy, moOfferID = 0,
     moPrice = price, moPassive = True, moLimit = SellAmount amount\<rparr>"

definition isAmountValid :: "OfferLimit \<Rightarrow> bool" where
  "isAmountValid l = (case l of SellAmount a \<Rightarrow> a \<ge> 0 | BuyAmount a \<Rightarrow> a \<ge> 0)"

definition isDeleteOffer :: "OfferLimit \<Rightarrow> bool" where
  "isDeleteOffer l = (case l of SellAmount a \<Rightarrow> a = 0 | BuyAmount a \<Rightarrow> a = 0)"

definition newOfferExchange :: "ManageOfferOp \<Rightarrow> ExchangeResultV10 tx" where
  "newOfferExchange op =
     (case moLimit op of
        SellAmount a \<Rightarrow>
          exchangeV10WithoutPriceErrorThresholds (moPrice op) a INT64_MAX INT64_MAX INT64_MAX NORMAL
      | BuyAmount a \<Rightarrow>
          exchangeV10WithoutPriceErrorThresholds (moPrice op) INT64_MAX INT64_MAX INT64_MAX a NORMAL)"

definition newOfferBuyingLiabilities :: "ManageOfferOp \<Rightarrow> int tx" where
  "newOfferBuyingLiabilities op = bindE (newOfferExchange op) (\<lambda>res. Inr (sheepSend10 res))"

definition newOfferSellingLiabilities :: "ManageOfferOp \<Rightarrow> int tx" where
  "newOfferSellingLiabilities op = bindE (newOfferExchange op) (\<lambda>res. Inr (wheatReceived10 res))"

text \<open>The limits on the sheep to send and the wheat to receive, given what was sent and received.\<close>

definition applyOperationSpecificLimits :: "OfferLimit \<Rightarrow> int \<times> int \<Rightarrow> int \<Rightarrow> int \<Rightarrow> int \<times> int" where
  "applyOperationSpecificLimits l limits sheepSent wheatReceived =
     (case l of
        SellAmount a \<Rightarrow> (min (a - sheepSent) (fst limits), snd limits)
      | BuyAmount a \<Rightarrow> (fst limits, min (a - wheatReceived) (snd limits)))"

definition getExchangeParametersBeforeV10 :: "ManageOfferOp \<Rightarrow> int \<times> int \<Rightarrow> (int \<times> int) tx" where
  "getExchangeParametersBeforeV10 op limits =
     (case moLimit op of
        SellAmount a \<Rightarrow>
          bindE (numericTx (bigDivide_i64 (snd limits) (priceD (moPrice op)) (priceN (moPrice op)) ROUND_DOWN)) (\<lambda>q.
          let maxSheepBasedOnWheat = (case q of None \<Rightarrow> INT64_MAX | Some s \<Rightarrow> s)
          in Inr (min (min (fst limits) maxSheepBasedOnWheat) a, snd limits))
      | BuyAmount _ \<Rightarrow> Inl (TxRuntimeError ''ManageBuyOffer used before protocol version 10''))"

definition PASSIVE_FLAG :: uint32 where "PASSIVE_FLAG = 1"

definition buildOffer ::
    "AccountID \<Rightarrow> ManageOfferOp \<Rightarrow> int \<Rightarrow> uint32 \<Rightarrow> AccountID option option \<Rightarrow> LedgerEntry" where
  "buildOffer source op amount flags extension =
     \<lparr>lastModifiedLedgerSeq = 0,
      ledgerData = OFFER \<lparr>sellerID = source, offerID = moOfferID op, selling = moSheep op, buying = moWheat op,
        offerAmount = amount, offerPrice = moPrice op, offerFlags = flags\<rparr>,
      ledgerExt = extension\<rparr>"

section \<open>Checks before crossing\<close>

definition checkIssuerExists :: "LedgerState \<Rightarrow> Asset \<Rightarrow> ManageOfferResultCode \<Rightarrow> (ManageOfferResultCode, unit) op" where
  "checkIssuerExists ls asset noIssuer =
     (if ledgerVersion (lsHeader ls) < 13 then
        bindO (liftO (getIssuer asset)) (\<lambda>issuer. checkO (loadEntry ls (AccountKey issuer) \<noteq> None) noIssuer)
      else okO ())"

definition checkSheepLine :: "AccountID \<Rightarrow> Asset \<Rightarrow> LedgerState \<Rightarrow> (ManageOfferResultCode, unit) op" where
  "checkSheepLine source sheep ls =
     bindO (liftO (loadTrustLine ls source sheep)) (\<lambda>line.
     bindO (checkIssuerExists ls sheep MANAGE_OFFER_SELL_NO_ISSUER) (\<lambda>_.
     case line of
       None \<Rightarrow> failO MANAGE_OFFER_SELL_NO_TRUST
     | Some w \<Rightarrow>
         bindO (liftO (lineGetBalance w)) (\<lambda>balance.
         if balance = 0 then failO MANAGE_OFFER_UNDERFUNDED
         else bindO (liftO (lineIsAuthorized w)) (\<lambda>auth.
              checkO auth MANAGE_OFFER_SELL_NOT_AUTHORIZED))))"

definition checkWheatLine :: "AccountID \<Rightarrow> Asset \<Rightarrow> LedgerState \<Rightarrow> (ManageOfferResultCode, unit) op" where
  "checkWheatLine source wheat ls =
     bindO (liftO (loadTrustLine ls source wheat)) (\<lambda>line.
     bindO (checkIssuerExists ls wheat MANAGE_OFFER_BUY_NO_ISSUER) (\<lambda>_.
     case line of
       None \<Rightarrow> failO MANAGE_OFFER_BUY_NO_TRUST
     | Some w \<Rightarrow>
         bindO (liftO (lineIsAuthorized w)) (\<lambda>auth. checkO auth MANAGE_OFFER_BUY_NOT_AUTHORIZED)))"

definition checkOfferValid :: "AccountID \<Rightarrow> ManageOfferOp \<Rightarrow> LedgerState \<Rightarrow> (ManageOfferResultCode, unit) op" where
  "checkOfferValid source op ls =
     (if isDeleteOffer (moLimit op) then okO ()
      else
        bindO (if moSheep op \<noteq> ASSET_TYPE_NATIVE then checkSheepLine source (moSheep op) ls else okO ()) (\<lambda>_.
        if moWheat op \<noteq> ASSET_TYPE_NATIVE then checkWheatLine source (moWheat op) ls else okO ()))"

definition unsponsoredOutcome :: "SponsorshipResult \<Rightarrow> (ManageOfferResultCode, unit) op" where
  "unsponsoredOutcome res =
     (case res of
        SUCCESS \<Rightarrow> okO ()
      | LOW_RESERVE \<Rightarrow> failO MANAGE_OFFER_LOW_RESERVE
      | TOO_MANY_SUBENTRIES \<Rightarrow> failWith opTOO_MANY_SUBENTRIES
      | _ \<Rightarrow> Inl (TxRuntimeError ''Unexpected result from createEntryWithPossibleSponsorship''))"

text \<open>An offer of the source account without a sponsor: the check, then the account with one more entry.\<close>

definition countNewOffer ::
    "LedgerHeader \<Rightarrow> LedgerEntry \<Rightarrow> LedgerEntry \<Rightarrow> (ManageOfferResultCode, LedgerEntry) op" where
  "countNewOffer header le acc =
     bindO (liftO (canCreateEntryWithoutSponsorship header le acc)) (\<lambda>res.
     bindO (unsponsoredOutcome res) (\<lambda>_. liftO (createEntryWithoutSponsorship le acc)))"

definition reserveBeforeV14 ::
    "AccountID \<Rightarrow> ManageOfferOp \<Rightarrow> LedgerState \<Rightarrow> bool \<Rightarrow> LedgerEntry \<Rightarrow> (ManageOfferResultCode, LedgerEntry) op" where
  "reserveBeforeV14 source op ls creatingNewOffer acc =
     (let version = ledgerVersion (lsHeader ls)
      in if version < 14 \<and> creatingNewOffer
            \<and> (version \<ge> 10 \<or> moSheep op = ASSET_TYPE_NATIVE \<and> version > 8)
         then countNewOffer (lsHeader ls) (buildOffer source op 0 0 None) acc
         else okO acc)"

text \<open>Whether the liabilities of the new offer fit, and the limits that the amount of the operation sets.\<close>

definition limitsSinceV10 ::
    "ManageOfferOp \<Rightarrow> LedgerHeader \<Rightarrow> LedgerEntry \<Rightarrow> TrustLineWrapper option \<Rightarrow> TrustLineWrapper option
     \<Rightarrow> int \<times> int \<Rightarrow> (ManageOfferResultCode, int \<times> int) op" where
  "limitsSinceV10 op header acc sheepLine wheatLine limits =
     bindO (liftO (if moWheat op = ASSET_TYPE_NATIVE then getMaxAmountReceive header acc
                   else case wheatLine of
                     None \<Rightarrow> Inl (TxRuntimeError ''TrustLineWrapper not active'')
                   | Some w \<Rightarrow> lineGetMaxAmountReceive header w)) (\<lambda>availableLimit.
     bindO (liftO (newOfferBuyingLiabilities op)) (\<lambda>buyingLiab.
     if availableLimit < buyingLiab then failO MANAGE_OFFER_LINE_FULL
     else
     bindO (liftO (if moSheep op = ASSET_TYPE_NATIVE then getAvailableBalance header acc
                   else case sheepLine of
                     None \<Rightarrow> Inl (TxRuntimeError ''TrustLineWrapper not active'')
                   | Some w \<Rightarrow> lineGetAvailableBalance header w)) (\<lambda>availableBalance.
     bindO (liftO (newOfferSellingLiabilities op)) (\<lambda>sellingLiab.
     if availableBalance < sellingLiab then failO MANAGE_OFFER_UNDERFUNDED
     else okO (applyOperationSpecificLimits (moLimit op) limits 0 0)))))"

definition computeOfferExchangeParameters ::
    "AccountID \<Rightarrow> ManageOfferOp \<Rightarrow> LedgerState \<Rightarrow> bool \<Rightarrow> (ManageOfferResultCode, int \<times> int) op" where
  "computeOfferExchangeParameters source op ls creatingNewOffer =
     bindO (liftO (current (loadEntry ls (AccountKey source)))) (\<lambda>acc0.
     bindO (reserveBeforeV14 source op ls creatingNewOffer acc0) (\<lambda>acc.
     bindO (liftO (loadTrustLineIfNotNative ls source (moSheep op))) (\<lambda>sheepLine.
     bindO (liftO (loadTrustLineIfNotNative ls source (moWheat op))) (\<lambda>wheatLine.
     bindO (liftO (canBuyAtMost (lsHeader ls) (Some acc) (moWheat op) wheatLine)) (\<lambda>maxWheatReceive.
     bindO (liftO (canSellAtMost (lsHeader ls) (Some acc) (moSheep op) sheepLine)) (\<lambda>maxSheepSend.
     if ledgerVersion (lsHeader ls) \<ge> 10 then
       limitsSinceV10 op (lsHeader ls) acc sheepLine wheatLine (maxSheepSend, maxWheatReceive)
     else liftO (getExchangeParametersBeforeV10 op (maxSheepSend, maxWheatReceive))))))))"

section \<open>Taking the old offer out or making room for a new one\<close>

record OfferSetup =
  suCreating :: bool
  suPassive :: bool
  suFlags :: uint32
  suExt :: "AccountID option option"
  suState :: LedgerState

definition takeOldOffer ::
    "AccountID \<Rightarrow> ManageOfferOp \<Rightarrow> LedgerState \<Rightarrow> (ManageOfferResultCode, OfferSetup) op" where
  "takeOldOffer source op ls =
     (case loadEntry ls (OfferKey source (moOfferID op)) of
        None \<Rightarrow> failO MANAGE_OFFER_NOT_FOUND
      | Some le \<Rightarrow>
          bindO (liftO (offerOf le)) (\<lambda>oe.
          bindO (liftO (if ledgerVersion (lsHeader ls) \<ge> 10 then releaseLiabilities ls oe else Inr ls)) (\<lambda>ls1.
          okO \<lparr>suCreating = False, suPassive = (offerFlags oe AND PASSIVE_FLAG \<noteq> 0), suFlags = offerFlags oe,
               suExt = ledgerExt le, suState = eraseEntry (LedgerEntryKey le) ls1\<rparr>)))"

definition reserveNewOffer ::
    "AccountID \<Rightarrow> ManageOfferOp \<Rightarrow> LedgerState \<Rightarrow> (ManageOfferResultCode, OfferSetup) op" where
  "reserveNewOffer source op ls =
     (let flags = (if moPassive op then PASSIVE_FLAG else 0);
          setup = (\<lambda>ext ls'. \<lparr>suCreating = True, suPassive = moPassive op, suFlags = flags, suExt = ext,
                              suState = ls'\<rparr>)
      in if ledgerVersion (lsHeader ls) \<ge> 14 then
           bindO (liftO (current (loadEntry ls (AccountKey source)))) (\<lambda>acc.
           bindO (liftO (createEntryWithPossibleSponsorship ls (buildOffer source op 0 0 None) acc))
             (\<lambda>(res, le', acc', ls').
           bindO (sponsorshipOutcome MANAGE_OFFER_LOW_RESERVE res) (\<lambda>_.
           okO (setup (ledgerExt le') (storeEntry acc' ls')))))
         else okO (setup None ls))"

section \<open>Crossing\<close>

datatype FilterDecision = KeepOffer | StopAtPrice | StopAtSelf

definition decideOffer :: "AccountID \<Rightarrow> ManageOfferOp \<Rightarrow> bool \<Rightarrow> LedgerEntry \<Rightarrow> FilterDecision" where
  "decideOffer source op passive le =
     (case ledgerData le of
        OFFER oe \<Rightarrow>
          let maxWheatPrice = getInversePrice (moPrice op)
          in if passive \<and> priceGe (offerPrice oe) maxWheatPrice \<or> priceGreater (offerPrice oe) maxWheatPrice
             then StopAtPrice
             else if sellerID oe = source then StopAtSelf else KeepOffer
      | _ \<Rightarrow> KeepOffer)"

definition manageOfferFilter :: "AccountID \<Rightarrow> ManageOfferOp \<Rightarrow> bool \<Rightarrow> LedgerEntry \<Rightarrow> OfferFilterResult" where
  "manageOfferFilter source op passive le =
     (case decideOffer source op passive le of KeepOffer \<Rightarrow> eKeep | _ \<Rightarrow> eStop)"

text \<open>
  When the filter stops the loop, it last ran on the best offer of the state the loop stopped in.
\<close>

definition stoppedAtSelf :: "AccountID \<Rightarrow> ManageOfferOp \<Rightarrow> bool \<Rightarrow> Conversion \<Rightarrow> bool" where
  "stoppedAtSelf source op passive c =
     (case bestOffer (convState c) (moSheep op) (moWheat op) of
        None \<Rightarrow> False
      | Some le \<Rightarrow> decideOffer source op passive le = StopAtSelf)"

definition sheepStaysAfter ::
    "AccountID \<Rightarrow> ManageOfferOp \<Rightarrow> bool \<Rightarrow> Conversion \<Rightarrow> (ManageOfferResultCode, bool) op" where
  "sheepStaysAfter source op passive c =
     (case convResult c of
        eOK \<Rightarrow> okO False
      | ePartial \<Rightarrow> okO True
      | eFilterStop \<Rightarrow> if stoppedAtSelf source op passive c then failO MANAGE_OFFER_CROSS_SELF else okO True
      | eCrossedTooMany \<Rightarrow> failWith opEXCEEDED_WORK_LIMIT)"

definition moveBalance :: "string \<Rightarrow> AccountID \<Rightarrow> Asset \<Rightarrow> int \<Rightarrow> LedgerState \<Rightarrow> LedgerState tx" where
  "moveBalance msg source asset delta ls =
     (if asset = ASSET_TYPE_NATIVE then
        bindE (current (loadEntry ls (AccountKey source))) (\<lambda>acc.
        bindE (addBalance (lsHeader ls) acc delta) (\<lambda>r.
        case r of None \<Rightarrow> Inl (TxRuntimeError msg) | Some acc' \<Rightarrow> Inr (storeEntry acc' ls)))
      else
        bindE (loadTrustLine ls source asset) (\<lambda>line.
        case line of
          None \<Rightarrow> Inl (TxRuntimeError ''TrustLineWrapper not active'')
        | Some w \<Rightarrow>
            bindE (lineAddBalance (lsHeader ls) w delta) (\<lambda>r.
            case r of None \<Rightarrow> Inl (TxRuntimeError msg) | Some w' \<Rightarrow> Inr (storeTrustLine w' ls))))"

definition settleExchange :: "AccountID \<Rightarrow> ManageOfferOp \<Rightarrow> Conversion \<Rightarrow> LedgerState tx" where
  "settleExchange source op c =
     (if convWheatReceived c > 0 then
        bindE (moveBalance ''offer claimed over limit'' source (moWheat op) (convWheatReceived c) (convState c)) (\<lambda>ls1.
        moveBalance ''offer sold more than balance'' source (moSheep op) (- convSheepSend c) ls1)
      else Inr (convState c))"

definition remainingAmount ::
    "AccountID \<Rightarrow> ManageOfferOp \<Rightarrow> int \<Rightarrow> bool \<Rightarrow> Conversion \<Rightarrow> LedgerState \<Rightarrow> int tx" where
  "remainingAmount source op maxSheepSend sheepStays c ls =
     (if ledgerVersion (lsHeader ls) \<ge> 10 then
        (if sheepStays then
           let acc = loadEntry ls (AccountKey source)
           in bindE (loadTrustLineIfNotNative ls source (moSheep op)) (\<lambda>sheepLine.
              bindE (loadTrustLineIfNotNative ls source (moWheat op)) (\<lambda>wheatLine.
              bindE (canSellAtMost (lsHeader ls) acc (moSheep op) sheepLine) (\<lambda>sell.
              bindE (canBuyAtMost (lsHeader ls) acc (moWheat op) wheatLine) (\<lambda>buy.
              let (sheepSendLimit, wheatReceiveLimit) =
                    applyOperationSpecificLimits (moLimit op) (sell, buy) (convSheepSend c) (convWheatReceived c)
              in adjustOfferAmount (moPrice op) sheepSendLimit wheatReceiveLimit))))
         else Inr 0)
      else Inr (maxSheepSend - convSheepSend c))"

text \<open>The exchange with the offers of the book: the offers taken, the amount left to sell, the state.\<close>

definition exchangeOffer ::
    "AccountID \<Rightarrow> ManageOfferOp \<Rightarrow> OfferSetup \<Rightarrow> (ManageOfferResultCode, ClaimOfferAtom list \<times> int \<times> LedgerState) op" where
  "exchangeOffer source op su =
     (let ls = suState su
      in bindO (computeOfferExchangeParameters source op ls (suCreating su)) (\<lambda>(maxSheepSend, maxWheatReceive).
         if maxWheatReceive = 0 then failO MANAGE_OFFER_LINE_FULL
         else
           let maxOffersToCross =
                 (if ledgerVersion (lsHeader ls) \<ge> FIRST_PROTOCOL_SUPPORTING_OPERATION_LIMITS
                  then MAX_OFFERS_TO_CROSS else INT64_MAX)
           in bindO (liftO (convertWithOffers ls (moSheep op) maxSheepSend (moWheat op) maxWheatReceive NORMAL
                       (Some (manageOfferFilter source op (suPassive su))) maxOffersToCross)) (\<lambda>c.
              bindO (liftO (assertTx (convSheepSend c \<ge> 0))) (\<lambda>_.
              bindO (sheepStaysAfter source op (suPassive su) c) (\<lambda>sheepStays.
              bindO (liftO (settleExchange source op c)) (\<lambda>ls1.
              bindO (liftO (remainingAmount source op maxSheepSend sheepStays c ls1)) (\<lambda>amount.
              okO (convTrail c, amount, ls1))))))))"

section \<open>Writing the offer\<close>

definition withHeader :: "LedgerHeader \<Rightarrow> LedgerState \<Rightarrow> LedgerState" where
  "withHeader h ls = ls\<lparr>lsHeader := h\<rparr>"

text \<open>A new offer gets its reserve, before version 14 only here, and its identifier.\<close>

definition nameNewOffer ::
    "AccountID \<Rightarrow> LedgerEntry \<Rightarrow> LedgerState \<Rightarrow> (ManageOfferResultCode, LedgerEntry \<times> LedgerState) op" where
  "nameNewOffer source newOffer ls =
     bindO (if ledgerVersion (lsHeader ls) < 14 then
              bindO (liftO (current (loadEntry ls (AccountKey source)))) (\<lambda>acc.
              bindO (countNewOffer (lsHeader ls) newOffer acc) (\<lambda>acc'. okO (storeEntry acc' ls)))
            else okO ls) (\<lambda>ls1.
     bindO (liftO (offerOf newOffer)) (\<lambda>oe.
     let (i, header) = generateID (lsHeader ls1)
     in okO (newOffer\<lparr>ledgerData := OFFER (oe\<lparr>offerID := sint i\<rparr>)\<rparr>, withHeader header ls1)))"

definition writeOffer ::
    "AccountID \<Rightarrow> ManageOfferOp \<Rightarrow> OfferSetup \<Rightarrow> int \<Rightarrow> LedgerState
     \<Rightarrow> (ManageOfferResultCode, OfferEffect \<times> LedgerState) op" where
  "writeOffer source op su amount ls =
     (let newOffer = buildOffer source op amount (suFlags su) (suExt su)
      in bindO (if suCreating su then nameNewOffer source newOffer ls else okO (newOffer, ls)) (\<lambda>(le, ls1).
         bindO (liftO (createEntry le ls1)) (\<lambda>ls2.
         bindO (liftO (offerOf le)) (\<lambda>oe.
         bindO (liftO (if ledgerVersion (lsHeader ls2) \<ge> 10 then acquireLiabilities ls2 oe else Inr ls2)) (\<lambda>ls3.
         okO (if suCreating su then MANAGE_OFFER_CREATED oe else MANAGE_OFFER_UPDATED oe, ls3))))))"

definition dropOffer ::
    "AccountID \<Rightarrow> ManageOfferOp \<Rightarrow> OfferSetup \<Rightarrow> LedgerState \<Rightarrow> (ManageOfferResultCode, LedgerState) op" where
  "dropOffer source op su ls =
     (if \<not> suCreating su \<or> ledgerVersion (lsHeader ls) \<ge> 14 then
        bindO (liftO (current (loadEntry ls (AccountKey source)))) (\<lambda>acc.
        bindO (liftO (removeEntryWithPossibleSponsorship ls (buildOffer source op 0 0 (suExt su)) acc))
          (\<lambda>(_, acc', ls'). okO (storeEntry acc' ls')))
      else okO ls)"

definition manageOfferApply ::
    "AccountID \<Rightarrow> ManageOfferOp \<Rightarrow> LedgerState \<Rightarrow> (ManageOfferResultCode, ManageOfferSuccess) op" where
  "manageOfferApply source op ls =
     bindO (checkOfferValid source op ls) (\<lambda>_.
     bindO (if moOfferID op \<noteq> 0 then takeOldOffer source op ls else reserveNewOffer source op ls) (\<lambda>su.
     bindO (if isDeleteOffer (moLimit op) then okO ([], 0, suState su) else exchangeOffer source op su)
       (\<lambda>(claimed, amount, ls1).
     if amount > 0 then
       bindO (writeOffer source op su amount ls1) (\<lambda>(eff, ls2).
       okO \<lparr>offersClaimed = claimed, offerEffect = eff, moState = ls2\<rparr>)
     else
       bindO (dropOffer source op su ls1) (\<lambda>ls2.
       okO \<lparr>offersClaimed = claimed, offerEffect = MANAGE_OFFER_DELETED, moState = ls2\<rparr>))))"

definition manageOfferCheck :: "uint32 \<Rightarrow> ManageOfferOp \<Rightarrow> (ManageOfferResultCode, unit) op" where
  "manageOfferCheck version op =
     bindO (checkO (isAssetValid (moSheep op) \<and> isAssetValid (moWheat op)) MANAGE_OFFER_MALFORMED) (\<lambda>_.
     bindO (checkO (\<not> compareAsset (moSheep op) (moWheat op)) MANAGE_OFFER_MALFORMED) (\<lambda>_.
     bindO (checkO (\<not> (\<not> isAmountValid (moLimit op) \<or> priceD (moPrice op) \<le> 0 \<or> priceN (moPrice op) \<le> 0))
              MANAGE_OFFER_MALFORMED) (\<lambda>_.
     bindO (if moOfferID op = 0 \<and> isDeleteOffer (moLimit op) then
              (if version \<ge> 11 then failO MANAGE_OFFER_MALFORMED
               else if version \<ge> 3 then failO MANAGE_OFFER_NOT_FOUND else okO ())
            else okO ()) (\<lambda>_.
     checkO (\<not> (version \<ge> 15 \<and> moOfferID op < 0)) MANAGE_OFFER_MALFORMED))))"

end
