(* ===== verification/SponsorshipOperations.thy ===== *)
theory SponsorshipOperations
  imports ClaimableBalances
begin

text \<open>
  \<^verbatim>\<open>RevokeSponsorshipOpFrame.cpp\<close>: handing the reserve of an entry or a signer back to its owner or on to
  another sponsor.
\<close>

datatype RevokeSponsorshipOp =
    REVOKE_SPONSORSHIP_LEDGER_ENTRY LedgerKey
  | REVOKE_SPONSORSHIP_SIGNER AccountID SignerKey

datatype RevokeSponsorshipResultCode =
    REVOKE_SPONSORSHIP_DOES_NOT_EXIST
  | REVOKE_SPONSORSHIP_NOT_SPONSOR
  | REVOKE_SPONSORSHIP_LOW_RESERVE
  | REVOKE_SPONSORSHIP_ONLY_TRANSFERABLE

section \<open>Helpers\<close>

text \<open>The owner of an entry; a claimable balance is owned by its sponsor, whose absence is a null pointer.\<close>

definition getAccountID :: "LedgerEntry \<Rightarrow> AccountID tx" where
  "getAccountID le =
     (case ledgerData le of
        ACCOUNT a \<Rightarrow> Inr (accountID a)
      | TRUSTLINE t \<Rightarrow> Inr (tlAccountID t)
      | OFFER oe \<Rightarrow> Inr (sellerID oe)
      | DATA d \<Rightarrow> Inr (dataAccountID d)
      | CLAIMABLE_BALANCE _ \<Rightarrow>
          (case ledgerExt le of
             None \<Rightarrow> Inl WrongUnion
           | Some None \<Rightarrow> Inl AssertFailed
           | Some (Some i) \<Rightarrow> Inr i))"

definition processSponsorshipResult :: "SponsorshipResult \<Rightarrow> (RevokeSponsorshipResultCode, unit) op" where
  "processSponsorshipResult sr =
     (case sr of
        SUCCESS \<Rightarrow> okO ()
      | LOW_RESERVE \<Rightarrow> failO REVOKE_SPONSORSHIP_LOW_RESERVE
      | TOO_MANY_SPONSORING \<Rightarrow> failWith opTOO_MANY_SPONSORING
      | _ \<Rightarrow> Inl (TxRuntimeError ''unexpected sponsorship result''))"

text \<open>Loading an account that must not be referred to by a live handle.\<close>

definition loadAccountHandle :: "AccountID list \<Rightarrow> LedgerState \<Rightarrow> AccountID \<Rightarrow> LedgerEntry tx" where
  "loadAccountHandle active ls i =
     bindE (loadable active (Some i)) (\<lambda>_. current (loadEntry ls (AccountKey i)))"

definition writeSponsored :: "LedgerEntry \<Rightarrow> Sponsored \<Rightarrow> LedgerState \<Rightarrow> LedgerState" where
  "writeSponsored le sponsored ls =
     (case sponsored of SponsoredAccount acc \<Rightarrow> storeEntry acc (storeEntry le ls) | _ \<Rightarrow> storeEntry le ls)"

text \<open>The account whose counters change with the entry: the entry itself if it is one, else its owner.\<close>

definition ownerOfEntry :: "AccountID list \<Rightarrow> LedgerState \<Rightarrow> LedgerEntry \<Rightarrow> AccountID \<Rightarrow> Sponsored tx" where
  "ownerOfEntry active ls le owner =
     (if isAccount le then Inr SponsoredSelf
      else bindE (loadAccountHandle active ls owner) (\<lambda>acc. Inr (SponsoredAccount acc)))"

definition tryRemoveEntrySponsorship ::
    "LedgerState \<Rightarrow> LedgerEntry \<Rightarrow> LedgerEntry \<Rightarrow> Sponsored \<Rightarrow> (RevokeSponsorshipResultCode, LedgerState) op" where
  "tryRemoveEntrySponsorship ls le sponsoringAcc sponsored =
     bindO (liftO (canRemoveEntrySponsorship (lsHeader ls) le sponsoringAcc (sponsoredEntry le sponsored))) (\<lambda>res.
     bindO (processSponsorshipResult res) (\<lambda>_.
     bindO (liftO (removeEntrySponsorship le sponsoringAcc sponsored)) (\<lambda>(le', ing', sponsored').
     okO (writeSponsored le' sponsored' (storeEntry ing' ls)))))"

definition tryEstablishEntrySponsorship ::
    "LedgerState \<Rightarrow> LedgerEntry \<Rightarrow> LedgerEntry \<Rightarrow> Sponsored \<Rightarrow> (RevokeSponsorshipResultCode, LedgerState) op" where
  "tryEstablishEntrySponsorship ls le sponsoringAcc sponsored =
     bindO (liftO (canEstablishEntrySponsorship (lsHeader ls) le sponsoringAcc (sponsoredEntry le sponsored))) (\<lambda>res.
     bindO (processSponsorshipResult res) (\<lambda>_.
     bindO (liftO (establishEntrySponsorship le sponsoringAcc sponsored)) (\<lambda>(le', ing', sponsored').
     okO (writeSponsored le' sponsored' (storeEntry ing' ls)))))"

section \<open>Entries\<close>

text \<open>Whether the entry is sponsored, where the source may revoke it; otherwise the failure.\<close>

definition wasEntrySponsored :: "AccountID \<Rightarrow> LedgerEntry \<Rightarrow> (RevokeSponsorshipResultCode, bool) op" where
  "wasEntrySponsored source le =
     (case entrySponsor le of
        Some i \<Rightarrow> if i \<noteq> source then failO REVOKE_SPONSORSHIP_NOT_SPONSOR else okO True
      | None \<Rightarrow>
          bindO (liftO (getAccountID le)) (\<lambda>owner.
          if owner \<noteq> source then failO REVOKE_SPONSORSHIP_NOT_SPONSOR else okO False))"

definition activeAccount :: "LedgerEntry \<Rightarrow> AccountID list" where
  "activeAccount le = (case ledgerData le of ACCOUNT a \<Rightarrow> [accountID a] | _ \<Rightarrow> [])"

definition transferEntry ::
    "LedgerState \<Rightarrow> LedgerEntry \<Rightarrow> AccountID \<Rightarrow> AccountID \<Rightarrow> (RevokeSponsorshipResultCode, LedgerState) op" where
  "transferEntry ls le old new =
     bindO (liftO (loadAccountHandle (activeAccount le) ls old)) (\<lambda>oldAcc.
     bindO (liftO (loadAccountHandle (old # activeAccount le) ls new)) (\<lambda>newAcc.
     bindO (liftO (canTransferEntrySponsorship (lsHeader ls) le oldAcc newAcc)) (\<lambda>res.
     bindO (processSponsorshipResult res) (\<lambda>_.
     bindO (liftO (transferEntrySponsorship le oldAcc newAcc)) (\<lambda>(le', old', new').
     okO (storeEntry new' (storeEntry old' (storeEntry le' ls))))))))"

definition updateLedgerEntrySponsorship ::
    "AccountID \<Rightarrow> LedgerKey \<Rightarrow> LedgerState \<Rightarrow> (RevokeSponsorshipResultCode, LedgerState) op" where
  "updateLedgerEntrySponsorship source key ls =
     (case loadEntry ls key of
        None \<Rightarrow> failO REVOKE_SPONSORSHIP_DOES_NOT_EXIST
      | Some le \<Rightarrow>
          bindO (wasEntrySponsored source le) (\<lambda>was.
          bindO (liftO (case loadSponsorship ls source of
                          None \<Rightarrow> Inr None
                        | Some i \<Rightarrow> bindE (getAccountID le) (\<lambda>owner. Inr (if i \<noteq> owner then Some i else None))))
            (\<lambda>will.
          if will = None \<and> isClaimableBalance le then failO REVOKE_SPONSORSHIP_ONLY_TRANSFERABLE
          else case (was, will) of
            (True, Some new) \<Rightarrow> transferEntry ls le source new
          | (True, None) \<Rightarrow>
              bindO (liftO (loadAccountHandle (activeAccount le) ls source)) (\<lambda>oldAcc.
              bindO (liftO (getAccountID le)) (\<lambda>owner.
              bindO (liftO (ownerOfEntry [source] ls le owner)) (\<lambda>sponsored.
              tryRemoveEntrySponsorship ls le oldAcc sponsored)))
          | (False, Some new) \<Rightarrow>
              bindO (liftO (loadAccountHandle (activeAccount le) ls new)) (\<lambda>newAcc.
              bindO (liftO (getAccountID le)) (\<lambda>owner.
              bindO (liftO (ownerOfEntry [new] ls le owner)) (\<lambda>sponsored.
              tryEstablishEntrySponsorship ls le newAcc sponsored)))
          | (False, None) \<Rightarrow> okO ls)))"

section \<open>Signers\<close>

definition wasSignerSponsored ::
    "AccountID \<Rightarrow> AccountID \<Rightarrow> AccountEntry \<Rightarrow> nat \<Rightarrow> (RevokeSponsorshipResultCode, bool) op" where
  "wasSignerSponsored source account ae index =
     (let unsponsored = (if account \<noteq> source then failO REVOKE_SPONSORSHIP_NOT_SPONSOR else okO False)
      in if hasAccountEntryExtV2 ae then
           (let ids = signerSponsoringIDs (prepareAccountEntryExtensionV2 ae)
            in if index \<ge> length ids then Inl (TxRuntimeError ''bad signer sponsorships'')
               else case ids ! index of
                 Some sid \<Rightarrow> if sid \<noteq> source then failO REVOKE_SPONSORSHIP_NOT_SPONSOR else okO True
               | None \<Rightarrow> unsponsored)
         else unsponsored)"

definition transferSigner ::
    "LedgerState \<Rightarrow> nat \<Rightarrow> LedgerEntry \<Rightarrow> AccountID \<Rightarrow> AccountID \<Rightarrow> AccountID
     \<Rightarrow> (RevokeSponsorshipResultCode, LedgerState) op" where
  "transferSigner ls index acc account old new =
     bindO (liftO (loadAccountHandle [account] ls old)) (\<lambda>oldAcc.
     bindO (liftO (loadAccountHandle [account, old] ls new)) (\<lambda>newAcc.
     bindO (liftO (canTransferSignerSponsorship (lsHeader ls) index oldAcc newAcc acc)) (\<lambda>res.
     bindO (processSponsorshipResult res) (\<lambda>_.
     bindO (liftO (transferSignerSponsorship index oldAcc newAcc acc)) (\<lambda>(old', new', acc').
     okO (storeEntry new' (storeEntry old' (storeEntry acc' ls))))))))"

definition changeSignerSponsor ::
    "(LedgerHeader \<Rightarrow> nat \<Rightarrow> LedgerEntry \<Rightarrow> LedgerEntry \<Rightarrow> SponsorshipResult tx)
     \<Rightarrow> (nat \<Rightarrow> LedgerEntry \<Rightarrow> LedgerEntry \<Rightarrow> (LedgerEntry \<times> LedgerEntry) tx)
     \<Rightarrow> LedgerState \<Rightarrow> nat \<Rightarrow> LedgerEntry \<Rightarrow> AccountID \<Rightarrow> AccountID \<Rightarrow> (RevokeSponsorshipResultCode, LedgerState) op" where
  "changeSignerSponsor can change ls index acc account sponsor =
     bindO (liftO (loadAccountHandle [account] ls sponsor)) (\<lambda>sponsoringAcc.
     bindO (liftO (can (lsHeader ls) index sponsoringAcc acc)) (\<lambda>res.
     bindO (processSponsorshipResult res) (\<lambda>_.
     bindO (liftO (change index sponsoringAcc acc)) (\<lambda>(ing', acc').
     okO (storeEntry ing' (storeEntry acc' ls))))))"

definition updateSignerSponsorship ::
    "AccountID \<Rightarrow> AccountID \<Rightarrow> SignerKey \<Rightarrow> LedgerState \<Rightarrow> (RevokeSponsorshipResultCode, LedgerState) op" where
  "updateSignerSponsorship source account key ls =
     (case loadEntry ls (AccountKey account) of
        None \<Rightarrow> failO REVOKE_SPONSORSHIP_DOES_NOT_EXIST
      | Some acc \<Rightarrow>
          bindO (liftO (accountOf acc)) (\<lambda>ae.
          let (index, found) = findSignerByKey (signers ae) key
          in if \<not> found then failO REVOKE_SPONSORSHIP_DOES_NOT_EXIST
             else
               bindO (wasSignerSponsored source account ae index) (\<lambda>was.
               let will = (case loadSponsorship ls source of
                             None \<Rightarrow> None | Some i \<Rightarrow> if i \<noteq> account then Some i else None)
               in case (was, will) of
                    (True, Some new) \<Rightarrow> transferSigner ls index acc account source new
                  | (True, None) \<Rightarrow>
                      changeSignerSponsor canRemoveSignerSponsorship removeSignerSponsorship ls index acc account source
                  | (False, Some new) \<Rightarrow>
                      changeSignerSponsor canEstablishSignerSponsorship establishSignerSponsorship ls index acc account new
                  | (False, None) \<Rightarrow> okO ls)))"

section \<open>The operation\<close>

definition revokeSponsorshipApply ::
    "AccountID \<Rightarrow> RevokeSponsorshipOp \<Rightarrow> LedgerState \<Rightarrow> (RevokeSponsorshipResultCode, LedgerState) op" where
  "revokeSponsorshipApply source op ls =
     (case op of
        REVOKE_SPONSORSHIP_LEDGER_ENTRY key \<Rightarrow> updateLedgerEntrySponsorship source key ls
      | REVOKE_SPONSORSHIP_SIGNER account key \<Rightarrow> updateSignerSponsorship source account key ls)"

definition revokeSponsorshipCheck :: "uint32 \<Rightarrow> RevokeSponsorshipOp \<Rightarrow> (RevokeSponsorshipResultCode, unit) op" where
  "revokeSponsorshipCheck version op =
     (if version \<le> 14 then okO ()
      else case op of
        REVOKE_SPONSORSHIP_SIGNER _ _ \<Rightarrow> okO ()
      | REVOKE_SPONSORSHIP_LEDGER_ENTRY lk \<Rightarrow>
          (case lk of
             AccountKey _ \<Rightarrow> okO ()
           | TrustLineKey account asset \<Rightarrow>
               if \<not> isAssetValid asset \<or> asset = ASSET_TYPE_NATIVE then failO REVOKE_SPONSORSHIP_DOES_NOT_EXIST
               else bindO (liftO (getIssuer asset)) (\<lambda>issuer.
                 checkO (issuer \<noteq> account) REVOKE_SPONSORSHIP_DOES_NOT_EXIST)
           | OfferKey _ i \<Rightarrow> checkO (\<not> i \<le> 0) REVOKE_SPONSORSHIP_DOES_NOT_EXIST
           | DataKey _ name \<Rightarrow>
               checkO (\<not> (length name < 1 \<or> \<not> isString32Valid name)) REVOKE_SPONSORSHIP_DOES_NOT_EXIST
           | ClaimableBalanceKey _ \<Rightarrow> okO ()))"

end
