(* ===== verification/Inflation.thy ===== *)
theory Inflation
  imports SponsorshipOperations "HOL-Library.Char_ord" "HOL-Library.List_Lexorder" "HOL-Library.Product_Lexorder"
begin

text \<open>
  \<^verbatim>\<open>InflationOpFrame.cpp\<close> and the election of the winners in \<^verbatim>\<open>ledger/LedgerTxnAccountSQL.cpp\<close>. Winners with
  the same votes are ordered by the text form of their keys, which is an argument.
\<close>

section \<open>Votes\<close>

record InflationWinner =
  winnerID :: AccountID
  winnerVotes :: int

definition MIN_VOTES_TO_INCLUDE :: int where "MIN_VOTES_TO_INCLUDE = 1000000000"

definition voteOf :: "LedgerEntry \<Rightarrow> (AccountID \<times> int) option" where
  "voteOf le =
     (case ledgerData le of
        ACCOUNT acc \<Rightarrow>
          (case inflationDest acc of
             Some dest \<Rightarrow> if accBalance acc \<ge> MIN_VOTES_TO_INCLUDE then Some (dest, accBalance acc) else None
           | None \<Rightarrow> None)
      | _ \<Rightarrow> None)"

definition addVotes :: "AccountID \<Rightarrow> int \<Rightarrow> (AccountID \<times> int) list \<Rightarrow> (AccountID \<times> int) list" where
  "addVotes dest n votes =
     putAssoc dest ((case map_of votes dest of None \<Rightarrow> 0 | Some v \<Rightarrow> v) + n) votes"

text \<open>\<^verbatim>\<open>SELECT sum(balance) ... GROUP BY inflationdest\<close>.\<close>

fun tally :: "LedgerEntry list \<Rightarrow> (AccountID \<times> int) list" where
  "tally [] = []"
| "tally (le # les) =
     (case voteOf le of None \<Rightarrow> tally les | Some (dest, n) \<Rightarrow> addVotes dest n (tally les))"

text \<open>More votes come first, then the greater text.\<close>

definition sortWinners :: "(AccountID \<Rightarrow> string) \<Rightarrow> InflationWinner list \<Rightarrow> InflationWinner list" where
  "sortWinners toStrKey ws = rev (sort_key (\<lambda>w. (winnerVotes w, toStrKey (winnerID w))) ws)"

definition winnersOf :: "(AccountID \<times> int) list \<Rightarrow> InflationWinner list" where
  "winnersOf votes = map (\<lambda>(dest, n). \<lparr>winnerID = dest, winnerVotes = n\<rparr>) votes"

definition loadInflationWinners ::
    "(AccountID \<Rightarrow> string) \<Rightarrow> nat \<Rightarrow> int \<Rightarrow> LedgerEntry list \<Rightarrow> InflationWinner list" where
  "loadInflationWinners toStrKey maxWinners minBalance les =
     takeWhile (\<lambda>w. \<not> winnerVotes w < minBalance)
       (take maxWinners (sortWinners toStrKey (winnersOf (tally les))))"

section \<open>The operation\<close>

datatype InflationResultCode = INFLATION_NOT_TIME

definition INFLATION_FREQUENCY :: uint32 where "INFLATION_FREQUENCY = 60 * 60 * 24 * 7"
definition INFLATION_RATE_TRILLIONTHS :: int where "INFLATION_RATE_TRILLIONTHS = 190721000"
definition TRILLION :: int where "TRILLION = 1000000000000"
definition INFLATION_WIN_MIN_PERCENT :: int where "INFLATION_WIN_MIN_PERCENT = 500000000"
definition INFLATION_NUM_WINNERS :: nat where "INFLATION_NUM_WINNERS = 2000"
definition INFLATION_START_TIME :: uint64 where "INFLATION_START_TIME = 1404172800"

record Dole =
  doleState :: LedgerState
  leftAfterDole :: int
  payouts :: "(AccountID \<times> int) list"

text \<open>
  What a winner is due: a share by votes, since version 10 at most what the account can receive.
\<close>

definition toDole :: "int \<Rightarrow> int \<Rightarrow> LedgerState \<Rightarrow> InflationWinner \<Rightarrow> int tx" where
  "toDole amountToDole totalVotes ls w =
     bindE (numericTx (bigDivide_throw amountToDole (winnerVotes w) totalVotes ROUND_DOWN)) (\<lambda>share.
     if share = 0 then Inr 0
     else case loadEntry ls (AccountKey (winnerID w)) of
       Some winner \<Rightarrow>
         if ledgerVersion (lsHeader ls) \<ge> 10 then
           bindE (getMaxAmountReceive (lsHeader ls) winner) (\<lambda>m. Inr (min m share))
         else Inr share
     | None \<Rightarrow> Inr share)"

definition doleWinner :: "int \<Rightarrow> int \<Rightarrow> InflationWinner \<Rightarrow> Dole \<Rightarrow> Dole tx" where
  "doleWinner amountToDole totalVotes w d =
     bindE (toDole amountToDole totalVotes (doleState d) w) (\<lambda>amount.
     if amount = 0 then Inr d
     else case loadEntry (doleState d) (AccountKey (winnerID w)) of
       None \<Rightarrow> Inr d
     | Some winner \<Rightarrow>
         let ls = doleState d; lh = lsHeader ls;
             lh' = (if ledgerVersion lh \<le> 7 then lh\<lparr>totalCoins := totalCoins lh + amount\<rparr> else lh)
         in bindE (addBalance lh' winner amount) (\<lambda>r.
            case r of
              None \<Rightarrow> Inl (TxRuntimeError ''inflation overflowed destination balance'')
            | Some winner' \<Rightarrow>
                Inr \<lparr>doleState = storeEntry winner' (ls\<lparr>lsHeader := lh'\<rparr>),
                     leftAfterDole = leftAfterDole d - amount,
                     payouts = payouts d @ [(winnerID w, amount)]\<rparr>))"

fun doleWinners :: "int \<Rightarrow> int \<Rightarrow> InflationWinner list \<Rightarrow> Dole \<Rightarrow> Dole tx" where
  "doleWinners amountToDole totalVotes [] d = Inr d"
| "doleWinners amountToDole totalVotes (w # ws) d =
     bindE (doleWinner amountToDole totalVotes w d) (\<lambda>d'. doleWinners amountToDole totalVotes ws d')"

definition inflationApply ::
    "(AccountID \<Rightarrow> string) \<Rightarrow> LedgerState \<Rightarrow> (InflationResultCode, (AccountID \<times> int) list \<times> LedgerState) op" where
  "inflationApply toStrKey ls =
     (let lh = lsHeader ls;
          inflationTime = INFLATION_START_TIME + ucast (inflationSeq lh) * ucast INFLATION_FREQUENCY
      in if sint (closeTime lh) < sint inflationTime then failO INFLATION_NOT_TIME
         else
           let totalVotes = totalCoins lh
           in bindO (liftO (numericTx (bigDivide_throw totalVotes INFLATION_WIN_MIN_PERCENT TRILLION ROUND_DOWN)))
             (\<lambda>minBalance.
           let winners = loadInflationWinners toStrKey INFLATION_NUM_WINNERS minBalance (map snd (lsEntries ls))
           in bindO (liftO (numericTx (bigDivide_throw totalVotes INFLATION_RATE_TRILLIONTHS TRILLION ROUND_DOWN)))
             (\<lambda>inflationAmount.
           let amountToDole = inflationAmount + feePool lh;
               lh1 = lh\<lparr>feePool := 0, inflationSeq := inflationSeq lh + 1\<rparr>
           in bindO (liftO (doleWinners amountToDole totalVotes winners
                \<lparr>doleState = ls\<lparr>lsHeader := lh1\<rparr>, leftAfterDole = amountToDole, payouts = []\<rparr>)) (\<lambda>d.
           let lh2 = lsHeader (doleState d);
               lh3 = lh2\<lparr>feePool := feePool lh2 + leftAfterDole d\<rparr>;
               lh4 = (if ledgerVersion lh3 > 7 then lh3\<lparr>totalCoins := totalCoins lh3 + inflationAmount\<rparr> else lh3)
           in okO (payouts d, (doleState d)\<lparr>lsHeader := lh4\<rparr>)))))"

end
