(* ===== verification/Signatures.thy ===== *)
theory Signatures
  imports AccountOperations
begin

text \<open>
  \<^verbatim>\<open>SignatureChecker.cpp\<close> and \<^verbatim>\<open>SignatureUtils.cpp\<close>: which of an account's signers have signed, and whether
  their weights reach a threshold. The Ed25519 check and SHA-256 are arguments. A key is the number its 32
  bytes spell, most significant first, so the hint, its last four bytes, is the number's low 32 bits.
\<close>

section \<open>Definitions\<close>

record DecoratedSignature =
  sigHint :: uint32
  sigBytes :: bytes

record SigCrypto =
  verifySig :: "nat \<Rightarrow> bytes \<Rightarrow> Hash \<Rightarrow> bool"
  sha256 :: "bytes \<Rightarrow> Hash"

definition getHint :: "nat \<Rightarrow> uint32" where
  "getHint k = word_of_nat k"

definition doesHintMatch :: "nat \<Rightarrow> uint32 \<Rightarrow> bool" where
  "doesHintMatch k hint \<longleftrightarrow> getHint k = hint"

definition verifyEd25519 :: "SigCrypto \<Rightarrow> Hash \<Rightarrow> DecoratedSignature \<Rightarrow> Signer \<Rightarrow> bool" where
  "verifyEd25519 cr hash sig s =
     (case signerKey s of
        SIGNER_KEY_TYPE_ED25519 k \<Rightarrow> doesHintMatch k (sigHint sig) \<and> verifySig cr k (sigBytes sig) hash
      | _ \<Rightarrow> False)"

definition verifyHashX :: "SigCrypto \<Rightarrow> DecoratedSignature \<Rightarrow> Signer \<Rightarrow> bool" where
  "verifyHashX cr sig s =
     (case signerKey s of
        SIGNER_KEY_TYPE_HASH_X x \<Rightarrow> doesHintMatch x (sigHint sig) \<and> x = sha256 cr (sigBytes sig)
      | _ \<Rightarrow> False)"

record SignatureChecker =
  mProtocolVersion :: uint32
  mContentsHash :: Hash
  mSignatures :: "DecoratedSignature list"
  mUsedSignatures :: "bool list"

definition newSignatureChecker :: "uint32 \<Rightarrow> Hash \<Rightarrow> DecoratedSignature list \<Rightarrow> SignatureChecker" where
  "newSignatureChecker version hash sigs = \<lparr>mProtocolVersion = version, mContentsHash = hash,
     mSignatures = sigs, mUsedSignatures = replicate (length sigs) False\<rparr>"

text \<open>\<^verbatim>\<open>split\<close> by the type of the key keeps the order of the signers.\<close>

definition isPreAuthTx :: "Signer \<Rightarrow> bool" where
  "isPreAuthTx s = (case signerKey s of SIGNER_KEY_TYPE_PRE_AUTH_TX _ \<Rightarrow> True | _ \<Rightarrow> False)"

definition isHashX :: "Signer \<Rightarrow> bool" where
  "isHashX s = (case signerKey s of SIGNER_KEY_TYPE_HASH_X _ \<Rightarrow> True | _ \<Rightarrow> False)"

definition isEd25519 :: "Signer \<Rightarrow> bool" where
  "isEd25519 s = (case signerKey s of SIGNER_KEY_TYPE_ED25519 _ \<Rightarrow> True | _ \<Rightarrow> False)"

definition cappedWeight :: "uint32 \<Rightarrow> uint32 \<Rightarrow> uint32" where
  "cappedWeight version w = (if version > 9 \<and> w > 0xFF then 0xFF else w)"

text \<open>The total is an \<^verbatim>\<open>int\<close> to which an unsigned weight is added: a word read as signed.\<close>

fun preAuthLoop :: "uint32 \<Rightarrow> Hash \<Rightarrow> int \<Rightarrow> Signer list \<Rightarrow> uint32 \<Rightarrow> bool \<times> uint32" where
  "preAuthLoop version hash neededWeight [] tw = (False, tw)"
| "preAuthLoop version hash neededWeight (s # ss) tw =
     (if signerKey s = SIGNER_KEY_TYPE_PRE_AUTH_TX hash then
        let tw' = tw + cappedWeight version (signerWeight s)
        in if sint tw' \<ge> neededWeight then (True, tw')
           else preAuthLoop version hash neededWeight ss tw'
      else preAuthLoop version hash neededWeight ss tw)"

text \<open>The first signer that a signature verifies for, between the signers before and after it.\<close>

fun splitFirst :: "('a \<Rightarrow> bool) \<Rightarrow> 'a list \<Rightarrow> ('a list \<times> 'a \<times> 'a list) option" where
  "splitFirst p [] = None"
| "splitFirst p (x # xs) =
     (if p x then Some ([], x, xs)
      else map_option (\<lambda>(pre, y, post). (x # pre, y, post)) (splitFirst p xs))"

fun verifyAll ::
    "uint32 \<Rightarrow> (DecoratedSignature \<Rightarrow> Signer \<Rightarrow> bool) \<Rightarrow> int \<Rightarrow> nat \<Rightarrow> DecoratedSignature list \<Rightarrow> Signer list
     \<Rightarrow> uint32 \<Rightarrow> bool list \<Rightarrow> bool \<times> uint32 \<times> bool list" where
  "verifyAll version verify neededWeight i [] ss tw used = (False, tw, used)"
| "verifyAll version verify neededWeight i (sig # sigs) ss tw used =
     (case splitFirst (verify sig) ss of
        None \<Rightarrow> verifyAll version verify neededWeight (Suc i) sigs ss tw used
      | Some (pre, s, post) \<Rightarrow>
          let used' = used[i := True]; tw' = tw + cappedWeight version (signerWeight s)
          in if sint tw' \<ge> neededWeight then (True, tw', used')
             else verifyAll version verify neededWeight (Suc i) sigs (pre @ post) tw' used')"

definition checkSignature ::
    "SigCrypto \<Rightarrow> SignatureChecker \<Rightarrow> Signer list \<Rightarrow> int \<Rightarrow> bool \<times> SignatureChecker" where
  "checkSignature cr ch signersV neededWeight =
     (if mProtocolVersion ch = 7 then (True, ch)
      else
        let version = mProtocolVersion ch;
            (ok1, tw1) = preAuthLoop version (mContentsHash ch) neededWeight (filter isPreAuthTx signersV) 0
        in if ok1 then (True, ch)
           else
             let (ok2, tw2, used2) = verifyAll version (verifyHashX cr) neededWeight 0 (mSignatures ch)
                   (filter isHashX signersV) tw1 (mUsedSignatures ch)
             in if ok2 then (True, ch\<lparr>mUsedSignatures := used2\<rparr>)
                else
                  let (ok3, tw3, used3) = verifyAll version (verifyEd25519 cr (mContentsHash ch)) neededWeight 0
                        (mSignatures ch) (filter isEd25519 signersV) tw2 used2
                  in (ok3, ch\<lparr>mUsedSignatures := used3\<rparr>))"

definition checkAllSignaturesUsed :: "SignatureChecker \<Rightarrow> bool" where
  "checkAllSignaturesUsed ch \<longleftrightarrow> mProtocolVersion ch = 7 \<or> list_all (\<lambda>b. b) (mUsedSignatures ch)"

text \<open>The signers of an account: its own key with the master weight, unless zero, then the added ones.\<close>

definition accountSigners :: "AccountEntry \<Rightarrow> Signer list" where
  "accountSigners acc =
     (if thresholds acc ! 0 \<noteq> 0
      then [\<lparr>signerKey = SIGNER_KEY_TYPE_ED25519 (accountID acc), signerWeight = ucast (thresholds acc ! 0)\<rparr>]
      else []) @ signers acc"

definition checkAccountSignature ::
    "SigCrypto \<Rightarrow> SignatureChecker \<Rightarrow> AccountEntry \<Rightarrow> int \<Rightarrow> bool \<times> SignatureChecker" where
  "checkAccountSignature cr ch acc neededWeight = checkSignature cr ch (accountSigners acc) neededWeight"

definition checkSignatureNoAccount ::
    "SigCrypto \<Rightarrow> SignatureChecker \<Rightarrow> AccountID \<Rightarrow> bool \<times> SignatureChecker" where
  "checkSignatureNoAccount cr ch account =
     checkSignature cr ch [\<lparr>signerKey = SIGNER_KEY_TYPE_ED25519 account, signerWeight = 1\<rparr>] 0"

end
