(* ===== verification/OperationFrames.thy ===== *)
theory OperationFrames
  imports ManageOffers SponsorshipOperations Inflation Signatures
begin

text \<open>
  \<^verbatim>\<open>OperationFrame.cpp\<close>: an operation of a transaction, its dispatch to the operations of the other theories,
  the threshold it needs and the checks around it.
\<close>

section \<open>Operations\<close>

datatype OperationBody =
    CREATE_ACCOUNT AccountID int
  | PAYMENT AccountID Asset int
  | PATH_PAYMENT_RECEIVE PathPaymentStrictReceiveOp
  | MANAGE_SELL_OFFER Asset Asset int Price int
  | CREATE_PASSIVE_SELL_OFFER Asset Asset int Price
  | SET_OPTIONS SetOptionsOp
  | CHANGE_TRUST Asset int
  | ALLOW_TRUST AccountID AssetCode uint32
  | ACCOUNT_MERGE AccountID
  | INFLATION
  | MANAGE_DATA string "bytes option"
  | BUMP_SEQUENCE int
  | MANAGE_BUY_OFFER Asset Asset int Price int
  | PATH_PAYMENT_SEND PathPaymentStrictSendOp
  | CREATE_CLAIMABLE_BALANCE Asset int "Claimant list"
  | CLAIM_CLAIMABLE_BALANCE Hash
  | BEGIN_SPONSORING_FUTURE_RESERVES AccountID
  | END_SPONSORING_FUTURE_RESERVES
  | REVOKE_SPONSORSHIP RevokeSponsorshipOp

record Operation =
  opSourceAccount :: "AccountID option"
  opBody :: OperationBody

datatype OperationCode =
    CreateAccountCode CreateAccountResultCode
  | PaymentCode PaymentResultCode
  | PathPaymentCode PathPaymentResultCode
  | ManageOfferCode ManageOfferResultCode
  | SetOptionsCode SetOptionsResultCode
  | ChangeTrustCode ChangeTrustResultCode
  | AllowTrustCode AllowTrustResultCode
  | AccountMergeCode AccountMergeResultCode
  | InflationCode InflationResultCode
  | ManageDataCode ManageDataResultCode
  | BumpSequenceCode BumpSequenceResultCode
  | CreateClaimableBalanceCode CreateClaimableBalanceResultCode
  | ClaimClaimableBalanceCode ClaimClaimableBalanceResultCode
  | BeginSponsoringCode BeginSponsoringResultCode
  | EndSponsoringCode EndSponsoringResultCode
  | RevokeSponsorshipCode RevokeSponsorshipResultCode

type_synonym OperationFailure = "OperationCode OpFailure"

text \<open>
  What the transactions take from the cryptographic library: signatures and hashes, the text form of a
  key, the hash of an operation's identifier and the public key of a seed.
\<close>

record TxEnv =
  envCrypto :: SigCrypto
  envStrKey :: "AccountID \<Rightarrow> string"
  envOperationHash :: "AccountID \<Rightarrow> int \<Rightarrow> uint32 \<Rightarrow> Hash"
  envPublicKey :: "Hash \<Rightarrow> AccountID"

definition mapOp :: "('c \<Rightarrow> 'd) \<Rightarrow> ('r \<Rightarrow> 's) \<Rightarrow> ('c, 'r) op \<Rightarrow> ('d, 's) op" where
  "mapOp f g m = bindE m (\<lambda>r. case r of Inl e \<Rightarrow> Inr (Inl (map_OpFailure f e)) | Inr x \<Rightarrow> Inr (Inr (g x)))"

section \<open>Dispatch\<close>

text \<open>\<open>newID\<close> is the identifier of a claimable balance the operation may create.\<close>

definition doApply ::
    "TxEnv \<Rightarrow> Hash \<Rightarrow> AccountID \<Rightarrow> OperationBody \<Rightarrow> LedgerState \<Rightarrow> (OperationCode, LedgerState) op" where
  "doApply env newID source body ls =
     (case body of
        CREATE_ACCOUNT dest balance \<Rightarrow>
          mapOp CreateAccountCode (\<lambda>s. s) (createAccountApply source dest balance ls)
      | PAYMENT dest asset amount \<Rightarrow>
          mapOp PaymentCode (\<lambda>s. s) (paymentApply source dest asset amount ls)
      | PATH_PAYMENT_RECEIVE pp \<Rightarrow>
          mapOp PathPaymentCode ppState (pathPaymentStrictReceiveApply source pp ls)
      | MANAGE_SELL_OFFER sell buy amount price off \<Rightarrow>
          mapOp ManageOfferCode moState (manageOfferApply source (manageSellOffer sell buy amount price off) ls)
      | CREATE_PASSIVE_SELL_OFFER sell buy amount price \<Rightarrow>
          mapOp ManageOfferCode moState (manageOfferApply source (createPassiveSellOffer sell buy amount price) ls)
      | SET_OPTIONS so \<Rightarrow> mapOp SetOptionsCode (\<lambda>s. s) (setOptionsApply source so ls)
      | CHANGE_TRUST line limit \<Rightarrow> mapOp ChangeTrustCode (\<lambda>s. s) (changeTrustApply source line limit ls)
      | ALLOW_TRUST trustor code authorize \<Rightarrow>
          mapOp AllowTrustCode (\<lambda>s. s) (allowTrustApply source trustor code authorize ls)
      | ACCOUNT_MERGE dest \<Rightarrow> mapOp AccountMergeCode snd (mergeApply source dest ls)
      | INFLATION \<Rightarrow> mapOp InflationCode snd (inflationApply (envStrKey env) ls)
      | MANAGE_DATA name value \<Rightarrow> mapOp ManageDataCode (\<lambda>s. s) (manageDataApply source name value ls)
      | BUMP_SEQUENCE to \<Rightarrow> mapOp BumpSequenceCode (\<lambda>s. s) (bumpSequenceApply source to ls)
      | MANAGE_BUY_OFFER sell buy amount price off \<Rightarrow>
          mapOp ManageOfferCode moState (manageOfferApply source (manageBuyOffer sell buy amount price off) ls)
      | PATH_PAYMENT_SEND pp \<Rightarrow> mapOp PathPaymentCode ppState (pathPaymentStrictSendApply source pp ls)
      | CREATE_CLAIMABLE_BALANCE asset amount cs \<Rightarrow>
          mapOp CreateClaimableBalanceCode (\<lambda>s. s) (createClaimableBalanceApply newID source asset amount cs ls)
      | CLAIM_CLAIMABLE_BALANCE b \<Rightarrow>
          mapOp ClaimClaimableBalanceCode (\<lambda>s. s) (claimClaimableBalanceApply source b ls)
      | BEGIN_SPONSORING_FUTURE_RESERVES sponsored \<Rightarrow>
          mapOp BeginSponsoringCode (\<lambda>s. s) (beginSponsoringApply source sponsored ls)
      | END_SPONSORING_FUTURE_RESERVES \<Rightarrow> mapOp EndSponsoringCode (\<lambda>s. s) (endSponsoringApply source ls)
      | REVOKE_SPONSORSHIP rs \<Rightarrow> mapOp RevokeSponsorshipCode (\<lambda>s. s) (revokeSponsorshipApply source rs ls))"

definition doCheckValid :: "uint32 \<Rightarrow> AccountID \<Rightarrow> OperationBody \<Rightarrow> (OperationCode, unit) op" where
  "doCheckValid version source body =
     (case body of
        CREATE_ACCOUNT dest balance \<Rightarrow> mapOp CreateAccountCode id (createAccountCheck version source dest balance)
      | PAYMENT dest asset amount \<Rightarrow> mapOp PaymentCode id (paymentCheck asset amount)
      | PATH_PAYMENT_RECEIVE pp \<Rightarrow> mapOp PathPaymentCode id (pathPaymentStrictReceiveCheck pp)
      | MANAGE_SELL_OFFER sell buy amount price off \<Rightarrow>
          mapOp ManageOfferCode id (manageOfferCheck version (manageSellOffer sell buy amount price off))
      | CREATE_PASSIVE_SELL_OFFER sell buy amount price \<Rightarrow>
          mapOp ManageOfferCode id (manageOfferCheck version (createPassiveSellOffer sell buy amount price))
      | SET_OPTIONS so \<Rightarrow> mapOp SetOptionsCode id (setOptionsCheck version source so)
      | CHANGE_TRUST line limit \<Rightarrow> mapOp ChangeTrustCode id (changeTrustCheck version line limit)
      | ALLOW_TRUST trustor code authorize \<Rightarrow>
          mapOp AllowTrustCode id (allowTrustCheck version source code authorize)
      | ACCOUNT_MERGE dest \<Rightarrow> mapOp AccountMergeCode id (mergeCheck source dest)
      | INFLATION \<Rightarrow> okO ()
      | MANAGE_DATA name value \<Rightarrow> mapOp ManageDataCode id (manageDataCheck version name)
      | BUMP_SEQUENCE to \<Rightarrow> mapOp BumpSequenceCode id (bumpSequenceCheck to)
      | MANAGE_BUY_OFFER sell buy amount price off \<Rightarrow>
          mapOp ManageOfferCode id (manageOfferCheck version (manageBuyOffer sell buy amount price off))
      | PATH_PAYMENT_SEND pp \<Rightarrow> mapOp PathPaymentCode id (pathPaymentStrictSendCheck pp)
      | CREATE_CLAIMABLE_BALANCE asset amount cs \<Rightarrow>
          mapOp CreateClaimableBalanceCode id (createClaimableBalanceCheck asset amount cs)
      | CLAIM_CLAIMABLE_BALANCE b \<Rightarrow> okO ()
      | BEGIN_SPONSORING_FUTURE_RESERVES sponsored \<Rightarrow>
          mapOp BeginSponsoringCode id (beginSponsoringCheck source sponsored)
      | END_SPONSORING_FUTURE_RESERVES \<Rightarrow> okO ()
      | REVOKE_SPONSORSHIP rs \<Rightarrow> mapOp RevokeSponsorshipCode id (revokeSponsorshipCheck version rs))"

definition isVersionSupported :: "OperationBody \<Rightarrow> uint32 \<Rightarrow> bool" where
  "isVersionSupported body version =
     (case body of
        INFLATION \<Rightarrow> version < 12
      | BUMP_SEQUENCE _ \<Rightarrow> version \<ge> 10
      | MANAGE_BUY_OFFER _ _ _ _ _ \<Rightarrow> version \<ge> 11
      | PATH_PAYMENT_SEND _ \<Rightarrow> version \<ge> 12
      | CREATE_CLAIMABLE_BALANCE _ _ _ \<Rightarrow> version \<ge> 14
      | CLAIM_CLAIMABLE_BALANCE _ \<Rightarrow> version \<ge> 14
      | BEGIN_SPONSORING_FUTURE_RESERVES _ \<Rightarrow> version \<ge> 14
      | END_SPONSORING_FUTURE_RESERVES \<Rightarrow> version \<ge> 14
      | REVOKE_SPONSORSHIP _ \<Rightarrow> version \<ge> 14
      | _ \<Rightarrow> True)"

section \<open>Thresholds and signatures\<close>

datatype ThresholdLevel = LOW | MEDIUM | HIGH

definition setOptionsThreshold :: "SetOptionsOp \<Rightarrow> ThresholdLevel" where
  "setOptionsThreshold so =
     (if soMasterWeight so \<noteq> None \<or> soLowThreshold so \<noteq> None \<or> soMedThreshold so \<noteq> None
         \<or> soHighThreshold so \<noteq> None \<or> soSigner so \<noteq> None
      then HIGH else MEDIUM)"

definition getThresholdLevel :: "OperationBody \<Rightarrow> ThresholdLevel" where
  "getThresholdLevel body =
     (case body of
        SET_OPTIONS so \<Rightarrow> setOptionsThreshold so
      | ALLOW_TRUST _ _ _ \<Rightarrow> LOW
      | BUMP_SEQUENCE _ \<Rightarrow> LOW
      | CLAIM_CLAIMABLE_BALANCE _ \<Rightarrow> LOW
      | INFLATION \<Rightarrow> LOW
      | ACCOUNT_MERGE _ \<Rightarrow> HIGH
      | _ \<Rightarrow> MEDIUM)"

definition getNeededThreshold :: "AccountEntry \<Rightarrow> ThresholdLevel \<Rightarrow> int" where
  "getNeededThreshold acc level =
     uint (thresholds acc ! (case level of LOW \<Rightarrow> 1 | MEDIUM \<Rightarrow> 2 | HIGH \<Rightarrow> 3))"

text \<open>The source of an operation, by default that of its transaction.\<close>

definition opSourceID :: "AccountID \<Rightarrow> Operation \<Rightarrow> AccountID" where
  "opSourceID txSource op = (case opSourceAccount op of None \<Rightarrow> txSource | Some a \<Rightarrow> a)"

text \<open>The check returns the failure, if any, and the checker with the signatures it used.\<close>

definition opCheckSignature ::
    "TxEnv \<Rightarrow> AccountID \<Rightarrow> Operation \<Rightarrow> bool \<Rightarrow> SignatureChecker \<Rightarrow> LedgerState
     \<Rightarrow> (OperationFailure option \<times> SignatureChecker) tx" where
  "opCheckSignature env txSource op forApply ch ls =
     (case loadEntry ls (AccountKey (opSourceID txSource op)) of
        Some le \<Rightarrow>
          bindE (accountOf le) (\<lambda>acc.
          let (ok, ch') = checkAccountSignature (envCrypto env) ch acc
                (getNeededThreshold acc (getThresholdLevel (opBody op)))
          in Inr (if ok then None else Some opBAD_AUTH, ch'))
      | None \<Rightarrow>
          (case opSourceAccount op of
             None \<Rightarrow> Inr (Some opNO_ACCOUNT, ch)
           | Some a \<Rightarrow>
               if forApply then Inr (Some opNO_ACCOUNT, ch)
               else let (ok, ch') = checkSignatureNoAccount (envCrypto env) ch a
                    in Inr (if ok then None else Some opBAD_AUTH, ch')))"

definition opCheckValid ::
    "TxEnv \<Rightarrow> AccountID \<Rightarrow> Operation \<Rightarrow> bool \<Rightarrow> SignatureChecker \<Rightarrow> LedgerState
     \<Rightarrow> (OperationFailure option \<times> SignatureChecker) tx" where
  "opCheckValid env txSource op forApply ch ls =
     (let version = ledgerVersion (lsHeader ls); source = opSourceID txSource op
      in if \<not> isVersionSupported (opBody op) version then Inr (Some opNOT_SUPPORTED, ch)
         else
           bindE (if \<not> forApply \<or> version < 10 then opCheckSignature env txSource op forApply ch ls
                  else Inr (if loadEntry ls (AccountKey source) = None then Some opNO_ACCOUNT else None, ch))
             (\<lambda>(failure, ch').
           if failure \<noteq> None then Inr (failure, ch')
           else bindE (doCheckValid version source (opBody op)) (\<lambda>r.
             Inr (case r of Inl e \<Rightarrow> Some e | Inr _ \<Rightarrow> None, ch'))))"

text \<open>Applying an operation: a failure or the new state.\<close>

definition opApply ::
    "TxEnv \<Rightarrow> Hash \<Rightarrow> AccountID \<Rightarrow> Operation \<Rightarrow> SignatureChecker \<Rightarrow> LedgerState
     \<Rightarrow> ((OperationFailure + LedgerState) \<times> SignatureChecker) tx" where
  "opApply env newID txSource op ch ls =
     bindE (opCheckValid env txSource op True ch ls) (\<lambda>(failure, ch').
     case failure of
       Some e \<Rightarrow> Inr (Inl e, ch')
     | None \<Rightarrow>
         bindE (doApply env newID (opSourceID txSource op) (opBody op) ls) (\<lambda>r. Inr (r, ch')))"

end
