(* ===== verification/Transactions.thy ===== *)
theory Transactions
  imports OperationFrames
begin

text \<open>
  \<^verbatim>\<open>TransactionFrame.cpp\<close>: fees, validity, signatures and the application of a transaction. What an
  exception turns into is a value: in \<open>txApply\<close> an \<open>Inl\<close> stands for \<^verbatim>\<open>printErrorAndAbort\<close>, inside the
  operations it becomes \<open>txINTERNAL_ERROR\<close>. Metadata, metrics, the invariant checks and the account cache
  of versions before 8 are left out. Before version 14 the writes of a failed operation stay visible to the
  operations after it; none of them is kept, and the model does not follow them.
\<close>

section \<open>Transactions and results\<close>

datatype EnvelopeType = ENVELOPE_TYPE_TX_V0 | ENVELOPE_TYPE_TX

record TimeBounds =
  minTime :: uint64
  maxTime :: uint64

record TransactionFrame =
  txEnvelopeType :: EnvelopeType
  txHasMuxedAccount :: bool
  txSourceID :: AccountID
  txFee :: uint32
  txSeqNum :: int
  txTimeBounds :: "TimeBounds option"
  txOperations :: "Operation list"
  txSignatures :: "DecoratedSignature list"
  txContentsHash :: Hash

datatype TransactionResultCode =
    txSUCCESS
  | txFAILED
  | txTOO_EARLY
  | txTOO_LATE
  | txMISSING_OPERATION
  | txBAD_SEQ
  | txBAD_AUTH
  | txINSUFFICIENT_BALANCE
  | txNO_ACCOUNT
  | txINSUFFICIENT_FEE
  | txBAD_AUTH_EXTRA
  | txINTERNAL_ERROR
  | txNOT_SUPPORTED
  | txFEE_BUMP_INNER_SUCCESS
  | txFEE_BUMP_INNER_FAILED
  | txBAD_SPONSORSHIP

datatype ValidationType = kInvalid | kInvalidUpdateSeqNum | kInvalidPostAuth | kMaybeValid

definition validationRank :: "ValidationType \<Rightarrow> nat" where
  "validationRank cv = (case cv of kInvalid \<Rightarrow> 0 | kInvalidUpdateSeqNum \<Rightarrow> 1 | kInvalidPostAuth \<Rightarrow> 2 | kMaybeValid \<Rightarrow> 3)"

section \<open>Fees\<close>

definition getNumOperations :: "TransactionFrame \<Rightarrow> uint32" where
  "getNumOperations tx = word_of_nat (length (txOperations tx))"

definition getFeeBid :: "TransactionFrame \<Rightarrow> int" where
  "getFeeBid tx = uint (txFee tx)"

definition getMinFee :: "LedgerHeader \<Rightarrow> TransactionFrame \<Rightarrow> int" where
  "getMinFee header tx = uint (baseFee header) * max 1 (uint (getNumOperations tx))"

definition getFee :: "LedgerHeader \<Rightarrow> int \<Rightarrow> bool \<Rightarrow> TransactionFrame \<Rightarrow> int" where
  "getFee header base applying tx =
     (if ledgerVersion header \<ge> 11 \<or> \<not> applying then
        let adjustedFee = base * max 1 (uint (getNumOperations tx))
        in if applying then min (getFeeBid tx) adjustedFee else adjustedFee
      else getFeeBid tx)"

text \<open>
  The fee leaves the paying account and is credited twice: to the account of the fee seed and to
  \<^verbatim>\<open>feePool\<close>. The results of the two \<^verbatim>\<open>addBalance\<close> calls are ignored: a refused change leaves the balance.
\<close>

definition addBalanceIgnored :: "int \<Rightarrow> int \<Rightarrow> int tx" where
  "addBalanceIgnored balance delta =
     bindE (addBalanceTo balance delta INT64_MAX) (\<lambda>r. Inr (case r of None \<Rightarrow> balance | Some b \<Rightarrow> b))"

text \<open>The two accounts loaded, the payer first: a payer that is the fee account is already active.\<close>

definition loadFeeAccounts :: "AccountID \<Rightarrow> AccountID \<Rightarrow> LedgerState \<Rightarrow> (LedgerEntry \<times> LedgerEntry) tx" where
  "loadFeeAccounts payer target ls =
     (let source = loadEntry ls (AccountKey payer)
      in bindE (loadable (if source = None then [] else [payer]) (Some target)) (\<lambda>_.
         case source of
           None \<Rightarrow> Inl (TxRuntimeError ''Unexpected database state'')
         | Some src \<Rightarrow>
             (case loadEntry ls (AccountKey target) of
                None \<Rightarrow> Inl (TxRuntimeError ''Unexpected database state (fees account is missing)'')
              | Some tgt \<Rightarrow> Inr (src, tgt))))"

definition takeFee ::
    "int \<Rightarrow> LedgerEntry \<Rightarrow> LedgerEntry \<Rightarrow> LedgerState \<Rightarrow> (int \<times> LedgerEntry \<times> LedgerState) tx" where
  "takeFee fee src tgt ls =
     bindE (accountOf src) (\<lambda>acc.
     bindE (accountOf tgt) (\<lambda>fpAcc.
     if fee > 0 then
       let charged = min (accBalance acc) fee
       in bindE (addBalanceIgnored (accBalance acc) (- charged)) (\<lambda>b.
          bindE (addBalanceIgnored (accBalance fpAcc) charged) (\<lambda>fb.
          let src' = src\<lparr>ledgerData := ACCOUNT (acc\<lparr>accBalance := b\<rparr>)\<rparr>;
              tgt' = tgt\<lparr>ledgerData := ACCOUNT (fpAcc\<lparr>accBalance := fb\<rparr>)\<rparr>;
              header = lsHeader ls
          in Inr (charged, src', withHeader (header\<lparr>feePool := feePool header + charged\<rparr>)
                                   (storeEntry src' (storeEntry tgt' ls)))))
     else Inr (fee, src, ls)))"

definition processFeeSeqNum ::
    "TxEnv \<Rightarrow> TransactionFrame \<Rightarrow> int \<Rightarrow> Hash \<Rightarrow> LedgerState \<Rightarrow> (int \<times> LedgerState) tx" where
  "processFeeSeqNum env tx base feeID ls =
     bindE (loadFeeAccounts (txSourceID tx) (envPublicKey env feeID) ls) (\<lambda>(src, tgt).
     bindE (takeFee (getFee (lsHeader ls) base True tx) src tgt ls) (\<lambda>(fee, src', ls').
     if ledgerVersion (lsHeader ls) \<le> 9 then
       bindE (accountOf src') (\<lambda>acc.
       if seqNum acc + 1 \<noteq> txSeqNum tx then Inl (TxRuntimeError ''Unexpected account state'')
       else Inr (fee, storeEntry (src'\<lparr>ledgerData := ACCOUNT (acc\<lparr>seqNum := txSeqNum tx\<rparr>)\<rparr>) ls'))
     else Inr (fee, ls')))"

section \<open>Validity\<close>

definition isTooEarly :: "LedgerHeader \<Rightarrow> uint64 \<Rightarrow> TransactionFrame \<Rightarrow> bool" where
  "isTooEarly header lowerOffset tx =
     (case txTimeBounds tx of
        None \<Rightarrow> False
      | Some tb \<Rightarrow> minTime tb \<noteq> 0 \<and> minTime tb > closeTime header + lowerOffset)"

definition isTooLate :: "LedgerHeader \<Rightarrow> uint64 \<Rightarrow> TransactionFrame \<Rightarrow> bool" where
  "isTooLate header upperOffset tx =
     (case txTimeBounds tx of
        None \<Rightarrow> False
      | Some tb \<Rightarrow> maxTime tb \<noteq> 0 \<and> maxTime tb < closeTime header + upperOffset)"

text \<open>The checks that do not depend on the sequence number: the code of the first that fails.\<close>

definition commonValidPreSeqNum ::
    "TransactionFrame \<Rightarrow> bool \<Rightarrow> uint64 \<Rightarrow> uint64 \<Rightarrow> LedgerState \<Rightarrow> TransactionResultCode option" where
  "commonValidPreSeqNum tx chargeFee lowerOffset upperOffset ls =
     (let header = lsHeader ls; version = ledgerVersion header
      in if version < 13 \<and> (txEnvelopeType tx = ENVELOPE_TYPE_TX \<or> txHasMuxedAccount tx)
            \<or> version \<ge> 13 \<and> txEnvelopeType tx = ENVELOPE_TYPE_TX_V0
         then Some txNOT_SUPPORTED
         else if getNumOperations tx = 0 then Some txMISSING_OPERATION
         else if isTooEarly header lowerOffset tx then Some txTOO_EARLY
         else if isTooLate header upperOffset tx then Some txTOO_LATE
         else if chargeFee \<and> getFeeBid tx < getMinFee header tx then Some txINSUFFICIENT_FEE
         else if \<not> chargeFee \<and> getFeeBid tx < 0 then Some txINSUFFICIENT_FEE
         else if loadEntry ls (AccountKey (txSourceID tx)) = None then Some txNO_ACCOUNT
         else None)"

definition isBadSeq :: "int \<Rightarrow> TransactionFrame \<Rightarrow> bool" where
  "isBadSeq s tx \<longleftrightarrow> s = INT64_MAX \<or> s + 1 \<noteq> txSeqNum tx"

record Validation =
  valType :: ValidationType
  valCode :: "TransactionResultCode option"
  valChecker :: SignatureChecker

definition commonValid ::
    "TxEnv \<Rightarrow> TransactionFrame \<Rightarrow> int \<Rightarrow> bool \<Rightarrow> bool \<Rightarrow> uint64 \<Rightarrow> uint64 \<Rightarrow> SignatureChecker \<Rightarrow> LedgerState
     \<Rightarrow> Validation tx" where
  "commonValid env tx currentSeq applying chargeFee lowerOffset upperOffset ch ls =
     (let result = (\<lambda>t c ch'. Inr \<lparr>valType = t, valCode = c, valChecker = ch'\<rparr>);
          header = lsHeader ls
      in if applying \<and> (lowerOffset \<noteq> 0 \<or> upperOffset \<noteq> 0) then
           Inl (TxRuntimeError ''Applying transaction with non-current closeTime'')
         else case commonValidPreSeqNum tx chargeFee lowerOffset upperOffset ls of
           Some code \<Rightarrow> result kInvalid (Some code) ch
         | None \<Rightarrow>
             bindE (current (loadEntry ls (AccountKey (txSourceID tx)))) (\<lambda>le.
             bindE (accountOf le) (\<lambda>acc.
             if (ledgerVersion header \<ge> 10 \<or> \<not> applying)
                \<and> isBadSeq (if currentSeq = 0 then seqNum acc else currentSeq) tx
             then result kInvalid (Some txBAD_SEQ) ch
             else
               let (ok, ch') = checkAccountSignature (envCrypto env) ch acc (getNeededThreshold acc LOW)
               in if \<not> ok then result kInvalidUpdateSeqNum (Some txBAD_AUTH) ch'
                  else
                    let feeToPay = (if applying \<and> ledgerVersion header > 8 then 0 else txFee tx)
                    in bindE (if chargeFee then bindE (getAvailableBalance header le) (\<lambda>a. Inr (a < uint feeToPay))
                              else Inr False) (\<lambda>poor.
                       if poor then result kInvalidPostAuth (Some txINSUFFICIENT_BALANCE) ch'
                       else result kMaybeValid None ch'))))"

section \<open>Sequence number and signatures\<close>

definition processSeqNum :: "TransactionFrame \<Rightarrow> LedgerState \<Rightarrow> LedgerState tx" where
  "processSeqNum tx ls =
     (if ledgerVersion (lsHeader ls) \<ge> 10 then
        bindE (current (loadEntry ls (AccountKey (txSourceID tx)))) (\<lambda>le.
        bindE (accountOf le) (\<lambda>acc.
        if seqNum acc > txSeqNum tx then Inl (TxRuntimeError ''unexpected sequence number'')
        else Inr (storeEntry (le\<lparr>ledgerData := ACCOUNT (acc\<lparr>seqNum := txSeqNum tx\<rparr>)\<rparr>) ls)))
      else Inr ls)"

definition removeAccountSigner :: "SignerKey \<Rightarrow> AccountID \<Rightarrow> LedgerState \<Rightarrow> LedgerState tx" where
  "removeAccountSigner key account ls =
     (case loadEntry ls (AccountKey account) of
        None \<Rightarrow> Inr ls
      | Some le \<Rightarrow>
          bindE (accountOf le) (\<lambda>acc.
          let (n, found) = findSignerByKey (signers acc) key
          in if found then
               bindE (removeSignerWithPossibleSponsorship ls n le) (\<lambda>(le', ls'). Inr (storeEntry le' ls'))
             else Inr ls))"

fun removeSignerFrom :: "SignerKey \<Rightarrow> AccountID list \<Rightarrow> LedgerState \<Rightarrow> LedgerState tx" where
  "removeSignerFrom key [] ls = Inr ls"
| "removeSignerFrom key (a # as) ls = bindE (removeAccountSigner key a ls) (\<lambda>ls'. removeSignerFrom key as ls')"

text \<open>The set of source accounts is visited in the order of their first use.\<close>

definition sourceAccounts :: "TransactionFrame \<Rightarrow> AccountID list" where
  "sourceAccounts tx = rev (remdups (rev (txSourceID tx # map (opSourceID (txSourceID tx)) (txOperations tx))))"

definition removeOneTimeSignerFromAllSourceAccounts :: "TransactionFrame \<Rightarrow> LedgerState \<Rightarrow> LedgerState tx" where
  "removeOneTimeSignerFromAllSourceAccounts tx ls =
     (if ledgerVersion (lsHeader ls) = 7 then Inr ls
      else removeSignerFrom (SIGNER_KEY_TYPE_PRE_AUTH_TX (txContentsHash tx)) (sourceAccounts tx) ls)"

fun checkOpSignatures ::
    "TxEnv \<Rightarrow> AccountID \<Rightarrow> Operation list \<Rightarrow> SignatureChecker \<Rightarrow> LedgerState
     \<Rightarrow> (OperationFailure option list \<times> SignatureChecker) tx" where
  "checkOpSignatures env txSource [] ch ls = Inr ([], ch)"
| "checkOpSignatures env txSource (op # ops) ch ls =
     bindE (opCheckSignature env txSource op False ch ls) (\<lambda>(failure, ch1).
     bindE (checkOpSignatures env txSource ops ch1 ls) (\<lambda>(failures, ch2).
     Inr (failure # failures, ch2)))"

text \<open>The outcome of a step of a transaction: whether it may go on, the code it set, the operations' results.\<close>

record TxProgress =
  txpOk :: bool
  txpCode :: "TransactionResultCode option"
  txpResults :: "OperationFailure option list"
  txpChecker :: SignatureChecker
  txpState :: LedgerState

definition processSignatures ::
    "TxEnv \<Rightarrow> TransactionFrame \<Rightarrow> ValidationType \<Rightarrow> SignatureChecker \<Rightarrow> LedgerState \<Rightarrow> TxProgress tx" where
  "processSignatures env tx cv ch ls =
     (let maybeValid = (cv = kMaybeValid); version = ledgerVersion (lsHeader ls);
          progress = (\<lambda>ok code results ch' ls'. Inr \<lparr>txpOk = ok, txpCode = code, txpResults = results,
            txpChecker = ch', txpState = ls'\<rparr>)
      in if version < 10 then progress maybeValid None [] ch ls
         else if version \<ge> 13 \<and> \<not> maybeValid then
           bindE (removeOneTimeSignerFromAllSourceAccounts tx ls) (\<lambda>ls'. progress False None [] ch ls')
         else if version < 13 \<and> validationRank cv < validationRank kInvalidPostAuth then
           progress False None [] ch ls
         else
           bindE (checkOpSignatures env (txSourceID tx) (txOperations tx) ch ls) (\<lambda>(failures, ch').
           bindE (removeOneTimeSignerFromAllSourceAccounts tx ls) (\<lambda>ls'.
           if list_ex (\<lambda>f. f \<noteq> None) failures then progress False (Some txFAILED) failures ch' ls'
           else if \<not> checkAllSignaturesUsed ch' then progress False (Some txBAD_AUTH_EXTRA) failures ch' ls'
           else progress maybeValid None failures ch' ls')))"

section \<open>Operations\<close>

fun applyOps ::
    "TxEnv \<Rightarrow> TransactionFrame \<Rightarrow> uint32 \<Rightarrow> Operation list \<Rightarrow> SignatureChecker \<Rightarrow> LedgerState
     \<Rightarrow> (OperationFailure option list \<times> SignatureChecker \<times> LedgerState) tx" where
  "applyOps env tx i [] ch ls = Inr ([], ch, ls)"
| "applyOps env tx i (op # ops) ch ls =
     bindE (opApply env (envOperationHash env (txSourceID tx) (txSeqNum tx) i) (txSourceID tx) op ch ls)
       (\<lambda>(r, ch1).
     case r of
       Inl e \<Rightarrow>
         if ledgerVersion (lsHeader ls) < 14 then Inr ([Some e], ch1, ls)
         else bindE (applyOps env tx (i + 1) ops ch1 ls) (\<lambda>(rs, ch2, ls2). Inr (Some e # rs, ch2, ls2))
     | Inr ls1 \<Rightarrow>
         bindE (applyOps env tx (i + 1) ops ch1 ls1) (\<lambda>(rs, ch2, ls2). Inr (None # rs, ch2, ls2)))"

text \<open>
  The end of a transaction all of whose operations succeeded. A sponsorship still open is a sponsorship
  in the difference to the state before, which has none.
\<close>

definition finishOperations ::
    "TransactionFrame \<Rightarrow> OperationFailure option list \<Rightarrow> SignatureChecker \<Rightarrow> LedgerState \<Rightarrow> LedgerState
     \<Rightarrow> TxProgress tx" where
  "finishOperations tx results ch ls0 ls =
     (let version = ledgerVersion (lsHeader ls);
          progress = (\<lambda>ok code ls'. Inr \<lparr>txpOk = ok, txpCode = code, txpResults = results, txpChecker = ch,
            txpState = ls'\<rparr>)
      in if version < 10 then
           (if \<not> checkAllSignaturesUsed ch then progress False (Some txBAD_AUTH_EXTRA) ls0
            else bindE (removeOneTimeSignerFromAllSourceAccounts tx ls) (\<lambda>ls'. progress True None ls'))
         else if version \<ge> 14 \<and> (lsSponsorships ls \<noteq> [] \<or> lsCounters ls \<noteq> []) then
           progress False (Some txBAD_SPONSORSHIP) ls0
         else progress True None ls)"

definition applyOperations :: "TxEnv \<Rightarrow> TransactionFrame \<Rightarrow> SignatureChecker \<Rightarrow> LedgerState \<Rightarrow> TxProgress" where
  "applyOperations env tx ch ls =
     (case bindE (applyOps env tx 0 (txOperations tx) ch ls) (\<lambda>(results, ch', ls').
             if list_ex (\<lambda>f. f \<noteq> None) results then
               Inr \<lparr>txpOk = False, txpCode = Some txFAILED, txpResults = results, txpChecker = ch', txpState = ls\<rparr>
             else finishOperations tx results ch' ls ls') of
        Inr p \<Rightarrow> p
      | Inl e \<Rightarrow> \<lparr>txpOk = False, txpCode = Some txINTERNAL_ERROR, txpResults = [], txpChecker = ch, txpState = ls\<rparr>)"

section \<open>Applying and checking a transaction\<close>

record TxResult =
  txrOk :: bool
  txrCode :: TransactionResultCode
  txrResults :: "OperationFailure option list"
  txrState :: LedgerState

text \<open>A code set by one step and not by a later one stays; \<open>resetResults\<close> had set \<open>txSUCCESS\<close>.\<close>

definition laterCode :: "TransactionResultCode option \<Rightarrow> TransactionResultCode \<Rightarrow> TransactionResultCode" where
  "laterCode new old = (case new of None \<Rightarrow> old | Some c \<Rightarrow> c)"

definition txApply :: "TxEnv \<Rightarrow> TransactionFrame \<Rightarrow> bool \<Rightarrow> LedgerState \<Rightarrow> TxResult tx" where
  "txApply env tx chargeFee ls =
     (let ch = newSignatureChecker (ledgerVersion (lsHeader ls)) (txContentsHash tx) (txSignatures tx)
      in bindE (commonValid env tx 0 True chargeFee 0 0 ch ls) (\<lambda>v.
         bindE (if validationRank (valType v) \<ge> validationRank kInvalidUpdateSeqNum then processSeqNum tx ls else Inr ls)
           (\<lambda>ls1.
         bindE (processSignatures env tx (valType v) (valChecker v) ls1) (\<lambda>p.
         let code = laterCode (txpCode p) (laterCode (valCode v) txSUCCESS)
         in if txpOk p \<and> valType v = kMaybeValid then
              let q = applyOperations env tx (txpChecker p) (txpState p)
              in Inr \<lparr>txrOk = txpOk q, txrCode = laterCode (txpCode q) code, txrResults = txpResults q,
                      txrState = txpState q\<rparr>
            else Inr \<lparr>txrOk = False, txrCode = code, txrResults = txpResults p, txrState = txpState p\<rparr>))))"

fun checkOpsValid ::
    "TxEnv \<Rightarrow> AccountID \<Rightarrow> Operation list \<Rightarrow> SignatureChecker \<Rightarrow> LedgerState \<Rightarrow> (bool \<times> SignatureChecker) tx" where
  "checkOpsValid env txSource [] ch ls = Inr (True, ch)"
| "checkOpsValid env txSource (op # ops) ch ls =
     bindE (opCheckValid env txSource op False ch ls) (\<lambda>(failure, ch').
     if failure \<noteq> None then Inr (False, ch') else checkOpsValid env txSource ops ch' ls)"

definition txCheckValid ::
    "TxEnv \<Rightarrow> TransactionFrame \<Rightarrow> int \<Rightarrow> bool \<Rightarrow> uint64 \<Rightarrow> uint64 \<Rightarrow> LedgerState \<Rightarrow> (bool \<times> TransactionResultCode) tx" where
  "txCheckValid env tx currentSeq chargeFee lowerOffset upperOffset ls =
     (let ch = newSignatureChecker (ledgerVersion (lsHeader ls)) (txContentsHash tx) (txSignatures tx)
      in bindE (commonValid env tx currentSeq False chargeFee lowerOffset upperOffset ch ls) (\<lambda>v.
         if valType v \<noteq> kMaybeValid then Inr (False, laterCode (valCode v) txSUCCESS)
         else bindE (checkOpsValid env (txSourceID tx) (txOperations tx) (valChecker v) ls) (\<lambda>(ok, ch').
           if \<not> ok then Inr (False, txFAILED)
           else if \<not> checkAllSignaturesUsed ch' then Inr (False, txBAD_AUTH_EXTRA)
           else Inr (True, txSUCCESS))))"

end
