(* ===== verification/FeeBumps.thy ===== *)
theory FeeBumps
  imports Transactions
begin

text \<open>
  \<^verbatim>\<open>FeeBumpTransactionFrame.cpp\<close>, a transaction whose fee another account pays, and the part of
  \<^verbatim>\<open>LedgerManagerImpl.cpp\<close> that runs a transaction set: first every fee, then every transaction.
\<close>

section \<open>Fee bumps\<close>

record FeeBumpFrame =
  fbInnerTx :: TransactionFrame
  fbFeeSource :: AccountID
  fbFee :: int
  fbSignatures :: "DecoratedSignature list"
  fbContentsHash :: Hash

definition fbNumOperations :: "FeeBumpFrame \<Rightarrow> uint32" where
  "fbNumOperations fb = getNumOperations (fbInnerTx fb) + 1"

definition fbMinFee :: "LedgerHeader \<Rightarrow> FeeBumpFrame \<Rightarrow> int" where
  "fbMinFee header fb = uint (baseFee header) * max 1 (uint (fbNumOperations fb))"

definition fbGetFee :: "int \<Rightarrow> bool \<Rightarrow> FeeBumpFrame \<Rightarrow> int" where
  "fbGetFee base applying fb =
     (let adjustedFee = base * max 1 (uint (fbNumOperations fb))
      in if applying then min (fbFee fb) adjustedFee else adjustedFee)"

text \<open>The code of the first check that fails, and the fee that would have been needed where it is reported.\<close>

definition fbCommonValidPreSeqNum ::
    "FeeBumpFrame \<Rightarrow> LedgerState \<Rightarrow> (TransactionResultCode \<times> int option) option tx" where
  "fbCommonValidPreSeqNum fb ls =
     (let lh = lsHeader ls
      in if ledgerVersion lh < 13 then Inr (Some (txNOT_SUPPORTED, None))
         else if fbFee fb < fbMinFee lh fb then Inr (Some (txINSUFFICIENT_FEE, None))
         else
           bindE (numericTx (bigMultiply_i64 (fbFee fb) (getMinFee lh (fbInnerTx fb)))) (\<lambda>v1.
           bindE (numericTx (bigMultiply_i64 (getFeeBid (fbInnerTx fb)) (fbMinFee lh fb))) (\<lambda>v2.
           if v1 < v2 then
             bindE (numericTx (bigDivide128_i64 v2 (getMinFee lh (fbInnerTx fb)) ROUND_UP)) (\<lambda>q.
             Inr (Some (txINSUFFICIENT_FEE, Some (case q of None \<Rightarrow> INT64_MAX | Some f \<Rightarrow> f))))
           else if loadEntry ls (AccountKey (fbFeeSource fb)) = None then Inr (Some (txNO_ACCOUNT, None))
           else Inr None)))"

datatype FbValidationType = fbInvalid | fbInvalidPostAuth | fbFullyValid

definition fbCommonValid ::
    "TxEnv \<Rightarrow> FeeBumpFrame \<Rightarrow> bool \<Rightarrow> SignatureChecker \<Rightarrow> LedgerState
     \<Rightarrow> (FbValidationType \<times> TransactionResultCode option \<times> SignatureChecker) tx" where
  "fbCommonValid env fb applying ch ls =
     bindE (fbCommonValidPreSeqNum fb ls) (\<lambda>r.
     case r of
       Some (code, _) \<Rightarrow> Inr (fbInvalid, Some code, ch)
     | None \<Rightarrow>
         bindE (current (loadEntry ls (AccountKey (fbFeeSource fb)))) (\<lambda>le.
         bindE (accountOf le) (\<lambda>acc.
         let (ok, ch') = checkAccountSignature (envCrypto env) ch acc (getNeededThreshold acc LOW)
         in if \<not> ok then Inr (fbInvalid, Some txBAD_AUTH, ch')
            else
              let feeToPay = (if applying then 0 else fbFee fb)
              in bindE (getAvailableBalance (lsHeader ls) le) (\<lambda>a.
                 if a < feeToPay then Inr (fbInvalidPostAuth, Some txINSUFFICIENT_BALANCE, ch')
                 else Inr (fbFullyValid, None, ch')))))"

definition fbProcessFeeSeqNum ::
    "TxEnv \<Rightarrow> FeeBumpFrame \<Rightarrow> int \<Rightarrow> Hash \<Rightarrow> LedgerState \<Rightarrow> (int \<times> LedgerState) tx" where
  "fbProcessFeeSeqNum env fb base feeID ls =
     bindE (loadFeeAccounts (fbFeeSource fb) (envPublicKey env feeID) ls) (\<lambda>(src, tgt).
     bindE (takeFee (fbGetFee base True fb) src tgt ls) (\<lambda>(fee, _, ls').
     Inr (fee, ls')))"

definition updateResult :: "TransactionResultCode \<Rightarrow> TransactionResultCode" where
  "updateResult inner = (if inner = txSUCCESS then txFEE_BUMP_INNER_SUCCESS else txFEE_BUMP_INNER_FAILED)"

text \<open>\<open>fbrInner\<close> is the inner transaction's result; its state is the state after the whole transaction.\<close>

record FbResult =
  fbrCode :: TransactionResultCode
  fbrInner :: TxResult

definition fbApply :: "TxEnv \<Rightarrow> FeeBumpFrame \<Rightarrow> LedgerState \<Rightarrow> FbResult tx" where
  "fbApply env fb ls =
     bindE (removeAccountSigner (SIGNER_KEY_TYPE_PRE_AUTH_TX (fbContentsHash fb)) (fbFeeSource fb) ls) (\<lambda>ls1.
     bindE (txApply env (fbInnerTx fb) False ls1) (\<lambda>r.
     Inr \<lparr>fbrCode = updateResult (txrCode r), fbrInner = r\<rparr>))"

definition fbCheckValid ::
    "TxEnv \<Rightarrow> FeeBumpFrame \<Rightarrow> int \<Rightarrow> uint64 \<Rightarrow> uint64 \<Rightarrow> LedgerState \<Rightarrow> (bool \<times> TransactionResultCode) tx" where
  "fbCheckValid env fb currentSeq lowerOffset upperOffset ls =
     (let ch = newSignatureChecker (ledgerVersion (lsHeader ls)) (fbContentsHash fb) (fbSignatures fb)
      in bindE (fbCommonValid env fb False ch ls) (\<lambda>(t, code, ch').
         if t \<noteq> fbFullyValid then Inr (False, laterCode code txFEE_BUMP_INNER_SUCCESS)
         else if \<not> checkAllSignaturesUsed ch' then Inr (False, txBAD_AUTH_EXTRA)
         else bindE (txCheckValid env (fbInnerTx fb) currentSeq False lowerOffset upperOffset ls) (\<lambda>(ok, inner).
              Inr (ok, updateResult inner))))"

section \<open>A transaction set\<close>

datatype TransactionFrameBase = PlainTx TransactionFrame | FeeBumpTx FeeBumpFrame

definition baseProcessFeeSeqNum ::
    "TxEnv \<Rightarrow> TransactionFrameBase \<Rightarrow> int \<Rightarrow> Hash \<Rightarrow> LedgerState \<Rightarrow> (int \<times> LedgerState) tx" where
  "baseProcessFeeSeqNum env tx base feeID ls =
     (case tx of
        PlainTx t \<Rightarrow> processFeeSeqNum env t base feeID ls
      | FeeBumpTx fb \<Rightarrow> fbProcessFeeSeqNum env fb base feeID ls)"

fun processFeesSeqNums ::
    "TxEnv \<Rightarrow> TransactionFrameBase list \<Rightarrow> int \<Rightarrow> Hash \<Rightarrow> LedgerState \<Rightarrow> (int list \<times> LedgerState) tx" where
  "processFeesSeqNums env [] base feeID ls = Inr ([], ls)"
| "processFeesSeqNums env (tx # txs) base feeID ls =
     bindE (baseProcessFeeSeqNum env tx base feeID ls) (\<lambda>(fee, ls1).
     bindE (processFeesSeqNums env txs base feeID ls1) (\<lambda>(fees, ls2).
     Inr (fee # fees, ls2)))"

definition baseApply :: "TxEnv \<Rightarrow> TransactionFrameBase \<Rightarrow> LedgerState \<Rightarrow> (TransactionResultCode \<times> LedgerState) tx" where
  "baseApply env tx ls =
     (case tx of
        PlainTx t \<Rightarrow> bindE (txApply env t True ls) (\<lambda>r. Inr (txrCode r, txrState r))
      | FeeBumpTx fb \<Rightarrow> bindE (fbApply env fb ls) (\<lambda>r. Inr (fbrCode r, txrState (fbrInner r))))"

fun applyTransactions ::
    "TxEnv \<Rightarrow> TransactionFrameBase list \<Rightarrow> LedgerState \<Rightarrow> (TransactionResultCode list \<times> LedgerState) tx" where
  "applyTransactions env [] ls = Inr ([], ls)"
| "applyTransactions env (tx # txs) ls =
     bindE (baseApply env tx ls) (\<lambda>(code, ls1).
     bindE (applyTransactions env txs ls1) (\<lambda>(codes, ls2).
     Inr (code # codes, ls2)))"

definition runTransactionSet ::
    "TxEnv \<Rightarrow> TransactionFrameBase list \<Rightarrow> int \<Rightarrow> Hash \<Rightarrow> LedgerState
     \<Rightarrow> (int list \<times> TransactionResultCode list \<times> LedgerState) tx" where
  "runTransactionSet env txs base feeID ls =
     bindE (processFeesSeqNums env txs base feeID ls) (\<lambda>(fees, ls1).
     bindE (applyTransactions env txs ls1) (\<lambda>(codes, ls2).
     Inr (fees, codes, ls2)))"

end
