(* ===== verification/CoinRules.thy ===== *)
theory CoinRules
  imports FeeBumps
begin

text \<open>
  What every change of the ledger does to the coins and the sequence numbers: the native coins that an entry
  holds, the sequence number of an account, and the relation between two states in which both are the
  same. The helpers of balances, liabilities and sponsorships are of that kind, whatever their result.
\<close>

section \<open>Coins and sequence numbers of entries\<close>

definition nativeWeight :: "LedgerEntry \<Rightarrow> int" where
  "nativeWeight le =
     (case ledgerData le of
        ACCOUNT acc \<Rightarrow> accBalance acc
      | CLAIMABLE_BALANCE cb \<Rightarrow> if cbAsset cb = ASSET_TYPE_NATIVE then cbAmount cb else 0
      | _ \<Rightarrow> 0)"

definition seqOf :: "LedgerEntry \<Rightarrow> int option" where
  "seqOf le = (case ledgerData le of ACCOUNT acc \<Rightarrow> Some (seqNum acc) | _ \<Rightarrow> None)"

definition entryCore :: "LedgerEntry \<Rightarrow> int \<times> int option" where
  "entryCore le = (nativeWeight le, seqOf le)"

definition coreIn :: "LedgerState \<Rightarrow> LedgerKey \<Rightarrow> int \<times> int option" where
  "coreIn ls k = (case loadEntry ls k of None \<Rightarrow> (0, None) | Some le \<Rightarrow> entryCore le)"

definition nativeTotal :: "LedgerState \<Rightarrow> int" where
  "nativeTotal ls = totalOver (\<lambda>k le. nativeWeight le) ls"

definition plain :: "LedgerEntry \<Rightarrow> bool" where
  "plain le = (case ledgerData le of ACCOUNT _ \<Rightarrow> False | CLAIMABLE_BALANCE _ \<Rightarrow> False | _ \<Rightarrow> True)"

definition sameCore :: "LedgerEntry \<Rightarrow> LedgerEntry \<Rightarrow> bool" where
  "sameCore le le' \<longleftrightarrow> LedgerEntryKey le' = LedgerEntryKey le \<and> entryCore le' = entryCore le"

definition quiet :: "LedgerState \<Rightarrow> LedgerState \<Rightarrow> bool" where
  "quiet ls ls' \<longleftrightarrow> (stateWf ls \<longrightarrow>
     stateWf ls' \<and> lsHeader ls' = lsHeader ls \<and> nativeTotal ls' = nativeTotal ls \<and> (\<forall>k. coreIn ls' k = coreIn ls k))"

lemma sameCore_refl [simp]: "sameCore le le"
  by (simp add: sameCore_def)

lemma sameCore_trans [trans]: "sameCore a b \<Longrightarrow> sameCore b c \<Longrightarrow> sameCore a c"
  by (simp add: sameCore_def)

lemma quiet_refl [simp]: "quiet ls ls"
  by (simp add: quiet_def)

lemma quiet_trans [trans]: "quiet a b \<Longrightarrow> quiet b c \<Longrightarrow> quiet a c"
  by (simp add: quiet_def)

lemma quiet_wf: "quiet ls ls' \<Longrightarrow> stateWf ls \<Longrightarrow> stateWf ls'"
  by (simp add: quiet_def)

lemma coreIn_load: "loadEntry ls k = Some le \<Longrightarrow> coreIn ls k = entryCore le"
  by (simp add: coreIn_def)

lemma coreIn_put: "coreIn (storeEntry le ls) k = (if k = LedgerEntryKey le then entryCore le else coreIn ls k)"
  by (simp add: coreIn_def lst.get_put)

lemma coreIn_erase: "coreIn (eraseEntry k ls) k' = (if k' = k then (0, None) else coreIn ls k')"
  by (simp add: coreIn_def lst.get_erase)

lemma weightAt_core: "weightAt (\<lambda>k. nativeWeight) k (loadEntry ls k) = fst (coreIn ls k)"
  by (cases "loadEntry ls k") (simp_all add: coreIn_def entryCore_def)

lemma nativeTotal_put:
  "nativeTotal (storeEntry le ls) = nativeTotal ls + nativeWeight le - fst (coreIn ls (LedgerEntryKey le))"
  by (simp add: nativeTotal_def lst.total_put weightAt_core)

lemma nativeTotal_erase:
  "stateWf ls \<Longrightarrow> nativeTotal (eraseEntry k ls) = nativeTotal ls - fst (coreIn ls k)"
  by (simp add: nativeTotal_def lst.total_erase weightAt_core)

lemma quiet_store: "coreIn ls (LedgerEntryKey le) = entryCore le \<Longrightarrow> quiet ls (storeEntry le ls)"
  by (simp add: quiet_def lst.wf_put nativeTotal_put coreIn_put entryCore_def)

lemma quiet_erase: "coreIn ls k = (0, None) \<Longrightarrow> quiet ls (eraseEntry k ls)"
  by (simp add: quiet_def lst.wf_erase nativeTotal_erase coreIn_erase)

lemma plain_core: "plain le \<Longrightarrow> entryCore le = (0, None)"
  by (auto simp: plain_def entryCore_def nativeWeight_def seqOf_def split: LedgerEntryData.splits)

lemma plain_key:
  "plain le \<longleftrightarrow> (\<forall>a. LedgerEntryKey le \<noteq> AccountKey a) \<and> (\<forall>b. LedgerEntryKey le \<noteq> ClaimableBalanceKey b)"
  by (auto simp: plain_def LedgerEntryKey_def split: LedgerEntryData.splits)

lemma coreIn_plain:
  assumes "stateWf ls" "plain le"
  shows "coreIn ls (LedgerEntryKey le) = (0, None)"
proof (cases "loadEntry ls (LedgerEntryKey le)")
  case (Some e)
  then have "plain e" using loadEntry_key [OF assms(1) Some] assms(2) by (simp add: plain_key)
  then show ?thesis using Some by (simp add: coreIn_load plain_core)
qed (simp add: coreIn_def)

lemma quiet_plain: "plain le \<Longrightarrow> quiet ls (storeEntry le ls)"
  using quiet_store [of ls le] by (auto simp: quiet_def coreIn_plain plain_core)

lemma quiet_erase_plain: "plain le \<Longrightarrow> quiet ls (eraseEntry (LedgerEntryKey le) ls)"
  using quiet_erase [of ls "LedgerEntryKey le"] by (auto simp: quiet_def coreIn_plain)

lemma quiet_put:
  assumes "quiet ls ls'" "loadEntry ls k = Some le" "sameCore le le'"
  shows "quiet ls (storeEntry le' ls')"
proof (cases "stateWf ls")
  case True
  have "LedgerEntryKey le' = k" "entryCore le' = entryCore le"
    using assms(3) loadEntry_key [OF True assms(2)] by (auto simp: sameCore_def)
  moreover have "coreIn ls' k = entryCore le"
    using assms(1) True coreIn_load [OF assms(2)] by (simp add: quiet_def)
  ultimately have "quiet ls' (storeEntry le' ls')" by (intro quiet_store) simp
  then show ?thesis using assms(1) quiet_trans by blast
qed (simp add: quiet_def)

section \<open>Changes of an account entry\<close>

lemma accountOf_Inr [simp]: "accountOf le = Inr acc \<longleftrightarrow> ledgerData le = ACCOUNT acc"
  by (auto simp: accountOf_def split: LedgerEntryData.splits)

lemma trustLineOf_Inr [simp]: "trustLineOf le = Inr t \<longleftrightarrow> ledgerData le = TRUSTLINE t"
  by (auto simp: trustLineOf_def split: LedgerEntryData.splits)

lemma offerOf_Inr [simp]: "offerOf le = Inr oe \<longleftrightarrow> ledgerData le = OFFER oe"
  by (auto simp: offerOf_def split: LedgerEntryData.splits)

lemma current_Inr [simp]: "current h = Inr le \<longleftrightarrow> h = Some le"
  by (auto simp: current_def split: option.splits)

lemma sameCore_account:
  assumes "ledgerData le = ACCOUNT acc"
    and "accountID acc' = accountID acc" "accBalance acc' = accBalance acc" "seqNum acc' = seqNum acc"
  shows "sameCore le (le\<lparr>ledgerData := ACCOUNT acc'\<rparr>)"
  using assms by (simp add: sameCore_def LedgerEntryKey_def entryCore_def nativeWeight_def seqOf_def)

lemma sameCore_ext: "sameCore le (le\<lparr>ledgerExt := e\<rparr>)"
  by (simp add: sameCore_def LedgerEntryKey_def entryCore_def nativeWeight_def seqOf_def)

lemma setExtV2_core [simp]:
  "accountID (setAccountEntryExtensionV2 v acc) = accountID acc"
  "accBalance (setAccountEntryExtensionV2 v acc) = accBalance acc"
  "seqNum (setAccountEntryExtensionV2 v acc) = seqNum acc"
  by (simp_all add: setAccountEntryExtensionV2_def)

definition keepsCore :: "(LedgerEntry \<Rightarrow> LedgerEntry tx) \<Rightarrow> bool" where
  "keepsCore f \<longleftrightarrow> (\<forall>le le'. f le = Inr le' \<longrightarrow> sameCore le le')"

lemma keepsCoreD: "keepsCore f \<Longrightarrow> f le = Inr le' \<Longrightarrow> sameCore le le'"
  by (simp add: keepsCore_def)

lemma onAccount_keeps:
  assumes "\<And>acc acc'. f acc = Inr acc' \<Longrightarrow>
      accountID acc' = accountID acc \<and> accBalance acc' = accBalance acc \<and> seqNum acc' = seqNum acc"
  shows "keepsCore (onAccount f)"
  using assms by (auto simp: keepsCore_def onAccount_def bindE_Inr_iff intro!: sameCore_account)

lemma counters_keep [simp]:
  "keepsCore (addSubEntries n)" "keepsCore (addNumSponsoring n)" "keepsCore (addNumSponsored n)"
  "keepsCore (subNumSponsoring n)" "keepsCore (subNumSponsored n)"
  unfolding addSubEntries_def addNumSponsoring_def addNumSponsored_def subNumSponsoring_def subNumSponsored_def
  by (rule onAccount_keeps; auto simp: bindE_Inr_iff Let_def)+


section \<open>Sponsorship\<close>

definition sameSponsored :: "Sponsored \<Rightarrow> Sponsored \<Rightarrow> bool" where
  "sameSponsored s s' =
     (case (s, s') of
        (NoSponsored, NoSponsored) \<Rightarrow> True
      | (SponsoredSelf, SponsoredSelf) \<Rightarrow> True
      | (SponsoredAccount a, SponsoredAccount a') \<Rightarrow> sameCore a a'
      | _ \<Rightarrow> False)"

lemma sameSponsored_trans: "sameSponsored a b \<Longrightarrow> sameSponsored b c \<Longrightarrow> sameSponsored a c"
  by (cases a; cases b; cases c) (auto simp: sameSponsored_def intro: sameCore_trans)

lemma sameSponsored_after: "sameSponsored s s' \<Longrightarrow> s = SponsoredAccount acc \<or> s = SponsoredSelf \<or> s = NoSponsored
    \<Longrightarrow> sameCore acc (accountAfter acc le s')"
  by (cases s; cases s') (auto simp: sameSponsored_def accountAfter_def)

lemma onSponsored_keeps:
  assumes "keepsCore f" "onSponsored f le s = Inr (le', s')"
  shows "sameCore le le' \<and> sameSponsored s s'"
  using assms by (cases s) (auto simp: onSponsored_def bindE_Inr_iff sameSponsored_def dest: keepsCoreD)

lemma entryCreation_keeps [simp]:
  "keepsCore (createEntryWithoutSponsorship le)" "keepsCore (removeEntryWithoutSponsorship le)"
  "keepsCore createSignerWithoutSponsorship"
  using counters_keep(1)
  by (auto simp: keepsCore_def createEntryWithoutSponsorship_def removeEntryWithoutSponsorship_def
      createSignerWithoutSponsorship_def)

lemma establishEntrySponsorship_keeps:
  assumes "establishEntrySponsorship le ing s = Inr (le', ing', s')"
  shows "sameCore le le' \<and> sameCore ing ing' \<and> sameSponsored s s'"
  using assms onSponsored_keeps [OF counters_keep(3)] keepsCoreD [OF counters_keep(2)]
  by (fastforce simp: establishEntrySponsorship_def bindE_Inr_iff Let_def intro: sameCore_ext sameCore_trans)

lemma removeEntrySponsorship_keeps:
  assumes "removeEntrySponsorship le ing s = Inr (le', ing', s')"
  shows "sameCore le le' \<and> sameCore ing ing' \<and> sameSponsored s s'"
  using assms onSponsored_keeps [OF counters_keep(5)] keepsCoreD [OF counters_keep(4)]
  by (fastforce simp: removeEntrySponsorship_def bindE_Inr_iff Let_def intro: sameCore_ext sameCore_trans)

lemma transferEntrySponsorship_keeps:
  assumes "transferEntrySponsorship le old new = Inr (le', old', new')"
  shows "sameCore le le' \<and> sameCore old old' \<and> sameCore new new'"
  using assms keepsCoreD [OF counters_keep(2)] keepsCoreD [OF counters_keep(4)]
  by (fastforce simp: transferEntrySponsorship_def bindE_Inr_iff Let_def intro: sameCore_ext)

lemma createEntryWithSponsorship_keeps:
  assumes "createEntryWithSponsorship le ing s = Inr (le', ing', s')"
  shows "sameCore le le' \<and> sameCore ing ing' \<and> sameSponsored s s'"
  using assms onSponsored_keeps [OF entryCreation_keeps(1)] establishEntrySponsorship_keeps
  by (fastforce simp: createEntryWithSponsorship_def bindE_Inr_iff intro: sameCore_trans sameSponsored_trans)

lemma removeEntryWithSponsorship_keeps:
  assumes "removeEntryWithSponsorship le ing s = Inr (le', ing', s')"
  shows "sameCore le le' \<and> sameCore ing ing' \<and> sameSponsored s s'"
  using assms onSponsored_keeps [OF entryCreation_keeps(2)] removeEntrySponsorship_keeps
  by (fastforce simp: removeEntryWithSponsorship_def bindE_Inr_iff intro: sameCore_trans sameSponsored_trans)

lemma signerSponsorship_keeps:
  "establishSignerSponsorship n ing acc = Inr (ing', acc') \<Longrightarrow> sameCore ing ing' \<and> sameCore acc acc'"
  "removeSignerSponsorship n ing acc = Inr (ing', acc') \<Longrightarrow> sameCore ing ing' \<and> sameCore acc acc'"
  using keepsCoreD [OF counters_keep(2)] keepsCoreD [OF counters_keep(4)]
  by (auto simp: establishSignerSponsorship_def removeSignerSponsorship_def bindE_Inr_iff onAccount_def
      split: if_splits intro!: sameCore_account)

lemma transferSignerSponsorship_keeps:
  "transferSignerSponsorship n old new acc = Inr (old', new', acc')
     \<Longrightarrow> sameCore old old' \<and> sameCore new new' \<and> sameCore acc acc'"
  using keepsCoreD [OF counters_keep(2)] keepsCoreD [OF counters_keep(4)]
  by (auto simp: transferSignerSponsorship_def bindE_Inr_iff onAccount_def split: if_splits intro!: sameCore_account)

lemma removeSignerWithoutSponsorship_keeps [simp]: "keepsCore (removeSignerWithoutSponsorship n)"
  unfolding removeSignerWithoutSponsorship_def by (rule onAccount_keeps) (auto simp: Let_def)

lemma signerCreation_keeps:
  "createSignerWithSponsorship n ing acc = Inr (ing', acc') \<Longrightarrow> sameCore ing ing' \<and> sameCore acc acc'"
  "removeSignerWithSponsorship n ing acc = Inr (ing', acc') \<Longrightarrow> sameCore ing ing' \<and> sameCore acc acc'"
  using signerSponsorship_keeps keepsCoreD [OF entryCreation_keeps(3)]
    keepsCoreD [OF removeSignerWithoutSponsorship_keeps]
  by (fastforce simp: createSignerWithSponsorship_def removeSignerWithSponsorship_def bindE_Inr_iff
      intro: sameCore_trans)+


lemma createEntryWithPossibleSponsorship_quiet:
  assumes "createEntryWithPossibleSponsorship ls le acc = Inr (res, le', acc', ls')"
  shows "sameCore le le' \<and> sameCore acc acc' \<and> quiet ls ls'"
proof -
  have store: "quiet ls (storeEntry ing' ls)" if "loadEntry ls k = Some ing" "sameCore ing ing'" for k ing ing'
    using quiet_put [OF quiet_refl that] .
  show ?thesis
    using assms store keepsCoreD [OF entryCreation_keeps(1)]
    by (auto simp: createEntryWithPossibleSponsorship_def bindE_Inr_iff Let_def
        dest!: createEntryWithSponsorship_keeps intro: sameSponsored_after split: option.splits if_splits)
qed

lemma removeEntryWithPossibleSponsorship_quiet:
  assumes "removeEntryWithPossibleSponsorship ls le acc = Inr (le', acc', ls')"
  shows "sameCore le le' \<and> sameCore acc acc' \<and> quiet ls ls'"
proof -
  have store: "quiet ls (storeEntry ing' ls)" if "loadEntry ls k = Some ing" "sameCore ing ing'" for k ing ing'
    using quiet_put [OF quiet_refl that] .
  show ?thesis
    using assms store keepsCoreD [OF entryCreation_keeps(2)]
    by (auto simp: removeEntryWithPossibleSponsorship_def bindE_Inr_iff Let_def
        dest!: removeEntryWithSponsorship_keeps intro: sameSponsored_after split: option.splits if_splits)
qed

lemma createSignerWithPossibleSponsorship_quiet:
  assumes "createSignerWithPossibleSponsorship ls n acc = Inr (res, acc', ls')"
  shows "sameCore acc acc' \<and> quiet ls ls'"
proof -
  have store: "quiet ls (storeEntry ing' ls)" if "loadEntry ls k = Some ing" "sameCore ing ing'" for k ing ing'
    using quiet_put [OF quiet_refl that] .
  show ?thesis
    using assms store keepsCoreD [OF entryCreation_keeps(3)]
    by (auto simp: createSignerWithPossibleSponsorship_def bindE_Inr_iff Let_def
        dest!: signerCreation_keeps split: option.splits if_splits)
qed

lemma removeSignerWithPossibleSponsorship_quiet:
  assumes "removeSignerWithPossibleSponsorship ls n acc = Inr (acc', ls')"
  shows "sameCore acc acc' \<and> quiet ls ls'"
proof -
  have store: "quiet ls (storeEntry ing' ls)" if "loadEntry ls k = Some ing" "sameCore ing ing'" for k ing ing'
    using quiet_put [OF quiet_refl that] .
  show ?thesis
    using assms store keepsCoreD [OF removeSignerWithoutSponsorship_keeps]
    by (auto simp: removeSignerWithPossibleSponsorship_def bindE_Inr_iff Let_def
        dest!: signerCreation_keeps split: option.splits if_splits)
qed

section \<open>Liabilities\<close>

lemma liability_core [simp]:
  "accountID (setAccBuying b acc) = accountID acc" "accountID (setAccSelling b acc) = accountID acc"
  "accBalance (setAccBuying b acc) = accBalance acc" "accBalance (setAccSelling b acc) = accBalance acc"
  "seqNum (setAccBuying b acc) = seqNum acc" "seqNum (setAccSelling b acc) = seqNum acc"
  by (simp_all add: setAccBuying_def setAccSelling_def Let_def)

lemma liability_key [simp]:
  "tlAccountID (setTlBuying b t) = tlAccountID t" "tlAccountID (setTlSelling b t) = tlAccountID t"
  "tlAsset (setTlBuying b t) = tlAsset t" "tlAsset (setTlSelling b t) = tlAsset t"
  by (simp_all add: setTlBuying_def setTlSelling_def)

lemma sameCore_plain: "ledgerData le = TRUSTLINE t \<Longrightarrow> tlAccountID t' = tlAccountID t \<Longrightarrow> tlAsset t' = tlAsset t
    \<Longrightarrow> sameCore le (le\<lparr>ledgerData := TRUSTLINE t'\<rparr>)"
  by (simp add: sameCore_def LedgerEntryKey_def entryCore_def nativeWeight_def seqOf_def)

lemma addLiabilities_keep:
  "addBuyingLiabilities h le d = Inr (Some le') \<Longrightarrow> sameCore le le'"
  "addSellingLiabilities h le d = Inr (Some le') \<Longrightarrow> sameCore le le'"
  by (cases "ledgerData le"; auto simp: addBuyingLiabilities_def addSellingLiabilities_def bindE_Inr_iff Let_def
      split: if_splits intro!: sameCore_account sameCore_plain)+

lemma sameCore_isPlain: "sameCore le le' \<Longrightarrow> plain le \<Longrightarrow> plain le'"
  by (simp add: sameCore_def plain_key)

definition lineFrom :: "LedgerState \<Rightarrow> TrustLineWrapper \<Rightarrow> bool" where
  "lineFrom ls w = (case w of NonIssuerImpl le \<Rightarrow> stateWf ls \<longrightarrow> plain le | IssuerImpl _ _ \<Rightarrow> True)"

lemma load_trustline_plain: "stateWf ls \<Longrightarrow> loadEntry ls (TrustLineKey a x) = Some le \<Longrightarrow> plain le"
  by (frule (1) loadEntry_key) (simp add: plain_key)

lemma loadTrustLine_from: "loadTrustLine ls a x = Inr (Some w) \<Longrightarrow> lineFrom ls w"
  by (auto simp: loadTrustLine_def lineFrom_def bindE_Inr_iff intro: load_trustline_plain split: if_splits)

lemma loadTrustLineIfNotNative_from: "loadTrustLineIfNotNative ls a x = Inr (Some w) \<Longrightarrow> lineFrom ls w"
  by (auto simp: loadTrustLineIfNotNative_def loadTrustLine_from split: if_splits)

lemma lineLiabilities_from:
  "lineAddBuyingLiabilities h w d = Inr (Some w') \<Longrightarrow> lineFrom ls w \<Longrightarrow> lineFrom ls w'"
  "lineAddSellingLiabilities h w d = Inr (Some w') \<Longrightarrow> lineFrom ls w \<Longrightarrow> lineFrom ls w'"
  by (auto simp: lineAddBuyingLiabilities_def lineAddSellingLiabilities_def lineFrom_def bindE_Inr_iff
      split: TrustLineWrapper.splits dest!: addLiabilities_keep intro: sameCore_isPlain)

lemma storeTrustLine_quiet: "lineFrom ls w \<Longrightarrow> quiet ls' (storeTrustLine w ls') \<or> \<not> stateWf ls"
  by (auto simp: lineFrom_def storeTrustLine_def quiet_plain split: TrustLineWrapper.splits)

lemma quiet_line: "lineFrom ls w \<Longrightarrow> quiet ls ls' \<Longrightarrow> quiet ls (storeTrustLine w ls')"
  using storeTrustLine_quiet [of ls w ls'] quiet_trans [of ls ls'] by (auto simp: quiet_def)

lemma changeLiabilities_quiet:
  assumes "\<And>h le d le'. addLiab h le d = Inr (Some le') \<Longrightarrow> sameCore le le'"
    and "\<And>h w d w'. lineLiab h w d = Inr (Some w') \<Longrightarrow> lineFrom ls w \<Longrightarrow> lineFrom ls w'"
    and "changeLiabilities addLiab lineLiab msg ls a x d = Inr ls'"
  shows "quiet ls ls'"
  using assms(3)
  by (auto simp: changeLiabilities_def bindE_Inr_iff split: if_splits option.splits
      intro: quiet_put [OF quiet_refl _ assms(1)] quiet_line [OF assms(2) quiet_refl] dest!: loadTrustLine_from)

lemma changeBuying_quiet:
  "changeLiabilities addBuyingLiabilities lineAddBuyingLiabilities msg ls a x d = Inr ls' \<Longrightarrow> quiet ls ls'"
  by (erule changeLiabilities_quiet [rotated 2]) (auto intro: addLiabilities_keep lineLiabilities_from)

lemma changeSelling_quiet:
  "changeLiabilities addSellingLiabilities lineAddSellingLiabilities msg ls a x d = Inr ls' \<Longrightarrow> quiet ls ls'"
  by (erule changeLiabilities_quiet [rotated 2]) (auto intro: addLiabilities_keep lineLiabilities_from)

lemma liabilities_quiet:
  "acquireOrReleaseLiabilities ls oe b = Inr ls' \<Longrightarrow> quiet ls ls'"
  by (auto simp: acquireOrReleaseLiabilities_def bindE_Inr_iff split: if_splits
      dest!: changeBuying_quiet changeSelling_quiet intro: quiet_trans)

lemma release_acquire_quiet:
  "releaseLiabilities ls oe = Inr ls' \<Longrightarrow> quiet ls ls'" "acquireLiabilities ls oe = Inr ls' \<Longrightarrow> quiet ls ls'"
  by (auto simp: releaseLiabilities_def acquireLiabilities_def liabilities_quiet)

end
