(* ===== verification/CoinShifts.thy ===== *)
theory CoinShifts
  imports CoinRules
begin

text \<open>
  By how much an operation changes the native coins that accounts and claimable balances hold, while the
  header keeps everything but its pool of identifiers. The same relation carries what the sequence numbers
  must not do: fall behind a number already used, the number a new account would start with being the
  measure where there is no account. Where the header moves coins as well, as fees and inflation do, the
  relation is the one on the balance of coins: those held and the fee pool less the total.
\<close>

section \<open>Shifts of the coin balance\<close>

definition coinBalance :: "LedgerState \<Rightarrow> int" where
  "coinBalance ls = nativeTotal ls + feePool (lsHeader ls) - totalCoins (lsHeader ls)"

definition startSeq :: "LedgerState \<Rightarrow> int" where
  "startSeq ls = sint (getStartingSequenceNumber (ledgerSeq (lsHeader ls)))"

definition usedUpTo :: "LedgerState \<Rightarrow> AccountID \<Rightarrow> int \<Rightarrow> bool" where
  "usedUpTo ls a s = (case snd (coreIn ls (AccountKey a)) of Some n \<Rightarrow> s \<le> n | None \<Rightarrow> s < startSeq ls)"

definition keepsUsed :: "LedgerState \<Rightarrow> LedgerState \<Rightarrow> bool" where
  "keepsUsed ls ls' \<longleftrightarrow> (\<forall>a s. usedUpTo ls a s \<longrightarrow> usedUpTo ls' a s)"

definition shift :: "int \<Rightarrow> LedgerState \<Rightarrow> LedgerState \<Rightarrow> bool" where
  "shift d ls ls' \<longleftrightarrow> (stateWf ls \<longrightarrow>
     stateWf ls' \<and> lsHeader ls' = (lsHeader ls)\<lparr>idPool := idPool (lsHeader ls')\<rparr>
     \<and> nativeTotal ls' = nativeTotal ls + d
     \<and> (10 \<le> ledgerVersion (lsHeader ls) \<longrightarrow> keepsUsed ls ls'))"

lemma startSeq_header: "lsHeader ls' = lsHeader ls \<Longrightarrow> startSeq ls' = startSeq ls"
  by (simp add: startSeq_def)

lemma startSeq_store [simp]: "startSeq (storeEntry le ls) = startSeq ls" "startSeq (eraseEntry k ls) = startSeq ls"
  by (simp_all add: startSeq_def)

lemma header_trans:
  assumes "lsHeader b = (lsHeader a)\<lparr>idPool := i\<rparr>" "lsHeader c = (lsHeader b)\<lparr>idPool := j\<rparr>"
  shows "lsHeader c = (lsHeader a)\<lparr>idPool := j\<rparr>"
  using assms by simp

lemma shift_refl [simp]: "shift 0 ls ls"
  by (simp add: shift_def keepsUsed_def)

lemma shiftD:
  assumes "shift d ls ls'" "stateWf ls"
  shows "stateWf ls'" "lsHeader ls' = (lsHeader ls)\<lparr>idPool := idPool (lsHeader ls')\<rparr>"
    "nativeTotal ls' = nativeTotal ls + d" "10 \<le> ledgerVersion (lsHeader ls) \<Longrightarrow> keepsUsed ls ls'"
  using assms by (simp_all add: shift_def)

lemma shift_wf: "shift d ls ls' \<Longrightarrow> stateWf ls \<Longrightarrow> stateWf ls'"
  by (simp add: shift_def)

lemma shift_header_fields:
  assumes "shift d ls ls'" "stateWf ls"
  shows "ledgerVersion (lsHeader ls') = ledgerVersion (lsHeader ls)" "ledgerSeq (lsHeader ls') = ledgerSeq (lsHeader ls)"
    "feePool (lsHeader ls') = feePool (lsHeader ls)" "totalCoins (lsHeader ls') = totalCoins (lsHeader ls)"
  by (subst shiftD(2) [OF assms], simp)+

lemmas shift_version = shift_header_fields(1)

lemma keepsUsed_trans: "keepsUsed a b \<Longrightarrow> keepsUsed b c \<Longrightarrow> keepsUsed a c"
  by (simp add: keepsUsed_def)

lemma shift_unless_wf: "(stateWf ls \<Longrightarrow> shift d ls ls') \<Longrightarrow> shift d ls ls'"
  by (auto simp: shift_def)

lemma shift_trans:
  assumes "shift d a b" "shift e b c"
  shows "shift (d + e) a c"
proof (rule shift_unless_wf)
  assume wf: "stateWf a"
  note ab = shiftD [OF assms(1) wf]
  note bc = shiftD [OF assms(2) ab(1)]
  show "shift (d + e) a c"
    using ab(3) bc(1,3) header_trans [OF ab(2) bc(2)] keepsUsed_trans [OF ab(4) bc(4)] shift_version [OF assms(1) wf]
    by (simp add: shift_def)
qed

lemma shift_trans': "shift d a b \<Longrightarrow> shift e b c \<Longrightarrow> f = d + e \<Longrightarrow> shift f a c"
  using shift_trans by blast

lemma quiet_shift: "quiet ls ls' \<Longrightarrow> shift 0 ls ls'"
  by (auto simp: quiet_def shift_def keepsUsed_def usedUpTo_def startSeq_header [of ls' ls] split: option.splits)

lemma quiet_shift_trans: "quiet a b \<Longrightarrow> shift d b c \<Longrightarrow> shift d a c"
  using shift_trans [OF quiet_shift] by fastforce

lemma shift_quiet_trans: "shift d a b \<Longrightarrow> quiet b c \<Longrightarrow> shift d a c"
  using shift_trans [OF _ quiet_shift] by fastforce

section \<open>Writing one entry\<close>

lemma usedUpTo_put:
  "usedUpTo (storeEntry le ls) a s =
     (if LedgerEntryKey le = AccountKey a
      then (case seqOf le of Some n \<Rightarrow> s \<le> n | None \<Rightarrow> s < startSeq ls) else usedUpTo ls a s)"
  by (simp add: usedUpTo_def coreIn_put entryCore_def split: option.split)

lemma usedUpTo_erase:
  "usedUpTo (eraseEntry k ls) a s = (if k = AccountKey a then s < startSeq ls else usedUpTo ls a s)"
  by (simp add: usedUpTo_def coreIn_erase split: option.split)

lemma keepsUsed_put:
  assumes "\<And>a s. LedgerEntryKey le = AccountKey a \<Longrightarrow> usedUpTo ls a s
      \<Longrightarrow> (case seqOf le of Some n \<Rightarrow> s \<le> n | None \<Rightarrow> s < startSeq ls)"
  shows "keepsUsed ls (storeEntry le ls)"
  using assms by (simp add: keepsUsed_def usedUpTo_put)

definition entryShift :: "int \<Rightarrow> LedgerEntry \<Rightarrow> LedgerEntry \<Rightarrow> bool" where
  "entryShift d le le' \<longleftrightarrow> LedgerEntryKey le' = LedgerEntryKey le \<and> nativeWeight le' = nativeWeight le + d
     \<and> (case (seqOf le, seqOf le') of (Some n, Some n') \<Rightarrow> n \<le> n' | (None, None) \<Rightarrow> True | _ \<Rightarrow> False)"

lemma entryShift_trans: "entryShift d a b \<Longrightarrow> entryShift e b c \<Longrightarrow> entryShift (d + e) a c"
  by (auto simp: entryShift_def split: option.splits)

lemma sameCore_entryShift: "sameCore a b \<Longrightarrow> entryShift 0 a b"
  by (auto simp: sameCore_def entryShift_def entryCore_def split: option.splits)

lemma shift_store:
  assumes "coreIn ls (LedgerEntryKey le) = entryCore le" "entryShift d le le'"
  shows "shift d ls (storeEntry le' ls)"
proof -
  have "keepsUsed ls (storeEntry le' ls)"
    using assms by (intro keepsUsed_put) (auto simp: usedUpTo_def entryShift_def entryCore_def split: option.splits)
  then show ?thesis
    using assms by (auto simp: shift_def lst.wf_put nativeTotal_put entryShift_def entryCore_def)
qed

lemma shift_put:
  assumes "quiet ls ls'" "loadEntry ls k = Some le" "entryShift d le le'"
  shows "shift d ls (storeEntry le' ls')"
proof (rule shift_unless_wf)
  assume wf: "stateWf ls"
  have "coreIn ls' (LedgerEntryKey le) = entryCore le"
    using assms(1) wf coreIn_load [OF assms(2)] loadEntry_key [OF wf assms(2)] by (simp add: quiet_def)
  from shift_store [OF this assms(3)] show "shift d ls (storeEntry le' ls')"
    using quiet_shift_trans [OF assms(1)] by blast
qed

lemma seqOf_None: "seqOf le = None \<longleftrightarrow> (\<forall>a. LedgerEntryKey le \<noteq> AccountKey a)"
  by (auto simp: seqOf_def LedgerEntryKey_def split: LedgerEntryData.splits)

lemma shift_new:
  assumes "coreIn ls (LedgerEntryKey le) = (0, None)"
    and "\<And>n. seqOf le = Some n \<Longrightarrow> startSeq ls \<le> n"
  shows "shift (nativeWeight le) ls (storeEntry le ls)"
proof -
  have "keepsUsed ls (storeEntry le ls)"
    using assms by (intro keepsUsed_put) (fastforce simp: usedUpTo_def split: option.splits)
  then show ?thesis using assms by (simp add: shift_def lst.wf_put nativeTotal_put)
qed

lemma shift_gone:
  assumes "coreIn ls k = (w, s)" "\<And>n. s = Some n \<Longrightarrow> 10 \<le> ledgerVersion (lsHeader ls) \<Longrightarrow> n < startSeq ls"
  shows "shift (- w) ls (eraseEntry k ls)"
proof -
  have "keepsUsed ls (eraseEntry k ls)" if "10 \<le> ledgerVersion (lsHeader ls)"
    unfolding keepsUsed_def usedUpTo_erase using assms that
    by (fastforce simp: usedUpTo_def split: option.splits)
  then show ?thesis using assms
    by (simp add: shift_def lst.wf_erase nativeTotal_erase)
qed

section \<open>Balances\<close>

definition natively :: "Asset \<Rightarrow> int \<Rightarrow> int" where
  "natively asset d = (if asset = ASSET_TYPE_NATIVE then d else 0)"

lemma addBalance_account:
  assumes "addBalance h le d = Inr (Some le')" "ledgerData le = ACCOUNT acc"
  shows "entryShift d le le'"
proof (cases "d = 0")
  case True
  then show ?thesis using assms sameCore_entryShift [OF sameCore_refl] by (auto simp: addBalance_def)
next
  case False
  then obtain b where "addBalanceTo (accBalance acc) d INT64_MAX = Inr (Some b)"
    and le': "le' = le\<lparr>ledgerData := ACCOUNT (acc\<lparr>accBalance := b\<rparr>)\<rparr>"
    using assms by (auto simp: addBalance_def bindE_Inr_iff Let_def split: option.splits if_splits)
  then have "b = accBalance acc + d" by (auto simp: addBalanceTo_def split: if_splits)
  then show ?thesis using assms(2) le'
    by (simp add: entryShift_def LedgerEntryKey_def nativeWeight_def seqOf_def)
qed

lemma addBalance_trustline:
  assumes "addBalance h le d = Inr (Some le')" "ledgerData le = TRUSTLINE t"
  shows "sameCore le le'"
  using assms by (auto simp: addBalance_def bindE_Inr_iff Let_def split: option.splits if_splits intro!: sameCore_plain)

lemma load_account_data:
  assumes "stateWf ls" "loadEntry ls (AccountKey a) = Some le"
  obtains acc where "ledgerData le = ACCOUNT acc" "accountID acc = a"
  using loadEntry_key [OF assms] by (cases "ledgerData le") (auto simp: LedgerEntryKey_def)

lemma load_trustline_data:
  assumes "stateWf ls" "loadEntry ls (TrustLineKey a x) = Some le"
  obtains t where "ledgerData le = TRUSTLINE t"
  using loadEntry_key [OF assms] by (cases "ledgerData le") (auto simp: LedgerEntryKey_def)

text \<open>An account read, changed in its balance and written back.\<close>

lemma shift_account:
  assumes "loadEntry ls (AccountKey a) = Some le" "addBalance h le d = Inr (Some le')"
  shows "shift d ls (storeEntry le' ls)"
proof (rule shift_unless_wf)
  assume wf: "stateWf ls"
  obtain acc where "ledgerData le = ACCOUNT acc" using load_account_data [OF wf assms(1)] by blast
  from addBalance_account [OF assms(2) this] show "shift d ls (storeEntry le' ls)"
    using shift_put [OF quiet_refl assms(1)] by blast
qed

lemma lineAddBalance_from:
  assumes "lineAddBalance h w d = Inr (Some w')" "lineFrom ls w"
  shows "lineFrom ls w'"
proof -
  have "plain le'" if "plain le" "addBalance h le d = Inr (Some le')" for le le'
    using that addBalance_trustline [OF that(2)]
    by (cases "ledgerData le") (auto simp: plain_def addBalance_def dest!: sameCore_isPlain)
  then show ?thesis using assms
    by (auto simp: lineAddBalance_def lineFrom_def bindE_Inr_iff split: TrustLineWrapper.splits)
qed

section \<open>Shifts of the balance of coins\<close>

definition coinShift :: "int \<Rightarrow> LedgerState \<Rightarrow> LedgerState \<Rightarrow> bool" where
  "coinShift d ls ls' \<longleftrightarrow> (stateWf ls \<longrightarrow>
     stateWf ls' \<and> ledgerVersion (lsHeader ls') = ledgerVersion (lsHeader ls)
     \<and> ledgerSeq (lsHeader ls') = ledgerSeq (lsHeader ls) \<and> coinBalance ls' = coinBalance ls + d
     \<and> (10 \<le> ledgerVersion (lsHeader ls) \<longrightarrow> keepsUsed ls ls'))"

lemma coinShiftD:
  assumes "coinShift d ls ls'" "stateWf ls"
  shows "stateWf ls'" "ledgerVersion (lsHeader ls') = ledgerVersion (lsHeader ls)"
    "ledgerSeq (lsHeader ls') = ledgerSeq (lsHeader ls)" "coinBalance ls' = coinBalance ls + d"
    "10 \<le> ledgerVersion (lsHeader ls) \<Longrightarrow> keepsUsed ls ls'"
  using assms by (simp_all add: coinShift_def)

lemma coinShift_refl [simp]: "coinShift 0 ls ls"
  by (simp add: coinShift_def keepsUsed_def)

lemma coinShift_trans: "coinShift d a b \<Longrightarrow> coinShift e b c \<Longrightarrow> coinShift (d + e) a c"
  by (auto simp: coinShift_def intro: keepsUsed_trans)

lemma coinShift_unless_wf: "(stateWf ls \<Longrightarrow> coinShift d ls ls') \<Longrightarrow> coinShift d ls ls'"
  by (auto simp: coinShift_def)

lemma shift_coinShift: "shift d ls ls' \<Longrightarrow> coinShift d ls ls'"
  using shift_header_fields [of d ls ls'] by (auto simp: coinShift_def coinBalance_def shift_def)

lemma nativeTotal_header: "nativeTotal (ls\<lparr>lsHeader := h\<rparr>) = nativeTotal ls"
  by (simp add: nativeTotal_def totalOver_def)

lemma header_core: "coreIn (ls\<lparr>lsHeader := h\<rparr>) k = coreIn ls k"
  by (simp add: coreIn_def loadEntry_def)

lemma coinShift_header:
  assumes "ledgerVersion h = ledgerVersion (lsHeader ls)" "ledgerSeq h = ledgerSeq (lsHeader ls)"
  shows "coinShift (feePool h - totalCoins h - feePool (lsHeader ls) + totalCoins (lsHeader ls)) ls (ls\<lparr>lsHeader := h\<rparr>)"
  using assms
  by (auto simp: coinShift_def stateWf_def nativeTotal_header coinBalance_def keepsUsed_def usedUpTo_def header_core
      startSeq_def split: option.splits)

lemma shift_idPool: "shift 0 ls (ls\<lparr>lsHeader := (lsHeader ls)\<lparr>idPool := i\<rparr>\<rparr>)"
  by (auto simp: shift_def stateWf_def nativeTotal_header keepsUsed_def usedUpTo_def header_core startSeq_def
      split: option.splits)

end
