(* ===== verification/CoinOperations.thy ===== *)
theory CoinOperations
  imports CoinShifts
begin

text \<open>
  The shift of each operation: none, whatever the operation and its arguments, if it succeeds. The
  exception is inflation before version 8, which is left out by its hypothesis.
\<close>

section \<open>Successful results\<close>

lemma bindO_ok: "bindO m f = Inr (Inr y) \<longleftrightarrow> (\<exists>x. m = Inr (Inr x) \<and> f x = Inr (Inr y))"
proof (cases m)
  case (Inr r)
  then show ?thesis by (cases r) (auto simp: bindO_def)
qed (simp add: bindO_def)

lemma op_ok [simp]:
  "liftO m = Inr (Inr x) \<longleftrightarrow> m = Inr x" "okO x = Inr (Inr y) \<longleftrightarrow> x = y"
  "failO c \<noteq> Inr (Inr x)" "failWith e \<noteq> Inr (Inr x)" "checkO b c = Inr (Inr u) \<longleftrightarrow> b"
  by (auto simp: liftO_def okO_def failO_def failWith_def checkO_def bindE_Inr_iff)

lemma outcome_ok [simp]:
  "sponsorshipOutcome c res = Inr (Inr u) \<longleftrightarrow> res = SUCCESS"
  "signerOutcome res = Inr (Inr u) \<longleftrightarrow> res = SUCCESS"
  "claimOutcome res = Inr (Inr u) \<longleftrightarrow> res = SUCCESS"
  "processSponsorshipResult res = Inr (Inr u) \<longleftrightarrow> res = SUCCESS"
  "unsponsoredOutcome res = Inr (Inr u) \<longleftrightarrow> res = SUCCESS"
  by (cases res; simp add: sponsorshipOutcome_def signerOutcome_def claimOutcome_def
      processSponsorshipResult_def unsponsoredOutcome_def)+

section \<open>Entries of an account\<close>

lemma createEntry_new:
  assumes "createEntry le ls = Inr ls'" "\<And>n. seqOf le = Some n \<Longrightarrow> startSeq ls \<le> n"
  shows "shift (nativeWeight le) ls ls'"
  using assms by (auto simp: createEntry_def coreIn_def split: if_splits intro!: shift_new)

lemma createEntry_plain: "createEntry le ls = Inr ls' \<Longrightarrow> plain le \<Longrightarrow> quiet ls ls'"
  by (auto simp: createEntry_def quiet_plain split: if_splits)

lemma createOwned_quiet:
  assumes "createOwnedEntry c a le ls = Inr (Inr ls')" "plain le"
  shows "quiet ls ls'"
proof -
  obtain acc le' acc' ls1 where *: "loadEntry ls (AccountKey a) = Some acc"
    "createEntryWithPossibleSponsorship ls le acc = Inr (SUCCESS, le', acc', ls1)"
    "createEntry le' (storeEntry acc' ls1) = Inr ls'"
    using assms(1) by (auto simp: createOwnedEntry_def bindO_ok)
  note k = createEntryWithPossibleSponsorship_quiet [OF *(2)]
  have "quiet ls (storeEntry acc' ls1)" using quiet_put [OF _ *(1)] k by blast
  moreover have "quiet (storeEntry acc' ls1) ls'"
    using createEntry_plain [OF *(3)] k assms(2) sameCore_isPlain by blast
  ultimately show ?thesis by (rule quiet_trans)
qed

lemma removeOwned_shift:
  assumes "removeOwnedEntry a le ls = Inr (Inr ls')" "seqOf le = None" "coreIn ls (LedgerEntryKey le) = entryCore le"
  shows "shift (- nativeWeight le) ls ls'"
proof (rule shift_unless_wf)
  assume wf: "stateWf ls"
  obtain acc le' acc' ls1 where *: "loadEntry ls (AccountKey a) = Some acc"
    "removeEntryWithPossibleSponsorship ls le acc = Inr (le', acc', ls1)"
    "removeEntry (LedgerEntryKey le) (storeEntry acc' ls1) = Inr ls'"
    using assms(1) by (auto simp: removeOwnedEntry_def bindO_ok)
  note k = removeEntryWithPossibleSponsorship_quiet [OF *(2)]
  have q: "quiet ls (storeEntry acc' ls1)" using quiet_put [OF _ *(1)] k by blast
  have "coreIn (storeEntry acc' ls1) (LedgerEntryKey le) = (nativeWeight le, None)"
    using q wf assms(2,3) by (simp add: quiet_def entryCore_def)
  from shift_gone [OF this] have "shift (- nativeWeight le) (storeEntry acc' ls1) ls'"
    using *(3) by (auto simp: removeEntry_def split: if_splits)
  then show "shift (- nativeWeight le) ls ls'" by (rule quiet_shift_trans [OF q])
qed

lemma removeOwned_plain:
  assumes "removeOwnedEntry a le ls = Inr (Inr ls')" "plain le"
  shows "quiet ls ls'"
proof -
  obtain acc le' acc' ls1 where *: "loadEntry ls (AccountKey a) = Some acc"
    "removeEntryWithPossibleSponsorship ls le acc = Inr (le', acc', ls1)"
    "removeEntry (LedgerEntryKey le) (storeEntry acc' ls1) = Inr ls'"
    using assms(1) by (auto simp: removeOwnedEntry_def bindO_ok)
  note k = removeEntryWithPossibleSponsorship_quiet [OF *(2)]
  have "quiet ls (storeEntry acc' ls1)" using quiet_put [OF _ *(1)] k by blast
  moreover have "quiet (storeEntry acc' ls1) ls'"
    using *(3) quiet_erase_plain [OF assms(2)] by (auto simp: removeEntry_def split: if_splits)
  ultimately show ?thesis by (rule quiet_trans)
qed

lemma payFrom_shift: "payFrom c a amount ls = Inr (Inr ls') \<Longrightarrow> shift (- amount) ls ls'"
  by (auto simp: payFrom_def bindO_ok split: if_splits option.splits intro: shift_account)

section \<open>Accounts and data\<close>

lemma newAccount_core [simp]:
  "nativeWeight (newAccount a b h) = b" "seqOf (newAccount a b h) = Some (sint (getStartingSequenceNumber (ledgerSeq h)))"
  by (simp_all add: newAccount_def newLedgerEntry_def nativeWeight_def seqOf_def)

lemma shift_ledgerSeq: "shift d ls ls' \<Longrightarrow> stateWf ls \<Longrightarrow> startSeq ls' = startSeq ls"
  by (simp add: shift_header_fields startSeq_def)

lemma createAccount_shift:
  assumes "createAccountApply source dest amount ls = Inr (Inr ls')"
  shows "shift 0 ls ls'"
proof (rule shift_unless_wf)
  assume wf: "stateWf ls"
  obtain ls1 le' ls2 where *: "quiet ls ls1" "payFrom CREATE_ACCOUNT_UNDERFUNDED source amount ls1 = Inr (Inr ls2)"
    "sameCore (newAccount dest amount (lsHeader ls)) le'" "createEntry le' ls2 = Inr ls'"
    using assms
    by (auto simp: createAccountApply_def createAccountBeforeV14_def createAccountFromV14_def bindO_ok Let_def
        split: if_splits dest!: createEntryWithPossibleSponsorship_quiet intro: that [OF quiet_refl _ sameCore_refl])
  have p: "shift (- amount) ls ls2" using quiet_shift_trans [OF *(1) payFrom_shift [OF *(2)]] .
  have le': "nativeWeight le' = amount" "seqOf le' = Some (startSeq ls)"
    using *(3) by (simp_all add: sameCore_def entryCore_def startSeq_def)
  then have "shift amount ls2 ls'"
    using createEntry_new [OF *(4)] shift_ledgerSeq [OF p wf] by auto
  then show "shift 0 ls ls'" using shift_trans [OF p] by fastforce
qed

lemma bumpSequence_shift:
  assumes "bumpSequenceApply a to ls = Inr (Inr ls')"
  shows "shift 0 ls ls'"
  using assms
  by (auto simp: bumpSequenceApply_def bindO_ok entryShift_def LedgerEntryKey_def nativeWeight_def seqOf_def
      split: if_splits intro!: shift_put [OF quiet_refl])

lemma plain_data [simp]: "plain (newLedgerEntry (DATA d))" "plain (newTrustLine a x l b)"
  "plain (le\<lparr>ledgerData := DATA d\<rparr>)" "plain (le\<lparr>ledgerData := TRUSTLINE t\<rparr>)" "plain (le\<lparr>ledgerData := OFFER oe\<rparr>)"
  by (simp_all add: plain_def newLedgerEntry_def newTrustLine_def)

lemma manageData_shift:
  assumes "manageDataApply a name value ls = Inr (Inr ls')"
  shows "shift 0 ls ls'"
proof (rule shift_unless_wf)
  assume wf: "stateWf ls"
  have "plain le" if "loadEntry ls (DataKey a name) = Some le" for le
    using loadEntry_key [OF wf that] by (simp add: plain_key)
  then show "shift 0 ls ls'" using assms
    by (auto simp: manageDataApply_def bindO_ok split: if_splits option.splits LedgerEntryData.splits
        intro!: quiet_shift intro: createOwned_quiet removeOwned_plain quiet_plain)
qed


section \<open>Trust lines\<close>

lemma changeTrustLine_shift:
  assumes "changeTrustLine a x limit issuer ls = Inr (Inr ls')"
  shows "shift 0 ls ls'"
proof (rule shift_unless_wf)
  assume wf: "stateWf ls"
  show "shift 0 ls ls'" using assms load_trustline_plain [OF wf]
    by (auto simp: changeTrustLine_def bindO_ok split: if_splits option.splits
        intro!: quiet_shift intro: createOwned_quiet removeOwned_plain quiet_plain)
qed

lemma changeTrust_shift: "changeTrustApply a x limit ls = Inr (Inr ls') \<Longrightarrow> shift 0 ls ls'"
  by (auto simp: changeTrustApply_def bindO_ok split: if_splits intro: changeTrustLine_shift)

lemma removeOffer_quiet:
  assumes "removeOffer ls le a = Inr ls'" "plain le"
  shows "quiet ls ls'"
proof -
  obtain acc le' acc' ls1 where *: "loadEntry ls (AccountKey a) = Some acc"
    "removeEntryWithPossibleSponsorship ls le acc = Inr (le', acc', ls1)"
    "ls' = eraseEntry (LedgerEntryKey le) (storeEntry acc' ls1)"
    using assms(1) by (auto simp: removeOffer_def bindE_Inr_iff)
  note k = removeEntryWithPossibleSponsorship_quiet [OF *(2)]
  have "quiet ls (storeEntry acc' ls1)" using quiet_put [OF _ *(1)] k by blast
  then show ?thesis using quiet_trans quiet_erase_plain [OF assms(2)] unfolding *(3) by blast
qed

lemma removeOffers_quiet: "removeOffers a x les ls = Inr ls' \<Longrightarrow> quiet ls ls'"
proof (induction les arbitrary: ls)
  case (Cons le les)
  then obtain oe ls1 ls2 where *: "offerOf le = Inr oe" "releaseLiabilities ls oe = Inr ls1"
    "removeOffer ls1 le a = Inr ls2" "removeOffers a x les ls2 = Inr ls'"
    by (auto simp: bindE_Inr_iff split: if_splits)
  have "plain le" using *(1) by (simp add: plain_def)
  then show ?case
    using release_acquire_quiet(1) [OF *(2)] removeOffer_quiet [OF *(3)] Cons.IH [OF *(4)]
    by (metis quiet_trans)
qed simp

lemma allowTrust_shift:
  assumes "allowTrustApply a trustor code authorize ls = Inr (Inr ls')"
  shows "shift 0 ls ls'"
  using assms
  by (auto simp: allowTrustApply_def allowTrustLine_def bindO_ok Let_def split: if_splits option.splits
      intro!: quiet_shift dest!: removeOffers_quiet intro: quiet_plain quiet_trans [OF _ quiet_plain])

section \<open>Options\<close>

definition sameAccount :: "AccountEntry \<Rightarrow> AccountEntry \<Rightarrow> bool" where
  "sameAccount acc acc' \<longleftrightarrow>
     accountID acc' = accountID acc \<and> accBalance acc' = accBalance acc \<and> seqNum acc' = seqNum acc"

lemma sameAccount_trans: "sameAccount a b \<Longrightarrow> sameAccount b c \<Longrightarrow> sameAccount a c"
  by (simp add: sameAccount_def)

lemma option_steps_same:
  "setInflationDest a d ls acc = Inr (Inr acc') \<Longrightarrow> sameAccount acc acc'"
  "changeFlags fl f acc = Inr (Inr acc') \<Longrightarrow> sameAccount acc acc'"
  "sameAccount acc (setHomeDomain h acc)" "sameAccount acc (setThreshold i w acc)"
  "sameAccount acc (insertSigner n s acc)"
  by (auto simp: sameAccount_def setInflationDest_def changeFlags_def setHomeDomain_def setThreshold_def
      insertSigner_def Let_def split: option.splits if_splits)

lemma sameAccount_core: "ledgerData le = ACCOUNT acc \<Longrightarrow> sameAccount acc acc' \<Longrightarrow> sameCore le (le\<lparr>ledgerData := ACCOUNT acc'\<rparr>)"
  by (auto simp: sameAccount_def intro: sameCore_account)

lemma addOrChangeSigner_quiet:
  assumes "addOrChangeSigner a s ls = Inr (Inr ls')"
  shows "quiet ls ls'"
proof -
  obtain le acc where l: "loadEntry ls (AccountKey a) = Some le" "ledgerData le = ACCOUNT acc"
    using assms by (auto simp: addOrChangeSigner_def bindO_ok)
  have ins: "sameCore le (le\<lparr>ledgerData := ACCOUNT (insertSigner n s acc)\<rparr>)" for n
    using sameAccount_core [OF l(2) option_steps_same(5)] .
  show ?thesis using assms l
    by (auto simp: addOrChangeSigner_def bindO_ok accountOf_def split: prod.splits if_splits
        dest!: createSignerWithPossibleSponsorship_quiet
        intro!: quiet_put [OF _ l(1)] sameAccount_core [OF l(2)] intro: sameCore_trans [OF ins])
      (simp add: sameAccount_def)
qed


lemma deleteSigner_quiet:
  assumes "deleteSigner le' key ls = Inr (Inr ls')" "loadEntry ls k = Some le" "sameCore le le'"
  shows "quiet ls ls'"
proof -
  obtain acc where acc: "ledgerData le' = ACCOUNT acc" using assms(1) by (auto simp: deleteSigner_def bindO_ok)
  obtain n f where "findSignerByKey (signers acc) key = (n, f)" by fastforce
  then show ?thesis using assms(1) acc
    by (auto simp: deleteSigner_def bindO_ok accountOf_def split: if_splits
        dest!: removeSignerWithPossibleSponsorship_quiet
        intro: quiet_put [OF _ assms(2)] quiet_put [OF quiet_refl assms(2,3)] sameCore_trans [OF assms(3)])
qed

lemma setOptions_shift:
  assumes "setOptionsApply a op ls = Inr (Inr ls')"
  shows "shift 0 ls ls'"
proof -
  define edit where "edit acc3 = setThreshold 3 (soHighThreshold op) (setThreshold 2 (soMedThreshold op)
     (setThreshold 1 (soLowThreshold op) (setThreshold 0 (soMasterWeight op) (setHomeDomain (soHomeDomain op) acc3))))"
    for acc3
  obtain le acc acc1 acc2 acc3 where l: "loadEntry ls (AccountKey a) = Some le" "ledgerData le = ACCOUNT acc"
    and s: "setInflationDest a (soInflationDest op) ls acc = Inr (Inr acc1)"
      "changeFlags (soClearFlags op) (\<lambda>f c. f AND NOT c) acc1 = Inr (Inr acc2)"
      "changeFlags (soSetFlags op) (\<lambda>f s. f OR s) acc2 = Inr (Inr acc3)"
    and r: "(case soSigner op of
               None \<Rightarrow> okO (storeEntry (le\<lparr>ledgerData := ACCOUNT (edit acc3)\<rparr>) ls)
             | Some signer \<Rightarrow>
                 if signerWeight signer \<noteq> 0
                 then addOrChangeSigner a signer (storeEntry (le\<lparr>ledgerData := ACCOUNT (edit acc3)\<rparr>) ls)
                 else deleteSigner (le\<lparr>ledgerData := ACCOUNT (edit acc3)\<rparr>) (signerKey signer) ls) = Inr (Inr ls')"
    using assms unfolding setOptionsApply_def Let_def edit_def [symmetric] by (auto simp: bindO_ok)
  have "sameAccount acc3 (edit acc3)"
    unfolding edit_def by (intro sameAccount_trans [OF _ option_steps_same(4)] option_steps_same(3))
  then have "sameAccount acc (edit acc3)"
    using option_steps_same(1) [OF s(1)] option_steps_same(2) [OF s(2)] option_steps_same(2) [OF s(3)]
    by (simp add: sameAccount_def)
  then have c: "sameCore le (le\<lparr>ledgerData := ACCOUNT (edit acc3)\<rparr>)" by (rule sameAccount_core [OF l(2)])
  have q: "quiet ls (storeEntry (le\<lparr>ledgerData := ACCOUNT (edit acc3)\<rparr>) ls)" by (rule quiet_put [OF quiet_refl l(1) c])
  have "quiet ls ls'"
    using r by (auto split: option.splits if_splits intro: q quiet_trans [OF q addOrChangeSigner_quiet]
        deleteSigner_quiet [OF _ l(1) c])
  then show ?thesis by (rule quiet_shift)
qed

section \<open>Merge\<close>

lemma removeSigners_quiet:
  "removeSigners n active ls le = Inr (le', ls') \<Longrightarrow> sameCore le le' \<and> quiet ls ls'"
proof (induction n arbitrary: ls le)
  case (Suc n)
  then obtain le1 ls1 where *: "removeSignerWithPossibleSponsorship ls n le = Inr (le1, ls1)"
    "removeSigners n active ls1 le1 = Inr (le', ls')"
    by (auto simp: bindE_Inr_iff)
  from removeSignerWithPossibleSponsorship_quiet [OF *(1)] Suc.IH [OF *(2)]
  show ?case by (metis quiet_trans sameCore_trans)
qed simp

lemma mergeChecks_quiet:
  assumes "mergeSponsorChecks a b ls src = Inr (Inr (src', ls'))"
  shows "sameCore src src' \<and> quiet ls ls'"
  using assms
  by (auto simp: mergeSponsorChecks_def bindO_ok split: if_splits dest!: removeSigners_quiet)

lemma entrySponsor_loadable: "loadable [b] (entrySponsor src) = Inr u \<Longrightarrow> entrySponsor src \<noteq> Some b"
  by (auto simp: loadable_def split: option.splits if_splits)

lemma merge_shift:
  assumes "mergeApply a b ls = Inr (Inr (amount, ls'))"
  shows "shift 0 ls ls'"
proof (rule shift_unless_wf)
  assume wf: "stateWf ls"
  obtain other src acc src' ls1 where l: "loadEntry ls (AccountKey b) = Some other" "a \<noteq> b"
      "loadEntry ls (AccountKey a) = Some src" "ledgerData src = ACCOUNT acc"
    and v: "10 \<le> ledgerVersion (lsHeader ls) \<Longrightarrow> \<not> isSeqnumTooFar (lsHeader ls) acc"
    and c: "mergeSponsorChecks a b ls src = Inr (Inr (src', ls1))"
    and m: "mergeInto a b (accBalance acc) other src' ls1 = Inr (Inr (amount, ls'))"
    using assms by (auto simp: mergeApply_def bindO_ok Let_def loadable_def split: option.splits if_splits)
  note k = mergeChecks_quiet [OF c]
  obtain other' x y ls2 where o: "addBalance (lsHeader ls1) other (accBalance acc) = Inr (Some other')"
    and rm: "removeEntryWithPossibleSponsorship ls1 src' src' = Inr (x, y, ls2)"
    and ls': "ls' = eraseEntry (AccountKey a) (storeEntry other' ls2)"
    using m by (auto simp: mergeInto_def bindO_ok split: option.splits)
  have q: "quiet ls ls2" using k removeEntryWithPossibleSponsorship_quiet [OF rm] quiet_trans by blast
  obtain oacc where "ledgerData other = ACCOUNT oacc" "accountID oacc = b" using load_account_data [OF wf l(1)] .
  from addBalance_account [OF o this(1)] have o': "entryShift (accBalance acc) other other'" .
  have s1: "shift (accBalance acc) ls (storeEntry other' ls2)" using shift_put [OF q l(1) o'] .
  have key: "LedgerEntryKey other' = AccountKey b"
    using o' loadEntry_key [OF wf l(1)] by (simp add: entryShift_def)
  have "coreIn (storeEntry other' ls2) (AccountKey a) = (accBalance acc, Some (seqNum acc))"
    using q wf l key by (simp add: coreIn_put quiet_def coreIn_load entryCore_def nativeWeight_def seqOf_def)
  moreover have "seqNum acc < startSeq (storeEntry other' ls2)" if "10 \<le> ledgerVersion (lsHeader (storeEntry other' ls2))"
    using v that q wf by (simp add: quiet_def isSeqnumTooFar_def startSeq_def)
  ultimately have "shift (- accBalance acc) (storeEntry other' ls2) ls'"
    unfolding ls' by (intro shift_gone) auto
  then show "shift 0 ls ls'" using shift_trans [OF s1] by fastforce
qed

end
