(* ===== verification/CoinClaims.thy ===== *)
theory CoinClaims
  imports CoinOperations
begin

text \<open>
  The shifts of claimable balances, of the sponsoring operations and of inflation.
\<close>

section \<open>Claimable balances\<close>

lemma changeTrustLineBalance_quiet:
  "changeTrustLineBalance c1 c2 c3 a x d ls = Inr (Inr ls') \<Longrightarrow> quiet ls ls'"
  by (auto simp: changeTrustLineBalance_def bindO_ok split: option.splits if_splits
      intro!: quiet_line [OF lineAddBalance_from quiet_refl] dest!: loadTrustLine_from)

lemma deduct_shift: "deductForClaim a x amount ls = Inr (Inr ls') \<Longrightarrow> shift (natively x (- amount)) ls ls'"
  by (auto simp: deductForClaim_def natively_def split: if_splits
      intro: payFrom_shift quiet_shift changeTrustLineBalance_quiet)

lemma createClaimable_shift:
  assumes "createClaimableBalanceApply newID a x amount cs ls = Inr (Inr ls')"
  shows "shift 0 ls ls'"
proof -
  obtain ls1 cs' acc le' acc' ls2 where *: "deductForClaim a x amount ls = Inr (Inr ls1)"
    "loadEntry ls1 (AccountKey a) = Some acc"
    "createEntryWithPossibleSponsorship ls1 (newLedgerEntry (CLAIMABLE_BALANCE \<lparr>balanceID = newID, claimants = cs',
        cbAsset = x, cbAmount = amount\<rparr>)) acc = Inr (SUCCESS, le', acc', ls2)"
    "createEntry le' (storeEntry acc' ls2) = Inr ls'"
    using assms by (auto simp: createClaimableBalanceApply_def bindO_ok)
  note k = createEntryWithPossibleSponsorship_quiet [OF *(3)]
  have w: "nativeWeight le' = natively x amount" "seqOf le' = None"
    using k by (auto simp: sameCore_def entryCore_def newLedgerEntry_def nativeWeight_def natively_def seqOf_def)
  have "quiet ls1 (storeEntry acc' ls2)" using quiet_put [OF _ *(2)] k by blast
  moreover have "shift (natively x amount) (storeEntry acc' ls2) ls'"
    using createEntry_new [OF *(4)] w by simp
  ultimately have "shift (natively x amount) ls1 ls'" by (rule quiet_shift_trans)
  then show ?thesis
    by (rule shift_trans' [OF deduct_shift [OF *(1)]]) (simp add: natively_def)
qed

lemma credit_shift: "creditClaim a x amount ls = Inr (Inr ls') \<Longrightarrow> shift (natively x amount) ls ls'"
  by (auto simp: creditClaim_def natively_def bindO_ok split: if_splits option.splits
      intro: shift_account quiet_shift changeTrustLineBalance_quiet)

text \<open>Crediting an account or a line does not touch the balance being claimed.\<close>

lemma credit_core:
  assumes "creditClaim a x amount ls = Inr (Inr ls')" "stateWf ls"
  shows "coreIn ls' (ClaimableBalanceKey b) = coreIn ls (ClaimableBalanceKey b)"
proof (cases "x = ASSET_TYPE_NATIVE")
  case True
  then obtain le le' where l: "loadEntry ls (AccountKey a) = Some le"
    "addBalance (lsHeader ls) le amount = Inr (Some le')" "ls' = storeEntry le' ls"
    using assms(1) by (auto simp: creditClaim_def bindO_ok split: option.splits)
  obtain acc where "ledgerData le = ACCOUNT acc" using load_account_data [OF assms(2) l(1)] .
  from addBalance_account [OF l(2) this] have "LedgerEntryKey le' = AccountKey a"
    using loadEntry_key [OF assms(2) l(1)] by (simp add: entryShift_def)
  then show ?thesis using l(3) by (simp add: coreIn_put)
next
  case False
  then have "quiet ls ls'"
    using assms(1) by (auto simp: creditClaim_def intro: changeTrustLineBalance_quiet)
  then show ?thesis using assms(2) by (simp add: quiet_def)
qed

lemma claimClaimable_shift:
  assumes "claimClaimableBalanceApply a b ls = Inr (Inr ls')"
  shows "shift 0 ls ls'"
proof (rule shift_unless_wf)
  assume wf: "stateWf ls"
  obtain le where l: "loadEntry ls (ClaimableBalanceKey b) = Some le"
    using assms by (cases "loadEntry ls (ClaimableBalanceKey b)") (auto simp: claimClaimableBalanceApply_def)
  have "\<exists>cb ls1. claimableBalanceOf le = Inr cb \<and> creditClaim a (cbAsset cb) (cbAmount cb) ls = Inr (Inr ls1) \<and>
      (removeOwnedEntry a le ls1 :: (ClaimClaimableBalanceResultCode, LedgerState) op) = Inr (Inr ls')"
    using assms l by (auto simp: claimClaimableBalanceApply_def bindO_ok split: if_splits)
  then obtain cb ls1 where *: "loadEntry ls (ClaimableBalanceKey b) = Some le" "claimableBalanceOf le = Inr cb"
    "creditClaim a (cbAsset cb) (cbAmount cb) ls = Inr (Inr ls1)"
    "(removeOwnedEntry a le ls1 :: (ClaimClaimableBalanceResultCode, LedgerState) op) = Inr (Inr ls')"
    using l by blast
  have d: "ledgerData le = CLAIMABLE_BALANCE cb"
    using *(2) by (auto simp: claimableBalanceOf_def split: LedgerEntryData.splits)
  have "coreIn ls1 (LedgerEntryKey le) = entryCore le"
    using credit_core [OF *(3) wf] loadEntry_key [OF wf *(1)] coreIn_load [OF *(1)] by simp
  then have "shift (- nativeWeight le) ls1 ls'" using d by (intro removeOwned_shift [OF *(4)]) (simp_all add: seqOf_def)
  then show "shift 0 ls ls'"
    by (rule shift_trans' [OF credit_shift [OF *(3)]]) (simp add: d nativeWeight_def natively_def)
qed

section \<open>Sponsoring\<close>

lemma quiet_same_entries: "lsEntries ls' = lsEntries ls \<Longrightarrow> lsHeader ls' = lsHeader ls \<Longrightarrow> quiet ls ls'"
  by (simp add: quiet_def stateWf_def nativeTotal_def totalOver_def coreIn_def loadEntry_def)

lemma sponsoring_shift:
  "beginSponsoringApply a b ls = Inr (Inr ls') \<Longrightarrow> shift 0 ls ls'"
  "endSponsoringApply a ls = Inr (Inr ls') \<Longrightarrow> shift 0 ls ls'"
  by (auto simp: beginSponsoringApply_def endSponsoringApply_def createSponsorship_def createSponsorshipCounter_def
      Let_def split: if_splits option.splits intro!: quiet_shift quiet_same_entries)

text \<open>Writing two or three entries read from the same state, none of which changed its coins.\<close>

lemma quiet_put2:
  assumes "loadEntry ls k = Some a" "sameCore a a'" "loadEntry ls k2 = Some b" "sameCore b b'"
  shows "quiet ls (storeEntry b' (storeEntry a' ls))"
  by (rule quiet_put [OF quiet_put [OF quiet_refl assms(1,2)] assms(3,4)])

lemma loadHandle_load [simp]: "loadAccountHandle act ls i = Inr le \<Longrightarrow> loadEntry ls (AccountKey i) = Some le"
  by (auto simp: loadAccountHandle_def bindE_Inr_iff)

lemma trySponsorship_quiet:
  assumes "loadEntry ls k = Some le" "loadEntry ls k2 = Some ing"
    and "\<And>acc. s = SponsoredAccount acc \<Longrightarrow> \<exists>k3. loadEntry ls k3 = Some acc"
  shows "tryRemoveEntrySponsorship ls le ing s = Inr (Inr ls') \<Longrightarrow> quiet ls ls'"
    and "tryEstablishEntrySponsorship ls le ing s = Inr (Inr ls') \<Longrightarrow> quiet ls ls'"
proof -
  have w: "quiet ls (writeSponsored le' s' (storeEntry ing' ls))"
    if "sameCore le le' \<and> sameCore ing ing' \<and> sameSponsored s s'" for le' ing' s'
    using that quiet_put2 [OF assms(2) _ assms(1), of ing' le'] assms(3)
      quiet_put [OF quiet_put2 [OF assms(2) _ assms(1), of ing' le']]
    by (cases s; cases s') (auto simp: writeSponsored_def sameSponsored_def)
  show "quiet ls ls'" if "tryRemoveEntrySponsorship ls le ing s = Inr (Inr ls')"
    using that by (auto simp: tryRemoveEntrySponsorship_def bindO_ok dest!: removeEntrySponsorship_keeps intro: w)
  show "quiet ls ls'" if "tryEstablishEntrySponsorship ls le ing s = Inr (Inr ls')"
    using that by (auto simp: tryEstablishEntrySponsorship_def bindO_ok dest!: establishEntrySponsorship_keeps intro: w)
qed

lemma transferEntry_quiet:
  assumes "transferEntry ls le old new = Inr (Inr ls')" "loadEntry ls k = Some le"
  shows "quiet ls ls'"
proof -
  obtain oldAcc newAcc le' old' new' where *: "loadAccountHandle (activeAccount le) ls old = Inr oldAcc"
    "loadAccountHandle (old # activeAccount le) ls new = Inr newAcc"
    "transferEntrySponsorship le oldAcc newAcc = Inr (le', old', new')"
    "ls' = storeEntry new' (storeEntry old' (storeEntry le' ls))"
    using assms(1) by (auto simp: transferEntry_def bindO_ok)
  note k = transferEntrySponsorship_keeps [OF *(3)]
  have "quiet ls (storeEntry old' (storeEntry le' ls))"
    using k by (intro quiet_put2 [OF assms(2) _ loadHandle_load [OF *(1)]]) auto
  from quiet_put [OF this loadHandle_load [OF *(2)]] show ?thesis unfolding *(4) using k by blast
qed

lemma ownerOfEntry_load:
  "ownerOfEntry act ls le a = Inr s \<Longrightarrow> s = SponsoredAccount acc \<Longrightarrow> \<exists>k. loadEntry ls k = Some acc"
  by (auto simp: ownerOfEntry_def bindE_Inr_iff split: if_splits dest: loadHandle_load)

lemma revokeEntry_quiet:
  assumes "updateLedgerEntrySponsorship a key ls = Inr (Inr ls')"
  shows "quiet ls ls'"
  using assms
  by (auto simp: updateLedgerEntrySponsorship_def bindO_ok split: option.splits if_splits bool.splits
      intro: transferEntry_quiet trySponsorship_quiet [OF _ loadHandle_load ownerOfEntry_load])


lemma transferSigner_quiet:
  assumes "transferSigner ls n acc account old new = Inr (Inr ls')" "loadEntry ls k = Some acc"
  shows "quiet ls ls'"
proof -
  obtain oldAcc newAcc old' new' acc' where *: "loadAccountHandle [account] ls old = Inr oldAcc"
    "loadAccountHandle [account, old] ls new = Inr newAcc"
    "transferSignerSponsorship n oldAcc newAcc acc = Inr (old', new', acc')"
    "ls' = storeEntry new' (storeEntry old' (storeEntry acc' ls))"
    using assms(1) by (auto simp: transferSigner_def bindO_ok)
  note k = transferSignerSponsorship_keeps [OF *(3)]
  have "quiet ls (storeEntry old' (storeEntry acc' ls))"
    using k by (intro quiet_put2 [OF assms(2) _ loadHandle_load [OF *(1)]]) auto
  from quiet_put [OF this loadHandle_load [OF *(2)]] show ?thesis unfolding *(4) using k by blast
qed

lemma changeSignerSponsor_quiet:
  assumes "changeSignerSponsor can change ls n acc account sponsor = Inr (Inr ls')" "loadEntry ls k = Some acc"
    and "\<And>n ing acc ing' acc'. change n ing acc = Inr (ing', acc') \<Longrightarrow> sameCore ing ing' \<and> sameCore acc acc'"
  shows "quiet ls ls'"
proof -
  obtain ing ing' acc' where *: "loadAccountHandle [account] ls sponsor = Inr ing" "change n ing acc = Inr (ing', acc')"
    "ls' = storeEntry ing' (storeEntry acc' ls)"
    using assms(1) by (auto simp: changeSignerSponsor_def bindO_ok)
  show ?thesis unfolding *(3)
    using assms(3) [OF *(2)] by (intro quiet_put2 [OF assms(2) _ loadHandle_load [OF *(1)]]) auto
qed

lemma revokeSigner_quiet:
  assumes "updateSignerSponsorship a account key ls = Inr (Inr ls')"
  shows "quiet ls ls'"
proof -
  obtain acc ae where l: "loadEntry ls (AccountKey account) = Some acc" "ledgerData acc = ACCOUNT ae"
    using assms by (auto simp: updateSignerSponsorship_def bindO_ok split: option.splits)
  obtain n f where "findSignerByKey (signers ae) key = (n, f)" by fastforce
  then show ?thesis using assms l
    by (auto simp: updateSignerSponsorship_def bindO_ok accountOf_def Let_def split: option.splits if_splits bool.splits
        intro: transferSigner_quiet [OF _ l(1)] changeSignerSponsor_quiet [OF _ l(1) signerSponsorship_keeps(1)]
          changeSignerSponsor_quiet [OF _ l(1) signerSponsorship_keeps(2)])
qed

lemma revoke_shift: "revokeSponsorshipApply a op ls = Inr (Inr ls') \<Longrightarrow> shift 0 ls ls'"
  by (cases op) (auto simp: revokeSponsorshipApply_def intro: quiet_shift revokeEntry_quiet revokeSigner_quiet)

section \<open>Inflation\<close>

lemma doleWinner_shift:
  assumes "doleWinner amount votes w d = Inr d'" "7 < ledgerVersion (lsHeader (doleState d))"
  shows "shift (leftAfterDole d - leftAfterDole d') (doleState d) (doleState d')"
  using assms
  by (auto simp: doleWinner_def bindE_Inr_iff Let_def split: if_splits option.splits intro!: shift_account)

lemma doleWinners_shift:
  assumes "doleWinners amount votes ws d = Inr d'" "7 < ledgerVersion (lsHeader (doleState d))" "stateWf (doleState d)"
  shows "shift (leftAfterDole d - leftAfterDole d') (doleState d) (doleState d')"
  using assms
proof (induction ws arbitrary: d)
  case (Cons w ws)
  then obtain d1 where *: "doleWinner amount votes w d = Inr d1" "doleWinners amount votes ws d1 = Inr d'"
    by (auto simp: bindE_Inr_iff)
  note s = doleWinner_shift [OF *(1) Cons.prems(2)]
  have "shift (leftAfterDole d1 - leftAfterDole d') (doleState d1) (doleState d')"
    using Cons.IH [OF *(2)] shift_version [OF s] shift_wf [OF s] Cons.prems by simp
  from shift_trans [OF s this] show ?case by simp
qed simp

lemma doleWinners_header:
  assumes "doleWinners amount votes ws d = Inr d'" "7 < ledgerVersion (lsHeader (doleState d))"
  shows "lsHeader (doleState d') = lsHeader (doleState d)"
  using assms
proof (induction ws arbitrary: d)
  case (Cons w ws)
  then obtain d1 where *: "doleWinner amount votes w d = Inr d1" "doleWinners amount votes ws d1 = Inr d'"
    by (auto simp: bindE_Inr_iff)
  have "lsHeader (doleState d1) = lsHeader (doleState d)"
    using *(1) Cons.prems(2) by (auto simp: doleWinner_def bindE_Inr_iff Let_def split: if_splits option.splits)
  then show ?case using Cons.IH [OF *(2)] Cons.prems by simp
qed simp

lemma inflation_coinShift:
  assumes "inflationApply toStrKey ls = Inr (Inr (pays, ls'))" "7 < ledgerVersion (lsHeader ls)"
  shows "coinShift 0 ls ls'"
proof (rule coinShift_unless_wf)
  assume wf: "stateWf ls"
  define lh where "lh = lsHeader ls"
  obtain amount ws d where d: "doleWinners (amount + feePool lh) (totalCoins lh) ws
      \<lparr>doleState = ls\<lparr>lsHeader := lh\<lparr>feePool := 0, inflationSeq := inflationSeq lh + 1\<rparr>\<rparr>,
       leftAfterDole = amount + feePool lh, payouts = []\<rparr> = Inr d"
    and ls': "ls' = (doleState d)\<lparr>lsHeader := (if ledgerVersion (lsHeader (doleState d)) > 7
       then (lsHeader (doleState d))\<lparr>feePool := feePool (lsHeader (doleState d)) + leftAfterDole d,
              totalCoins := totalCoins (lsHeader (doleState d)) + amount\<rparr>
       else (lsHeader (doleState d))\<lparr>feePool := feePool (lsHeader (doleState d)) + leftAfterDole d\<rparr>)\<rparr>"
    using assms(1)
    by (auto simp: inflationApply_def bindO_ok Let_def lh_def split: if_splits)
  let ?lh1 = "lh\<lparr>feePool := 0, inflationSeq := inflationSeq lh + 1\<rparr>"
  have v: "7 < ledgerVersion ?lh1" using assms(2) by (simp add: lh_def)
  have h: "lsHeader (doleState d) = ?lh1" using doleWinners_header [OF d] v by simp
  have "coinShift (- feePool lh) ls (ls\<lparr>lsHeader := ?lh1\<rparr>)"
    using coinShift_header [of ?lh1 ls] by (simp add: lh_def)
  from coinShift_trans [OF this] have "coinShift (amount - leftAfterDole d) ls (doleState d)"
    using shift_coinShift [OF doleWinners_shift [OF d]] v wf by (fastforce simp: stateWf_def)
  moreover have "coinShift (leftAfterDole d - amount) (doleState d) ls'"
    using coinShift_header [of "lsHeader ls'" "doleState d"] v by (simp add: h ls')
  ultimately show "coinShift 0 ls ls'" using coinShift_trans by fastforce
qed

end
