(* ===== verification/CoinCrossings.thy ===== *)
theory CoinCrossings
  imports CoinClaims
begin

text \<open>
  The shifts of crossing offers: the seller's native coins grow by the sheep and fall by the wheat of the
  exchange, so that an operation which pays the one and takes the other leaves the coins as they were.
\<close>

section \<open>The seller's holdings\<close>

definition acctFrom :: "LedgerState \<Rightarrow> AccountID \<Rightarrow> int \<Rightarrow> LedgerEntry option \<Rightarrow> bool" where
  "acctFrom ls a d h \<longleftrightarrow>
     (case h of
        None \<Rightarrow> d = 0
      | Some acc' \<Rightarrow> \<exists>acc. loadEntry ls (AccountKey a) = Some acc \<and> entryShift d acc acc')"

definition optLineFrom :: "LedgerState \<Rightarrow> TrustLineWrapper option \<Rightarrow> bool" where
  "optLineFrom ls line \<longleftrightarrow> (\<forall>w. line = Some w \<longrightarrow> lineFrom ls w)"

lemma natively_0 [simp]: "natively asset 0 = 0"
  by (simp add: natively_def)

lemma natively_minus: "natively asset (- d) = - natively asset d"
  by (simp add: natively_def)

lemma natively_add: "natively asset (d + e) = natively asset d + natively asset e"
  by (simp add: natively_def)

lemma acctFrom_load: "acctFrom ls a 0 (loadEntry ls (AccountKey a))" "acctFrom ls a 0 None"
  by (auto simp: acctFrom_def intro: sameCore_entryShift split: option.splits)

lemma optLineFrom_load: "loadTrustLineIfNotNative ls a x = Inr line \<Longrightarrow> optLineFrom ls line"
  by (auto simp: optLineFrom_def intro: loadTrustLineIfNotNative_from)

lemma acctFrom_addBalance:
  assumes "stateWf ls" "acctFrom ls a d (Some acc)" "addBalance h acc delta = Inr (Some acc')"
  shows "acctFrom ls a (d + delta) (Some acc')"
proof -
  obtain acc0 where l: "loadEntry ls (AccountKey a) = Some acc0" and s: "entryShift d acc0 acc"
    using assms(2) by (auto simp: acctFrom_def)
  have "LedgerEntryKey acc = AccountKey a" using s loadEntry_key [OF assms(1) l] by (simp add: entryShift_def)
  then obtain ae where "ledgerData acc = ACCOUNT ae" by (cases "ledgerData acc") (auto simp: LedgerEntryKey_def)
  then show ?thesis using l entryShift_trans [OF s addBalance_account [OF assms(3)]] by (auto simp: acctFrom_def)
qed

lemma changeHolding_shift:
  assumes "changeHolding h asset acc line delta = Inr (Some (acc', line'))" "stateWf ls"
    and "acctFrom ls a d acc" "optLineFrom ls line"
  shows "acctFrom ls a (d + natively asset delta) acc' \<and> optLineFrom ls line'"
proof (cases "asset = ASSET_TYPE_NATIVE")
  case True
  then show ?thesis using assms acctFrom_addBalance [OF assms(2)]
    by (auto simp: changeHolding_def bindE_Inr_iff natively_def)
next
  case False
  then show ?thesis using assms
    by (auto simp: changeHolding_def bindE_Inr_iff natively_def optLineFrom_def split: option.splits
        intro: lineAddBalance_from)
qed

lemma changeHoldingOrThrow_shift:
  assumes "changeHoldingOrThrow msg h asset acc line delta = Inr (acc', line')" "stateWf ls"
    and "acctFrom ls a d acc" "optLineFrom ls line"
  shows "acctFrom ls a (d + natively asset delta) acc' \<and> optLineFrom ls line'"
  using assms(1,3,4) changeHolding_shift [OF _ assms(2)]
  by (auto simp: changeHoldingOrThrow_def bindE_Inr_iff split: if_splits option.splits)

lemma storeOptional_shift:
  assumes "acctFrom ls a d h" shows "shift d ls (storeOptional h ls)"
  using assms by (auto simp: acctFrom_def storeOptional_def split: option.splits intro: shift_put [OF quiet_refl])

lemma storeOptionalLine_quiet:
  assumes "optLineFrom ls line" "stateWf ls" shows "quiet ls' (storeOptionalLine line ls')"
  using assms storeTrustLine_quiet [of ls]
  by (auto simp: optLineFrom_def storeOptionalLine_def split: option.splits)

section \<open>Crossing one offer\<close>

lemma crossOfferV10_shift:
  assumes "crossOfferV10 ls le maxW maxS round = Inr c" "ledgerData le = OFFER oe"
  shows "shift (natively (buying oe) (crossSheep c) - natively (selling oe) (crossWheat c)) ls (crossState c)"
proof (rule shift_unless_wf)
  assume wf0: "stateWf ls"
  let ?sheep = "buying oe" and ?wheat = "selling oe" and ?seller = "sellerID oe"
  obtain y where "loadEntry ls (AccountKey ?seller) = Some y"
    using assms by (cases "loadEntry ls (AccountKey ?seller)") (auto simp: crossOfferV10_def bindE_Inr_iff)
  then have "\<exists>ls1 acc sheepLine wheatLine acc1 sheepLine1 acc2 wheatLine1 offer2 ls2.
      releaseLiabilities ls oe = Inr ls1
      \<and> acc = (if ?wheat = ASSET_TYPE_NATIVE \<or> ?sheep = ASSET_TYPE_NATIVE
               then loadEntry ls1 (AccountKey ?seller) else None)
      \<and> loadTrustLineIfNotNative ls1 ?seller ?sheep = Inr sheepLine
      \<and> loadTrustLineIfNotNative ls1 ?seller ?wheat = Inr wheatLine
      \<and> changeHoldingOrThrow ''overflowed sheep balance'' (lsHeader ls) ?sheep acc sheepLine (crossSheep c)
          = Inr (acc1, sheepLine1)
      \<and> changeHoldingOrThrow ''overflowed wheat balance'' (lsHeader ls) ?wheat acc1 wheatLine (- crossWheat c)
          = Inr (acc2, wheatLine1)
      \<and> ls2 = storeEntry (le\<lparr>ledgerData := OFFER offer2\<rparr>) (storeOptionalLine wheatLine1
           (storeOptionalLine sheepLine1 (storeOptional acc2 ls1)))
      \<and> (if (if offerAmount offer2 = 0 then eOfferTaken else eOfferPartial) = eOfferTaken
          then removeOffer ls2 (le\<lparr>ledgerData := OFFER offer2\<rparr>) ?seller
          else acquireLiabilities ls2 offer2) = Inr (crossState c)"
    using assms by (auto simp: crossOfferV10_def bindE_Inr_iff Let_def split del: if_split) blast?
  then obtain ls1 acc sheepLine wheatLine acc1 sheepLine1 acc2 wheatLine1 offer2 ls2 where
    rel: "releaseLiabilities ls oe = Inr ls1"
    and acc: "acc = (if ?wheat = ASSET_TYPE_NATIVE \<or> ?sheep = ASSET_TYPE_NATIVE
        then loadEntry ls1 (AccountKey ?seller) else None)"
    and lines: "loadTrustLineIfNotNative ls1 ?seller ?sheep = Inr sheepLine"
      "loadTrustLineIfNotNative ls1 ?seller ?wheat = Inr wheatLine"
    and hold: "changeHoldingOrThrow ''overflowed sheep balance'' (lsHeader ls) ?sheep acc sheepLine (crossSheep c)
         = Inr (acc1, sheepLine1)"
      "changeHoldingOrThrow ''overflowed wheat balance'' (lsHeader ls) ?wheat acc1 wheatLine (- crossWheat c)
         = Inr (acc2, wheatLine1)"
    and ls2: "ls2 = storeEntry (le\<lparr>ledgerData := OFFER offer2\<rparr>) (storeOptionalLine wheatLine1
           (storeOptionalLine sheepLine1 (storeOptional acc2 ls1)))"
    and last: "(if (if offerAmount offer2 = 0 then eOfferTaken else eOfferPartial) = eOfferTaken
        then removeOffer ls2 (le\<lparr>ledgerData := OFFER offer2\<rparr>) ?seller
        else acquireLiabilities ls2 offer2) = Inr (crossState c)"
    by blast
  have q1: "quiet ls ls1" by (rule release_acquire_quiet(1) [OF rel])
  have wf: "stateWf ls1" using q1 wf0 by (simp add: quiet_def)
  have "acctFrom ls1 ?seller 0 acc" using acc acctFrom_load by auto
  from changeHoldingOrThrow_shift [OF hold(1) wf this optLineFrom_load [OF lines(1)]]
  have h1: "acctFrom ls1 ?seller (natively ?sheep (crossSheep c)) acc1" "optLineFrom ls1 sheepLine1" by simp_all
  from changeHoldingOrThrow_shift [OF hold(2) wf h1(1) optLineFrom_load [OF lines(2)]]
  have h2: "acctFrom ls1 ?seller (natively ?sheep (crossSheep c) - natively ?wheat (crossWheat c)) acc2"
    "optLineFrom ls1 wheatLine1" by (simp_all add: natively_minus)
  note s = storeOptional_shift [OF h2(1)]
  note s2 = shift_quiet_trans [OF shift_quiet_trans [OF s storeOptionalLine_quiet [OF h1(2) wf]]
      storeOptionalLine_quiet [OF h2(2) wf]]
  note s3 = shift_quiet_trans [OF s2 quiet_plain [OF plain_data(5) [where le = le and oe = offer2]]]
  have "shift (natively ?sheep (crossSheep c) - natively ?wheat (crossWheat c)) ls1 (crossState c)"
    using last shift_quiet_trans [OF s3 [folded ls2]] removeOffer_quiet [OF _ plain_data(5)] release_acquire_quiet(2)
    by (auto split: if_splits)
  then show "shift (natively ?sheep (crossSheep c) - natively ?wheat (crossWheat c)) ls (crossState c)"
    by (rule quiet_shift_trans [OF q1])
qed

lemma adjustSellerBalance_shift:
  assumes "adjustSellerBalance ls a asset delta = Inr (Some ls')"
  shows "shift (natively asset delta) ls ls'"
proof (rule shift_unless_wf)
  assume wf: "stateWf ls"
  show "shift (natively asset delta) ls ls'"
  proof (cases "delta = 0")
    case False
    then obtain line acc' line' where l: "loadTrustLineIfNotNative ls a asset = Inr line"
      and c: "changeHolding (lsHeader ls) asset (loadEntry ls (AccountKey a)) line delta = Inr (Some (acc', line'))"
      and e: "ls' = (if asset = ASSET_TYPE_NATIVE then storeOptional acc' ls else storeOptionalLine line' ls)"
      using assms by (auto simp: adjustSellerBalance_def bindE_Inr_iff)
    from changeHolding_shift [OF c wf acctFrom_load(1) optLineFrom_load [OF l]]
    show ?thesis using e storeOptional_shift [of ls a _ acc'] quiet_shift [OF storeOptionalLine_quiet [OF _ wf]]
      by (auto simp: natively_def)
  qed (use assms in \<open>simp add: adjustSellerBalance_def\<close>)
qed

lemma crossOffer_shift:
  assumes "crossOffer ls le maxW maxS = Inr c" "ledgerData le = OFFER oe" "crossResult c \<noteq> eOfferCantConvert"
  shows "shift (natively (buying oe) (crossSheep c) - natively (selling oe) (crossWheat c)) ls (crossState c)"
proof -
  have "\<exists>new ls1 ls2. (removeOffer ls le (sellerID oe) = Inr ls1
        \<or> ls1 = storeEntry (le\<lparr>ledgerData := OFFER (oe\<lparr>offerAmount := new\<rparr>)\<rparr>) ls)
      \<and> adjustSellerBalance ls1 (sellerID oe) (buying oe) (crossSheep c) = Inr (Some ls2)
      \<and> adjustSellerBalance ls2 (sellerID oe) (selling oe) (- crossWheat c) = Inr (Some (crossState c))"
    using assms by (auto simp: crossOffer_def bindE_Inr_iff Let_def split: if_splits option.splits) blast+
  then obtain new ls1 ls2 where
    o: "removeOffer ls le (sellerID oe) = Inr ls1
        \<or> ls1 = storeEntry (le\<lparr>ledgerData := OFFER (oe\<lparr>offerAmount := new\<rparr>)\<rparr>) ls"
    and b: "adjustSellerBalance ls1 (sellerID oe) (buying oe) (crossSheep c) = Inr (Some ls2)"
      "adjustSellerBalance ls2 (sellerID oe) (selling oe) (- crossWheat c) = Inr (Some (crossState c))"
    by blast
  have "plain le" using assms(2) by (simp add: plain_def)
  then have "quiet ls ls1" using o removeOffer_quiet quiet_plain [OF plain_data(5)] by auto
  from quiet_shift_trans [OF this shift_trans [OF b [THEN adjustSellerBalance_shift]]]
  show ?thesis by (simp add: natively_minus)
qed

lemma crossBest_shift:
  assumes "crossBest ls le maxW maxS round = Inr c" "ledgerData le = OFFER oe" "crossResult c \<noteq> eOfferCantConvert"
  shows "shift (natively (buying oe) (crossSheep c) - natively (selling oe) (crossWheat c)) ls (crossState c)"
  using assms crossOffer_shift [OF _ assms(2)] crossOfferV10_shift [OF _ assms(2)]
  by (auto simp: crossBest_def bindE_Inr_iff split: if_splits)

text \<open>With the usual rounding, an exchange that yields no wheat takes no sheep.\<close>

lemma exchangeV10_both:
  "exchangeV10 p a b c d NORMAL = Inr res \<Longrightarrow> wheatReceived10 res = 0 \<Longrightarrow> sheepSend10 res = 0"
  by (auto simp: exchangeV10_def applyPriceErrorThresholds_def bindE_Inr_iff Let_def split: if_splits)

lemma performExchange_both:
  "performExchange h oe acc wl sl a b = Inr (t, 0, s, n) \<Longrightarrow> t = REDUCED_TO_ZERO \<or> s = 0"
  by (auto simp: performExchange_def bindE_Inr_iff Let_def exchangeResultType_def split: if_splits)

lemma crossBest_both:
  assumes "crossBest ls le maxW maxS NORMAL = Inr c" "crossResult c \<noteq> eOfferCantConvert"
  shows "0 \<le> crossWheat c" "crossWheat c = 0 \<Longrightarrow> crossSheep c = 0"
proof -
  have a: "crossOfferV10 ls le maxW maxS NORMAL = Inr c \<Longrightarrow> crossWheat c = 0 \<Longrightarrow> crossSheep c = 0"
    by (auto simp: crossOfferV10_def bindE_Inr_iff Let_def split: if_splits dest: exchangeV10_both)
  have b: "crossOffer ls le maxW maxS = Inr c \<Longrightarrow> crossResult c \<noteq> eOfferCantConvert \<Longrightarrow> crossWheat c = 0
      \<Longrightarrow> crossSheep c = 0"
    by (auto simp: crossOffer_def bindE_Inr_iff Let_def split: if_splits option.splits
        dest!: performExchange_both)
  show "0 \<le> crossWheat c" "crossWheat c = 0 \<Longrightarrow> crossSheep c = 0"
    using assms a b by (auto simp: crossBest_def assertTx_def bindE_Inr_iff split: if_splits)
qed

section \<open>The loop\<close>

lemma convertLoop_shift:
  assumes "convertLoop fuel ls sheep maxS sent wheat maxW got round flt trail m = Inr c" "stateWf ls"
  shows "shift (natively sheep (convSheepSend c - sent) - natively wheat (convWheatReceived c - got)) ls (convState c)
     \<and> (round = NORMAL \<longrightarrow> got \<le> convWheatReceived c \<and> (convWheatReceived c = got \<longrightarrow> convSheepSend c = sent))"
  using assms
proof (induction fuel arbitrary: ls maxS sent maxW got trail)
  case (Suc fuel)
  note prem = Suc.prems(1)
  show ?case
  proof (cases "convState c = ls \<and> convSheepSend c = sent \<and> convWheatReceived c = got")
    case False
    then obtain le where b: "bestOffer ls sheep wheat = Some le"
      using prem by (cases "bestOffer ls sheep wheat") (auto simp: Let_def)
    from bestOffer_Some [OF Suc.prems(2) this] obtain oe where oe: "ledgerData le = OFFER oe" "buying oe = sheep"
      "selling oe = wheat" by auto
    have "\<exists>x. crossBest ls le maxW maxS round = Inr x \<and> crossResult x \<noteq> eOfferCantConvert
      \<and> (convState c = crossState x \<and> convSheepSend c = sent + crossSheep x \<and> convWheatReceived c = got + crossWheat x
         \<or> (\<exists>t. convertLoop fuel (crossState x) sheep (maxS - crossSheep x) (sent + crossSheep x) wheat
              (maxW - crossWheat x) (got + crossWheat x) round flt t m = Inr c))"
      using prem False b by (auto simp: Let_def bindE_Inr_iff split: if_splits) 
    then obtain x where x: "crossBest ls le maxW maxS round = Inr x" "crossResult x \<noteq> eOfferCantConvert"
      and rest: "convState c = crossState x \<and> convSheepSend c = sent + crossSheep x \<and> convWheatReceived c = got + crossWheat x
         \<or> (\<exists>t. convertLoop fuel (crossState x) sheep (maxS - crossSheep x) (sent + crossSheep x) wheat
              (maxW - crossWheat x) (got + crossWheat x) round flt t m = Inr c)"
      by blast
    have s: "shift (natively sheep (crossSheep x) - natively wheat (crossWheat x)) ls (crossState x)"
      using crossBest_shift [OF x(1) oe(1) x(2)] oe by simp
    note wf = shift_wf [OF s Suc.prems(2)]
    have n: "round = NORMAL \<Longrightarrow> 0 \<le> crossWheat x \<and> (crossWheat x = 0 \<longrightarrow> crossSheep x = 0)"
      using crossBest_both [of ls le maxW maxS x] x by auto
    from rest show ?thesis
    proof
      assume "convState c = crossState x \<and> convSheepSend c = sent + crossSheep x \<and> convWheatReceived c = got + crossWheat x"
      then show ?thesis using s n by auto
    next
      assume "\<exists>t. convertLoop fuel (crossState x) sheep (maxS - crossSheep x) (sent + crossSheep x) wheat
          (maxW - crossWheat x) (got + crossWheat x) round flt t m = Inr c"
      then have ih: "shift (natively sheep (convSheepSend c - (sent + crossSheep x))
            - natively wheat (convWheatReceived c - (got + crossWheat x))) (crossState x) (convState c)"
          "round = NORMAL \<longrightarrow> got + crossWheat x \<le> convWheatReceived c
            \<and> (convWheatReceived c = got + crossWheat x \<longrightarrow> convSheepSend c = sent + crossSheep x)"
        using Suc.IH [OF _ wf] by blast+
      show ?thesis using shift_trans [OF s ih(1)] ih(2) n by (auto simp: natively_def algebra_simps)
    qed
  qed simp
qed simp

lemma convertWithOffers_shift:
  assumes "convertWithOffers ls sheep maxS wheat maxW round flt m = Inr c"
  shows "shift (natively sheep (convSheepSend c) - natively wheat (convWheatReceived c)) ls (convState c)"
proof (rule shift_unless_wf)
  assume "stateWf ls"
  then show "shift (natively sheep (convSheepSend c) - natively wheat (convWheatReceived c)) ls (convState c)"
    using assms by (auto simp: convertWithOffers_def simp del: convertLoop.simps dest!: convertLoop_shift split: if_splits)
qed

lemma convertWithOffers_both:
  assumes "convertWithOffers ls sheep maxS wheat maxW NORMAL flt m = Inr c" "stateWf ls" "\<not> 0 < convWheatReceived c"
  shows "convWheatReceived c = 0 \<and> convSheepSend c = 0"
  using assms by (auto simp: convertWithOffers_def simp del: convertLoop.simps dest!: convertLoop_shift split: if_splits)

end
