(* ===== verification/CoinPayments.thy ===== *)
theory CoinPayments
  imports CoinCrossings
begin

text \<open>The shifts of payments and of the operations on offers, and with them of every operation.\<close>

section \<open>Payments\<close>

lemma updateDest_shift:
  "updateDestBalance a x ls amount b = Inr (Inr ls') \<Longrightarrow> shift (natively x amount) ls ls'"
  by (auto simp: updateDestBalance_def natively_def bindO_ok split: if_splits option.splits
      intro: shift_account quiet_shift changeTrustLineBalance_quiet)

lemma updateSource_shift:
  "updateSourceBalance a x ls amount b e = Inr (Inr ls') \<Longrightarrow> shift (- natively x amount) ls ls'"
  by (auto simp: updateSourceBalance_def natively_def bindO_ok split: if_splits option.splits
      intro: shift_account quiet_shift changeTrustLineBalance_quiet)

lemma convert_shift:
  assumes "convert check a ls m send maxS recv maxR round = Inr (Inr c)"
  shows "shift (natively send (convSheepSend c) - natively recv (convWheatReceived c)) ls (convState c)"
    "check maxS (convSheepSend c) maxR (convWheatReceived c)"
  using assms
  by (auto simp: convert_def bindO_ok split: if_splits ConvertResult.splits intro: convertWithOffers_shift)

lemma walkReceive_shift:
  assumes "walkReceive a path recv m offers ls = Inr (Inr (amount, offers', ls'))"
  shows "shift (natively (last (recv # path)) amount - natively recv m) ls ls'"
  using assms
proof (induction path arbitrary: recv m offers ls)
  case (Cons send path)
  show ?case
  proof (cases "recv = send")
    case True
    then show ?thesis using Cons.IH [of recv m offers ls] Cons.prems by simp
  next
    case False
    then obtain k c where c: "convert checkTransferReceive a ls k send INT64_MAX recv m PATH_PAYMENT_STRICT_RECEIVE
        = Inr (Inr c)"
      and r: "walkReceive a path send (convSheepSend c) (convTrail c @ offers) (convState c)
        = Inr (Inr (amount, offers', ls'))"
      using Cons.prems by (auto simp: bindO_ok Let_def)
    from convert_shift(2) [OF c] have "convWheatReceived c = m" by (simp add: checkTransferReceive_def)
    with shift_trans [OF convert_shift(1) [OF c] Cons.IH [OF r]] show ?thesis by simp
  qed
qed simp

lemma walkSend_shift:
  assumes "walkSend a path send m offers ls = Inr (Inr (amount, offers', ls'))"
  shows "shift (natively send m - natively (last (send # path)) amount) ls ls'"
  using assms
proof (induction path arbitrary: send m offers ls)
  case (Cons recv path)
  show ?case
  proof (cases "recv = send")
    case True
    then show ?thesis using Cons.IH [of send m offers ls] Cons.prems by simp
  next
    case False
    then obtain k c where c: "convert checkTransferSend a ls k send m recv INT64_MAX PATH_PAYMENT_STRICT_SEND
        = Inr (Inr c)"
      and r: "walkSend a path recv (convWheatReceived c) (offers @ convTrail c) (convState c)
        = Inr (Inr (amount, offers', ls'))"
      using Cons.prems by (auto simp: bindO_ok)
    from convert_shift(2) [OF c] have "convSheepSend c = m" by (simp add: checkTransferSend_def)
    with shift_trans [OF convert_shift(1) [OF c] Cons.IH [OF r]] show ?thesis by simp
  qed
qed simp

lemma strictReceive_shift:
  assumes "pathPaymentStrictReceiveApply a op ls = Inr (Inr s)"
  shows "shift 0 ls (ppState s)"
proof -
  obtain b e ls1 amount offers ls2 where *: "updateDestBalance (ppDestination op) (destAsset op) ls (destAmount op) b
        = Inr (Inr ls1)"
    "walkReceive a (rev (receivePath op) @ [sendAsset op]) (destAsset op) (destAmount op) [] ls1
        = Inr (Inr (amount, offers, ls2))"
    "updateSourceBalance a (sendAsset op) ls2 amount b e = Inr (Inr (ppState s))"
    using assms by (auto simp: pathPaymentStrictReceiveApply_def bindO_ok Let_def split: if_splits)
  from shift_trans [OF shift_trans [OF updateDest_shift [OF *(1)] walkReceive_shift [OF *(2)]]
      updateSource_shift [OF *(3)]]
  show ?thesis by simp
qed

lemma strictSend_shift:
  assumes "pathPaymentStrictSendApply a op ls = Inr (Inr s)"
  shows "shift 0 ls (ppState s)"
proof -
  obtain b e ls1 amount offers ls2 where *: "updateSourceBalance a (ssSendAsset op) ls (ssSendAmount op) b e
        = Inr (Inr ls1)"
    "walkSend a (ssPath op @ [ssDestAsset op]) (ssSendAsset op) (ssSendAmount op) [] ls1
        = Inr (Inr (amount, offers, ls2))"
    "updateDestBalance (ssDestination op) (ssDestAsset op) ls2 amount b = Inr (Inr (ppState s))"
    using assms by (auto simp: pathPaymentStrictSendApply_def bindO_ok Let_def split: if_splits)
  from shift_trans [OF shift_trans [OF updateSource_shift [OF *(1)] walkSend_shift [OF *(2)]]
      updateDest_shift [OF *(3)]]
  show ?thesis by simp
qed

lemma onFailure_ok:
  "bindE m (\<lambda>r. case r of Inl e \<Rightarrow> bindE (f e) failO | Inr s \<Rightarrow> okO (g s)) = Inr (Inr y)
     \<longleftrightarrow> (\<exists>s. m = Inr (Inr s) \<and> y = g s)"
proof (cases m)
  case (Inr r)
  then show ?thesis by (cases r) (auto simp: bindE_Inr_iff)
qed simp

lemma payment_shift: "paymentApply a dest x amount ls = Inr (Inr ls') \<Longrightarrow> shift 0 ls ls'"
  by (auto simp: paymentApply_def onFailure_ok bindO_ok Let_def split: if_split_asm intro: strictReceive_shift)

section \<open>Offers\<close>

lemma plain_buildOffer [simp]: "plain (buildOffer a op amount fl ext)"
  by (simp add: buildOffer_def plain_def)

lemma offerOf_plain: "offerOf le = Inr oe \<Longrightarrow> plain le"
  by (simp add: plain_def)

lemma takeOldOffer_quiet:
  assumes "takeOldOffer a op ls = Inr (Inr su)"
  shows "quiet ls (suState su)"
  using assms
  by (auto simp: takeOldOffer_def bindO_ok plain_def split: option.splits if_splits
      intro!: quiet_trans [OF _ quiet_erase_plain] quiet_erase_plain dest: release_acquire_quiet)

lemma reserveNewOffer_quiet:
  assumes "reserveNewOffer a op ls = Inr (Inr su)"
  shows "quiet ls (suState su)"
  using assms
  by (auto simp: reserveNewOffer_def bindO_ok Let_def split: if_splits dest!: createEntryWithPossibleSponsorship_quiet
      intro: quiet_put)

lemma moveBalance_shift:
  "moveBalance msg a x d ls = Inr ls' \<Longrightarrow> shift (natively x d) ls ls'"
  by (auto simp: moveBalance_def natively_def bindE_Inr_iff split: if_splits option.splits
      intro: shift_account quiet_shift quiet_line [OF lineAddBalance_from quiet_refl] dest!: loadTrustLine_from)

lemma exchangeOffer_shift:
  assumes "exchangeOffer a op su = Inr (Inr (claimed, amount, ls'))"
  shows "shift 0 (suState su) ls'"
proof (rule shift_unless_wf)
  assume wf: "stateWf (suState su)"
  obtain maxS maxW m c where c: "convertWithOffers (suState su) (moSheep op) maxS (moWheat op) maxW NORMAL
       (Some (manageOfferFilter a op (suPassive su))) m = Inr c"
    and s: "settleExchange a op c = Inr ls'"
    using assms by (auto simp: exchangeOffer_def bindO_ok Let_def split: if_splits)
  note sh = convertWithOffers_shift [OF c]
  show "shift 0 (suState su) ls'"
  proof (cases "0 < convWheatReceived c")
    case True
    then obtain ls1 where "moveBalance ''offer claimed over limit'' a (moWheat op) (convWheatReceived c) (convState c) = Inr ls1"
      "moveBalance ''offer sold more than balance'' a (moSheep op) (- convSheepSend c) ls1 = Inr ls'"
      using s by (auto simp: settleExchange_def bindE_Inr_iff)
    from shift_trans [OF sh shift_trans [OF this [THEN moveBalance_shift]]]
    show ?thesis by (simp add: natively_minus)
  next
    case False
    with convertWithOffers_both [OF c wf] sh s show ?thesis by (simp add: settleExchange_def)
  qed
qed

lemma nameNewOffer_shift:
  assumes "nameNewOffer a le ls = Inr (Inr (le', ls'))"
  shows "shift 0 ls ls' \<and> plain le'"
proof -
  let ?counted = "if ledgerVersion (lsHeader ls) < 14 then
      bindO (liftO (current (loadEntry ls (AccountKey a)))) (\<lambda>acc.
      bindO (countNewOffer (lsHeader ls) le acc) (\<lambda>acc'. okO (storeEntry acc' ls)))
    else okO ls"
  have "\<exists>ls1 oe. ?counted = Inr (Inr ls1) \<and> le' = le\<lparr>ledgerData := OFFER oe\<rparr>
      \<and> ls' = withHeader (snd (generateID (lsHeader ls1))) ls1"
    using assms by (auto simp: nameNewOffer_def bindO_ok generateID_def Let_def split del: if_split)
  then obtain ls1 oe where c: "?counted = Inr (Inr ls1)" and *: "le' = le\<lparr>ledgerData := OFFER oe\<rparr>"
    "ls' = withHeader (snd (generateID (lsHeader ls1))) ls1" by blast
  have q: "quiet ls ls1"
    using c keepsCoreD [OF entryCreation_keeps(1)]
    by (auto simp: countNewOffer_def bindO_ok split: if_split_asm intro: quiet_put [OF quiet_refl])
  have "shift 0 ls1 ls'"
    using shift_idPool [of ls1] by (simp add: *(2) withHeader_def generateID_def Let_def)
  then show ?thesis using quiet_shift_trans [OF q] *(1) by simp
qed

lemma writeOffer_shift:
  assumes "writeOffer a op su amount ls = Inr (Inr (eff, ls'))"
  shows "shift 0 ls ls'"
proof -
  obtain le ls1 ls2 oe where *: "(if suCreating su then nameNewOffer a (buildOffer a op amount (suFlags su) (suExt su)) ls
        else okO (buildOffer a op amount (suFlags su) (suExt su), ls)) = Inr (Inr (le, ls1))"
    "createEntry le ls1 = Inr ls2" "(if ledgerVersion (lsHeader ls2) \<ge> 10 then acquireLiabilities ls2 oe else Inr ls2) = Inr ls'"
    using assms by (auto simp: writeOffer_def bindO_ok Let_def split del: if_split)
  have "shift 0 ls ls1 \<and> plain le" using *(1) nameNewOffer_shift by (auto split: if_splits)
  then have "shift 0 ls ls2" using createEntry_plain [OF *(2)] shift_quiet_trans by blast
  moreover have "quiet ls2 ls'" using *(3) release_acquire_quiet(2) by (auto split: if_splits)
  ultimately show ?thesis by (rule shift_quiet_trans)
qed

lemma dropOffer_shift:
  assumes "dropOffer a op su ls = Inr (Inr ls')"
  shows "shift 0 ls ls'"
  using assms
  by (auto simp: dropOffer_def bindO_ok split: if_splits dest!: removeEntryWithPossibleSponsorship_quiet
      intro!: quiet_shift intro: quiet_put)

lemma manageOffer_shift:
  assumes "manageOfferApply a op ls = Inr (Inr r)"
  shows "shift 0 ls (moState r)"
proof -
  have "\<exists>su claimed amount ls1.
      (if moOfferID op \<noteq> 0 then takeOldOffer a op ls else reserveNewOffer a op ls) = Inr (Inr su)
      \<and> (if isDeleteOffer (moLimit op) then okO ([], 0, suState su) else exchangeOffer a op su)
         = Inr (Inr (claimed, amount, ls1))
      \<and> (if amount > 0 then bindO (writeOffer a op su amount ls1) (\<lambda>(eff, ls2).
             okO \<lparr>offersClaimed = claimed, offerEffect = eff, moState = ls2\<rparr>)
         else bindO (dropOffer a op su ls1) (\<lambda>ls2.
             okO \<lparr>offersClaimed = claimed, offerEffect = MANAGE_OFFER_DELETED, moState = ls2\<rparr>)) = Inr (Inr r)"
    using assms by (auto simp: manageOfferApply_def bindO_ok split del: if_split)
  then obtain su claimed amount ls1 where
    su: "(if moOfferID op \<noteq> 0 then takeOldOffer a op ls else reserveNewOffer a op ls) = Inr (Inr su)"
    and ex: "(if isDeleteOffer (moLimit op) then okO ([], 0, suState su) else exchangeOffer a op su)
       = Inr (Inr (claimed, amount, ls1))"
    and fin: "(\<exists>eff. writeOffer a op su amount ls1 = Inr (Inr (eff, moState r)))
       \<or> dropOffer a op su ls1 = Inr (Inr (moState r))"
    by (fastforce simp: bindO_ok split: if_split_asm)
  have "quiet ls (suState su)" using su takeOldOffer_quiet reserveNewOffer_quiet by (auto split: if_splits)
  moreover have "shift 0 (suState su) ls1" using ex exchangeOffer_shift by (auto split: if_splits)
  moreover have "shift 0 ls1 (moState r)" using fin writeOffer_shift dropOffer_shift by auto
  ultimately show ?thesis using quiet_shift_trans shift_trans by fastforce
qed

section \<open>Every operation\<close>

lemma mapOp_ok: "mapOp f g m = Inr (Inr y) \<longleftrightarrow> (\<exists>x. m = Inr (Inr x) \<and> y = g x)"
proof (cases m)
  case (Inr r)
  then show ?thesis by (cases r) (auto simp: mapOp_def)
qed (simp add: mapOp_def)

lemma doApply_shift:
  assumes "doApply env newID a body ls = Inr (Inr ls')" "body \<noteq> INFLATION"
  shows "shift 0 ls ls'"
  using assms
  by (cases body)
     (auto simp: doApply_def mapOp_ok
      dest: sponsoring_shift createAccount_shift payment_shift strictReceive_shift strictSend_shift manageOffer_shift
        setOptions_shift changeTrust_shift allowTrust_shift merge_shift manageData_shift bumpSequence_shift
        createClaimable_shift claimClaimable_shift revoke_shift)

lemma doApply_coinShift:
  assumes "doApply env newID a body ls = Inr (Inr ls')" "7 < ledgerVersion (lsHeader ls)"
  shows "coinShift 0 ls ls'"
proof (cases "body = INFLATION")
  case True
  then show ?thesis using assms by (auto simp: doApply_def mapOp_ok intro: inflation_coinShift)
qed (use assms in \<open>simp add: doApply_shift shift_coinShift\<close>)

end
