(* ===== verification/CoinTransactions.thy ===== *)
theory CoinTransactions
  imports CoinPayments
begin

text \<open>
  The balance of coins through transactions: applying one leaves it as it was, whatever the outcome, and
  charging the fees of a transaction set raises it by every fee that is charged.
\<close>

section \<open>Signers and sequence numbers\<close>

lemma removeAccountSigner_quiet:
  assumes "removeAccountSigner key a ls = Inr ls'"
  shows "quiet ls ls'"
proof (cases "loadEntry ls (AccountKey a)")
  case (Some le)
  then obtain acc where acc: "ledgerData le = ACCOUNT acc"
    using assms by (auto simp: removeAccountSigner_def bindE_Inr_iff)
  obtain n f where "findSignerByKey (signers acc) key = (n, f)" by fastforce
  then show ?thesis using assms Some acc
    by (auto simp: removeAccountSigner_def accountOf_def bindE_Inr_iff split: if_splits
        dest!: removeSignerWithPossibleSponsorship_quiet intro: quiet_put)
qed (use assms in \<open>simp add: removeAccountSigner_def\<close>)

lemma removeSignerFrom_quiet: "removeSignerFrom key as ls = Inr ls' \<Longrightarrow> quiet ls ls'"
proof (induction as arbitrary: ls)
  case (Cons a as)
  then obtain ls1 where "removeAccountSigner key a ls = Inr ls1" "removeSignerFrom key as ls1 = Inr ls'"
    by (auto simp: bindE_Inr_iff)
  then show ?case using Cons.IH quiet_trans removeAccountSigner_quiet by blast
qed simp

lemma oneTimeSigners_quiet: "removeOneTimeSignerFromAllSourceAccounts tx ls = Inr ls' \<Longrightarrow> quiet ls ls'"
  by (auto simp: removeOneTimeSignerFromAllSourceAccounts_def intro: removeSignerFrom_quiet split: if_splits)

lemma processSignatures_quiet:
  assumes "processSignatures env tx cv ch ls = Inr p"
  shows "quiet ls (txpState p)"
  using assms
  by (auto simp: processSignatures_def bindE_Inr_iff Let_def split: if_split_asm intro: oneTimeSigners_quiet)

lemma processSeqNum_shift:
  assumes "processSeqNum tx ls = Inr ls'"
  shows "shift 0 ls ls'"
  using assms
  by (auto simp: processSeqNum_def bindE_Inr_iff entryShift_def LedgerEntryKey_def nativeWeight_def seqOf_def
      split: if_split_asm intro!: shift_put [OF quiet_refl])

section \<open>Applying a transaction\<close>

lemma opApply_coinShift:
  assumes "opApply env newID a op ch ls = Inr (Inr ls', ch')" "7 < ledgerVersion (lsHeader ls)"
  shows "coinShift 0 ls ls'"
  using assms
  by (auto simp: opApply_def bindE_Inr_iff split: option.split_asm intro: doApply_coinShift)

lemma applyOps_coinShift:
  assumes "applyOps env tx i ops ch ls = Inr (rs, ch', ls')" "7 < ledgerVersion (lsHeader ls)" "stateWf ls"
  shows "coinShift 0 ls ls'"
  using assms
proof (induction ops arbitrary: i ch ls rs ch')
  case (Cons op ops)
  obtain r ch1 where op: "opApply env (envOperationHash env (txSourceID tx) (txSeqNum tx) i) (txSourceID tx) op ch ls
      = Inr (r, ch1)"
    using Cons.prems(1) by (auto simp: bindE_Inr_iff)
  show ?case
  proof (cases r)
    case (Inl e)
    then show ?thesis using Cons op by (fastforce simp: bindE_Inr_iff split: if_split_asm)
  next
    case (Inr ls1)
    note s = opApply_coinShift [OF op [unfolded Inr] Cons.prems(2)]
    obtain rs1 ch2 where "applyOps env tx (i + 1) ops ch1 ls1 = Inr (rs1, ch2, ls')"
      using Cons.prems(1) op Inr by (auto simp: bindE_Inr_iff)
    from Cons.IH [OF this] have "coinShift 0 ls1 ls'" using coinShiftD [OF s Cons.prems(3)] Cons.prems(2) by simp
    from coinShift_trans [OF s this] show ?thesis by simp
  qed
qed simp

lemma finishOperations_state:
  assumes "finishOperations tx rs ch ls0 ls = Inr p"
  shows "txpState p = ls0 \<or> quiet ls (txpState p)"
  using assms
  by (auto simp: finishOperations_def bindE_Inr_iff Let_def split: if_split_asm intro: oneTimeSigners_quiet)

lemma quiet_coinShift: "quiet ls ls' \<Longrightarrow> coinShift 0 ls ls'"
  by (rule shift_coinShift [OF quiet_shift])

lemma applyOperations_coinShift:
  assumes "7 < ledgerVersion (lsHeader ls)"
  shows "coinShift 0 ls (txpState (applyOperations env tx ch ls))"
proof (rule coinShift_unless_wf)
  assume wf: "stateWf ls"
  have fin: "coinShift 0 ls (txpState p)" if a: "applyOps env tx i ops ch ls = Inr (rs, ch', ls')"
    "finishOperations tx rs ch' ls ls' = Inr p" for i ops rs ch' ls' p
    using coinShift_trans [OF applyOps_coinShift [OF a(1) assms wf] quiet_coinShift] finishOperations_state [OF a(2)]
    by fastforce
  show "coinShift 0 ls (txpState (applyOperations env tx ch ls))"
    using fin by (auto simp: applyOperations_def bindE_Inr_iff split: sum.split if_split_asm)
qed

text \<open>The states a transaction passes through.\<close>

lemma txApply_steps:
  assumes "txApply env tx charge ls = Inr r"
  shows "\<exists>(v :: Validation) ls1 p. (processSeqNum tx ls = Inr ls1 \<or> ls1 = ls)
    \<and> processSignatures env tx (valType v) (valChecker v) ls1 = Inr p
    \<and> (txrState r = txpState p \<or> txrState r = txpState (applyOperations env tx (txpChecker p) (txpState p)))"
  using assms unfolding txApply_def bindE_Inr_iff Let_def
  apply (elim exE conjE)
  subgoal for v ls1 p
    by (rule exI [of _ v], rule exI [of _ ls1], rule exI [of _ p]) (auto split: if_split_asm)
  done

lemma txApply_coinShift:
  assumes "txApply env tx charge ls = Inr r" "7 < ledgerVersion (lsHeader ls)"
  shows "coinShift 0 ls (txrState r)"
proof (rule coinShift_unless_wf)
  assume wf: "stateWf ls"
  from txApply_steps [OF assms(1)] obtain v :: Validation and ls1 p where *: "processSeqNum tx ls = Inr ls1 \<or> ls1 = ls"
    "processSignatures env tx (valType v) (valChecker v) ls1 = Inr p"
    and r: "txrState r = txpState p \<or> txrState r = txpState (applyOperations env tx (txpChecker p) (txpState p))"
    by blast
  have "shift 0 ls ls1" using *(1) processSeqNum_shift by auto
  then have s: "shift 0 ls (txpState p)" using processSignatures_quiet [OF *(2)] by (rule shift_quiet_trans)
  have "7 < ledgerVersion (lsHeader (txpState p))" using assms(2) shift_version [OF s wf] by simp
  from coinShift_trans [OF shift_coinShift [OF s] applyOperations_coinShift [OF this]] shift_coinShift [OF s] r
  show "coinShift 0 ls (txrState r)" by auto
qed

lemma fbApply_coinShift:
  assumes "fbApply env fb ls = Inr r" "7 < ledgerVersion (lsHeader ls)"
  shows "coinShift 0 ls (txrState (fbrInner r))"
proof (rule coinShift_unless_wf)
  assume wf: "stateWf ls"
  obtain ls1 where *: "removeAccountSigner (SIGNER_KEY_TYPE_PRE_AUTH_TX (fbContentsHash fb)) (fbFeeSource fb) ls = Inr ls1"
    "txApply env (fbInnerTx fb) False ls1 = Inr (fbrInner r)"
    using assms(1) by (auto simp: fbApply_def bindE_Inr_iff)
  have q: "quiet ls ls1" by (rule removeAccountSigner_quiet [OF *(1)])
  then have "7 < ledgerVersion (lsHeader ls1)" using assms(2) wf by (simp add: quiet_def)
  from coinShift_trans [OF quiet_coinShift [OF q] txApply_coinShift [OF *(2) this]]
  show "coinShift 0 ls (txrState (fbrInner r))" by simp
qed

lemma baseApply_coinShift:
  assumes "baseApply env tx ls = Inr (code, ls')" "7 < ledgerVersion (lsHeader ls)"
  shows "coinShift 0 ls ls'"
  using assms
  by (auto simp: baseApply_def bindE_Inr_iff split: TransactionFrameBase.split_asm
      intro: txApply_coinShift fbApply_coinShift)

lemma applyTransactions_coinShift:
  assumes "applyTransactions env txs ls = Inr (codes, ls')" "7 < ledgerVersion (lsHeader ls)" "stateWf ls"
  shows "coinShift 0 ls ls'"
  using assms
proof (induction txs arbitrary: ls codes)
  case (Cons tx txs)
  then obtain code ls1 codes1 where *: "baseApply env tx ls = Inr (code, ls1)"
    "applyTransactions env txs ls1 = Inr (codes1, ls')" by (auto simp: bindE_Inr_iff)
  note s = baseApply_coinShift [OF *(1) Cons.prems(2)]
  from Cons.IH [OF *(2)] have "coinShift 0 ls1 ls'" using coinShiftD [OF s Cons.prems(3)] Cons.prems(2) by simp
  from coinShift_trans [OF s this] show ?case by simp
qed simp

section \<open>Fees\<close>

text \<open>No entry holds a negative amount of coins and all of them together fit an \<^verbatim>\<open>int64_t\<close>.\<close>

definition amountsOk :: "LedgerState \<Rightarrow> bool" where
  "amountsOk ls \<longleftrightarrow> (\<forall>k. 0 \<le> fst (coreIn ls k)) \<and> nativeTotal ls \<le> INT64_MAX"

lemma coreIn_entry: "(k, e) \<in> set (lsEntries ls) \<Longrightarrow> stateWf ls \<Longrightarrow> coreIn ls k = entryCore e"
  by (rule coreIn_load) (auto simp: stateWf_def loadEntry_def)

lemma nativeTotal_nonneg:
  assumes "stateWf ls" "\<And>k. 0 \<le> fst (coreIn ls k)"
  shows "0 \<le> nativeTotal ls"
proof -
  have "0 \<le> nativeWeight e" if "(k, e) \<in> set (lsEntries ls)" for k e
    using coreIn_entry [OF that assms(1)] assms(2) [of k] by (simp add: entryCore_def)
  then show ?thesis by (auto simp: nativeTotal_def totalOver_def sumAssoc_def intro!: sum_list_nonneg)
qed

lemma two_weights:
  assumes "stateWf ls" "amountsOk ls" "k \<noteq> k'"
  shows "fst (coreIn ls k) + fst (coreIn ls k') \<le> INT64_MAX"
proof -
  have "0 \<le> nativeTotal (eraseEntry k' (eraseEntry k ls))"
    using assms(1,2) by (intro nativeTotal_nonneg) (auto simp: lst.wf_erase coreIn_erase amountsOk_def)
  then show ?thesis using assms by (simp add: nativeTotal_erase lst.wf_erase coreIn_erase amountsOk_def)
qed

lemma addBalanceIgnored_add:
  assumes "addBalanceIgnored b d = Inr b'" "0 \<le> b + d" "b + d \<le> INT64_MAX"
  shows "b' = b + d \<and> 0 \<le> b"
  using assms by (auto simp: addBalanceIgnored_def addBalanceTo_def bindE_Inr_iff split: if_split_asm)

lemma balance_entryShift:
  assumes "ledgerData le = ACCOUNT acc"
  shows "entryShift d le (le\<lparr>ledgerData := ACCOUNT (acc\<lparr>accBalance := accBalance acc + d\<rparr>)\<rparr>)"
  using assms by (simp add: entryShift_def LedgerEntryKey_def nativeWeight_def seqOf_def)

lemma loadFeeAccounts_ok:
  assumes "loadFeeAccounts a b ls = Inr (src, tgt)"
  shows "loadEntry ls (AccountKey a) = Some src" "loadEntry ls (AccountKey b) = Some tgt" "a \<noteq> b"
  using assms by (auto simp: loadFeeAccounts_def loadable_def Let_def bindE_Inr_iff split: option.split_asm if_split_asm)

lemma takeFee_shift:
  assumes "takeFee fee src tgt ls = Inr (charged, src', ls')"
    and l: "loadEntry ls (AccountKey a) = Some src" "loadEntry ls (AccountKey b) = Some tgt" "a \<noteq> b"
    and wf: "stateWf ls" "amountsOk ls"
  shows "coinShift (max 0 charged) ls ls' \<and> amountsOk ls' \<and> loadEntry ls' (AccountKey a) = Some src'
    \<and> lsHeader ls' = (lsHeader ls)\<lparr>feePool := feePool (lsHeader ls) + max 0 charged\<rparr>"
proof (cases "fee > 0")
  case True
  obtain acc fpAcc where data: "ledgerData src = ACCOUNT acc" "ledgerData tgt = ACCOUNT fpAcc"
    "accountID acc = a" "accountID fpAcc = b"
    using load_account_data [OF wf(1) l(1)] load_account_data [OF wf(1) l(2)] by metis
  have w: "coreIn ls (AccountKey a) = (accBalance acc, Some (seqNum acc))"
    "coreIn ls (AccountKey b) = (accBalance fpAcc, Some (seqNum fpAcc))"
    using data by (simp_all add: coreIn_load [OF l(1)] coreIn_load [OF l(2)] entryCore_def nativeWeight_def seqOf_def)
  define c where "c = min (accBalance acc) fee"
  have nn: "0 \<le> accBalance acc" "0 \<le> accBalance fpAcc" "accBalance acc + accBalance fpAcc \<le> INT64_MAX"
    using wf(2) two_weights [OF wf, of "AccountKey a" "AccountKey b"] l(3) w
    by (auto simp: amountsOk_def dest: spec [of _ "AccountKey a"] spec [of _ "AccountKey b"])
  then have c: "0 \<le> c" "c \<le> accBalance acc" using True by (auto simp: c_def)
  define s t where "s = src\<lparr>ledgerData := ACCOUNT (acc\<lparr>accBalance := accBalance acc + - c\<rparr>)\<rparr>"
    and "t = tgt\<lparr>ledgerData := ACCOUNT (fpAcc\<lparr>accBalance := accBalance fpAcc + c\<rparr>)\<rparr>"
  define ls1 where "ls1 = storeEntry s (storeEntry t ls)"
  have res: "charged = c" "src' = s" "ls' = ls1\<lparr>lsHeader := (lsHeader ls)\<lparr>feePool := feePool (lsHeader ls) + c\<rparr>\<rparr>"
    using assms(1) True data c nn
    by (auto simp: takeFee_def bindE_Inr_iff Let_def s_def t_def ls1_def withHeader_def c_def [symmetric] accountOf_def
        dest!: addBalanceIgnored_add)
  have keys: "LedgerEntryKey s = AccountKey a" "LedgerEntryKey t = AccountKey b"
    "LedgerEntryKey src = AccountKey a" "LedgerEntryKey tgt = AccountKey b"
    using data by (simp_all add: s_def t_def LedgerEntryKey_def)
  have "shift c ls (storeEntry t ls)"
    using shift_put [OF quiet_refl l(2) balance_entryShift [OF data(2)]] by (simp add: t_def)
  moreover have "shift (- c) (storeEntry t ls) ls1"
    unfolding ls1_def s_def using balance_entryShift [OF data(1), of "- c"] keys l(3)
    by (intro shift_store [where le = src]) (simp_all add: coreIn_put coreIn_load [OF l(1)])
  ultimately have sh: "shift 0 ls ls1" using shift_trans by fastforce
  have h1: "lsHeader ls1 = lsHeader ls" by (simp add: ls1_def)
  have "coinShift c ls1 ls'"
    using coinShift_header [of "lsHeader ls'" ls1] by (simp add: res h1)
  with shift_coinShift [OF sh] have "coinShift c ls ls'" using coinShift_trans by fastforce
  moreover have "amountsOk ls'"
    using wf(2) shiftD(3) [OF sh wf(1)] c nn keys
    by (auto simp: amountsOk_def res nativeTotal_header header_core ls1_def coreIn_put entryCore_def nativeWeight_def s_def t_def)
  moreover have "loadEntry ls' (AccountKey a) = Some src'"
    using keys by (simp add: res ls1_def loadEntry_def [of "_\<lparr>lsHeader := _\<rparr>"] loadEntry_def [symmetric] lst.get_put)
  ultimately show ?thesis using res c by (simp add: h1)
next
  case False
  then show ?thesis using assms by (auto simp: takeFee_def bindE_Inr_iff)
qed

lemma seqNum_shift:
  assumes "loadEntry ls (AccountKey a) = Some le" "ledgerData le = ACCOUNT acc" "seqNum acc \<le> n"
    and ls': "ls' = storeEntry (le\<lparr>ledgerData := ACCOUNT (acc\<lparr>seqNum := n\<rparr>)\<rparr>) ls" and wf: "stateWf ls" "amountsOk ls"
  shows "shift 0 ls ls' \<and> amountsOk ls'"
proof -
  have sh: "shift 0 ls ls'"
    using assms(2,3) unfolding ls'
    by (intro shift_put [OF quiet_refl assms(1)]) (simp add: entryShift_def LedgerEntryKey_def nativeWeight_def seqOf_def)
  have "0 \<le> accBalance acc"
    using wf(2) assms(2) coreIn_load [OF assms(1)]
    by (auto simp: amountsOk_def entryCore_def nativeWeight_def dest: spec [of _ "AccountKey a"])
  then have "amountsOk ls'" using wf(2) shiftD(3) [OF sh wf(1)]
    by (auto simp: amountsOk_def ls' coreIn_put entryCore_def nativeWeight_def)
  with sh show ?thesis by blast
qed

lemma processFeeSeqNum_shift:
  assumes "processFeeSeqNum env tx base feeID ls = Inr (fee, ls')" and wf: "stateWf ls" "amountsOk ls"
  shows "coinShift (max 0 fee) ls ls' \<and> amountsOk ls'"
proof -
  obtain src tgt src' ls1 where l: "loadFeeAccounts (txSourceID tx) (envPublicKey env feeID) ls = Inr (src, tgt)"
    and t: "takeFee (getFee (lsHeader ls) base True tx) src tgt ls = Inr (fee, src', ls1)"
    and e: "ls' = ls1 \<or> (\<exists>acc. ledgerData src' = ACCOUNT acc \<and> seqNum acc + 1 = txSeqNum tx
        \<and> ls' = storeEntry (src'\<lparr>ledgerData := ACCOUNT (acc\<lparr>seqNum := txSeqNum tx\<rparr>)\<rparr>) ls1)"
    using assms(1) by (auto simp: processFeeSeqNum_def bindE_Inr_iff split: if_split_asm)
  note s = takeFee_shift [OF t loadFeeAccounts_ok [OF l] wf]
  have "shift 0 ls1 ls' \<and> amountsOk ls'"
    using e s seqNum_shift [of ls1 "txSourceID tx" src'] coinShiftD(1) [of _ ls ls1] wf by auto
  with s show ?thesis using coinShift_trans [OF _ shift_coinShift] by fastforce
qed

lemma fbProcessFeeSeqNum_shift:
  assumes "fbProcessFeeSeqNum env fb base feeID ls = Inr (fee, ls')" and wf: "stateWf ls" "amountsOk ls"
  shows "coinShift (max 0 fee) ls ls' \<and> amountsOk ls'"
  using assms(1) takeFee_shift [OF _ loadFeeAccounts_ok wf]
  by (fastforce simp: fbProcessFeeSeqNum_def bindE_Inr_iff)

lemma processFees_shift:
  assumes "processFeesSeqNums env txs base feeID ls = Inr (fees, ls')" "stateWf ls" "amountsOk ls"
  shows "coinShift (sum_list (map (max 0) fees)) ls ls' \<and> amountsOk ls'"
  using assms
proof (induction txs arbitrary: ls fees)
  case (Cons tx txs)
  then obtain fee ls1 fees1 where *: "baseProcessFeeSeqNum env tx base feeID ls = Inr (fee, ls1)"
    "processFeesSeqNums env txs base feeID ls1 = Inr (fees1, ls')" "fees = fee # fees1"
    by (auto simp: bindE_Inr_iff)
  have s: "coinShift (max 0 fee) ls ls1 \<and> amountsOk ls1"
    using *(1) processFeeSeqNum_shift fbProcessFeeSeqNum_shift Cons.prems(2,3)
    by (auto simp: baseProcessFeeSeqNum_def split: TransactionFrameBase.split_asm)
  then show ?case using Cons.IH [OF *(2)] coinShiftD(1) [OF _ Cons.prems(2)] coinShift_trans *(3) by fastforce
qed simp

lemma runTransactionSet_shift:
  assumes "runTransactionSet env txs base feeID ls = Inr (fees, codes, ls')"
    and "stateWf ls" "amountsOk ls" "7 < ledgerVersion (lsHeader ls)"
  shows "coinShift (sum_list (map (max 0) fees)) ls ls'"
proof -
  obtain ls1 where *: "processFeesSeqNums env txs base feeID ls = Inr (fees, ls1)"
    "applyTransactions env txs ls1 = Inr (codes, ls')"
    using assms(1) by (auto simp: runTransactionSet_def bindE_Inr_iff)
  note s = processFees_shift [OF *(1) assms(2,3)]
  have "coinShift 0 ls1 ls'"
    using applyTransactions_coinShift [OF *(2)] coinShiftD [of _ ls ls1] s assms(2,4) by auto
  with s show ?thesis using coinShift_trans by fastforce
qed

end
