(* ===== verification/Replay.thy ===== *)
theory Replay
  imports CoinTransactions
begin

text \<open>
  Sequence numbers through a ledger and from one ledger to the next: what keeps the numbers already used,
  and why a transaction that was applied is never applied again.
\<close>

section \<open>Keeping the numbers already used\<close>

definition seqKept :: "LedgerState \<Rightarrow> LedgerState \<Rightarrow> bool" where
  "seqKept ls ls' \<longleftrightarrow> (stateWf ls \<longrightarrow>
     stateWf ls' \<and> ledgerVersion (lsHeader ls') = ledgerVersion (lsHeader ls)
     \<and> ledgerSeq (lsHeader ls') = ledgerSeq (lsHeader ls)
     \<and> (10 \<le> ledgerVersion (lsHeader ls) \<longrightarrow> keepsUsed ls ls'))"

lemma seqKept_refl [simp]: "seqKept ls ls"
  by (simp add: seqKept_def keepsUsed_def)

lemma seqKept_trans: "seqKept a b \<Longrightarrow> seqKept b c \<Longrightarrow> seqKept a c"
  by (auto simp: seqKept_def intro: keepsUsed_trans)

lemma coinShift_seqKept: "coinShift d ls ls' \<Longrightarrow> seqKept ls ls'"
  by (simp add: coinShift_def seqKept_def)

lemma seqKept_unless_wf: "(stateWf ls \<Longrightarrow> seqKept ls ls') \<Longrightarrow> seqKept ls ls'"
  by (auto simp: seqKept_def)

lemma takeFee_seqKept:
  assumes "takeFee fee src tgt ls = Inr (charged, src', ls')"
    and l: "loadEntry ls (AccountKey a) = Some src" "loadEntry ls (AccountKey b) = Some tgt" "a \<noteq> b"
    and wf: "stateWf ls"
  shows "seqKept ls ls' \<and> loadEntry ls' (AccountKey a) = Some src'"
proof (cases "fee > 0")
  case True
  obtain acc fpAcc where data: "ledgerData src = ACCOUNT acc" "ledgerData tgt = ACCOUNT fpAcc"
    "accountID acc = a" "accountID fpAcc = b"
    using load_account_data [OF wf l(1)] load_account_data [OF wf l(2)] by metis
  have "\<exists>u v. src' = src\<lparr>ledgerData := ACCOUNT (acc\<lparr>accBalance := u\<rparr>)\<rparr>
      \<and> ls' = (storeEntry (src\<lparr>ledgerData := ACCOUNT (acc\<lparr>accBalance := u\<rparr>)\<rparr>)
        (storeEntry (tgt\<lparr>ledgerData := ACCOUNT (fpAcc\<lparr>accBalance := v\<rparr>)\<rparr>) ls))
        \<lparr>lsHeader := (lsHeader ls)\<lparr>feePool := feePool (lsHeader ls) + charged\<rparr>\<rparr>"
    using assms(1) True data by (auto simp: takeFee_def bindE_Inr_iff Let_def withHeader_def accountOf_def)
  then obtain u v where
    res: "src' = src\<lparr>ledgerData := ACCOUNT (acc\<lparr>accBalance := u\<rparr>)\<rparr>"
      "ls' = (storeEntry (src\<lparr>ledgerData := ACCOUNT (acc\<lparr>accBalance := u\<rparr>)\<rparr>)
        (storeEntry (tgt\<lparr>ledgerData := ACCOUNT (fpAcc\<lparr>accBalance := v\<rparr>)\<rparr>) ls))
        \<lparr>lsHeader := (lsHeader ls)\<lparr>feePool := feePool (lsHeader ls) + charged\<rparr>\<rparr>" by blast
  let ?t = "tgt\<lparr>ledgerData := ACCOUNT (fpAcc\<lparr>accBalance := v\<rparr>)\<rparr>"
  define ls1 where "ls1 = storeEntry src' (storeEntry ?t ls)"
  have keys: "LedgerEntryKey src' = AccountKey a" "LedgerEntryKey ?t = AccountKey b" "LedgerEntryKey src = AccountKey a"
    using data by (simp_all add: res LedgerEntryKey_def)
  have "shift (v - accBalance fpAcc) ls (storeEntry ?t ls)"
    using shift_put [OF quiet_refl l(2) balance_entryShift [OF data(2), of "v - accBalance fpAcc"]] by simp
  moreover have "shift (u - accBalance acc) (storeEntry ?t ls) ls1"
    unfolding ls1_def using balance_entryShift [OF data(1), of "u - accBalance acc"] keys l(3)
    by (intro shift_store [where le = src]) (simp_all add: coreIn_put coreIn_load [OF l(1)] res)
  ultimately have sh: "seqKept ls ls1" using shift_trans coinShift_seqKept [OF shift_coinShift] by blast
  have "seqKept ls1 ls'"
    using coinShift_seqKept [OF coinShift_header [of "lsHeader ls'" ls1]] by (simp add: res ls1_def)
  moreover have "loadEntry ls' (AccountKey a) = Some src'"
    using keys res by (simp add: loadEntry_def [of "_\<lparr>lsHeader := _\<rparr>"] loadEntry_def [symmetric] lst.get_put)
  ultimately show ?thesis using sh seqKept_trans by blast
qed (use assms in \<open>auto simp: takeFee_def bindE_Inr_iff\<close>)

lemma baseProcessFee_seqKept:
  assumes "baseProcessFeeSeqNum env tx base feeID ls = Inr (fee, ls')"
  shows "seqKept ls ls'"
proof (rule seqKept_unless_wf)
  assume wf: "stateWf ls"
  obtain a src tgt src' ls1 f where l: "loadFeeAccounts a (envPublicKey env feeID) ls = Inr (src, tgt)"
    and t: "takeFee f src tgt ls = Inr (fee, src', ls1)"
    and e: "ls' = ls1 \<or> (\<exists>acc n. ledgerData src' = ACCOUNT acc \<and> seqNum acc + 1 = n
        \<and> ls' = storeEntry (src'\<lparr>ledgerData := ACCOUNT (acc\<lparr>seqNum := n\<rparr>)\<rparr>) ls1)"
    using assms
    by (auto simp: baseProcessFeeSeqNum_def processFeeSeqNum_def fbProcessFeeSeqNum_def bindE_Inr_iff
        split: TransactionFrameBase.split_asm if_split_asm)
  note s = takeFee_seqKept [OF t loadFeeAccounts_ok [OF l] wf]
  have "seqKept ls1 ls'" using e s
    by (auto simp: entryShift_def LedgerEntryKey_def nativeWeight_def seqOf_def
        intro!: coinShift_seqKept [OF shift_coinShift [of 0]] shift_put [OF quiet_refl])
  with s show "seqKept ls ls'" using seqKept_trans by blast
qed

lemma processFees_seqKept:
  assumes "processFeesSeqNums env txs base feeID ls = Inr (fees, ls')"
  shows "seqKept ls ls'"
  using assms
proof (induction txs arbitrary: ls fees)
  case (Cons tx txs)
  then obtain fee ls1 fees1 where "baseProcessFeeSeqNum env tx base feeID ls = Inr (fee, ls1)"
    "processFeesSeqNums env txs base feeID ls1 = Inr (fees1, ls')" by (auto simp: bindE_Inr_iff)
  then show ?case using Cons.IH baseProcessFee_seqKept seqKept_trans by blast
qed simp

lemma runTransactionSet_seqKept:
  assumes "runTransactionSet env txs base feeID ls = Inr (fees, codes, ls')" "7 < ledgerVersion (lsHeader ls)"
  shows "seqKept ls ls'"
proof (rule seqKept_unless_wf)
  assume wf: "stateWf ls"
  obtain ls1 where *: "processFeesSeqNums env txs base feeID ls = Inr (fees, ls1)"
    "applyTransactions env txs ls1 = Inr (codes, ls')"
    using assms(1) by (auto simp: runTransactionSet_def bindE_Inr_iff)
  note s = processFees_seqKept [OF *(1)]
  then have "seqKept ls1 ls'"
    using coinShift_seqKept [OF applyTransactions_coinShift [OF *(2)]] assms(2) wf by (simp add: seqKept_def)
  with s show "seqKept ls ls'" by (rule seqKept_trans)
qed

section \<open>Rejection before the sequence number is used\<close>

definition earlyCodes :: "TransactionResultCode set" where
  "earlyCodes = {txNOT_SUPPORTED, txMISSING_OPERATION, txTOO_EARLY, txTOO_LATE, txINSUFFICIENT_FEE, txNO_ACCOUNT,
     txBAD_SEQ}"

lemma preSeqNum_early: "commonValidPreSeqNum tx charge lo up ls = Some c \<Longrightarrow> c \<in> earlyCodes"
  by (auto simp: commonValidPreSeqNum_def earlyCodes_def Let_def split: if_split_asm)

lemma commonValid_early:
  assumes "commonValid env tx cs True charge lo up ch ls = Inr v"
  shows "valType v = kInvalid \<longleftrightarrow> (\<exists>c\<in>earlyCodes. valCode v = Some c)"
  using assms
  by (auto simp: commonValid_def earlyCodes_def Let_def bindE_Inr_iff dest: preSeqNum_early
      split: option.split_asm if_split_asm prod.split_asm)

lemma processSignatures_invalid:
  assumes "processSignatures env tx kInvalid ch ls = Inr p" "10 \<le> ledgerVersion (lsHeader ls)"
  shows "\<not> txpOk p \<and> txpCode p = None"
  using assms by (auto simp: processSignatures_def Let_def bindE_Inr_iff validationRank_def split: if_split_asm)

lemma processSeqNum_used:
  assumes "processSeqNum tx ls = Inr ls1" "10 \<le> ledgerVersion (lsHeader ls)" "stateWf ls"
  shows "usedUpTo ls1 (txSourceID tx) (txSeqNum tx)"
proof -
  obtain le acc where "loadEntry ls (AccountKey (txSourceID tx)) = Some le" and acc: "ledgerData le = ACCOUNT acc"
    and ls1: "ls1 = storeEntry (le\<lparr>ledgerData := ACCOUNT (acc\<lparr>seqNum := txSeqNum tx\<rparr>)\<rparr>) ls"
    using assms(1,2) by (auto simp: processSeqNum_def bindE_Inr_iff current_def split: if_split_asm option.split_asm)
  then have "accountID acc = txSourceID tx" using loadEntry_key [OF assms(3)] by (fastforce simp: LedgerEntryKey_def)
  then show ?thesis by (simp add: ls1 usedUpTo_put LedgerEntryKey_def seqOf_def)
qed

text \<open>The parts of an application, and how the last of them settles its result.\<close>

definition settles :: "TxEnv \<Rightarrow> TransactionFrame \<Rightarrow> Validation \<Rightarrow> TxProgress \<Rightarrow> TxResult \<Rightarrow> bool" where
  "settles env tx v p r \<longleftrightarrow>
     (if txpOk p \<and> valType v = kMaybeValid
      then txrState r = txpState (applyOperations env tx (txpChecker p) (txpState p))
         \<and> txrOk r = txpOk (applyOperations env tx (txpChecker p) (txpState p))
      else txrState r = txpState p \<and> \<not> txrOk r \<and> txrCode r = laterCode (txpCode p) (laterCode (valCode v) txSUCCESS))"

lemma validationRank_seq [simp]: "validationRank kInvalidUpdateSeqNum \<le> validationRank t \<longleftrightarrow> t \<noteq> kInvalid"
  by (cases t) (simp_all add: validationRank_def)

lemma txApply_parts:
  assumes "txApply env tx charge ls = Inr r"
  obtains v ls1 p where "commonValid env tx 0 True charge 0 0
      (newSignatureChecker (ledgerVersion (lsHeader ls)) (txContentsHash tx) (txSignatures tx)) ls = Inr v"
    "(if valType v = kInvalid then Inr ls else processSeqNum tx ls) = Inr ls1"
    "processSignatures env tx (valType v) (valChecker v) ls1 = Inr p" "settles env tx v p r"
  using assms unfolding txApply_def bindE_Inr_iff Let_def
  apply (elim exE conjE)
  subgoal premises prems for v ls1 p
    using prems(2-) by (intro prems(1) [of v ls1 p]) (auto simp: settles_def split: if_split_asm)
  done

lemma txApply_used:
  assumes "txApply env tx charge ls = Inr r" "10 \<le> ledgerVersion (lsHeader ls)" "stateWf ls" "txrCode r \<notin> earlyCodes"
  shows "usedUpTo (txrState r) (txSourceID tx) (txSeqNum tx)"
proof -
  obtain v ls1 p where v: "commonValid env tx 0 True charge 0 0
      (newSignatureChecker (ledgerVersion (lsHeader ls)) (txContentsHash tx) (txSignatures tx)) ls = Inr v"
    and ls1: "(if valType v = kInvalid then Inr ls else processSeqNum tx ls) = Inr ls1"
    and p: "processSignatures env tx (valType v) (valChecker v) ls1 = Inr p"
    and r: "settles env tx v p r" by (rule txApply_parts [OF assms(1)])
  have valid: "valType v \<noteq> kInvalid"
  proof
    assume inv: "valType v = kInvalid"
    then have "txpCode p = None" using processSignatures_invalid p ls1 assms(2) by fastforce
    then show False using inv r assms(4) commonValid_early [OF v] by (auto simp: laterCode_def settles_def)
  qed
  then have seq: "processSeqNum tx ls = Inr ls1" using ls1 by simp
  note used = processSeqNum_used [OF this assms(2,3)]
  have s1: "shift 0 ls ls1" by (rule processSeqNum_shift [OF seq])
  note s2 = shift_coinShift [OF shift_quiet_trans [OF shift_refl processSignatures_quiet [OF p]]]
  note wf1 = shift_wf [OF s1 assms(3)]
  have v1: "10 \<le> ledgerVersion (lsHeader ls1)" using shift_version [OF s1 assms(3)] assms(2) by simp
  note d2 = coinShiftD [OF s2 wf1]
  have "(7 :: uint32) < ledgerVersion (lsHeader (txpState p))"
    using v1 d2(2) less_le_trans [of "7 :: uint32" 10] by simp
  from applyOperations_coinShift [OF this] have "coinShift 0 (txpState p) (txrState r)"
    using r by (auto simp: settles_def split: if_split_asm)
  from coinShiftD(5) [OF coinShift_trans [OF s2 this] wf1 v1] used show ?thesis by (simp add: keepsUsed_def)
qed

lemma used_rejected:
  assumes "usedUpTo ls (txSourceID tx) s" "txSeqNum tx \<le> s" "10 \<le> ledgerVersion (lsHeader ls)" "stateWf ls"
    and "txApply env tx charge ls = Inr r"
  shows "\<not> txrOk r \<and> txrCode r \<in> earlyCodes \<and> quiet ls (txrState r)"
proof -
  obtain v ls1 p where v: "commonValid env tx 0 True charge 0 0
      (newSignatureChecker (ledgerVersion (lsHeader ls)) (txContentsHash tx) (txSignatures tx)) ls = Inr v"
    and ls1: "(if valType v = kInvalid then Inr ls else processSeqNum tx ls) = Inr ls1"
    and p: "processSignatures env tx (valType v) (valChecker v) ls1 = Inr p"
    and r: "settles env tx v p r" by (rule txApply_parts [OF assms(5)])
  have inv: "valType v = kInvalid"
  proof (cases "commonValidPreSeqNum tx charge 0 0 ls")
    case None
    then have "loadEntry ls (AccountKey (txSourceID tx)) \<noteq> None"
      by (auto simp: commonValidPreSeqNum_def Let_def split: if_split_asm)
    then obtain le acc where l: "loadEntry ls (AccountKey (txSourceID tx)) = Some le" "ledgerData le = ACCOUNT acc"
      using load_account_data [OF assms(4)] by blast
    then have "s \<le> seqNum acc"
      using assms(1) by (simp add: usedUpTo_def coreIn_load entryCore_def seqOf_def)
    then show ?thesis using v None l assms(2,3)
      by (auto simp: commonValid_def Let_def bindE_Inr_iff current_def accountOf_def isBadSeq_def)
  qed (use v in \<open>auto simp: commonValid_def Let_def\<close>)
  then have eq: "ls1 = ls" using ls1 by simp
  obtain c where "c \<in> earlyCodes" "valCode v = Some c" using commonValid_early [OF v] inv by blast
  moreover have "\<not> txpOk p \<and> txpCode p = None"
    using processSignatures_invalid [OF _ assms(3)] p [unfolded inv eq] by blast
  ultimately show ?thesis
    using r processSignatures_quiet [OF p] eq by (simp add: laterCode_def settles_def)
qed

section \<open>From one ledger to the next\<close>

text \<open>
  What can happen to a ledger after a transaction: other transactions are applied, fees are charged, and
  the header is replaced by that of a later ledger.
\<close>

inductive ledgerLater :: "TxEnv \<Rightarrow> LedgerState \<Rightarrow> LedgerState \<Rightarrow> bool" for env ls where
  same: "ledgerLater env ls ls"
| applied: "ledgerLater env ls ls1 \<Longrightarrow> baseApply env tx ls1 = Inr (code, ls2) \<Longrightarrow> ledgerLater env ls ls2"
| charged: "ledgerLater env ls ls1 \<Longrightarrow> baseProcessFeeSeqNum env tx base feeID ls1 = Inr (fee, ls2) \<Longrightarrow> ledgerLater env ls ls2"
| closed: "ledgerLater env ls ls1 \<Longrightarrow> ledgerVersion (lsHeader ls1) \<le> ledgerVersion h
    \<Longrightarrow> ledgerSeq (lsHeader ls1) \<le> ledgerSeq h \<Longrightarrow> ledgerSeq h < 0x80000000 \<Longrightarrow> ledgerLater env ls (ls1\<lparr>lsHeader := h\<rparr>)"

lemma startSeq_value:
  assumes "seq < (0x80000000 :: uint32)"
  shows "sint (getStartingSequenceNumber seq) = uint seq * 2 ^ 32"
proof -
  have "uint seq < 0x80000000" using assms by (simp add: word_less_def)
  then have "signed_take_bit 63 (uint seq * 2 ^ 32) = uint seq * 2 ^ 32"
    using order_trans [OF _ uint_ge_0 [of seq], of "- 2147483648"] by (intro signed_take_bit_int_eq_self) simp_all
  with \<open>uint seq < 0x80000000\<close> show ?thesis
    by (simp add: getStartingSequenceNumber_def push_bit_eq_mult sint_uint uint_word_ariths unsigned_ucast_eq
        take_bit_eq_mod)
qed

lemma keepsUsed_closed:
  assumes "ledgerSeq (lsHeader ls) \<le> ledgerSeq h" "ledgerSeq h < 0x80000000"
  shows "keepsUsed ls (ls\<lparr>lsHeader := h\<rparr>)"
proof -
  have "ledgerSeq (lsHeader ls) < 0x80000000" using assms by (rule le_less_trans)
  then have "startSeq ls \<le> startSeq (ls\<lparr>lsHeader := h\<rparr>)"
    using assms by (simp add: startSeq_def startSeq_value word_le_def)
  then show ?thesis by (auto simp: keepsUsed_def usedUpTo_def header_core split: option.splits)
qed

lemma ledgerLater_used:
  assumes "ledgerLater env ls ls'" "stateWf ls" "10 \<le> ledgerVersion (lsHeader ls)"
  shows "stateWf ls' \<and> 10 \<le> ledgerVersion (lsHeader ls') \<and> keepsUsed ls ls'"
  using assms
proof (induction rule: ledgerLater.induct)
  case same
  then show ?case by (simp add: keepsUsed_def)
next
  case (applied ls1 tx code ls2)
  then have "(7 :: uint32) < ledgerVersion (lsHeader ls1)" using less_le_trans [of "7 :: uint32" 10] by simp
  note d = coinShiftD [OF baseApply_coinShift [OF applied(2) this]]
  then show ?case using applied keepsUsed_trans [OF _ d(5)] by simp
next
  case (charged ls1 tx base feeID fee ls2)
  then show ?case using baseProcessFee_seqKept [OF charged(2)] keepsUsed_trans by (auto simp: seqKept_def)
next
  case (closed ls1 h)
  then show ?case using keepsUsed_closed [OF closed(3,4)] keepsUsed_trans
    by (auto simp: stateWf_def intro: order_trans)
qed

end
