(* ===== verification/Atomicity.thy ===== *)
theory Atomicity
  imports Replay
begin

text \<open>
  What a transaction that does not succeed leaves in the ledger: the sequence number it used and the removal
  of the signers that stood for it, nothing of its operations.
\<close>

section \<open>Changes of accounts only\<close>

definition accountsOnly :: "LedgerState \<Rightarrow> LedgerState \<Rightarrow> bool" where
  "accountsOnly ls ls' \<longleftrightarrow> lsSponsorships ls' = lsSponsorships ls \<and> lsCounters ls' = lsCounters ls
     \<and> (\<forall>k. (\<forall>a. k \<noteq> AccountKey a) \<longrightarrow> loadEntry ls' k = loadEntry ls k)"

lemma accountsOnly_refl [simp]: "accountsOnly ls ls"
  by (simp add: accountsOnly_def)

lemma accountsOnly_trans: "accountsOnly a b \<Longrightarrow> accountsOnly b c \<Longrightarrow> accountsOnly a c"
  by (simp add: accountsOnly_def)

lemma accountsOnly_store: "LedgerEntryKey le = AccountKey a \<Longrightarrow> accountsOnly ls (storeEntry le ls)"
  by (simp add: accountsOnly_def lst.get_put)

lemma removeSigner_accounts:
  assumes "removeSignerWithPossibleSponsorship ls n acc = Inr (acc', ls')" "stateWf ls"
  shows "accountsOnly ls ls'"
proof -
  have "accountsOnly ls (storeEntry ing' ls)" if "loadEntry ls (AccountKey i) = Some ing" "sameCore ing ing'" for i ing ing'
    using that loadEntry_key [OF assms(2) that(1)] by (simp add: accountsOnly_store sameCore_def)
  then show ?thesis
    using assms(1) by (auto simp: removeSignerWithPossibleSponsorship_def bindE_Inr_iff Let_def
        dest!: signerCreation_keeps split: option.splits if_splits)
qed

lemma removeAccountSigner_accounts:
  assumes "removeAccountSigner key a ls = Inr ls'" "stateWf ls"
  shows "accountsOnly ls ls'"
proof (cases "loadEntry ls (AccountKey a)")
  case (Some le)
  obtain acc where acc: "ledgerData le = ACCOUNT acc" "accountID acc = a" using load_account_data [OF assms(2) Some] by blast
  obtain n f where "findSignerByKey (signers acc) key = (n, f)" by fastforce
  then have "ls' = ls \<or> (\<exists>le' ls1. removeSignerWithPossibleSponsorship ls n le = Inr (le', ls1) \<and> ls' = storeEntry le' ls1)"
    using assms(1) Some acc by (auto simp: removeAccountSigner_def accountOf_def bindE_Inr_iff split: if_splits)
  then show ?thesis
  proof
    assume "\<exists>le' ls1. removeSignerWithPossibleSponsorship ls n le = Inr (le', ls1) \<and> ls' = storeEntry le' ls1"
    then obtain le' ls1 where r: "removeSignerWithPossibleSponsorship ls n le = Inr (le', ls1)" "ls' = storeEntry le' ls1"
      by blast
    have "LedgerEntryKey le' = AccountKey a"
      using removeSignerWithPossibleSponsorship_quiet [OF r(1)] loadEntry_key [OF assms(2) Some] by (simp add: sameCore_def)
    then show ?thesis using accountsOnly_trans [OF removeSigner_accounts [OF r(1) assms(2)] accountsOnly_store] r(2) by blast
  qed simp
qed (use assms in \<open>simp add: removeAccountSigner_def\<close>)

lemma removeSignerFrom_accounts: "removeSignerFrom key as ls = Inr ls' \<Longrightarrow> stateWf ls \<Longrightarrow> accountsOnly ls ls'"
proof (induction as arbitrary: ls)
  case (Cons a as)
  then obtain ls1 where "removeAccountSigner key a ls = Inr ls1" "removeSignerFrom key as ls1 = Inr ls'"
    by (auto simp: bindE_Inr_iff)
  then show ?case
    using Cons.IH Cons.prems(2) accountsOnly_trans removeAccountSigner_accounts quiet_wf [OF removeAccountSigner_quiet] by blast
qed simp

lemma processSignatures_accounts:
  assumes "processSignatures env tx cv ch ls = Inr p" "stateWf ls"
  shows "accountsOnly ls (txpState p)"
  using assms
  by (auto simp: processSignatures_def bindE_Inr_iff Let_def removeOneTimeSignerFromAllSourceAccounts_def
      split: if_split_asm intro: removeSignerFrom_accounts)

section \<open>Transactions that fail\<close>

lemma finishOperations_failed:
  "finishOperations tx rs ch ls0 ls = Inr p \<Longrightarrow> \<not> txpOk p \<Longrightarrow> txpState p = ls0"
  by (auto simp: finishOperations_def bindE_Inr_iff Let_def split: if_split_asm)

lemma applyOperations_failed: "\<not> txpOk (applyOperations env tx ch ls) \<Longrightarrow> txpState (applyOperations env tx ch ls) = ls"
  by (auto simp: applyOperations_def bindE_Inr_iff split: sum.splits if_split_asm dest: finishOperations_failed)

text \<open>The difference that a failed transaction may leave.\<close>

definition onlySequence :: "TransactionFrame \<Rightarrow> LedgerState \<Rightarrow> LedgerState \<Rightarrow> bool" where
  "onlySequence tx ls ls' \<longleftrightarrow> lsHeader ls' = lsHeader ls \<and> accountsOnly ls ls'
     \<and> (\<forall>k. fst (coreIn ls' k) = fst (coreIn ls k)
          \<and> (snd (coreIn ls' k) = snd (coreIn ls k) \<or> k = AccountKey (txSourceID tx) \<and> snd (coreIn ls' k) = Some (txSeqNum tx)))"

lemma processSeqNum_only:
  assumes "processSeqNum tx ls = Inr ls1" "stateWf ls"
  shows "onlySequence tx ls ls1"
proof (cases "10 \<le> ledgerVersion (lsHeader ls)")
  case True
  then obtain le acc where l: "loadEntry ls (AccountKey (txSourceID tx)) = Some le" and acc: "ledgerData le = ACCOUNT acc"
    and ls1: "ls1 = storeEntry (le\<lparr>ledgerData := ACCOUNT (acc\<lparr>seqNum := txSeqNum tx\<rparr>)\<rparr>) ls"
    using assms(1) by (auto simp: processSeqNum_def bindE_Inr_iff current_def split: if_split_asm option.split_asm)
  then have "accountID acc = txSourceID tx" using loadEntry_key [OF assms(2)] by (fastforce simp: LedgerEntryKey_def)
  then have key: "LedgerEntryKey (le\<lparr>ledgerData := ACCOUNT (acc\<lparr>seqNum := txSeqNum tx\<rparr>)\<rparr>) = AccountKey (txSourceID tx)"
    by (simp add: LedgerEntryKey_def)
  from accountsOnly_store [OF this] show ?thesis
    unfolding onlySequence_def ls1 using coreIn_load [OF l] key acc
    by (simp add: coreIn_put entryCore_def nativeWeight_def seqOf_def)
qed (use assms in \<open>simp add: processSeqNum_def onlySequence_def\<close>)

lemma txApply_failed:
  assumes "txApply env tx charge ls = Inr r" "\<not> txrOk r" "stateWf ls"
  shows "onlySequence tx ls (txrState r)"
proof -
  obtain v ls1 p where "commonValid env tx 0 True charge 0 0
      (newSignatureChecker (ledgerVersion (lsHeader ls)) (txContentsHash tx) (txSignatures tx)) ls = Inr v"
    and ls1: "(if valType v = kInvalid then Inr ls else processSeqNum tx ls) = Inr ls1"
    and p: "processSignatures env tx (valType v) (valChecker v) ls1 = Inr p" and r: "settles env tx v p r"
    by (rule txApply_parts [OF assms(1)])
  have s: "txrState r = txpState p" using r assms(2) applyOperations_failed by (auto simp: settles_def split: if_split_asm)
  have one: "onlySequence tx ls ls1 \<and> stateWf ls1"
    using ls1 processSeqNum_only [OF _ assms(3)] processSeqNum_shift shift_wf assms(3)
    by (fastforce simp: onlySequence_def split: if_split_asm)
  have "quiet ls1 (txpState p)" "accountsOnly ls1 (txpState p)"
    using processSignatures_quiet [OF p] processSignatures_accounts [OF p] one by blast+
  with one show ?thesis unfolding s by (auto simp: onlySequence_def quiet_def dest: accountsOnly_trans)
qed

end
