(* ===== verification/ConservationInvariant.thy ===== *)
theory ConservationInvariant
  imports CoinTransactions
begin

text \<open>
  \<^verbatim>\<open>invariant/ConservationOfDigitalBits.cpp\<close>, the check that a node runs after every operation on the difference
  between the state before and after, and that it has nothing to report. The messages are values that carry
  the numbers; the sums are integers without the bounds of \<^verbatim>\<open>int64_t\<close>. The entries for the sponsorships of
  the running transaction, of which the code takes the change as 0, are not listed in a difference.
\<close>

section \<open>Definitions\<close>

record LedgerTxnDelta =
  deltaEntry :: "(LedgerKey \<times> LedgerEntry option \<times> LedgerEntry option) list"
  deltaHeaderCurrent :: LedgerHeader
  deltaHeaderPrevious :: LedgerHeader

definition claimableOf :: "LedgerEntry \<Rightarrow> ClaimableBalanceEntry tx" where
  "claimableOf le = (case ledgerData le of CLAIMABLE_BALANCE cb \<Rightarrow> Inr cb | _ \<Rightarrow> Inl WrongUnion)"

definition optAmount :: "(LedgerEntry \<Rightarrow> 'a tx) \<Rightarrow> ('a \<Rightarrow> int) \<Rightarrow> LedgerEntry option \<Rightarrow> int tx" where
  "optAmount arm amount e = (case e of None \<Rightarrow> Inr 0 | Some le \<Rightarrow> bindE (arm le) (\<lambda>x. Inr (amount x)))"

definition amountDelta :: "(LedgerEntry \<Rightarrow> 'a tx) \<Rightarrow> ('a \<Rightarrow> int) \<Rightarrow> LedgerEntry option \<Rightarrow> LedgerEntry option \<Rightarrow> int tx" where
  "amountDelta arm amount cur prev =
     bindE (optAmount arm amount cur) (\<lambda>c. bindE (optAmount arm amount prev) (\<lambda>p. Inr (c - p)))"

definition calculateDeltaBalance :: "LedgerEntry option \<Rightarrow> LedgerEntry option \<Rightarrow> int tx" where
  "calculateDeltaBalance cur prev =
     (case (case cur of Some c \<Rightarrow> Some c | None \<Rightarrow> prev) of
        None \<Rightarrow> Inl AssertFailed
      | Some le \<Rightarrow>
          (case ledgerData le of
             ACCOUNT _ \<Rightarrow> amountDelta accountOf accBalance cur prev
           | CLAIMABLE_BALANCE cb \<Rightarrow>
               if cbAsset cb \<noteq> ASSET_TYPE_NATIVE then Inr 0 else amountDelta claimableOf cbAmount cur prev
           | _ \<Rightarrow> Inr 0))"

fun deltaBalances :: "(LedgerKey \<times> LedgerEntry option \<times> LedgerEntry option) list \<Rightarrow> int tx" where
  "deltaBalances [] = Inr 0"
| "deltaBalances ((k, cur, prev) # es) =
     bindE (calculateDeltaBalance cur prev) (\<lambda>d. bindE (deltaBalances es) (\<lambda>ds. Inr (d + ds)))"

datatype ConservationReport =
    TotalCoinsMismatch int int int
  | BalancesMismatch int int
  | TotalCoinsChanged int int
  | FeePoolChanged int int
  | BalancesChanged int

text \<open>The payouts are those of the result of an \<^verbatim>\<open>INFLATION\<close> operation, none of any other.\<close>

definition checkOnOperationApply ::
    "(AccountID \<times> int) list option \<Rightarrow> LedgerTxnDelta \<Rightarrow> ConservationReport option tx" where
  "checkOnOperationApply pays delta =
     (let lhCurr = deltaHeaderCurrent delta; lhPrev = deltaHeaderPrevious delta;
          deltaTotalCoins = totalCoins lhCurr - totalCoins lhPrev;
          deltaFeePool = feePool lhCurr - feePool lhPrev
      in bindE (deltaBalances (deltaEntry delta)) (\<lambda>balances.
         Inr (case pays of
                Some ps \<Rightarrow>
                  let inflationPayouts = sum_list (map snd ps)
                  in if deltaTotalCoins \<noteq> inflationPayouts + deltaFeePool
                     then Some (TotalCoinsMismatch deltaTotalCoins deltaFeePool inflationPayouts)
                     else if balances \<noteq> inflationPayouts then Some (BalancesMismatch balances inflationPayouts)
                     else None
              | None \<Rightarrow>
                  if deltaTotalCoins \<noteq> 0 then Some (TotalCoinsChanged (totalCoins lhPrev) (totalCoins lhCurr))
                  else if deltaFeePool \<noteq> 0 then Some (FeePoolChanged (feePool lhPrev) (feePool lhCurr))
                  else if balances \<noteq> 0 then Some (BalancesChanged balances)
                  else None)))"

text \<open>\<^verbatim>\<open>LedgerTxn::getDelta\<close>: the entries under the keys that were touched, now and in the parent. The keys
  are an argument; the sequence number of the last change, which it sets first, is not followed.\<close>

definition getDelta :: "LedgerKey list \<Rightarrow> LedgerState \<Rightarrow> LedgerState \<Rightarrow> LedgerTxnDelta" where
  "getDelta keys parent ls = \<lparr>deltaEntry = map (\<lambda>k. (k, loadEntry ls k, loadEntry parent k)) keys,
     deltaHeaderCurrent = lsHeader ls, deltaHeaderPrevious = lsHeader parent\<rparr>"

definition operationPayouts :: "TxEnv \<Rightarrow> OperationBody \<Rightarrow> LedgerState \<Rightarrow> (AccountID \<times> int) list option" where
  "operationPayouts env body ls =
     (if body = INFLATION
      then (case inflationApply (envStrKey env) ls of Inr (Inr (ps, _)) \<Rightarrow> Some ps | _ \<Rightarrow> Some [])
      else None)"

section \<open>The sum of the differences\<close>

text \<open>
  The keys a delta lists: no key twice, every key with an entry before or after, every key whose entry
  changed; and a claimable balance that stays is of the same asset.
\<close>

definition claimableAsset :: "LedgerState \<Rightarrow> LedgerKey \<Rightarrow> Asset option" where
  "claimableAsset ls k =
     (case map_option ledgerData (loadEntry ls k) of Some (CLAIMABLE_BALANCE cb) \<Rightarrow> Some (cbAsset cb) | _ \<Rightarrow> None)"

definition deltaKeys :: "LedgerKey list \<Rightarrow> LedgerState \<Rightarrow> LedgerState \<Rightarrow> bool" where
  "deltaKeys keys ls ls' \<longleftrightarrow> distinct keys
     \<and> list_all (\<lambda>k. loadEntry ls k \<noteq> None \<or> loadEntry ls' k \<noteq> None) keys
     \<and> (\<forall>k. loadEntry ls' k \<noteq> loadEntry ls k \<longrightarrow> k \<in> set keys)
     \<and> (\<forall>k. claimableAsset ls k = None \<or> claimableAsset ls' k = None \<or> claimableAsset ls' k = claimableAsset ls k)"

lemma nativeTotal_sum:
  assumes "stateWf ls" "finite K" "fst ` set (lsEntries ls) \<subseteq> K"
  shows "nativeTotal ls = (\<Sum>k\<in>K. fst (coreIn ls k))"
proof -
  have d: "distinct (map fst (lsEntries ls))" using assms(1) by (simp add: stateWf_def)
  have "nativeTotal ls = (\<Sum>e\<in>set (lsEntries ls). nativeWeight (snd e))"
    using d by (simp add: nativeTotal_def totalOver_def sumAssoc_def sum_list_distinct_conv_sum_set distinct_map)
  also have "\<dots> = (\<Sum>e\<in>set (lsEntries ls). fst (coreIn ls (fst e)))"
    using coreIn_entry [OF _ assms(1)] by (intro sum.cong) (auto simp: entryCore_def)
  also have "\<dots> = (\<Sum>k\<in>fst ` set (lsEntries ls). fst (coreIn ls k))"
    using d by (simp add: sum.reindex distinct_map)
  also have "\<dots> = (\<Sum>k\<in>K. fst (coreIn ls k))"
  proof (intro sum.mono_neutral_left ballI)
    fix k assume "k \<in> K - fst ` set (lsEntries ls)"
    then have "loadEntry ls k = None" by (simp add: loadEntry_def map_of_eq_None_iff)
    then show "fst (coreIn ls k) = 0" by (simp add: coreIn_def)
  qed (use assms(2,3) in auto)
  finally show ?thesis .
qed

lemma calculateDelta_core:
  assumes "loadEntry ls k \<noteq> None \<or> loadEntry ls' k \<noteq> None" "stateWf ls" "stateWf ls'"
    and "claimableAsset ls k = None \<or> claimableAsset ls' k = None \<or> claimableAsset ls' k = claimableAsset ls k"
  shows "calculateDeltaBalance (loadEntry ls' k) (loadEntry ls k) = Inr (fst (coreIn ls' k) - fst (coreIn ls k))"
  using assms loadEntry_key [OF assms(2), of k] loadEntry_key [OF assms(3), of k]
  by (cases "loadEntry ls' k"; cases "loadEntry ls k")
    (auto simp: calculateDeltaBalance_def coreIn_def entryCore_def nativeWeight_def amountDelta_def optAmount_def
      claimableOf_def accountOf_def claimableAsset_def LedgerEntryKey_def split: LedgerEntryData.split LedgerEntryData.split_asm)

lemma deltaBalances_total:
  assumes "deltaKeys keys ls ls'" "stateWf ls" "stateWf ls'"
  shows "deltaBalances (deltaEntry (getDelta keys ls ls')) = Inr (nativeTotal ls' - nativeTotal ls)"
proof -
  have "deltaBalances (map (\<lambda>k. (k, loadEntry ls' k, loadEntry ls k)) ks)
      = Inr (\<Sum>k\<leftarrow>ks. fst (coreIn ls' k) - fst (coreIn ls k))" if "set ks \<subseteq> set keys" for ks
    using that
  proof (induction ks)
    case (Cons k ks)
    then have "calculateDeltaBalance (loadEntry ls' k) (loadEntry ls k) = Inr (fst (coreIn ls' k) - fst (coreIn ls k))"
      using assms by (intro calculateDelta_core) (auto simp: deltaKeys_def list_all_iff)
    then show ?case using Cons by simp
  qed simp
  from this [OF subset_refl]
  have "deltaBalances (deltaEntry (getDelta keys ls ls')) = Inr (\<Sum>k\<in>set keys. fst (coreIn ls' k) - fst (coreIn ls k))"
    using assms(1) by (simp add: getDelta_def deltaKeys_def sum_list_distinct_conv_sum_set)
  also have "(\<Sum>k\<in>set keys. fst (coreIn ls' k) - fst (coreIn ls k))
      = (\<Sum>k\<in>set keys \<union> fst ` set (lsEntries ls) \<union> fst ` set (lsEntries ls'). fst (coreIn ls' k) - fst (coreIn ls k))"
  proof (intro sum.mono_neutral_left ballI)
    fix k assume "k \<in> set keys \<union> fst ` set (lsEntries ls) \<union> fst ` set (lsEntries ls') - set keys"
    then have "loadEntry ls' k = loadEntry ls k" using assms(1) by (auto simp: deltaKeys_def)
    then show "fst (coreIn ls' k) - fst (coreIn ls k) = 0" by (simp add: coreIn_def)
  qed auto
  also have "\<dots> = nativeTotal ls' - nativeTotal ls"
    using nativeTotal_sum [OF assms(2), of "set keys \<union> fst ` set (lsEntries ls) \<union> fst ` set (lsEntries ls')"]
      nativeTotal_sum [OF assms(3), of "set keys \<union> fst ` set (lsEntries ls) \<union> fst ` set (lsEntries ls')"]
    by (simp add: sum_subtractf le_supI1)
  finally show ?thesis .
qed

section \<open>Inflation\<close>

lemma doleWinners_payouts:
  "doleWinners amount votes ws d = Inr d' \<Longrightarrow>
     sum_list (map snd (payouts d')) - sum_list (map snd (payouts d)) = leftAfterDole d - leftAfterDole d'"
proof (induction ws arbitrary: d)
  case (Cons w ws)
  then obtain d1 where *: "doleWinner amount votes w d = Inr d1" "doleWinners amount votes ws d1 = Inr d'"
    by (auto simp: bindE_Inr_iff)
  have "sum_list (map snd (payouts d1)) - sum_list (map snd (payouts d)) = leftAfterDole d - leftAfterDole d1"
    using *(1) by (auto simp: doleWinner_def bindE_Inr_iff Let_def split: if_splits option.splits)
  then show ?case using Cons.IH [OF *(2)] by simp
qed simp

lemma inflation_totals:
  assumes "inflationApply toStrKey ls = Inr (Inr (pays, ls'))" "7 < ledgerVersion (lsHeader ls)" "stateWf ls"
  shows "nativeTotal ls' = nativeTotal ls + sum_list (map snd pays) \<and> stateWf ls'
    \<and> totalCoins (lsHeader ls') - totalCoins (lsHeader ls)
      = sum_list (map snd pays) + (feePool (lsHeader ls') - feePool (lsHeader ls))"
proof -
  define lh where "lh = lsHeader ls"
  obtain amount ws d where d: "doleWinners (amount + feePool lh) (totalCoins lh) ws
      \<lparr>doleState = ls\<lparr>lsHeader := lh\<lparr>feePool := 0, inflationSeq := inflationSeq lh + 1\<rparr>\<rparr>,
       leftAfterDole = amount + feePool lh, payouts = []\<rparr> = Inr d"
    and ls': "pays = payouts d" "ls' = (doleState d)\<lparr>lsHeader := (if ledgerVersion (lsHeader (doleState d)) > 7
       then (lsHeader (doleState d))\<lparr>feePool := feePool (lsHeader (doleState d)) + leftAfterDole d,
              totalCoins := totalCoins (lsHeader (doleState d)) + amount\<rparr>
       else (lsHeader (doleState d))\<lparr>feePool := feePool (lsHeader (doleState d)) + leftAfterDole d\<rparr>)\<rparr>"
    using assms(1)
    by (auto simp: inflationApply_def bindO_ok Let_def lh_def split: if_splits)
  let ?lh1 = "lh\<lparr>feePool := 0, inflationSeq := inflationSeq lh + 1\<rparr>"
  have v: "7 < ledgerVersion ?lh1" using assms(2) by (simp add: lh_def)
  have h: "lsHeader (doleState d) = ?lh1" using doleWinners_header [OF d] v by simp
  have p: "sum_list (map snd pays) = amount + feePool lh - leftAfterDole d"
    using doleWinners_payouts [OF d] by (simp add: ls'(1))
  have "shift (amount + feePool lh - leftAfterDole d) (ls\<lparr>lsHeader := ?lh1\<rparr>) (doleState d)"
    using doleWinners_shift [OF d] v assms(3) by (simp add: stateWf_def)
  from shiftD [OF this] have "nativeTotal (doleState d) = nativeTotal ls + sum_list (map snd pays)" "stateWf (doleState d)"
    using assms(3) by (simp_all add: stateWf_def nativeTotal_header p)
  then show ?thesis using v p by (simp add: ls' h nativeTotal_header stateWf_def lh_def)
qed

lemma operation_conserves:
  assumes "doApply env newID source body ls = Inr (Inr ls')" "7 < ledgerVersion (lsHeader ls)" "stateWf ls"
    and "deltaKeys keys ls ls'"
  shows "checkOnOperationApply (operationPayouts env body ls) (getDelta keys ls ls') = Inr None"
proof (cases "body = INFLATION")
  case True
  then obtain pays where i: "inflationApply (envStrKey env) ls = Inr (Inr (pays, ls'))"
    using assms(1) by (auto simp: doApply_def mapOp_ok)
  note t = inflation_totals [OF this assms(2,3)]
  then show ?thesis using deltaBalances_total [OF assms(4,3)] True i
    by (simp add: checkOnOperationApply_def operationPayouts_def Let_def) (simp add: getDelta_def)
next
  case False
  note s = doApply_shift [OF assms(1) this]
  show ?thesis
    using deltaBalances_total [OF assms(4,3)] shiftD [OF s assms(3)] shift_header_fields [OF s assms(3)] False
    by (simp add: checkOnOperationApply_def operationPayouts_def Let_def) (simp add: getDelta_def)
qed

end
