(* ===== verification/SignatureRules.thy ===== *)
theory SignatureRules
  imports Signatures
begin

text \<open>
  What the signature checker decides: the weights of all signers that the transaction carries an
  authorisation of, against the weight that is needed. The loops stop as soon as they have enough, and use
  every signature for one signer at most.
\<close>

section \<open>Authorised signers and their weight\<close>

definition authorised :: "SigCrypto \<Rightarrow> SignatureChecker \<Rightarrow> Signer \<Rightarrow> bool" where
  "authorised cr ch s =
     (case signerKey s of
        SIGNER_KEY_TYPE_PRE_AUTH_TX h \<Rightarrow> h = mContentsHash ch
      | SIGNER_KEY_TYPE_HASH_X x \<Rightarrow> list_ex (\<lambda>sig. verifyHashX cr sig s) (mSignatures ch)
      | SIGNER_KEY_TYPE_ED25519 k \<Rightarrow> list_ex (\<lambda>sig. verifyEd25519 cr (mContentsHash ch) sig s) (mSignatures ch))"

definition weightOf :: "uint32 \<Rightarrow> Signer \<Rightarrow> int" where
  "weightOf version s = uint (cappedWeight version (signerWeight s))"

definition weightWhere :: "uint32 \<Rightarrow> (Signer \<Rightarrow> bool) \<Rightarrow> Signer list \<Rightarrow> int" where
  "weightWhere version P ss = (\<Sum>s\<leftarrow>ss. if P s then weightOf version s else 0)"

lemma weightWhere_simps [simp]:
  "weightWhere v P [] = 0"
  "weightWhere v P (s # ss) = (if P s then weightOf v s else 0) + weightWhere v P ss"
  "weightWhere v P (xs @ ys) = weightWhere v P xs + weightWhere v P ys"
  by (simp_all add: weightWhere_def)

lemma weightOf_range: "9 < v \<Longrightarrow> 0 \<le> weightOf v s \<and> weightOf v s \<le> 255"
  by (auto simp: weightOf_def cappedWeight_def word_less_def not_less)

lemma weightWhere_nonneg: "0 \<le> weightWhere v P ss"
  by (auto simp: weightWhere_def weightOf_def intro!: sum_list_nonneg)

lemma weightWhere_le: "9 < v \<Longrightarrow> weightWhere v P ss \<le> 255 * int (length ss)"
  using weightOf_range [of v] by (induction ss) (auto intro: add_mono order_trans)

lemma weightWhere_cong: "(\<And>s. s \<in> set ss \<Longrightarrow> P s = Q s) \<Longrightarrow> weightWhere v P ss = weightWhere v Q ss"
  by (induction ss) auto

lemma weightWhere_none: "(\<And>s. s \<in> set ss \<Longrightarrow> \<not> P s) \<Longrightarrow> weightWhere v P ss = 0"
  by (induction ss) auto

lemma weightWhere_filter: "weightWhere v P (filter Q ss) = weightWhere v (\<lambda>s. Q s \<and> P s) ss"
  by (induction ss) auto

text \<open>Adding a weight to a total that stays below the bound of an \<^verbatim>\<open>int\<close>.\<close>

lemma total_add:
  assumes "0 \<le> sint (tw :: uint32)" "9 < v" "sint tw + 255 < 2 ^ 31"
  shows "sint (tw + cappedWeight v (signerWeight s)) = sint tw + weightOf v s"
proof -
  let ?w = "cappedWeight v (signerWeight s)"
  have w: "0 \<le> weightOf v s \<and> weightOf v s \<le> 255" using assms(2) by (rule weightOf_range)
  then have "signed_take_bit 31 (weightOf v s) = weightOf v s"
    by (intro signed_take_bit_int_eq_self) simp_all
  then have "sint ?w = weightOf v s" by (simp add: weightOf_def sint_uint)
  moreover have "signed_take_bit 31 (sint tw + weightOf v s) = sint tw + weightOf v s"
    using assms w by (intro signed_take_bit_int_eq_self) simp_all
  ultimately show ?thesis by (simp add: sint_word_ariths)
qed

section \<open>The loops\<close>

lemma preAuthLoop_total:
  assumes "preAuthLoop v hash needed ss tw = (ok, tw')" "9 < v" "0 \<le> sint tw"
    and "sint tw + 255 * (int (length ss) + 1) < 2 ^ 31"
  defines "P \<equiv> (\<lambda>s. signerKey s = SIGNER_KEY_TYPE_PRE_AUTH_TX hash)"
  shows "(ok \<longleftrightarrow> list_ex P ss \<and> needed \<le> sint tw + weightWhere v P ss)
    \<and> (\<not> ok \<longrightarrow> sint tw' = sint tw + weightWhere v P ss)"
  using assms(1,3,4)
proof (induction ss arbitrary: tw)
  case (Cons s ss)
  show ?case
  proof (cases "P s")
    case True
    let ?tw = "tw + cappedWeight v (signerWeight s)"
    have add: "sint ?tw = sint tw + weightOf v s" using Cons.prems assms(2) by (intro total_add) simp_all
    note w = weightOf_range [OF assms(2), of s] weightWhere_nonneg [of v P ss]
    show ?thesis
    proof (cases "needed \<le> sint ?tw")
      case False
      then have r: "preAuthLoop v hash needed ss ?tw = (ok, tw')" using Cons.prems True by (simp add: P_def Let_def)
      have "\<not> list_ex P ss \<Longrightarrow> weightWhere v P ss = 0" by (intro weightWhere_none) (simp add: list_ex_iff)
      with Cons.IH [OF r] show ?thesis using True add w Cons.prems False by auto
    qed (use Cons.prems True add w in \<open>simp add: P_def Let_def\<close>)
  next
    case False
    then have "preAuthLoop v hash needed ss tw = (ok, tw')" using Cons.prems by (simp add: P_def)
    from Cons.IH [OF this] show ?thesis using False Cons.prems by simp
  qed
qed simp

lemma splitFirst_Some:
  "splitFirst p xs = Some (pre, y, post) \<Longrightarrow> xs = pre @ y # post \<and> p y"
  by (induction xs arbitrary: pre) (auto split: if_splits)

lemma splitFirst_None: "splitFirst p xs = None \<longleftrightarrow> \<not> list_ex p xs"
  by (induction xs) auto

lemma verifyAll_total:
  assumes "verifyAll v verify needed i sigs ss tw used = (ok, tw', used')" "9 < v" "0 \<le> sint tw"
    and "sint tw + 255 * (int (length ss) + 1) < 2 ^ 31" "distinct ss"
    and "\<And>sig s s'. sig \<in> set sigs \<Longrightarrow> s \<in> set ss \<Longrightarrow> s' \<in> set ss \<Longrightarrow> verify sig s \<Longrightarrow> verify sig s' \<Longrightarrow> s = s'"
  shows "(ok \<longleftrightarrow> list_ex (\<lambda>s. list_ex (\<lambda>sig. verify sig s) sigs) ss
        \<and> needed \<le> sint tw + weightWhere v (\<lambda>s. list_ex (\<lambda>sig. verify sig s) sigs) ss)
    \<and> (\<not> ok \<longrightarrow> sint tw' = sint tw + weightWhere v (\<lambda>s. list_ex (\<lambda>sig. verify sig s) sigs) ss)"
  using assms(1,3-)
proof (induction sigs arbitrary: i ss tw used)
  case (Cons sig sigs)
  let ?P = "\<lambda>s. list_ex (\<lambda>sig. verify sig s) sigs" and ?Q = "\<lambda>s. list_ex (\<lambda>sig. verify sig s) (sig # sigs)"
  show ?case
  proof (cases "splitFirst (verify sig) ss")
    case None
    then have no: "\<not> verify sig s" if "s \<in> set ss" for s using that by (auto simp: splitFirst_None list_ex_iff)
    then have eq: "weightWhere v ?Q ss = weightWhere v ?P ss" "list_ex ?Q ss = list_ex ?P ss"
      by (auto intro!: weightWhere_cong simp: list_ex_iff)
    have "verifyAll v verify needed (Suc i) sigs ss tw used = (ok, tw', used')" using Cons.prems(1) None by simp
    then show ?thesis unfolding eq
      by (rule Cons.IH [OF _ Cons.prems(2-4)]) (rule Cons.prems(5), simp_all)
  next
    case (Some r)
    obtain pre s post where r: "r = (pre, s, post)" by (cases r)
    have ss: "ss = pre @ s # post" "verify sig s" using splitFirst_Some [OF Some [unfolded r]] by simp_all
    have no: "\<not> verify sig x" if "x \<in> set (pre @ post)" for x
      using that Cons.prems(4) Cons.prems(5) [of sig s x] ss by auto
    have eq: "weightWhere v ?Q ss = weightOf v s + weightWhere v ?P (pre @ post)"
      using no ss weightWhere_cong [of pre ?Q ?P v] weightWhere_cong [of post ?Q ?P v] by auto
    let ?tw = "tw + cappedWeight v (signerWeight s)"
    have add: "sint ?tw = sint tw + weightOf v s" using Cons.prems assms(2) by (intro total_add) simp_all
    note w = weightOf_range [OF assms(2), of s] weightWhere_nonneg [of v ?P "pre @ post"]
    have ex: "list_ex ?Q ss" using ss by simp
    show ?thesis
    proof (cases "needed \<le> sint ?tw")
      case False
      then have rec: "verifyAll v verify needed (Suc i) sigs (pre @ post) ?tw (used[i := True]) = (ok, tw', used')"
        using Cons.prems(1) Some r by (simp add: Let_def)
      have "\<not> list_ex ?P (pre @ post) \<Longrightarrow> weightWhere v ?P (pre @ post) = 0"
        by (intro weightWhere_none) (simp add: list_ex_iff del: list_ex_append)
      moreover have "(ok \<longleftrightarrow> list_ex ?P (pre @ post) \<and> needed \<le> sint ?tw + weightWhere v ?P (pre @ post))
          \<and> (\<not> ok \<longrightarrow> sint tw' = sint ?tw + weightWhere v ?P (pre @ post))"
        using Cons.prems w add by (intro Cons.IH [OF rec]) (auto simp: ss)
      ultimately show ?thesis unfolding eq using ex add False w by auto
    next
      case True
      then have "ok" using Cons.prems(1) Some r by (simp add: Let_def)
      then show ?thesis unfolding eq using ex add True w by simp
    qed
  qed
qed (simp add: weightWhere_none list_ex_iff)

section \<open>The decision\<close>

lemma authorised_parts:
  "weightWhere v (authorised cr ch) ss =
     weightWhere v (\<lambda>s. signerKey s = SIGNER_KEY_TYPE_PRE_AUTH_TX (mContentsHash ch)) (filter isPreAuthTx ss)
     + weightWhere v (\<lambda>s. list_ex (\<lambda>sig. verifyHashX cr sig s) (mSignatures ch)) (filter isHashX ss)
     + weightWhere v (\<lambda>s. list_ex (\<lambda>sig. verifyEd25519 cr (mContentsHash ch) sig s) (mSignatures ch)) (filter isEd25519 ss)"
  "list_ex (authorised cr ch) ss \<longleftrightarrow>
     list_ex (\<lambda>s. signerKey s = SIGNER_KEY_TYPE_PRE_AUTH_TX (mContentsHash ch)) (filter isPreAuthTx ss)
     \<or> list_ex (\<lambda>s. list_ex (\<lambda>sig. verifyHashX cr sig s) (mSignatures ch)) (filter isHashX ss)
     \<or> list_ex (\<lambda>s. list_ex (\<lambda>sig. verifyEd25519 cr (mContentsHash ch) sig s) (mSignatures ch)) (filter isEd25519 ss)"
  by (induction ss)
    (auto simp: authorised_def isPreAuthTx_def isHashX_def isEd25519_def split: SignerKey.splits)

lemma key_unique:
  assumes "distinct (map signerKey ss)" "s \<in> set ss" "s' \<in> set ss" "signerKey s = signerKey s'"
  shows "s = s'"
  using assms by (auto simp: distinct_map dest: inj_onD)

lemma checkSignature_weights:
  assumes v: "10 \<le> mProtocolVersion ch" and len: "length ss \<le> 1000" and keys: "distinct (map signerKey ss)"
    and ed: "\<And>sig k k'. sig \<in> set (mSignatures ch) \<Longrightarrow> verifySig cr k (sigBytes sig) (mContentsHash ch)
        \<Longrightarrow> verifySig cr k' (sigBytes sig) (mContentsHash ch) \<Longrightarrow> k = k'"
  shows "fst (checkSignature cr ch ss needed) \<longleftrightarrow>
    list_ex (authorised cr ch) ss \<and> needed \<le> weightWhere (mProtocolVersion ch) (authorised cr ch) ss"
proof -
  let ?v = "mProtocolVersion ch" and ?h = "mContentsHash ch" and ?sigs = "mSignatures ch"
  let ?P = "\<lambda>s. signerKey s = SIGNER_KEY_TYPE_PRE_AUTH_TX ?h" and ?A = "filter isPreAuthTx ss"
  let ?X = "\<lambda>s. list_ex (\<lambda>sig. verifyHashX cr sig s) ?sigs" and ?B = "filter isHashX ss"
  let ?E = "\<lambda>s. list_ex (\<lambda>sig. verifyEd25519 cr ?h sig s) ?sigs" and ?C = "filter isEd25519 ss"
  have v9: "9 < ?v" using v less_le_trans [of "9 :: uint32" 10] by simp
  have v7: "?v \<noteq> 7" using v9 by auto
  have d: "distinct ss" using keys by (simp add: distinct_map)
  have small: "int (length (filter P ss)) \<le> 1000" for P using len order_trans [OF length_filter_le] by fastforce
  have wsmall: "weightWhere ?v Q (filter P ss) \<le> 255000" for P Q
    using weightWhere_le [OF v9, of Q "filter P ss"] small [of P] by linarith
  note nn = weightWhere_nonneg [of ?v]
  have zero: "\<not> list_ex Q xs \<Longrightarrow> weightWhere ?v Q xs = 0" for Q xs by (intro weightWhere_none) (simp add: list_ex_iff)
  obtain ok1 tw1 where r1: "preAuthLoop ?v ?h needed ?A 0 = (ok1, tw1)" by fastforce
  have t1: "(ok1 \<longleftrightarrow> list_ex ?P ?A \<and> needed \<le> weightWhere ?v ?P ?A) \<and> (\<not> ok1 \<longrightarrow> sint tw1 = weightWhere ?v ?P ?A)"
    using preAuthLoop_total [OF r1 v9] small [of isPreAuthTx] by simp
  note parts = authorised_parts(1) [of ?v cr ch ss] authorised_parts(2) [of cr ch ss]
  show ?thesis
  proof (cases ok1)
    case True
    then show ?thesis using t1 r1 v7 nn [of ?X ?B] nn [of ?E ?C] unfolding parts by (auto simp: checkSignature_def)
  next
    case False
    obtain ok2 tw2 used2 where r2: "verifyAll ?v (verifyHashX cr) needed 0 ?sigs ?B tw1 (mUsedSignatures ch) = (ok2, tw2, used2)"
      by (metis prod_cases3)
    have t2: "(ok2 \<longleftrightarrow> list_ex ?X ?B \<and> needed \<le> sint tw1 + weightWhere ?v ?X ?B)
        \<and> (\<not> ok2 \<longrightarrow> sint tw2 = sint tw1 + weightWhere ?v ?X ?B)"
      using t1 False nn [of ?P ?A] wsmall [of ?P isPreAuthTx] small [of isHashX] d key_unique [OF keys]
      by (intro verifyAll_total [OF r2 v9]) (auto simp: verifyHashX_def split: SignerKey.splits)
    show ?thesis
    proof (cases ok2)
      case True
      then show ?thesis
        using False t1 t2 r1 r2 v7 nn [of ?E ?C] unfolding parts by (auto simp: checkSignature_def)
    next
      case f2: False
      obtain ok3 tw3 used3 where r3: "verifyAll ?v (verifyEd25519 cr ?h) needed 0 ?sigs ?C tw2 used2 = (ok3, tw3, used3)"
        by (metis prod_cases3)
      have "ok3 \<longleftrightarrow> list_ex ?E ?C \<and> needed \<le> sint tw2 + weightWhere ?v ?E ?C"
        using t1 t2 False f2 nn [of ?P ?A] nn [of ?X ?B] wsmall [of ?P isPreAuthTx] wsmall [of ?X isHashX]
          small [of isEd25519] d key_unique [OF keys] ed
        by (intro conjunct1 [OF verifyAll_total [OF r3 v9]]) (auto simp: verifyEd25519_def split: SignerKey.splits)
      moreover have "fst (checkSignature cr ch ss needed) = ok3"
        using False f2 r1 r2 r3 v7 by (simp add: checkSignature_def)
      ultimately show ?thesis
        unfolding parts using False f2 t1 t2 zero [of ?P ?A] zero [of ?X ?B] zero [of ?E ?C] by auto
    qed
  qed
qed

end
