(* ===== verification/TransactionExamples.thy ===== *)
theory TransactionExamples
  imports Atomicity ConservationInvariant SignatureRules
begin

text \<open>
  A small ledger with three accounts, the third of which collects the fees, and transactions on it.
\<close>

section \<open>Accounts and transactions\<close>

definition payEnv :: TxEnv where
  "payEnv = \<lparr>envCrypto = \<lparr>verifySig = (\<lambda>k sig hash. sig = [word_of_nat k, word_of_nat hash] \<and> k < 256), sha256 = length\<rparr>,
     envStrKey = (\<lambda>_. ''''), envOperationHash = (\<lambda>a s i. a), envPublicKey = (\<lambda>seed. seed)\<rparr>"

definition payAccount :: "AccountID \<Rightarrow> int \<Rightarrow> LedgerEntry" where
  "payAccount A balance = \<lparr>lastModifiedLedgerSeq = 1,
     ledgerData = ACCOUNT \<lparr>accountID = A, accBalance = balance, seqNum = 40, numSubEntries = 0,
       inflationDest = None, accFlags = 0, homeDomain = '''', thresholds = [1, 0, 0, 0], signers = [], accExt = None\<rparr>,
     ledgerExt = None\<rparr>"

definition payHeader :: LedgerHeader where
  "payHeader = \<lparr>ledgerVersion = 14, previousLedgerHash = 0, closeTime = 0, ledgerSeq = 100, totalCoins = 20500,
     feePool = 0, inflationSeq = 0, idPool = 10, baseFee = 100, baseReserve = 10, maxTxSetSize = 100\<rparr>"

definition payLedger :: LedgerState where
  "payLedger = \<lparr>lsHeader = payHeader,
     lsEntries = [(AccountKey 1, payAccount 1 10000), (AccountKey 2, payAccount 2 10000), (AccountKey 9, payAccount 9 500)],
     lsSponsorships = [], lsCounters = []\<rparr>"

definition payOp :: "int \<Rightarrow> Operation" where
  "payOp amount = \<lparr>opSourceAccount = None, opBody = PAYMENT 2 ASSET_TYPE_NATIVE amount\<rparr>"

definition payTx :: "int list \<Rightarrow> TransactionFrame" where
  "payTx amounts = \<lparr>txEnvelopeType = ENVELOPE_TYPE_TX, txHasMuxedAccount = False, txSourceID = 1, txFee = 1000,
     txSeqNum = 41, txTimeBounds = None, txOperations = map payOp amounts,
     txSignatures = [\<lparr>sigHint = 1, sigBytes = [1, 77]\<rparr>], txContentsHash = 77\<rparr>"

lemma payLedger_wf: "stateWf payLedger"
  by (simp add: stateWf_def payLedger_def payAccount_def LedgerEntryKey_def)

lemma payLedger_version: "ledgerVersion (lsHeader payLedger) = 14" "ledgerSeq (lsHeader payLedger) = 100"
  by (simp_all add: payLedger_def payHeader_def)

lemma payLedger_amounts: "amountsOk payLedger"
proof -
  have "0 \<le> fst (coreIn payLedger k)" for k
    by (simp add: coreIn_def loadEntry_def payLedger_def payAccount_def entryCore_def nativeWeight_def)
  moreover have "nativeTotal payLedger = 20500"
    by (simp add: nativeTotal_def totalOver_def sumAssoc_def payLedger_def payAccount_def nativeWeight_def)
  ultimately show ?thesis by (simp add: amountsOk_def INT64_MAX_def)
qed

section \<open>Results\<close>

definition resultOf :: "TxResult tx \<Rightarrow> TxResult" where
  "resultOf r = (case r of Inr x \<Rightarrow> x | Inl _ \<Rightarrow> \<lparr>txrOk = False, txrCode = txINTERNAL_ERROR, txrResults = [], txrState = payLedger\<rparr>)"

abbreviation paid :: TxResult where
  "paid \<equiv> resultOf (txApply payEnv (payTx [50]) True payLedger)"

abbreviation unpaid :: TxResult where
  "unpaid \<equiv> resultOf (txApply payEnv (payTx [50, 100000]) True payLedger)"

lemma pay_one:
  "txApply payEnv (payTx [50]) True payLedger = Inr paid" "txrOk paid" "txrCode paid = txSUCCESS"
proof -
  have "\<not> isl (txApply payEnv (payTx [50]) True payLedger)" by code_simp
  then show "txApply payEnv (payTx [50]) True payLedger = Inr paid"
    by (cases "txApply payEnv (payTx [50]) True payLedger") (simp_all add: resultOf_def)
qed code_simp+

lemma pay_two:
  "txApply payEnv (payTx [50, 100000]) True payLedger = Inr unpaid" "\<not> txrOk unpaid" "txrCode unpaid = txFAILED"
proof -
  have "\<not> isl (txApply payEnv (payTx [50, 100000]) True payLedger)" by code_simp
  then show "txApply payEnv (payTx [50, 100000]) True payLedger = Inr unpaid"
    by (cases "txApply payEnv (payTx [50, 100000]) True payLedger") (simp_all add: resultOf_def)
qed code_simp+

end
