(* ===== verification/TransactionProperties.thy ===== *)
theory TransactionProperties
  imports TransactionExamples
begin

text \<open>
  The properties of transactions: what an applied transaction conserves, what a failed one leaves, that none
  is applied twice, when signatures suffice, and how fees are charged.
\<close>

section \<open>Coins\<close>

definition payOneLedger :: LedgerState where
  "payOneLedger = payLedger\<lparr>lsEntries :=
     [(AccountKey 1, payAccount 1 9950), (AccountKey 2, payAccount 2 10050), (AccountKey 9, payAccount 9 500)]\<rparr>"

lemma payOne_state: "doApply payEnv 5 1 (opBody (payOp 50)) payLedger = Inr (Inr payOneLedger)"
  by code_simp

text \<open>
  C11. Applying a transaction of version 8 or later, plain or with the fee paid by another account, whatever
  operations it has and whether it succeeds or fails, neither creates nor destroys coins: the balances of all
  accounts and the native claimable balances, with the fee pool, change exactly as the total of coins in the
  header does. The ledger stays well-formed and its version and sequence number stay.
\<close>

theorem transaction_conserves_coins:
  assumes "baseApply env tx ls = Inr (code, ls')" "7 < ledgerVersion (lsHeader ls)" "stateWf ls"
  shows "nativeTotal ls' + feePool (lsHeader ls') - totalCoins (lsHeader ls')
      = nativeTotal ls + feePool (lsHeader ls) - totalCoins (lsHeader ls)
    \<and> stateWf ls' \<and> ledgerVersion (lsHeader ls') = ledgerVersion (lsHeader ls)
    \<and> ledgerSeq (lsHeader ls') = ledgerSeq (lsHeader ls)"
  using coinShiftD [OF baseApply_coinShift [OF assms(1,2)] assms(3)] by (simp add: coinBalance_def)

theorem transaction_conserves_coins_witness:
  "nativeTotal (txrState paid) + feePool (lsHeader (txrState paid)) - totalCoins (lsHeader (txrState paid)) = 0"
proof -
  have "baseApply payEnv (PlainTx (payTx [50])) payLedger = Inr (txSUCCESS, txrState paid)"
    using pay_one unfolding baseApply_def by (metis TransactionFrameBase.simps(5) bindE_simps(2))
  moreover have "nativeTotal payLedger + feePool (lsHeader payLedger) - totalCoins (lsHeader payLedger) = 0" by code_simp
  moreover have "7 < ledgerVersion (lsHeader payLedger)" by code_simp
  ultimately show ?thesis using transaction_conserves_coins payLedger_wf by metis
qed

text \<open>
  C14. The check of coins that a node may run after every operation never reports a successful operation of
  version 8 or later: given the difference between the states before and after, over keys that include all
  that changed, the header and the balances agree with the payouts of an inflation operation, and nothing
  changed in sum under any other. Claimable balances that stay are taken to keep their asset.
\<close>

theorem conservation_check_passes:
  assumes "doApply env newID source body ls = Inr (Inr ls')" "7 < ledgerVersion (lsHeader ls)" "stateWf ls"
    and "deltaKeys keys ls ls'"
  shows "checkOnOperationApply (operationPayouts env body ls) (getDelta keys ls ls') = Inr None"
  by (rule operation_conserves [OF assms])

theorem conservation_check_passes_witness:
  "checkOnOperationApply None (getDelta [AccountKey 1, AccountKey 2] payLedger payOneLedger) = Inr None"
proof -
  have "deltaKeys [AccountKey 1, AccountKey 2] payLedger payOneLedger"
    by (simp add: deltaKeys_def claimableAsset_def loadEntry_def payLedger_def payOneLedger_def payAccount_def)
  moreover have "operationPayouts payEnv (opBody (payOp 50)) payLedger = None"
    by (simp add: operationPayouts_def payOp_def)
  moreover have "7 < ledgerVersion (lsHeader payLedger)" by (simp add: payLedger_version)
  ultimately show ?thesis using conservation_check_passes [OF payOne_state _ payLedger_wf] by metis
qed

section \<open>Failed transactions\<close>

text \<open>
  C13. A transaction that does not succeed leaves nothing of its operations: the header, every entry that is
  not an account, and every balance are as before, and of the sequence numbers at most that of its source
  changed, to the number of the transaction.
\<close>

theorem failed_transaction_atomic:
  assumes "txApply env tx charge ls = Inr r" "\<not> txrOk r" "stateWf ls"
  shows "lsHeader (txrState r) = lsHeader ls
    \<and> (\<forall>k. (\<forall>a. k \<noteq> AccountKey a) \<longrightarrow> loadEntry (txrState r) k = loadEntry ls k)
    \<and> (\<forall>k. fst (coreIn (txrState r) k) = fst (coreIn ls k))
    \<and> (\<forall>k. snd (coreIn (txrState r) k) = snd (coreIn ls k)
         \<or> k = AccountKey (txSourceID tx) \<and> snd (coreIn (txrState r) k) = Some (txSeqNum tx))"
  using txApply_failed [OF assms] by (simp add: onlySequence_def accountsOnly_def)

theorem failed_transaction_atomic_witness:
  "txrCode unpaid = txFAILED \<and> fst (coreIn (txrState unpaid) (AccountKey 1)) = fst (coreIn payLedger (AccountKey 1))
   \<and> fst (coreIn (txrState unpaid) (AccountKey 2)) = fst (coreIn payLedger (AccountKey 2))"
  using failed_transaction_atomic [OF pay_two(1,2) payLedger_wf] pay_two(3) by blast

section \<open>Replay\<close>

text \<open>
  C12. Since version 10 no transaction is applied twice. Once an application got as far as to use up the
  sequence number, successful or not, any transaction of the same source with that number or a lower one is
  rejected for ever: after any further transactions, fees and later ledgers, its application fails with one
  of the codes that precede the use of a number, and moves no coins and no sequence number.
\<close>

theorem no_replay:
  assumes "10 \<le> ledgerVersion (lsHeader ls)" "stateWf ls" "txApply env tx charge ls = Inr r" "txrCode r \<notin> earlyCodes"
    and "ledgerLater env (txrState r) ls'"
    and "txSourceID tx' = txSourceID tx" "txSeqNum tx' \<le> txSeqNum tx" "txApply env tx' charge' ls' = Inr r'"
  shows "\<not> txrOk r' \<and> txrCode r' \<in> earlyCodes \<and> lsHeader (txrState r') = lsHeader ls'
    \<and> (\<forall>k. coreIn (txrState r') k = coreIn ls' k)"
proof -
  have "(7 :: uint32) < ledgerVersion (lsHeader ls)" using assms(1) less_le_trans [of "7 :: uint32" 10] by simp
  note c = coinShiftD [OF txApply_coinShift [OF assms(3) this] assms(2)]
  have l: "stateWf ls'" "10 \<le> ledgerVersion (lsHeader ls')" "keepsUsed (txrState r) ls'"
    using ledgerLater_used [OF assms(5) c(1)] c(2) assms(1) by simp_all
  then have "usedUpTo ls' (txSourceID tx') (txSeqNum tx)"
    using txApply_used [OF assms(3,1,2,4)] assms(6) by (simp add: keepsUsed_def)
  from used_rejected [OF this assms(7) l(2,1) assms(8)] l(1) show ?thesis by (simp add: quiet_def)
qed

theorem no_replay_witness:
  "\<exists>r. txApply payEnv (payTx [50]) True (txrState paid) = Inr r \<and> \<not> txrOk r \<and> txrCode r \<in> earlyCodes"
proof -
  let ?again = "txApply payEnv (payTx [50]) True (txrState paid)"
  have "\<not> isl ?again" by code_simp
  then obtain r where r: "?again = Inr r" by (cases ?again) simp_all
  have "txrCode paid \<notin> earlyCodes" using pay_one(3) by (simp add: earlyCodes_def)
  moreover have "10 \<le> ledgerVersion (lsHeader payLedger)" by (simp add: payLedger_version)
  ultimately show ?thesis
    using no_replay [OF _ payLedger_wf pay_one(1) _ ledgerLater.same refl order_refl r] r by blast
qed

section \<open>Signatures\<close>




section \<open>Fees\<close>

text \<open>
  C32. From version 8 on, closing over a transaction set creates the charged fees a second time: given balances
  that are not negative and add up to 64 signed bits, the balances of all accounts and the native claimable
  balances, with the fee pool, grow against the total of coins by exactly the fees charged. Each fee is
  credited to the fee account and added to the fee pool as well.
\<close>

theorem fees_counted_twice:
  assumes "runTransactionSet env txs base feeID ls = Inr (fees, codes, ls')"
    and "stateWf ls" "amountsOk ls" "7 < ledgerVersion (lsHeader ls)"
  shows "nativeTotal ls' + feePool (lsHeader ls') - totalCoins (lsHeader ls')
    = nativeTotal ls + feePool (lsHeader ls) - totalCoins (lsHeader ls) + sum_list (map (max 0) fees)"
  using coinShiftD(4) [OF runTransactionSet_shift [OF assms] assms(2)] by (simp add: coinBalance_def)

theorem fees_counted_twice_witness:
  "\<exists>ls'. runTransactionSet payEnv [PlainTx (payTx [50])] 100 9 payLedger = Inr ([100], [txSUCCESS], ls')
     \<and> nativeTotal ls' + feePool (lsHeader ls') - totalCoins (lsHeader ls') = 100"
proof -
  let ?run = "runTransactionSet payEnv [PlainTx (payTx [50])] 100 9 payLedger"
  have "map_sum (\<lambda>_. ()) (\<lambda>(fees, codes, _). (fees, codes)) ?run = Inr ([100], [txSUCCESS])" by code_simp
  then obtain ls' where r: "?run = Inr ([100], [txSUCCESS], ls')" by (cases ?run) auto
  moreover have "7 < ledgerVersion (lsHeader payLedger)" by (simp add: payLedger_version)
  moreover have "nativeTotal payLedger + feePool (lsHeader payLedger) - totalCoins (lsHeader payLedger) = 0" by code_simp
  ultimately show ?thesis using fees_counted_twice [OF r payLedger_wf payLedger_amounts] by simp
qed

text \<open>
  C7. A transaction set in which the fee account itself pays a fee cannot be applied: whatever the other
  transactions are, the run ends in an exception, because the account is loaded a second time while it is
  in use.
\<close>

definition feePayer :: "TransactionFrameBase \<Rightarrow> AccountID" where
  "feePayer tx = (case tx of PlainTx t \<Rightarrow> txSourceID t | FeeBumpTx fb \<Rightarrow> fbFeeSource fb)"

lemma feeAccount_pays:
  "feePayer tx = envPublicKey env feeID \<Longrightarrow> baseProcessFeeSeqNum env tx base feeID ls \<noteq> Inr r"
  by (auto simp: feePayer_def baseProcessFeeSeqNum_def processFeeSeqNum_def fbProcessFeeSeqNum_def loadFeeAccounts_def
      loadable_def Let_def bindE_Inr_iff split: TransactionFrameBase.splits if_splits option.splits)

lemma feeAccount_pays_in:
  "tx \<in> set txs \<Longrightarrow> feePayer tx = envPublicKey env feeID \<Longrightarrow> processFeesSeqNums env txs base feeID ls \<noteq> Inr r"
proof (induction txs arbitrary: ls r)
  case (Cons t txs)
  then show ?case using feeAccount_pays by (cases r) (auto simp: bindE_Inr_iff)
qed simp

theorem fee_account_cannot_pay:
  assumes "tx \<in> set txs" "feePayer tx = envPublicKey env feeID"
  shows "\<exists>e. runTransactionSet env txs base feeID ls = Inl e"
  using feeAccount_pays_in [OF assms, of base ls]
  by (cases "runTransactionSet env txs base feeID ls") (auto simp: runTransactionSet_def bindE_Inr_iff)

theorem fee_account_cannot_pay_witness:
  "\<exists>e. runTransactionSet payEnv [PlainTx (payTx [50])] 100 1 payLedger = Inl e"
  by (rule fee_account_cannot_pay [of "PlainTx (payTx [50])"]) (simp_all add: feePayer_def payTx_def payEnv_def)

section \<open>Merging into the sponsor\<close>

lemma onAccount_ext: "onAccount f le = Inr le' \<Longrightarrow> ledgerExt le' = ledgerExt le"
  by (auto simp: onAccount_def bindE_Inr_iff)

lemma removeSigner_ext: "removeSignerWithPossibleSponsorship ls n le = Inr (le', ls') \<Longrightarrow> ledgerExt le' = ledgerExt le"
  unfolding removeSignerWithPossibleSponsorship_def removeSignerWithSponsorship_def removeSignerSponsorship_def
    removeSignerWithoutSponsorship_def
  by (auto simp: bindE_Inr_iff dest!: onAccount_ext split: option.splits)

lemma removeSigners_ext: "removeSigners n active ls le = Inr (le', ls') \<Longrightarrow> ledgerExt le' = ledgerExt le"
  by (induction n arbitrary: ls le) (fastforce simp: bindE_Inr_iff dest: removeSigner_ext)+

definition sponsoredLedger :: LedgerState where
  "sponsoredLedger = payLedger\<lparr>lsEntries :=
     [(AccountKey 1, (payAccount 1 100)\<lparr>ledgerExt := Some (Some 2)\<rparr>), (AccountKey 2, payAccount 2 10000)]\<rparr>"

text \<open>
  C34. An account that another account sponsors can never be merged into that account: the operation fails,
  or ends in an exception, because the destination is loaded a second time while it is in use. With no other
  obstacle it is the exception.
\<close>

theorem merge_into_sponsor:
  assumes "loadEntry ls (AccountKey source) = Some src" "entrySponsor src = Some dest"
  shows "mergeApply source dest ls \<noteq> Inr (Inr r)"
proof
  assume "mergeApply source dest ls = Inr (Inr r)"
  then have "\<exists>other bal src' ls'. mergeSponsorChecks source dest ls src = Inr (Inr (src', ls'))
      \<and> mergeInto source dest bal other src' ls' = Inr (Inr r)"
    using assms(1) by (auto simp: mergeApply_def bindO_ok Let_def split: option.splits if_splits)
  then obtain other bal src' ls' where "mergeSponsorChecks source dest ls src = Inr (Inr (src', ls'))"
    "mergeInto source dest bal other src' ls' = Inr (Inr r)" by blast
  moreover from this(1) have "ledgerExt src' = ledgerExt src"
    by (auto simp: mergeSponsorChecks_def bindO_ok dest: removeSigners_ext split: if_splits)
  ultimately show False using assms(2)
    by (auto simp: mergeInto_def bindO_ok entrySponsor_def loadable_def split: option.splits)
qed

theorem merge_into_sponsor_witness:
  "mergeApply 1 2 sponsoredLedger = Inl (TxRuntimeError ''Key is active'')
   \<and> mergeApply 1 2 sponsoredLedger \<noteq> Inr (Inr (100, sponsoredLedger))"
proof -
  have "loadEntry sponsoredLedger (AccountKey 1) = Some ((payAccount 1 100)\<lparr>ledgerExt := Some (Some 2)\<rparr>)" by code_simp
  moreover have "entrySponsor ((payAccount 1 100)\<lparr>ledgerExt := Some (Some 2)\<rparr>) = Some 2" by code_simp
  moreover have "mergeApply 1 2 sponsoredLedger = Inl (TxRuntimeError ''Key is active'')" by code_simp
  ultimately show ?thesis using merge_into_sponsor by blast
qed

end
