(* ===== verification/Spec2Isabelle.thy ===== *)
theory Spec2Isabelle
  imports SCPNode StaleOffers TransactionProperties
begin

text \<open>
  A verification of the core of DigitalBits-core: the consensus protocol of a node and the rules by which
  transactions change the ledger. File names are relative to \<^verbatim>\<open>src/src\<close>.

  \<^bold>\<open>The program.\<close> A node hands the envelopes it receives to \<^verbatim>\<open>SCP\<close>, which keeps a \<^verbatim>\<open>Slot\<close> per ledger; a
  slot nominates a value (\<^verbatim>\<open>NominationProtocol\<close>) and then ballots on it (\<^verbatim>\<open>BallotProtocol\<close>), both by federated
  voting over quorum sets (\<^verbatim>\<open>LocalNode\<close>, \<^verbatim>\<open>QuorumSetUtils\<close>). A value that is externalized is a set of
  transactions, whose operations change accounts, trust lines and offers; the operations that trade cross
  the offers of the order book (\<^verbatim>\<open>OfferExchange\<close>), keep track of liabilities (\<^verbatim>\<open>TransactionUtils\<close>) and of
  who pays the reserve of an entry (\<^verbatim>\<open>SponsorshipUtils\<close>).

  \<^bold>\<open>Consensus.\<close> \<open>Prelude\<close> has the generic lemmas and the error monad \<open>bindE\<close>, \<open>Numeric\<close> the 64- and 128-bit
  divisions of \<^verbatim>\<open>util/numeric.cpp\<close>. \<open>QuorumSets\<close>, \<open>LocalNode\<close> and \<open>QuorumSanity\<close> model quorum sets, slices,
  blocking sets, quorums and node weights. \<open>SCPTypes\<close> has the messages, \<open>SlotState\<close> the state of a slot as
  one record with federated voting, \<open>BallotProtocol\<close> and \<open>NominationProtocol\<close> the two protocols, one
  definition per method. A call of the driver is an entry of a trace in the state; validation, hashing and
  combination of values are parameters. Failed assertions and exceptions are values of \<open>scp_error\<close>.
  \<open>BallotOrder\<close>, \<open>BallotSteps\<close>, \<open>NominationSteps\<close>, \<open>BallotMoves\<close>, \<open>BallotValues\<close> and \<open>BallotSync\<close> hold the
  rules of the steps. \<open>BallotSpec\<close> specifies the protocol apart from the code, by rules on the phase and the
  five ballots with the federated vote each needs, and relates the code to it. \<open>BallotFuel\<close> shows that the recursion between \<^verbatim>\<open>advanceSlot\<close> and its callees ends:
  its fuel is bounded because the source stops the recursion at depth 50 and every bump raises the counter
  to one of finitely many values. \<open>SlotRuns\<close> and \<open>SlotSafety\<close> follow a slot through all sequences of its
  calls except \<^verbatim>\<open>setStateFromEnvelope\<close>, by which a node restores a slot when it starts; a slot is run from its
  empty state. \<open>SlotExamples\<close> has concrete runs, \<open>SCPProperties\<close> the properties of a slot and \<open>SCPNode\<close> the
  node with all its slots, whose calls do include restoring and the change of the quorum set.
  Shown: agreement, finality and quorum support of externalized values, invariants, progress, refinement of
  the specified protocol, finality over the calls of a node, round trip of restoring, correctness of the interval search and of quorum search.

  \<^bold>\<open>Offers and the ledger.\<close> \<open>Exchange\<close> models the arithmetic of crossing two offers; \<open>exchangeExact\<close> is its
  meaning over unbounded integers. \<open>LedgerEntries\<close> has the XDR entries, the header and a ledger state: a
  finite map that the locale \<open>entry_store\<close> describes. \<open>TransactionUtils\<close>, \<open>OfferLiabilities\<close> and \<open>Sponsorship\<close>
  model the functions on balances, liabilities, trust lines and reserves, \<open>OrderBook\<close> the order of offers
  with prices as IEEE doubles, \<open>OfferCrossing\<close> crossing one offer before and since version 10 and the
  conversion loop. \<open>int64_t\<close> amounts are integers, with the range checks of the code; counters are 32-bit
  words. Functions that return \<^verbatim>\<open>bool\<close> and change an entry return an option; exceptions and failed assertions
  are values of \<open>tx_error\<close>. \<open>BalanceRules\<close>, \<open>CrossingRules\<close> and \<open>CrossingSteps\<close> give what these functions do on
  a holding (an account's native balance or a trust line), \<open>LedgerInvariant\<close> the invariant of a ledger:
  bounds of balances, reserves covered, recorded liabilities equal to the sums over the offers, counts that
  cover the offers. \<open>CrossingInvariant\<close> and \<open>ConversionRules\<close> show that crossing and converting keep it,
  \<open>CrossingProperties\<close> and \<open>StaleOffers\<close> have the properties. The loop's fuel is one more than the number of
  offers, which is enough because every round but the last removes an offer.

  \<^bold>\<open>Operations and transactions.\<close> \<open>Operations\<close>, \<open>TrustOperations\<close>, \<open>AccountOperations\<close>, \<open>ClaimableBalances\<close>,
  \<open>SponsorshipOperations\<close>, \<open>Inflation\<close>, \<open>PathPayments\<close> and \<open>ManageOffers\<close> model the nineteen operations, \<open>doApply\<close>
  and \<open>doCheckValid\<close> of each frame under \<^verbatim>\<open>transactions\<close>; an operation returns a new state, a result code or
  an exception. \<open>Signatures\<close> models the checker of signatures, with the curve and the hash as arguments,
  \<open>OperationFrames\<close> the dispatch, thresholds and checks, \<open>Transactions\<close> \<^verbatim>\<open>TransactionFrame.cpp\<close> and \<open>FeeBumps\<close>
  the fee-bump transactions and the two passes over a transaction set. A nested ledger transaction is a state
  that is kept or dropped; where a live handle on an account makes a second load of it throw, the model
  throws.
  \<open>CoinRules\<close>, \<open>CoinShifts\<close>, \<open>CoinOperations\<close>, \<open>CoinClaims\<close>, \<open>CoinCrossings\<close>, \<open>CoinPayments\<close> and
  \<open>CoinTransactions\<close> show what each operation, a transaction and a set do to the sum of the native balances,
  the header and the sequence numbers; \<open>Replay\<close> that a used sequence number stays used, also over the merging
  and the new creation of an account; \<open>Atomicity\<close> what a failed transaction leaves; \<open>SignatureRules\<close> what the
  loops over signatures decide; \<open>ConservationInvariant\<close> the check of \<^verbatim>\<open>invariant/ConservationOfDigitalBits.cpp\<close>
  and that it passes. \<open>TransactionExamples\<close> has a small ledger, \<open>TransactionProperties\<close> the properties: coins are
  conserved by every transaction, failure is atomic, nothing is replayed, signatures are weighed correctly;
  the charging of fees counts each fee twice and throws if the fee account pays, and an account cannot be
  merged into its sponsor.

  \<^bold>\<open>Not modelled.\<close> Peer connections, SQL, processes, cryptography, configuration, the command line and the HTTP
  interface are input and output; buckets, history, catchup and their scheduling work on files and threads.
  The herder drives the consensus from the network and timers; what it answers is a parameter. JSON rendering,
  metrics, logging, transaction metadata and wall-clock times are left out of the modelled components. The
  account cache of transactions before version 8, the update of \<^verbatim>\<open>lastModifiedLedgerSeq\<close> on commit and, before
  version 14, the writes of a failed operation of a transaction that fails are not followed. The other
  optional run-time checks under \<^verbatim>\<open>invariant\<close> are not modelled. The properties of coins are stated from
  version 8 on and those of sequence numbers and signatures from version 10 on.
\<close>

end
